(* ===== verification/In_Flight_Limit.thy ===== *)
theory In_Flight_Limit
  imports Gateway_Prelude
begin

text \<open>
  The whole-gateway in-flight cap (\<open>middleware/gateway_in_flight_limit\<close>) with the response
  body wrapper that gives slots back (\<open>middleware/counted_body.rs\<close>) and its configuration
  (\<open>config/gateway_in_flight_limit.rs\<close>).

  Redis is outside the repository. Its string commands \<open>GET\<close>, \<open>INCR\<close>, \<open>DECR\<close> and
  \<open>EXPIRE\<close> are modelled by their documented meaning on a store of counters with a time to
  live; the two Lua scripts the gateway sends are translated line by line over them. Whether
  a call reaches the server is an input of the operations (\<open>up\<close>), and so is the clock
  (\<open>now\<close>, in seconds).
\<close>

subsection \<open>Configuration\<close>

datatype GatewayInFlightBackend = IflMemory | IflRedis

record GatewayInFlightLimitConfig =
  ifl_enabled :: bool
  ifl_max_concurrent :: u32
  ifl_backend :: GatewayInFlightBackend
  ifl_redis_key_prefix :: string

definition default_in_flight_config :: GatewayInFlightLimitConfig where
  "default_in_flight_config = \<lparr>ifl_enabled = False, ifl_max_concurrent = 0,
     ifl_backend = IflMemory, ifl_redis_key_prefix = ''gw:gifl:''\<rparr>"

datatype in_flight_init_error = InvalidGatewayInFlightLimitConfig string

definition validate_global_gateway_in_flight_limit ::
  "GatewayInFlightLimitConfig option \<Rightarrow> (in_flight_init_error, unit) result" where
  "validate_global_gateway_in_flight_limit g =
     (case g of None \<Rightarrow> Ok ()
      | Some c \<Rightarrow>
          if \<not> ifl_enabled c then Ok ()
          else if ifl_max_concurrent c = 0 then Err (InvalidGatewayInFlightLimitConfig
            ''global.gateway-in-flight-limit: max-concurrent must be >= 1 when enabled'')
          else Ok ())"

subsection \<open>The in-process counter\<close>

record MemoryInFlightLimiter =
  mem_max :: u32
  mem_inner :: u32

definition memory_new :: "u32 \<Rightarrow> MemoryInFlightLimiter" where
  "memory_new m = \<lparr>mem_max = m, mem_inner = 0\<rparr>"

definition memory_try_acquire ::
  "MemoryInFlightLimiter \<Rightarrow> (unit, unit) result \<times> MemoryInFlightLimiter" where
  "memory_try_acquire l =
     (if mem_max l = 0 then (Ok (), l)
      else if mem_inner l \<ge> mem_max l then (Err (), l)
      else (Ok (), l\<lparr>mem_inner := mem_inner l + 1\<rparr>))"

definition memory_release :: "MemoryInFlightLimiter \<Rightarrow> MemoryInFlightLimiter" where
  "memory_release l = l\<lparr>mem_inner := saturating_sub (mem_inner l) 1\<rparr>"

subsection \<open>Redis counters and the two scripts\<close>

type_synonym redis_db = "string \<Rightarrow> (int \<times> nat option) option"

definition redis_live :: "nat \<Rightarrow> redis_db \<Rightarrow> string \<Rightarrow> (int \<times> nat option) option" where
  "redis_live now db k =
     (case db k of None \<Rightarrow> None
      | Some (v, None) \<Rightarrow> Some (v, None)
      | Some (v, Some e) \<Rightarrow> if now < e then Some (v, Some e) else None)"

definition redis_get :: "nat \<Rightarrow> redis_db \<Rightarrow> string \<Rightarrow> int option" where
  "redis_get now db k = map_option fst (redis_live now db k)"

definition redis_add :: "int \<Rightarrow> nat \<Rightarrow> redis_db \<Rightarrow> string \<Rightarrow> int \<times> redis_db" where
  "redis_add d now db k =
     (case redis_live now db k of
        None \<Rightarrow> (d, db(k \<mapsto> (d, None)))
      | Some (v, e) \<Rightarrow> (v + d, db(k \<mapsto> (v + d, e))))"

abbreviation redis_incr :: "nat \<Rightarrow> redis_db \<Rightarrow> string \<Rightarrow> int \<times> redis_db" where
  "redis_incr \<equiv> redis_add 1"

abbreviation redis_decr :: "nat \<Rightarrow> redis_db \<Rightarrow> string \<Rightarrow> int \<times> redis_db" where
  "redis_decr \<equiv> redis_add (-1)"

definition redis_expire :: "nat \<Rightarrow> nat \<Rightarrow> redis_db \<Rightarrow> string \<Rightarrow> redis_db" where
  "redis_expire now ttl db k =
     (case redis_live now db k of None \<Rightarrow> db
      | Some (v, _) \<Rightarrow> db(k \<mapsto> (v, Some (now + ttl))))"

definition acquire_in_flight_script ::
  "nat \<Rightarrow> nat \<Rightarrow> int \<Rightarrow> redis_db \<Rightarrow> string \<Rightarrow> int \<times> redis_db" where
  "acquire_in_flight_script now ttl mx db k =
     (let (n, db1) = redis_incr now db k;
          db2 = redis_expire now ttl db1 k
      in if n > mx then (0, snd (redis_decr now db2 k)) else (1, db2))"

definition decr_floor_script ::
  "nat \<Rightarrow> nat \<Rightarrow> redis_db \<Rightarrow> string \<Rightarrow> int option \<times> redis_db" where
  "decr_floor_script now ttl db k =
     (let n = (case redis_get now db k of None \<Rightarrow> 0 | Some v \<Rightarrow> v);
          db1 = (if n > 0 then snd (redis_decr now db k) else db);
          db2 = redis_expire now ttl db1 k
      in (redis_get now db2 k, db2))"

definition ifl_ttl_secs :: nat where "ifl_ttl_secs = 3600"

subsection \<open>The body wrapper\<close>

record counted_body =
  released :: bool

definition counted_body_new :: counted_body where
  "counted_body_new = \<lparr>released = False\<rparr>"

text \<open>The boolean says whether the callback \<open>on_release\<close> ran.\<close>

definition fire_release :: "counted_body \<Rightarrow> bool \<times> counted_body" where
  "fire_release b = (if released b then (False, b) else (True, b\<lparr>released := True\<rparr>))"

datatype poll_frame_out = PollPending | PollFrame | PollFrameErr | PollEnd

definition counted_poll_frame :: "poll_frame_out \<Rightarrow> counted_body \<Rightarrow> bool \<times> counted_body" where
  "counted_poll_frame out b =
     (if out = PollEnd \<or> out = PollFrameErr then fire_release b else (False, b))"

definition counted_drop :: "counted_body \<Rightarrow> bool \<times> counted_body" where
  "counted_drop b = fire_release b"

text \<open>A body's life: some polls of the inner body, then the drop. The result counts the callbacks.\<close>

fun body_polls :: "poll_frame_out list \<Rightarrow> counted_body \<Rightarrow> nat \<times> counted_body" where
  "body_polls [] b = (0, b)"
| "body_polls (p # ps) b =
     (let (fired, b1) = counted_poll_frame p b; (n, b2) = body_polls ps b1
      in ((if fired then 1 else 0) + n, b2))"

definition body_life :: "poll_frame_out list \<Rightarrow> nat" where
  "body_life ps =
     (let (n, b) = body_polls ps counted_body_new; (fired, _) = counted_drop b
      in n + (if fired then 1 else 0))"

subsection \<open>The layer\<close>

datatype HeldSlot = SlotMemory | SlotRedis

record in_flight_state =
  st_cfg :: GatewayInFlightLimitConfig
  st_redis_counter_key :: string
  st_memory :: MemoryInFlightLimiter
  st_redis :: bool
  st_use_redis :: bool
  st_rejected :: nat
  st_allowed :: nat
  st_degraded :: nat

text \<open>
  \<open>GatewayInFlightLimitLayer::new\<close>: \<open>has_redis\<close> says whether the application has a Redis
  client and \<open>ping_ok\<close> whether the start-up ping succeeded.
\<close>

definition in_flight_layer_new ::
  "GatewayInFlightLimitConfig option \<Rightarrow> bool \<Rightarrow> bool \<Rightarrow> in_flight_state" where
  "in_flight_layer_new g has_redis ping_ok =
     (let cfg = (case g of None \<Rightarrow> default_in_flight_config | Some c \<Rightarrow> c)
      in \<lparr>st_cfg = cfg,
          st_redis_counter_key = ifl_redis_key_prefix cfg @ ''inflight'',
          st_memory = memory_new (max (ifl_max_concurrent cfg) 1),
          st_redis = has_redis,
          st_use_redis =
            (ifl_enabled cfg \<and> ifl_backend cfg = IflRedis \<and> has_redis \<and> ping_ok),
          st_rejected = 0, st_allowed = 0, st_degraded = 0\<rparr>)"

text \<open>One tick of the background task that restores \<open>use_redis\<close>.\<close>

definition in_flight_recover_tick :: "bool \<Rightarrow> in_flight_state \<Rightarrow> in_flight_state" where
  "in_flight_recover_tick ping_ok s =
     (if \<not> st_redis s \<or> st_use_redis s then s
      else if ping_ok then s\<lparr>st_use_redis := True\<rparr> else s)"

definition in_flight_memory_acquire ::
  "in_flight_state \<Rightarrow> (unit, HeldSlot) result \<times> in_flight_state" where
  "in_flight_memory_acquire s =
     (let (r, m) = memory_try_acquire (st_memory s)
      in (map_sum id (\<lambda>_. SlotMemory) r, s\<lparr>st_memory := m\<rparr>))"

definition in_flight_try_acquire ::
  "nat \<Rightarrow> bool \<Rightarrow> in_flight_state \<Rightarrow> redis_db
     \<Rightarrow> (unit, HeldSlot) result \<times> in_flight_state \<times> redis_db" where
  "in_flight_try_acquire now up s db =
     (let mx = uint (max (ifl_max_concurrent (st_cfg s)) 1)
      in if st_use_redis s \<and> st_redis s then
           (if up then
              (let (v, db') =
                 acquire_in_flight_script now ifl_ttl_secs mx db (st_redis_counter_key s)
               in if v = 1 then (Ok SlotRedis, s, db') else (Err (), s, db'))
            else
              (let (r, s') = in_flight_memory_acquire
                 (s\<lparr>st_degraded := st_degraded s + 1, st_use_redis := False\<rparr>)
               in (r, s', db)))
         else (let (r, s') = in_flight_memory_acquire s in (r, s', db)))"

record TooManyRequestsError =
  ratelimit_limit :: u64
  ratelimit_remaining :: u64
  retry_after :: u64

definition in_flight_too_many :: "u32 \<Rightarrow> TooManyRequestsError" where
  "in_flight_too_many m = \<lparr>ratelimit_limit = ucast m, ratelimit_remaining = 0, retry_after = 1\<rparr>"

text \<open>
  The part of \<open>Service::call\<close> up to the inner service. \<open>PassThrough\<close> runs the inner service
  with no slot, \<open>Admitted\<close> with a slot, \<open>Rejected\<close> answers 429.
\<close>

datatype in_flight_call = PassThrough | Rejected TooManyRequestsError | Admitted HeldSlot

definition in_flight_call_begin ::
  "nat \<Rightarrow> bool \<Rightarrow> in_flight_state \<Rightarrow> redis_db \<Rightarrow> in_flight_call \<times> in_flight_state \<times> redis_db" where
  "in_flight_call_begin now up s db =
     (if \<not> ifl_enabled (st_cfg s) then (PassThrough, s, db)
      else (case in_flight_try_acquire now up s db of
              (Inl _, s', db') \<Rightarrow>
                (Rejected (in_flight_too_many (max (ifl_max_concurrent (st_cfg s)) 1)),
                 s'\<lparr>st_rejected := st_rejected s' + 1\<rparr>, db')
            | (Inr slot, s', db') \<Rightarrow>
                (Admitted slot, s'\<lparr>st_allowed := st_allowed s' + 1\<rparr>, db')))"

text \<open>
  The callback \<open>on_release\<close> of an admitted request. A memory slot is given back at once;
  for a Redis slot a task is spawned, counted in the last component.
\<close>

definition in_flight_on_release :: "HeldSlot \<Rightarrow> in_flight_state \<Rightarrow> in_flight_state \<times> nat" where
  "in_flight_on_release slot s =
     (case slot of
        SlotMemory \<Rightarrow> (s\<lparr>st_memory := memory_release (st_memory s)\<rparr>, 0)
      | SlotRedis \<Rightarrow> (s, if st_redis s then 1 else 0))"

text \<open>The spawned task: a failed script is logged and the slot stays counted.\<close>

definition in_flight_release_task ::
  "nat \<Rightarrow> bool \<Rightarrow> in_flight_state \<Rightarrow> redis_db \<Rightarrow> redis_db" where
  "in_flight_release_task now up s db =
     (if up then snd (decr_floor_script now ifl_ttl_secs db (st_redis_counter_key s)) else db)"


subsection \<open>Laws of the counters\<close>

lemma memory_try_acquire_cases:
  assumes "mem_max l \<noteq> 0" and "mem_inner l \<le> mem_max l"
  shows "is_ok (fst (memory_try_acquire l)) \<longleftrightarrow> unat (mem_inner l) < unat (mem_max l)"
    and "unat (mem_inner (snd (memory_try_acquire l))) =
           unat (mem_inner l) + (if is_ok (fst (memory_try_acquire l)) then 1 else 0)"
    and "mem_max (snd (memory_try_acquire l)) = mem_max l"
    and "mem_inner (snd (memory_try_acquire l)) \<le> mem_max l"
proof -
  consider "mem_inner l = mem_max l" | "mem_inner l < mem_max l"
    using assms(2) by (auto simp: order.order_iff_strict)
  note cases = this
  have less: "mem_inner l < mem_max l \<Longrightarrow> unat (mem_inner l) < unat (mem_max l)"
    by (simp add: word_less_nat_alt)
  show "is_ok (fst (memory_try_acquire l)) \<longleftrightarrow> unat (mem_inner l) < unat (mem_max l)"
    using cases assms(1) less by (cases) (auto simp: memory_try_acquire_def)
  show "unat (mem_inner (snd (memory_try_acquire l))) =
           unat (mem_inner l) + (if is_ok (fst (memory_try_acquire l)) then 1 else 0)"
    using cases assms(1) by (cases) (auto simp: memory_try_acquire_def unat_inc_if_less)
  show "mem_max (snd (memory_try_acquire l)) = mem_max l"
    by (simp add: memory_try_acquire_def)
  show "mem_inner (snd (memory_try_acquire l)) \<le> mem_max l"
    using cases assms(1) by (cases) (auto simp: memory_try_acquire_def inc_le_if_less)
qed

lemma unat_memory_release: "unat (mem_inner (memory_release l)) = unat (mem_inner l) - 1"
  by (simp add: memory_release_def unat_saturating_sub)

lemma mem_max_release [simp]: "mem_max (memory_release l) = mem_max l"
  by (simp add: memory_release_def)

lemma mem_release_le: "mem_inner l \<le> mem_max l \<Longrightarrow> mem_inner (memory_release l) \<le> mem_max l"
  by (simp add: word_le_nat_alt unat_memory_release)

lemma redis_live_upd_None: "redis_live now (db(k \<mapsto> (v, None))) k = Some (v, None)"
  by (simp add: redis_live_def)

lemma redis_live_upd_Some:
  "redis_live now (db(k \<mapsto> (v, Some e))) k = (if now < e then Some (v, Some e) else None)"
  by (simp add: redis_live_def)

lemma redis_live_future: "redis_live now db k = Some (v, Some e) \<Longrightarrow> now < e"
  by (auto simp: redis_live_def split: option.splits if_splits)

lemma redis_live_keep:
  "redis_live now db k = Some (v, e) \<Longrightarrow> redis_live now (db(k \<mapsto> (w, e))) k = Some (w, e)"
  by (auto simp: redis_live_def split: option.splits if_splits)

lemmas redis_script_simps =
  redis_add_def redis_expire_def redis_get_def redis_live_upd_None redis_live_upd_Some redis_live_keep Let_def

text \<open>The number of slots a Redis counter says are taken.\<close>

definition redis_count :: "nat \<Rightarrow> string \<Rightarrow> redis_db \<Rightarrow> int" where
  "redis_count now k db = (case redis_get now db k of None \<Rightarrow> 0 | Some v \<Rightarrow> v)"

lemma acquire_script_count:
  assumes "0 < ttl"
  shows "fst (acquire_in_flight_script now ttl mx db k) =
           (if redis_count now k db < mx then 1 else 0)"
    and "redis_count now k (snd (acquire_in_flight_script now ttl mx db k)) =
           redis_count now k db + (if redis_count now k db < mx then 1 else 0)"
  using assms
  by (auto simp: acquire_in_flight_script_def redis_script_simps redis_count_def
      split: option.splits dest: redis_live_future)

lemma decr_floor_count:
  assumes "0 < ttl"
  shows "redis_count now k (snd (decr_floor_script now ttl db k)) =
           (if redis_count now k db > 0 then redis_count now k db - 1 else redis_count now k db)"
  using assms
  by (auto simp: decr_floor_script_def redis_script_simps redis_count_def
      split: option.splits if_splits dest: redis_live_future)

subsection \<open>What a slot counter promises\<close>

text \<open>
  Both backends implement the same contract: a counter of held slots that never passes its
  capacity, that refuses exactly when it is full, and that a release brings down by one.
\<close>

datatype slot_op = Acquire | Release

fun slot_releases :: "slot_op list \<Rightarrow> nat" where
  "slot_releases [] = 0"
| "slot_releases (Acquire # ops) = slot_releases ops"
| "slot_releases (Release # ops) = Suc (slot_releases ops)"

locale slot_counter =
  fixes acquire :: "'s \<Rightarrow> bool \<times> 's"
    and release :: "'s \<Rightarrow> 's"
    and held :: "'s \<Rightarrow> nat"
    and cap :: nat
    and invar :: "'s \<Rightarrow> bool"
  assumes acquire_iff: "invar s \<Longrightarrow> fst (acquire s) \<longleftrightarrow> held s < cap"
    and held_acquire: "invar s \<Longrightarrow> held (snd (acquire s)) = held s + (if fst (acquire s) then 1 else 0)"
    and held_release: "invar s \<Longrightarrow> held (release s) = held s - 1"
    and invar_acquire: "invar s \<Longrightarrow> invar (snd (acquire s))"
    and invar_release: "invar s \<Longrightarrow> invar (release s)"
begin

text \<open>The account of a release: it takes one slot away unless there is none.\<close>

lemma release_account: "invar s \<Longrightarrow> held s = held (release s) + (if 0 < held s then 1 else 0)"
  using held_release [of s] by simp

end

definition memory_acquire_op :: "MemoryInFlightLimiter \<Rightarrow> bool \<times> MemoryInFlightLimiter" where
  "memory_acquire_op l = (is_ok (fst (memory_try_acquire l)), snd (memory_try_acquire l))"

definition memory_ok :: "u32 \<Rightarrow> MemoryInFlightLimiter \<Rightarrow> bool" where
  "memory_ok m l \<longleftrightarrow> m \<noteq> 0 \<and> mem_max l = m \<and> mem_inner l \<le> m"

interpretation mem_slots: slot_counter memory_acquire_op memory_release
  "\<lambda>l. unat (mem_inner l)" "unat m" "memory_ok m" for m
proof (unfold_locales, goal_cases)
  case (1 s)
  then show ?case using memory_try_acquire_cases(1) [of s]
    by (simp add: memory_acquire_op_def memory_ok_def)
next
  case (2 s)
  then show ?case using memory_try_acquire_cases(2) [of s]
    by (simp add: memory_acquire_op_def memory_ok_def)
next
  case (3 s)
  then show ?case by (simp add: unat_memory_release)
next
  case (4 s)
  then show ?case using memory_try_acquire_cases(3,4) [of s]
    by (simp add: memory_acquire_op_def memory_ok_def)
next
  case (5 s)
  then show ?case using mem_release_le [of s] by (simp add: memory_ok_def)
qed

definition redis_acquire_op :: "nat \<Rightarrow> int \<Rightarrow> string \<Rightarrow> redis_db \<Rightarrow> bool \<times> redis_db" where
  "redis_acquire_op now mx k db =
     (let (v, db') = acquire_in_flight_script now ifl_ttl_secs mx db k in (v = 1, db'))"

definition redis_release_op :: "nat \<Rightarrow> string \<Rightarrow> redis_db \<Rightarrow> redis_db" where
  "redis_release_op now k db = snd (decr_floor_script now ifl_ttl_secs db k)"

lemma ifl_ttl_pos [simp]: "0 < ifl_ttl_secs"
  by (simp add: ifl_ttl_secs_def)

interpretation redis_slots: slot_counter "redis_acquire_op now (int m) k" "redis_release_op now k"
  "\<lambda>db. nat (redis_count now k db)" m "\<lambda>db. 0 \<le> redis_count now k db" for now m k
proof (unfold_locales, goal_cases)
  case (1 s)
  then show ?case using acquire_script_count(1) [OF ifl_ttl_pos, where now = now and mx = "int m" and db = s and k = k]
    by (auto simp: redis_acquire_op_def nat_less_iff split: prod.splits if_splits)
next
  case (2 s)
  then show ?case using acquire_script_count [OF ifl_ttl_pos, where now = now and mx = "int m" and db = s and k = k]
    by (auto simp: redis_acquire_op_def split: prod.splits)
next
  case (3 s)
  then show ?case using decr_floor_count [OF ifl_ttl_pos, where now = now and db = s and k = k]
    by (auto simp: redis_release_op_def)
next
  case (4 s)
  then show ?case using acquire_script_count(2) [OF ifl_ttl_pos, where now = now and mx = "int m" and db = s and k = k]
    by (auto simp: redis_acquire_op_def split: prod.splits)
next
  case (5 s)
  then show ?case using decr_floor_count [OF ifl_ttl_pos, where now = now and db = s and k = k]
    by (auto simp: redis_release_op_def)
qed


subsection \<open>Requests through the layer\<close>

text \<open>
  The system: the layer, the Redis store, the spawned release tasks that have not run, and
  for each request what it holds. A request is in the inner service (\<open>InInner\<close>), or its
  response body is with the server (\<open>InBody\<close>). Dropping the handler's future while the
  inner service runs (the client went away) is a step of its own: the slot is held by a
  local variable of that future and no drop of it gives it back.
\<close>

datatype req_phase = InInner HeldSlot | InBody HeldSlot counted_body

record in_flight_sys =
  sys_layer :: in_flight_state
  sys_db :: redis_db
  sys_tasks :: nat
  sys_reqs :: "(nat \<times> req_phase) list"
  sys_lost :: nat

definition sys_fire :: "HeldSlot \<Rightarrow> bool \<Rightarrow> in_flight_sys \<Rightarrow> in_flight_sys" where
  "sys_fire slot fired y =
     (if fired then
        (let (l, n) = in_flight_on_release slot (sys_layer y)
         in y\<lparr>sys_layer := l, sys_tasks := sys_tasks y + n\<rparr>)
      else y)"

inductive in_flight_step :: "in_flight_sys \<Rightarrow> in_flight_sys \<Rightarrow> bool" where
  admit: "i \<notin> fst ` set (sys_reqs y) \<Longrightarrow>
     in_flight_call_begin now up (sys_layer y) (sys_db y) = (Admitted slot, l, db) \<Longrightarrow>
     in_flight_step y (y\<lparr>sys_layer := l, sys_db := db,
       sys_reqs := (i, InInner slot) # sys_reqs y\<rparr>)"
| reject: "in_flight_call_begin now up (sys_layer y) (sys_db y) = (Rejected e, l, db) \<Longrightarrow>
     in_flight_step y (y\<lparr>sys_layer := l, sys_db := db\<rparr>)"
| pass: "in_flight_call_begin now up (sys_layer y) (sys_db y) = (PassThrough, l, db) \<Longrightarrow>
     in_flight_step y (y\<lparr>sys_layer := l, sys_db := db\<rparr>)"
| respond: "sys_reqs y = as @ (i, InInner slot) # bs \<Longrightarrow>
     in_flight_step y (y\<lparr>sys_reqs := as @ (i, InBody slot counted_body_new) # bs\<rparr>)"
| poll: "sys_reqs y = as @ (i, InBody slot b) # bs \<Longrightarrow> counted_poll_frame out b = (fired, b') \<Longrightarrow>
     in_flight_step y (sys_fire slot fired (y\<lparr>sys_reqs := as @ (i, InBody slot b') # bs\<rparr>))"
| drop_body: "sys_reqs y = as @ (i, InBody slot b) # bs \<Longrightarrow> counted_drop b = (fired, b') \<Longrightarrow>
     in_flight_step y (sys_fire slot fired (y\<lparr>sys_reqs := as @ bs\<rparr>))"
| cancel: "sys_reqs y = as @ (i, InInner slot) # bs \<Longrightarrow>
     in_flight_step y (y\<lparr>sys_reqs := as @ bs,
       sys_lost := sys_lost y + (if slot = SlotMemory then 1 else 0)\<rparr>)"
| run_task: "sys_tasks y = Suc n \<Longrightarrow>
     in_flight_step y (y\<lparr>sys_tasks := n,
       sys_db := in_flight_release_task now up (sys_layer y) (sys_db y)\<rparr>)"
| tick: "in_flight_step y (y\<lparr>sys_layer := in_flight_recover_tick ping_ok (sys_layer y)\<rparr>)"

inductive in_flight_reachable :: "in_flight_sys \<Rightarrow> bool" where
  start: "in_flight_reachable \<lparr>sys_layer = in_flight_layer_new g has_redis ping_ok,
     sys_db = Map.empty, sys_tasks = 0, sys_reqs = [], sys_lost = 0\<rparr>"
| step: "in_flight_reachable y \<Longrightarrow> in_flight_step y y' \<Longrightarrow> in_flight_reachable y'"

text \<open>The memory slots the requests of the system still hold.\<close>

fun holds_memory :: "req_phase \<Rightarrow> bool" where
  "holds_memory (InInner slot) \<longleftrightarrow> slot = SlotMemory"
| "holds_memory (InBody slot b) \<longleftrightarrow> slot = SlotMemory \<and> \<not> released b"

definition memory_held :: "in_flight_sys \<Rightarrow> nat" where
  "memory_held y = length (filter (\<lambda>p. holds_memory (snd p)) (sys_reqs y))"

definition in_flight_inv :: "in_flight_sys \<Rightarrow> bool" where
  "in_flight_inv y \<longleftrightarrow>
     mem_max (st_memory (sys_layer y)) = max (ifl_max_concurrent (st_cfg (sys_layer y))) 1
     \<and> mem_inner (st_memory (sys_layer y)) \<le> mem_max (st_memory (sys_layer y))
     \<and> unat (mem_inner (st_memory (sys_layer y))) = memory_held y + sys_lost y"

lemma mem_max_pos: "max (m :: u32) 1 \<noteq> 0"
  by (auto simp: max_def)

lemma memory_acquire_inv:
  assumes "mem_max m = max c 1" "mem_inner m \<le> mem_max m"
    and "memory_try_acquire m = (r, m')"
  shows "mem_max m' = max c 1 \<and> mem_inner m' \<le> mem_max m'
     \<and> unat (mem_inner m') = unat (mem_inner m) + (if is_ok r then 1 else 0)"
proof -
  have ok: "memory_ok (max c 1) m" using assms(1,2) mem_max_pos by (simp add: memory_ok_def)
  from mem_slots.held_acquire [OF ok] mem_slots.invar_acquire [OF ok] assms(1,3) show ?thesis
    by (simp add: memory_acquire_op_def memory_ok_def)
qed

lemma in_flight_memory_acquire_inv:
  assumes "mem_max (st_memory s) = max (ifl_max_concurrent (st_cfg s)) 1"
    and "mem_inner (st_memory s) \<le> mem_max (st_memory s)"
    and "in_flight_memory_acquire s = (r, s')"
  shows "st_cfg s' = st_cfg s
     \<and> mem_max (st_memory s') = max (ifl_max_concurrent (st_cfg s')) 1
     \<and> mem_inner (st_memory s') \<le> mem_max (st_memory s')
     \<and> unat (mem_inner (st_memory s')) =
         unat (mem_inner (st_memory s)) + (if is_ok r then 1 else 0)
     \<and> (is_ok r \<longrightarrow> r = Inr SlotMemory)"
proof -
  obtain q m' where q: "memory_try_acquire (st_memory s) = (q, m')" by fastforce
  with assms(3) have s': "s' = s\<lparr>st_memory := m'\<rparr>" and r: "r = map_sum id (\<lambda>_. SlotMemory) q"
    by (auto simp: in_flight_memory_acquire_def)
  from memory_acquire_inv [OF assms(1,2) q] s' r show ?thesis by (cases q) auto
qed

text \<open>What one admission attempt does to the memory counter.\<close>

lemma in_flight_try_acquire_inv:
  assumes "mem_max (st_memory s) = max (ifl_max_concurrent (st_cfg s)) 1"
    and "mem_inner (st_memory s) \<le> mem_max (st_memory s)"
    and "in_flight_try_acquire now up s db = (r, s', db')"
  shows "st_cfg s' = st_cfg s
     \<and> mem_max (st_memory s') = max (ifl_max_concurrent (st_cfg s')) 1
     \<and> mem_inner (st_memory s') \<le> mem_max (st_memory s')
     \<and> unat (mem_inner (st_memory s')) =
         unat (mem_inner (st_memory s)) + (if r = Inr SlotMemory then 1 else 0)"
proof (cases "st_use_redis s \<and> st_redis s \<and> up")
  case True
  with assms show ?thesis
    by (auto simp: in_flight_try_acquire_def Let_def split: prod.splits if_splits)
next
  case False
  define s0 where "s0 = (if st_use_redis s \<and> st_redis s
     then s\<lparr>st_degraded := st_degraded s + 1, st_use_redis := False\<rparr> else s)"
  have s0: "st_memory s0 = st_memory s" "st_cfg s0 = st_cfg s" by (auto simp: s0_def)
  from False assms(3) have "in_flight_memory_acquire s0 = (r, s')"
    by (auto simp: in_flight_try_acquire_def Let_def s0_def split: prod.splits if_splits)
  from in_flight_memory_acquire_inv [OF _ _ this] assms(1,2) s0 show ?thesis by fastforce
qed


lemma in_flight_call_begin_inv:
  assumes "mem_max (st_memory s) = max (ifl_max_concurrent (st_cfg s)) 1"
    and "mem_inner (st_memory s) \<le> mem_max (st_memory s)"
    and "in_flight_call_begin now up s db = (c, s', db')"
  shows "mem_max (st_memory s') = max (ifl_max_concurrent (st_cfg s')) 1
     \<and> mem_inner (st_memory s') \<le> mem_max (st_memory s')
     \<and> unat (mem_inner (st_memory s')) =
         unat (mem_inner (st_memory s)) + (if c = Admitted SlotMemory then 1 else 0)"
proof (cases "ifl_enabled (st_cfg s)")
  case False
  with assms show ?thesis by (auto simp: in_flight_call_begin_def)
next
  case True
  obtain r s1 db1 where t: "in_flight_try_acquire now up s db = (r, s1, db1)"
    by (metis prod_cases3)
  from in_flight_try_acquire_inv [OF assms(1,2) t] assms(3) True t show ?thesis
    by (cases r) (auto simp: in_flight_call_begin_def)
qed

text \<open>Firing the callback of a body that still holds a memory slot gives exactly one slot back.\<close>

lemma fire_release_simps [simp]:
  "released b \<Longrightarrow> fire_release b = (False, b)"
  "\<not> released b \<Longrightarrow> fire_release b = (True, b\<lparr>released := True\<rparr>)"
  by (simp_all add: fire_release_def)

lemma in_flight_inv_release:
  assumes inv: "in_flight_inv y" and reqs: "sys_reqs y = as @ (i, InBody slot b) # bs"
    and fr: "fire_release b = (fired, b')"
    and rest: "rs = as @ (i, InBody slot b') # bs \<or> rs = as @ bs"
  shows "in_flight_inv (sys_fire slot fired (y\<lparr>sys_reqs := rs\<rparr>))"
proof -
  have held: "memory_held y =
      memory_held (y\<lparr>sys_reqs := rs\<rparr>) + (if slot = SlotMemory \<and> \<not> released b then 1 else 0)"
    using reqs rest fr by (cases "released b") (auto simp: memory_held_def)
  have fired: "fired = (\<not> released b)" using fr by (cases "released b") auto
  show ?thesis
  proof (cases "slot = SlotMemory \<and> \<not> released b")
    case True
    then have "unat (mem_inner (memory_release (st_memory (sys_layer y)))) =
        memory_held (y\<lparr>sys_reqs := rs\<rparr>) + sys_lost y"
      using held inv by (simp add: unat_memory_release in_flight_inv_def)
    moreover have "mem_inner (memory_release (st_memory (sys_layer y)))
        \<le> mem_max (st_memory (sys_layer y))"
      using inv mem_release_le unfolding in_flight_inv_def by blast
    ultimately show ?thesis using True inv fired
      unfolding in_flight_inv_def
      by (simp add: sys_fire_def in_flight_on_release_def memory_held_def)
  next
    case False
    then show ?thesis using held inv fired
      by (cases slot)
        (auto simp: in_flight_inv_def sys_fire_def in_flight_on_release_def memory_held_def)
  qed
qed

lemma in_flight_step_inv [gw_inv]:
  assumes "in_flight_step y y'" and "in_flight_inv y"
  shows "in_flight_inv y'"
  using assms
proof (induction rule: in_flight_step.induct)
  case (admit i y now up slot l db)
  from in_flight_call_begin_inv [OF _ _ admit.hyps(2)] admit.prems show ?case
    by (auto simp: in_flight_inv_def memory_held_def)
next
  case (reject now up y e l db)
  from in_flight_call_begin_inv [OF _ _ reject.hyps] reject.prems show ?case
    by (auto simp: in_flight_inv_def memory_held_def)
next
  case (pass now up y l db)
  from in_flight_call_begin_inv [OF _ _ pass.hyps] pass.prems show ?case
    by (auto simp: in_flight_inv_def memory_held_def)
next
  case (poll y as i slot b bs out fired b')
  show ?case
  proof (cases "out = PollEnd \<or> out = PollFrameErr")
    case True
    with poll.hyps(2) have "fire_release b = (fired, b')" by (simp add: counted_poll_frame_def)
    from in_flight_inv_release [OF poll.prems poll.hyps(1) this] show ?thesis by simp
  next
    case False
    with poll.hyps have "\<not> fired" and "b' = b" by (auto simp: counted_poll_frame_def)
    with poll.prems poll.hyps(1) show ?thesis
      by (auto simp: sys_fire_def in_flight_inv_def memory_held_def)
  qed
next
  case (drop_body y as i slot b bs fired b')
  then have "fire_release b = (fired, b')" by (simp add: counted_drop_def)
  from in_flight_inv_release [OF drop_body.prems drop_body.hyps(1) this] show ?case by simp
next
  case (tick y ping_ok)
  then show ?case by (auto simp: in_flight_inv_def memory_held_def in_flight_recover_tick_def)
qed (auto simp: in_flight_inv_def memory_held_def counted_body_new_def)

lemma in_flight_reachable_inv: "in_flight_reachable y \<Longrightarrow> in_flight_inv y"
proof (induction rule: in_flight_reachable.induct)
  case (start g has_redis ping_ok)
  show ?case
    by (simp add: in_flight_inv_def in_flight_layer_new_def memory_new_def memory_held_def Let_def)
next
  case (step y y')
  then show ?case by (blast intro: in_flight_step_inv)
qed

subsection \<open>Properties\<close>

text \<open>
  C1. In every reachable state of the gateway the in-process counter never passes the
  configured cap, and it counts exactly the requests that hold a memory slot plus the slots
  lost to handlers that were dropped while the inner service ran.
\<close>

theorem in_flight_memory_exact:
  assumes "in_flight_reachable y"
  shows "unat (mem_inner (st_memory (sys_layer y))) = memory_held y + sys_lost y
    \<and> mem_inner (st_memory (sys_layer y)) \<le> max (ifl_max_concurrent (st_cfg (sys_layer y))) 1"
  using in_flight_reachable_inv [OF assms] unfolding in_flight_inv_def by metis

theorem in_flight_memory_exact_witness:
  "in_flight_reachable \<lparr>sys_layer = in_flight_layer_new None False False,
     sys_db = Map.empty, sys_tasks = 0, sys_reqs = [], sys_lost = 0\<rparr>
   \<and> unat (mem_inner (st_memory (in_flight_layer_new None False False))) = 0"
proof -
  have r: "in_flight_reachable \<lparr>sys_layer = in_flight_layer_new None False False,
     sys_db = Map.empty, sys_tasks = 0, sys_reqs = [], sys_lost = 0\<rparr>"
    by (rule in_flight_reachable.start)
  from in_flight_memory_exact [OF r] show ?thesis using r by (simp add: memory_held_def)
qed

text \<open>
  While the in-process backend decides, an enabled layer admits a request exactly when
  the requests holding memory slots and the lost slots together are below the cap;
  otherwise it answers 429 with the cap as the limit.
\<close>

theorem in_flight_admits_iff:
  assumes "in_flight_reachable y" and "ifl_enabled (st_cfg (sys_layer y))"
    and "\<not> st_use_redis (sys_layer y)"
  defines "mx \<equiv> max (ifl_max_concurrent (st_cfg (sys_layer y))) 1"
  shows "fst (in_flight_call_begin now up (sys_layer y) db) =
    (if memory_held y + sys_lost y < unat mx then Admitted SlotMemory
     else Rejected \<lparr>ratelimit_limit = ucast mx, ratelimit_remaining = 0, retry_after = 1\<rparr>)"
proof -
  let ?m = "st_memory (sys_layer y)"
  from in_flight_reachable_inv [OF assms(1)] have mx: "mem_max ?m = mx"
    and le: "mem_inner ?m \<le> mem_max ?m"
    and n: "unat (mem_inner ?m) = memory_held y + sys_lost y"
    unfolding in_flight_inv_def mx_def by blast+
  have ne: "mem_max ?m \<noteq> 0" unfolding mx mx_def by (rule mem_max_pos)
  obtain r m' where t: "memory_try_acquire ?m = (r, m')" by fastforce
  have "memory_ok mx ?m" using ne le mx by (simp add: memory_ok_def)
  from mem_slots.acquire_iff [OF this] t n
  have "is_ok r \<longleftrightarrow> memory_held y + sys_lost y < unat mx" by (simp add: memory_acquire_op_def)
  with t assms(2,3) show ?thesis
    by (cases r) (auto simp: in_flight_call_begin_def in_flight_try_acquire_def Let_def
        in_flight_memory_acquire_def in_flight_too_many_def mx_def split: prod.splits)
qed

definition demo_in_flight_config :: GatewayInFlightLimitConfig where
  "demo_in_flight_config = default_in_flight_config\<lparr>ifl_enabled := True, ifl_max_concurrent := 1\<rparr>"

definition demo_in_flight_start :: in_flight_sys where
  "demo_in_flight_start = \<lparr>sys_layer = in_flight_layer_new (Some demo_in_flight_config) False False,
     sys_db = Map.empty, sys_tasks = 0, sys_reqs = [], sys_lost = 0\<rparr>"

lemma demo_in_flight_start_reachable: "in_flight_reachable demo_in_flight_start"
  unfolding demo_in_flight_start_def by (rule in_flight_reachable.start)

theorem in_flight_admits_iff_witness:
  "fst (in_flight_call_begin 0 False (sys_layer demo_in_flight_start) Map.empty) = Admitted SlotMemory"
proof -
  have e: "ifl_enabled (st_cfg (sys_layer demo_in_flight_start))"
    and u: "\<not> st_use_redis (sys_layer demo_in_flight_start)"
    by (simp_all add: demo_in_flight_start_def demo_in_flight_config_def in_flight_layer_new_def
        default_in_flight_config_def)
  from in_flight_admits_iff [OF demo_in_flight_start_reachable e u, of 0 False Map.empty]
  show ?thesis
    by (simp add: demo_in_flight_start_def demo_in_flight_config_def in_flight_layer_new_def
        default_in_flight_config_def memory_held_def)
qed

subsection \<open>Dropped handlers\<close>

text \<open>
  Two lives of one call, as composed steps: the call is admitted and its handler is dropped
  while the inner service runs, or it is admitted, answered, and its response body is dropped.
\<close>

definition call_dropped :: "in_flight_sys \<Rightarrow> in_flight_sys \<Rightarrow> bool" where
  "call_dropped y y' \<longleftrightarrow> (\<exists>i now up slot l db. i \<notin> fst ` set (sys_reqs y)
     \<and> in_flight_call_begin now up (sys_layer y) (sys_db y) = (Admitted slot, l, db)
     \<and> y' = y\<lparr>sys_layer := l, sys_db := db, sys_reqs := sys_reqs y,
          sys_lost := sys_lost y + (if slot = SlotMemory then 1 else 0)\<rparr>)"

definition call_answered :: "in_flight_sys \<Rightarrow> in_flight_sys \<Rightarrow> bool" where
  "call_answered y y' \<longleftrightarrow> (\<exists>i now up slot l db fired b. i \<notin> fst ` set (sys_reqs y)
     \<and> in_flight_call_begin now up (sys_layer y) (sys_db y) = (Admitted slot, l, db)
     \<and> counted_drop counted_body_new = (fired, b)
     \<and> y' = sys_fire slot fired (y\<lparr>sys_layer := l, sys_db := db, sys_reqs := sys_reqs y\<rparr>))"

lemma call_dropped_steps:
  assumes "call_dropped y y'"
  shows "in_flight_step\<^sup>*\<^sup>* y y'"
proof -
  from assms obtain i now up slot l db where i: "i \<notin> fst ` set (sys_reqs y)"
    and c: "in_flight_call_begin now up (sys_layer y) (sys_db y) = (Admitted slot, l, db)"
    and y': "y' = y\<lparr>sys_layer := l, sys_db := db, sys_reqs := sys_reqs y,
      sys_lost := sys_lost y + (if slot = SlotMemory then 1 else 0)\<rparr>"
    unfolding call_dropped_def by blast
  note adm = in_flight_step.admit [OF i c]
  have "in_flight_step (y\<lparr>sys_layer := l, sys_db := db,
      sys_reqs := (i, InInner slot) # sys_reqs y\<rparr>) y'"
    using in_flight_step.cancel [of "y\<lparr>sys_layer := l, sys_db := db,
      sys_reqs := (i, InInner slot) # sys_reqs y\<rparr>" "[]" i slot "sys_reqs y"] y' by simp
  with adm show ?thesis by (meson converse_rtranclp_into_rtranclp rtranclp.rtrancl_refl)
qed

lemma call_answered_steps:
  assumes "call_answered y y'"
  shows "in_flight_step\<^sup>*\<^sup>* y y'"
proof -
  from assms obtain i now up slot l db fired b where i: "i \<notin> fst ` set (sys_reqs y)"
    and c: "in_flight_call_begin now up (sys_layer y) (sys_db y) = (Admitted slot, l, db)"
    and d: "counted_drop counted_body_new = (fired, b)"
    and y': "y' = sys_fire slot fired (y\<lparr>sys_layer := l, sys_db := db, sys_reqs := sys_reqs y\<rparr>)"
    unfolding call_answered_def by blast
  let ?y1 = "y\<lparr>sys_layer := l, sys_db := db, sys_reqs := (i, InInner slot) # sys_reqs y\<rparr>"
  let ?y2 = "y\<lparr>sys_layer := l, sys_db := db,
    sys_reqs := (i, InBody slot counted_body_new) # sys_reqs y\<rparr>"
  have "in_flight_step y ?y1" by (rule in_flight_step.admit [OF i c])
  moreover have "in_flight_step ?y1 ?y2"
    using in_flight_step.respond [of ?y1 "[]" i slot "sys_reqs y"] by simp
  moreover have "in_flight_step ?y2 y'"
    using in_flight_step.drop_body [of ?y2 "[]" i slot counted_body_new "sys_reqs y", OF _ d] y'
    by simp
  ultimately show ?thesis by (meson converse_rtranclp_into_rtranclp rtranclp.rtrancl_refl)
qed

lemma in_flight_reachable_steps:
  "in_flight_step\<^sup>*\<^sup>* y y' \<Longrightarrow> in_flight_reachable y \<Longrightarrow> in_flight_reachable y'"
  by (induction rule: rtranclp_induct) (auto intro: in_flight_reachable.step)

text \<open>
  What no step undoes: the configuration, the absence of a Redis client, and the lost slots.
\<close>

definition in_flight_same :: "in_flight_sys \<Rightarrow> in_flight_sys \<Rightarrow> bool" where
  "in_flight_same y y' \<longleftrightarrow> st_cfg (sys_layer y') = st_cfg (sys_layer y)
     \<and> st_redis (sys_layer y') = st_redis (sys_layer y)
     \<and> (\<not> st_redis (sys_layer y) \<longrightarrow> st_use_redis (sys_layer y') = st_use_redis (sys_layer y))
     \<and> sys_lost y \<le> sys_lost y'"

lemma in_flight_call_begin_same:
  assumes "in_flight_call_begin now up s db = (c, s', db')"
  shows "st_cfg s' = st_cfg s \<and> st_redis s' = st_redis s
    \<and> (\<not> st_redis s \<longrightarrow> st_use_redis s' = st_use_redis s)"
  using assms
  by (auto simp: in_flight_call_begin_def in_flight_try_acquire_def in_flight_memory_acquire_def
      Let_def split: if_splits prod.splits sum.splits)

lemma sys_fire_same [simp]: "in_flight_same y (sys_fire slot fired (y\<lparr>sys_reqs := rs\<rparr>))"
  by (cases slot) (auto simp: in_flight_same_def sys_fire_def in_flight_on_release_def)

lemma in_flight_step_same: "in_flight_step y y' \<Longrightarrow> in_flight_same y y'"
proof (induction rule: in_flight_step.induct)
  case (admit i y now up slot l db)
  with in_flight_call_begin_same [OF admit(2)] show ?case by (simp add: in_flight_same_def)
next
  case (reject now up y e l db)
  with in_flight_call_begin_same [OF reject] show ?case by (simp add: in_flight_same_def)
next
  case (pass now up y l db)
  with in_flight_call_begin_same [OF pass] show ?case by (simp add: in_flight_same_def)
next
  case (tick y ping_ok)
  show ?case by (simp add: in_flight_same_def in_flight_recover_tick_def)
qed (auto simp: in_flight_same_def sys_fire_same [unfolded in_flight_same_def])

lemma in_flight_steps_same: "in_flight_step\<^sup>*\<^sup>* y y' \<Longrightarrow> in_flight_same y y'"
proof (induction rule: rtranclp_induct)
  case base
  show ?case by (simp add: in_flight_same_def)
next
  case (step y1 y2)
  with in_flight_step_same [of y1 y2] show ?case by (auto simp: in_flight_same_def)
qed

text \<open>An enabled layer without Redis: one more call, dropped or answered.\<close>

definition memory_only :: "in_flight_sys \<Rightarrow> bool" where
  "memory_only y \<longleftrightarrow> in_flight_reachable y \<and> ifl_enabled (st_cfg (sys_layer y))
     \<and> \<not> st_redis (sys_layer y) \<and> \<not> st_use_redis (sys_layer y)"

abbreviation sys_cap :: "in_flight_sys \<Rightarrow> u32" where
  "sys_cap y \<equiv> max (ifl_max_concurrent (st_cfg (sys_layer y))) 1"

lemma memory_only_steps: "in_flight_step\<^sup>*\<^sup>* y y' \<Longrightarrow> memory_only y \<Longrightarrow> memory_only y'"
  using in_flight_steps_same [of y y'] in_flight_reachable_steps [of y y']
  by (auto simp: memory_only_def in_flight_same_def)

lemma memory_only_bound: "memory_only y \<Longrightarrow> memory_held y + sys_lost y \<le> unat (sys_cap y)"
  using in_flight_reachable_inv [of y]
  by (metis in_flight_inv_def memory_only_def word_le_nat_alt)

lemma memory_only_call:
  assumes "memory_only y"
  shows "fst (in_flight_call_begin now up (sys_layer y) db) =
    (if memory_held y + sys_lost y < unat (sys_cap y) then Admitted SlotMemory
     else Rejected (in_flight_too_many (sys_cap y)))"
  using in_flight_admits_iff [of y now up db] assms
  by (simp add: memory_only_def in_flight_too_many_def)

lemma call_dropped_lost:
  assumes "call_dropped y y'" and "memory_only y"
  shows "sys_lost y' = Suc (sys_lost y)" and "sys_reqs y' = sys_reqs y \<and> sys_tasks y' = sys_tasks y"
proof -
  from assms(1) obtain now up slot l db
    where c: "in_flight_call_begin now up (sys_layer y) (sys_db y) = (Admitted slot, l, db)"
      and y': "sys_lost y' = sys_lost y + (if slot = SlotMemory then 1 else 0)"
      and r: "sys_reqs y' = sys_reqs y \<and> sys_tasks y' = sys_tasks y"
    unfolding call_dropped_def by auto
  from memory_only_call [OF assms(2), of now up "sys_db y"] c have "slot = SlotMemory"
    by (auto split: if_splits)
  with y' show "sys_lost y' = Suc (sys_lost y)" by simp
  show "sys_reqs y' = sys_reqs y \<and> sys_tasks y' = sys_tasks y" by (rule r)
qed

lemma fresh_request_id: "\<exists>i :: nat. i \<notin> fst ` set xs"
  by (rule ex_new_if_finite) auto

lemma call_dropped_possible:
  assumes "memory_only y" and "memory_held y + sys_lost y < unat (sys_cap y)"
  shows "\<exists>y'. call_dropped y y'"
proof -
  obtain i where i: "i \<notin> fst ` set (sys_reqs y)" using fresh_request_id by blast
  obtain l db where "in_flight_call_begin 0 False (sys_layer y) (sys_db y) =
      (Admitted SlotMemory, l, db)"
    using memory_only_call [OF assms(1), of 0 False "sys_db y"] assms(2)
    by (cases "in_flight_call_begin 0 False (sys_layer y) (sys_db y)") auto
  with i show ?thesis unfolding call_dropped_def by blast
qed

lemma call_answered_possible:
  assumes "memory_only y" and "memory_held y + sys_lost y < unat (sys_cap y)"
  shows "\<exists>y'. call_answered y y' \<and> sys_reqs y' = sys_reqs y \<and> sys_lost y' = sys_lost y"
proof -
  obtain i where i: "i \<notin> fst ` set (sys_reqs y)" using fresh_request_id by blast
  obtain l db where c: "in_flight_call_begin 0 False (sys_layer y) (sys_db y) =
      (Admitted SlotMemory, l, db)"
    using memory_only_call [OF assms(1), of 0 False "sys_db y"] assms(2)
    by (cases "in_flight_call_begin 0 False (sys_layer y) (sys_db y)") auto
  have d: "counted_drop counted_body_new = (True, counted_body_new\<lparr>released := True\<rparr>)"
    by (simp add: counted_drop_def counted_body_new_def)
  let ?y' = "sys_fire SlotMemory True (y\<lparr>sys_layer := l, sys_db := db, sys_reqs := sys_reqs y\<rparr>)"
  have "call_answered y ?y'" unfolding call_answered_def using i c d by blast
  moreover have "sys_reqs ?y' = sys_reqs y \<and> sys_lost ?y' = sys_lost y"
    by (simp add: sys_fire_def in_flight_on_release_def)
  ultimately show ?thesis by blast
qed

text \<open>Any number of such calls in a row, from a gateway that just started.\<close>

lemma relpowp_steps:
  assumes "\<And>y y'. r y y' \<Longrightarrow> in_flight_step\<^sup>*\<^sup>* y y'" and "(r ^^ n) y y'"
  shows "in_flight_step\<^sup>*\<^sup>* y y'"
  using assms(2)
proof (induction n arbitrary: y')
  case (Suc n)
  then obtain z where z: "(r ^^ n) y z" "r z y'" by auto
  from Suc.IH [OF z(1)] assms(1) [OF z(2)] show ?case by (rule rtranclp_trans)
qed simp

lemma calls_dropped_lost:
  assumes "(call_dropped ^^ n) y y'" and "memory_only y"
  shows "sys_lost y' = sys_lost y + n \<and> sys_reqs y' = sys_reqs y \<and> sys_tasks y' = sys_tasks y
    \<and> memory_only y'"
  using assms
proof (induction n arbitrary: y')
  case (Suc n)
  then obtain z where z: "(call_dropped ^^ n) y z" "call_dropped z y'" by auto
  from Suc.IH [OF z(1) Suc.prems(2)]
  have lz: "sys_lost z = sys_lost y + n" "sys_reqs z = sys_reqs y" "sys_tasks z = sys_tasks y"
    and mz: "memory_only z" by auto
  from call_dropped_lost [OF z(2) mz] lz
    memory_only_steps [OF call_dropped_steps [OF z(2)] mz] show ?case by simp
qed simp

lemma memory_only_cap: "in_flight_step\<^sup>*\<^sup>* y y' \<Longrightarrow> sys_cap y' = sys_cap y"
  using in_flight_steps_same [of y y'] by (simp add: in_flight_same_def)

text \<open>What holds ever after \<open>n\<close> dropped calls.\<close>

lemma calls_dropped_later:
  assumes "(call_dropped ^^ n) y0 y" and "in_flight_step\<^sup>*\<^sup>* y y'" and "memory_only y0"
  shows "memory_only y' \<and> sys_cap y' = sys_cap y0 \<and> sys_lost y0 + n \<le> sys_lost y'
    \<and> sys_reqs y = sys_reqs y0 \<and> sys_tasks y = sys_tasks y0"
proof -
  note l = calls_dropped_lost [OF assms(1,3)]
  have "sys_cap y = sys_cap y0" by (rule memory_only_cap [OF relpowp_steps [OF call_dropped_steps assms(1)]])
  with l memory_only_steps [OF assms(2)] memory_only_cap [OF assms(2)]
    in_flight_steps_same [OF assms(2)] show ?thesis by (simp add: in_flight_same_def)
qed

lemma calls_dropped_possible:
  assumes "memory_only y" and "memory_held y + sys_lost y + n \<le> unat (sys_cap y)"
  shows "\<exists>y'. (call_dropped ^^ n) y y'"
  using assms(2)
proof (induction n)
  case (Suc n)
  then obtain z where z: "(call_dropped ^^ n) y z" by auto
  from calls_dropped_lost [OF z assms(1)]
  have lz: "sys_lost z = sys_lost y + n" "sys_reqs z = sys_reqs y" and mz: "memory_only z" by auto
  have "sys_cap z = sys_cap y" by (rule memory_only_cap [OF relpowp_steps [OF call_dropped_steps z]])
  then have "memory_held z + sys_lost z < unat (sys_cap z)"
    using lz Suc.prems by (simp add: memory_held_def)
  from call_dropped_possible [OF mz this] z show ?case by auto
qed auto

lemma calls_answered_possible:
  assumes "memory_only y" and "memory_held y + sys_lost y < unat (sys_cap y)"
  shows "\<exists>y'. (call_answered ^^ n) y y' \<and> sys_reqs y' = sys_reqs y \<and> sys_lost y' = sys_lost y"
proof (induction n)
  case (Suc n)
  then obtain z where z: "(call_answered ^^ n) y z" and
    lz: "sys_reqs z = sys_reqs y" "sys_lost z = sys_lost y" by auto
  note steps = relpowp_steps [OF call_answered_steps z]
  have "memory_held z + sys_lost z < unat (sys_cap z)"
    using lz assms(2) memory_only_cap [OF steps] by (simp add: memory_held_def)
  from call_answered_possible [OF memory_only_steps [OF steps assms(1)] this] z lz show ?case
    by auto
qed auto

text \<open>
  C13. A handler dropped while the inner service runs never gives its memory slot back. Take
  an enabled layer without a Redis client, just started, with the cap \<open>m\<close>. Up to \<open>m\<close> calls
  can be admitted and dropped in a row. After \<open>n\<close> of them, in every later state of the
  gateway at most \<open>m - n\<close> requests hold a slot; after \<open>m\<close> of them no request is in the
  gateway and yet every call of every later state is rejected with 429. Calls that are
  answered and whose bodies are dropped do no such harm: any number of them in a row leaves
  the gateway empty and admitting.
\<close>

theorem in_flight_cancel_leaks:
  fixes c :: GatewayInFlightLimitConfig and ping_ok :: bool
  assumes "ifl_enabled c"
  defines "y0 \<equiv> \<lparr>sys_layer = in_flight_layer_new (Some c) False ping_ok,
      sys_db = Map.empty, sys_tasks = 0, sys_reqs = [], sys_lost = 0\<rparr>"
    and "m \<equiv> max (ifl_max_concurrent c) 1"
  shows "(\<forall>n. n \<le> unat m \<longrightarrow> (\<exists>y. (call_dropped ^^ n) y0 y))
    \<and> (\<forall>n y y'. (call_dropped ^^ n) y0 y \<longrightarrow> in_flight_step\<^sup>*\<^sup>* y y' \<longrightarrow>
          memory_held y' \<le> unat m - n)
    \<and> (\<forall>y y' now up db. (call_dropped ^^ unat m) y0 y \<longrightarrow> in_flight_step\<^sup>*\<^sup>* y y' \<longrightarrow>
          sys_reqs y = [] \<and> sys_tasks y = 0
          \<and> fst (in_flight_call_begin now up (sys_layer y') db) = Rejected (in_flight_too_many m))
    \<and> (\<forall>n. \<exists>y. (call_answered ^^ n) y0 y \<and> sys_reqs y = []
          \<and> (\<forall>now up db. fst (in_flight_call_begin now up (sys_layer y) db) = Admitted SlotMemory))"
proof -
  have mo: "memory_only y0" using assms(1) in_flight_reachable.start [of "Some c" False ping_ok]
    by (simp add: memory_only_def y0_def in_flight_layer_new_def Let_def)
  have cap: "sys_cap y0 = m" by (simp add: y0_def m_def in_flight_layer_new_def Let_def)
  have held: "memory_held y0 = 0" "sys_lost y0 = 0" "sys_reqs y0 = []" "sys_tasks y0 = 0"
    by (simp_all add: y0_def memory_held_def)
  have pos: "0 < unat m" using mem_max_pos [of "ifl_max_concurrent c"]
    unfolding m_def by (metis unat_eq_zero neq0_conv)
  have later: "memory_only y' \<and> sys_cap y' = m \<and> n \<le> sys_lost y' \<and> sys_reqs y = [] \<and> sys_tasks y = 0"
    if "(call_dropped ^^ n) y0 y" and "in_flight_step\<^sup>*\<^sup>* y y'" for n y y'
    using calls_dropped_later [OF that mo] cap held by simp
  have 1: "\<exists>y. (call_dropped ^^ n) y0 y" if "n \<le> unat m" for n
    using calls_dropped_possible [OF mo, of n] that held cap by simp
  have 2: "memory_held y' \<le> unat m - n"
    if "(call_dropped ^^ n) y0 y" and "in_flight_step\<^sup>*\<^sup>* y y'" for n y y'
    using later [OF that] memory_only_bound [of y'] by auto
  have 3: "sys_reqs y = [] \<and> sys_tasks y = 0 \<and>
      fst (in_flight_call_begin now up (sys_layer y') db) = Rejected (in_flight_too_many m)"
    if "(call_dropped ^^ unat m) y0 y" and "in_flight_step\<^sup>*\<^sup>* y y'" for y y' now up db
    using later [OF that] memory_only_call [of y' now up db] held by simp
  have 4: "\<exists>y. (call_answered ^^ n) y0 y \<and> sys_reqs y = []
      \<and> (\<forall>now up db. fst (in_flight_call_begin now up (sys_layer y) db) = Admitted SlotMemory)" for n
  proof -
    obtain y where y: "(call_answered ^^ n) y0 y" "sys_reqs y = []" "sys_lost y = 0"
      using calls_answered_possible [OF mo, of n] held cap pos by auto
    note steps = relpowp_steps [OF call_answered_steps y(1)]
    have "fst (in_flight_call_begin now up (sys_layer y) db) = Admitted SlotMemory" for now up db
      using memory_only_call [OF memory_only_steps [OF steps mo], of now up db]
        memory_only_cap [OF steps] cap y pos by (simp add: memory_held_def)
    with y show ?thesis by blast
  qed
  from 1 2 3 4 show ?thesis by blast
qed

text \<open>With a cap of one, one dropped call closes the gateway for ever.\<close>

theorem in_flight_cancel_leaks_witness:
  "\<exists>y. call_dropped demo_in_flight_start y \<and> sys_reqs y = []
     \<and> (\<forall>y' now up db. in_flight_step\<^sup>*\<^sup>* y y' \<longrightarrow>
          fst (in_flight_call_begin now up (sys_layer y') db) = Rejected (in_flight_too_many 1))"
proof -
  have e: "ifl_enabled demo_in_flight_config"
    and m: "max (ifl_max_concurrent demo_in_flight_config) 1 = 1"
    by (simp_all add: demo_in_flight_config_def)
  note leak = in_flight_cancel_leaks [OF e, of False, folded demo_in_flight_start_def, unfolded m]
  from leak have "\<exists>y. (call_dropped ^^ 1) demo_in_flight_start y" by (metis le_refl unat_1)
  then obtain y where y: "(call_dropped ^^ 1) demo_in_flight_start y" by blast
  with leak have "sys_reqs y = [] \<and> (\<forall>y' now up db. in_flight_step\<^sup>*\<^sup>* y y' \<longrightarrow>
      fst (in_flight_call_begin now up (sys_layer y') db) = Rejected (in_flight_too_many 1))"
    by (metis rtranclp.rtrancl_refl unat_1)
  with y show ?thesis by auto
qed

subsection \<open>The Redis counter over time\<close>

text \<open>
  Operations at the instants the server runs them. \<open>timed_run\<close> counts the admissions,
  \<open>timed_balanced\<close> says that no release finds the counter empty, and \<open>paced\<close> that the
  instants do not go back and that less than the time to live passes between two operations.
\<close>

fun timed_run :: "int \<Rightarrow> string \<Rightarrow> (nat \<times> slot_op) list \<Rightarrow> redis_db \<Rightarrow> nat \<times> redis_db" where
  "timed_run mx k [] db = (0, db)"
| "timed_run mx k ((now, Acquire) # ops) db =
     (let (ok, db1) = redis_acquire_op now mx k db; (n, db2) = timed_run mx k ops db1
      in ((if ok then 1 else 0) + n, db2))"
| "timed_run mx k ((now, Release) # ops) db = timed_run mx k ops (redis_release_op now k db)"

fun timed_balanced :: "int \<Rightarrow> string \<Rightarrow> (nat \<times> slot_op) list \<Rightarrow> redis_db \<Rightarrow> bool" where
  "timed_balanced mx k [] db \<longleftrightarrow> True"
| "timed_balanced mx k ((now, Acquire) # ops) db \<longleftrightarrow>
     timed_balanced mx k ops (snd (redis_acquire_op now mx k db))"
| "timed_balanced mx k ((now, Release) # ops) db \<longleftrightarrow>
     0 < redis_count now k db \<and> timed_balanced mx k ops (redis_release_op now k db)"

fun paced :: "nat \<Rightarrow> (nat \<times> slot_op) list \<Rightarrow> bool" where
  "paced t [] \<longleftrightarrow> True"
| "paced t ((now, op) # ops) \<longleftrightarrow> t \<le> now \<and> now < t + ifl_ttl_secs \<and> paced now ops"

text \<open>The stored value stays between zero and the cap, at whatever instants the scripts run.\<close>

definition redis_within :: "int \<Rightarrow> string \<Rightarrow> redis_db \<Rightarrow> bool" where
  "redis_within mx k db \<longleftrightarrow> (case db k of None \<Rightarrow> True | Some (v, _) \<Rightarrow> 0 \<le> v \<and> v \<le> mx)"

lemma redis_within_count: "redis_within mx k db \<Longrightarrow> 0 \<le> mx \<Longrightarrow>
    0 \<le> redis_count t k db \<and> redis_count t k db \<le> mx"
  by (auto simp: redis_within_def redis_count_def redis_get_def redis_live_def
      split: option.splits if_splits)

text \<open>What the scripts leave under the key.\<close>

lemma acquire_entry:
  "snd (redis_acquire_op now mx k db) k =
     Some (redis_count now k db + (if redis_count now k db < mx then 1 else 0),
           Some (now + ifl_ttl_secs))"
proof (cases "redis_live now db k")
  case None
  then show ?thesis
    by (simp add: redis_acquire_op_def acquire_in_flight_script_def redis_script_simps redis_count_def)
next
  case (Some ve)
  then show ?thesis
    by (cases ve) (simp add: redis_acquire_op_def acquire_in_flight_script_def redis_script_simps
        redis_count_def)
qed

lemma release_entry:
  "redis_release_op now k db k =
     (if redis_live now db k = None then db k
      else Some (redis_count now k db - (if 0 < redis_count now k db then 1 else 0),
           Some (now + ifl_ttl_secs)))"
proof (cases "redis_live now db k")
  case None
  then show ?thesis
    by (simp add: redis_release_op_def decr_floor_script_def redis_script_simps)
next
  case (Some ve)
  then show ?thesis
    by (cases ve) (simp add: redis_release_op_def decr_floor_script_def redis_script_simps
        redis_count_def)
qed

lemma redis_within_acquire:
  "redis_within mx k db \<Longrightarrow> 0 \<le> mx \<Longrightarrow> redis_within mx k (snd (redis_acquire_op now mx k db))"
  using redis_within_count [of mx k db now] by (auto simp: redis_within_def [where db = "snd _"] acquire_entry)

lemma redis_within_release:
  "redis_within mx k db \<Longrightarrow> 0 \<le> mx \<Longrightarrow> redis_within mx k (redis_release_op now k db)"
  using redis_within_count [of mx k db now]
  by (auto simp: redis_within_def [where db = "redis_release_op _ _ _"] release_entry)
     (auto simp: redis_within_def)

lemma redis_within_run:
  "redis_within mx k db \<Longrightarrow> 0 \<le> mx \<Longrightarrow> redis_within mx k (snd (timed_run mx k ops db))"
proof (induction mx k ops db rule: timed_run.induct)
  case (2 mx k now ops db)
  then show ?case using redis_within_acquire [of mx k db now]
    by (auto simp: Let_def split: prod.splits)
next
  case (3 mx k now ops db)
  then show ?case using redis_within_release [of mx k db now] by simp
qed simp

text \<open>
  Both scripts renew the time to live: what a script leaves is what a later reader sees
  until it passes, and nothing afterwards.
\<close>

definition redis_fresh :: "nat \<Rightarrow> string \<Rightarrow> redis_db \<Rightarrow> bool" where
  "redis_fresh now k db \<longleftrightarrow> (\<forall>t\<ge>now. redis_count t k db =
     (if t < now + ifl_ttl_secs then redis_count now k db else 0))"

lemma redis_freshD:
  "redis_fresh now k db \<Longrightarrow> now \<le> t \<Longrightarrow> t < now + ifl_ttl_secs \<Longrightarrow>
     redis_count t k db = redis_count now k db"
  unfolding redis_fresh_def by presburger

lemma redis_count_entry:
  "db k = Some (v, Some e) \<Longrightarrow> redis_count t k db = (if t < e then v else 0)"
  by (simp add: redis_count_def redis_get_def redis_live_def)

lemma redis_fresh_entry: "db k = Some (v, Some (now + ifl_ttl_secs)) \<Longrightarrow> redis_fresh now k db"
  by (simp add: redis_fresh_def redis_count_entry)

lemma redis_fresh_acquire: "redis_fresh now k (snd (redis_acquire_op now mx k db))"
  by (rule redis_fresh_entry) (rule acquire_entry)

lemma redis_live_dead: "redis_live now db k = None \<Longrightarrow> now \<le> t \<Longrightarrow> redis_live t db k = None"
  by (auto simp: redis_live_def split: option.splits if_splits)

lemma redis_fresh_release: "redis_fresh now k (redis_release_op now k db)"
proof (cases "redis_live now db k = None")
  case True
  then have "redis_live now (redis_release_op now k db) k = None"
    using release_entry [of now k db] by (simp add: redis_live_def)
  then show ?thesis by (simp add: redis_fresh_def redis_count_def redis_get_def redis_live_dead)
next
  case False
  with release_entry [of now k db] show ?thesis by (auto intro: redis_fresh_entry)
qed

text \<open>Conservation along a paced run, from the instant of the operation before.\<close>

lemma timed_run_conserves:
  assumes "paced now ops" and "redis_fresh now k db" and "redis_within (int m) k db"
  defines "result \<equiv> timed_run (int m) k ops db" and "end \<equiv> fst (last ((now, Acquire) # ops))"
  shows "redis_fresh end k (snd result)
    \<and> redis_count end k (snd result) \<le> redis_count now k db + int (fst result)
    \<and> redis_count now k db + int (fst result) \<le>
        redis_count end k (snd result) + int (slot_releases (map snd ops))
    \<and> (timed_balanced (int m) k ops db \<longrightarrow> redis_count now k db + int (fst result) =
        redis_count end k (snd result) + int (slot_releases (map snd ops)))"
  using assms(1-3) unfolding result_def end_def
proof (induction ops arbitrary: now db)
  case Nil
  then show ?case by simp
next
  case (Cons p ops)
  obtain t op where p: "p = (t, op)" by fastforce
  have t: "now \<le> t" "t < now + ifl_ttl_secs" and rest: "paced t ops"
    using Cons.prems(1) p by simp_all
  have same: "redis_count now k db = redis_count t k db"
    by (rule redis_freshD [OF Cons.prems(2) t, symmetric])
  have nn: "0 \<le> redis_count t k db" using redis_within_count [OF Cons.prems(3)] by simp
  show ?case
  proof (cases op)
    case Acquire
    obtain ok db1 where a: "redis_acquire_op t (int m) k db = (ok, db1)" by fastforce
    have db1: "db1 = snd (redis_acquire_op t (int m) k db)" by (simp add: a)
    have "redis_count t k db1 = redis_count t k db + (if ok then 1 else 0)"
      using redis_slots.held_acquire [OF nn, of m] redis_slots.invar_acquire [OF nn, of m] nn
      by (simp add: a split: if_splits)
    moreover have "redis_fresh t k db1" "redis_within (int m) k db1"
      using redis_fresh_acquire redis_within_acquire [OF Cons.prems(3)] by (simp_all add: db1)
    note IH = Cons.IH [OF rest this]
    obtain n db2 where r: "timed_run (int m) k ops db1 = (n, db2)" by fastforce
    ultimately show ?thesis using IH p Acquire a same
      by (simp add: add.assoc split: if_splits)
  next
    case Release
    let ?db1 = "redis_release_op t k db"
    have "nat (redis_count t k db) = nat (redis_count t k ?db1) + (if 0 < nat (redis_count t k db) then 1 else 0)"
      and "0 \<le> redis_count t k ?db1"
      by (rule redis_slots.release_account [OF nn], rule redis_slots.invar_release [OF nn])
    then have step: "redis_count t k ?db1 =
        redis_count t k db - (if 0 < redis_count t k db then 1 else 0)"
      using nn by (auto split: if_splits)
    note IH = Cons.IH [OF rest redis_fresh_release redis_within_release [OF Cons.prems(3)]]
    show ?thesis using IH p Release same step nn by (auto split: if_splits)
  qed
qed

text \<open>
  C14. Let the server run any sequence of the two scripts, at any instants, on a key that does
  not exist yet. The counter a reader sees is then, at every instant, between zero and the cap,
  and the next acquisition is granted exactly if the counter is below the cap. When the
  instants do not go back and less than an hour passes between two scripts, then until an hour
  after the last one the counter is at most the number of admissions, every admission is still
  counted or answered by a release, and the account is exact provided no release finds the
  counter empty. An hour after the last script the counter is gone, whatever is still held.
\<close>

theorem redis_scripts_conserve:
  fixes db :: redis_db and ops :: "(nat \<times> slot_op) list" and m :: nat
  assumes "db k = None"
  defines "result \<equiv> timed_run (int m) k ops db"
  shows "(\<forall>t. 0 \<le> redis_count t k (snd result) \<and> redis_count t k (snd result) \<le> int m
      \<and> (fst (redis_acquire_op t (int m) k (snd result)) \<longleftrightarrow> redis_count t k (snd result) < int m))
    \<and> (ops \<noteq> [] \<and> paced (fst (hd ops)) ops \<longrightarrow> (\<forall>t\<ge>fst (last ops).
        if t < fst (last ops) + 3600 then
          redis_count t k (snd result) \<le> int (fst result)
          \<and> int (fst result) \<le> redis_count t k (snd result) + int (slot_releases (map snd ops))
          \<and> (timed_balanced (int m) k ops db \<longrightarrow>
               int (fst result) = redis_count t k (snd result) + int (slot_releases (map snd ops)))
        else redis_count t k (snd result) = 0))"
proof -
  have w: "redis_within (int m) k db" using assms(1) by (simp add: redis_within_def)
  have w': "redis_within (int m) k (snd result)"
    unfolding result_def by (rule redis_within_run [OF w]) simp
  have bound: "0 \<le> redis_count t k (snd result) \<and> redis_count t k (snd result) \<le> int m" for t
    using redis_within_count [OF w'] by simp
  have grant: "fst (redis_acquire_op t (int m) k (snd result)) \<longleftrightarrow>
      redis_count t k (snd result) < int m" for t
    using redis_slots.acquire_iff [of t k "snd result" m] bound [of t] by (simp add: nat_less_iff)
  have zero: "redis_count t k db = 0" for t
    using assms(1) by (simp add: redis_count_def redis_get_def redis_live_def)
  have fresh: "redis_fresh t k db" for t by (simp add: redis_fresh_def zero)
  have cons: "if t < fst (last ops) + 3600 then
          redis_count t k (snd result) \<le> int (fst result)
          \<and> int (fst result) \<le> redis_count t k (snd result) + int (slot_releases (map snd ops))
          \<and> (timed_balanced (int m) k ops db \<longrightarrow>
               int (fst result) = redis_count t k (snd result) + int (slot_releases (map snd ops)))
        else redis_count t k (snd result) = 0"
    if "ops \<noteq> []" "paced (fst (hd ops)) ops" "t \<ge> fst (last ops)" for t
  proof -
    note all = timed_run_conserves [OF that(2) fresh w, folded result_def]
    have "last ((fst (hd ops), Acquire) # ops) = last ops" using that(1) by simp
    note all = all [unfolded this zero add_0]
    from all have "redis_fresh (fst (last ops)) k (snd result)" by blast
    with that(3) have "redis_count t k (snd result) =
        (if t < fst (last ops) + 3600 then redis_count (fst (last ops)) k (snd result) else 0)"
      by (simp add: redis_fresh_def ifl_ttl_secs_def)
    with all show ?thesis by presburger
  qed
  from bound grant cons show ?thesis by blast
qed

text \<open>
  A cap of one: acquire, be refused, release, acquire again. The slot is counted for an hour
  after the last script and forgotten then.
\<close>

definition demo_timed_ops :: "(nat \<times> slot_op) list" where
  "demo_timed_ops = [(0, Acquire), (5, Acquire), (3000, Release), (3100, Acquire)]"

theorem redis_scripts_conserve_witness:
  "redis_count 6699 ''k'' (snd (timed_run (int 1) ''k'' demo_timed_ops Map.empty)) = 1
   \<and> redis_count 6700 ''k'' (snd (timed_run (int 1) ''k'' demo_timed_ops Map.empty)) = 0"
proof -
  note defs = redis_acquire_op_def redis_release_op_def redis_count_def redis_get_def
    acquire_in_flight_script_def decr_floor_script_def redis_add_def redis_expire_def
    redis_live_def ifl_ttl_secs_def demo_timed_ops_def
  have ops: "demo_timed_ops \<noteq> [] \<and> paced (fst (hd demo_timed_ops)) demo_timed_ops"
    and last: "fst (last demo_timed_ops) = 3100"
    and rel: "slot_releases (map snd demo_timed_ops) = 1"
    by (simp_all add: demo_timed_ops_def ifl_ttl_secs_def)
  have bal: "timed_balanced (int 1) ''k'' demo_timed_ops Map.empty" by (simp add: defs)
  have adm: "fst (timed_run (int 1) ''k'' demo_timed_ops Map.empty) = 2" by (simp add: defs)
  note all = redis_scripts_conserve [of Map.empty "''k''" 1 demo_timed_ops, OF refl,
      THEN conjunct2, rule_format, OF ops, unfolded last adm rel]
  from all [of 6699] all [of 6700] bal show ?thesis by simp
qed

lemma body_polls_released:
  "released b \<Longrightarrow> fst (body_polls ps b) = 0 \<and> released (snd (body_polls ps b))"
proof (induction ps)
  case (Cons p ps)
  then show ?case by (auto simp: counted_poll_frame_def split: prod.splits)
qed simp

lemma body_polls_fresh:
  "\<not> released b \<Longrightarrow> fst (body_polls ps b) = (if released (snd (body_polls ps b)) then 1 else 0)"
proof (induction ps)
  case (Cons p ps)
  then show ?case using body_polls_released [of "b\<lparr>released := True\<rparr>" ps]
    by (auto simp: counted_poll_frame_def split: prod.splits)
qed simp

lemma body_life_one: "body_life ps = 1"
  using body_polls_fresh [of counted_body_new ps]
  by (auto simp: body_life_def counted_drop_def counted_body_new_def fire_release_def
      split: prod.splits if_splits)

text \<open>
  Whatever the inner body yields, and whether it is polled to its end, fails or is
  abandoned, the wrapper runs the release callback exactly once in its life.
\<close>

theorem body_releases_once: "body_life ps = 1"
  by (rule body_life_one)

end
