(* ===== verification/Client_Ip_Limit.thy ===== *)
theory Client_Ip_Limit
  imports Gateway_Prelude In_Flight_Limit "HOL-Library.AList"
begin

text \<open>
  The per-client-IP rate limit (\<open>middleware/client_ip_rate_limit\<close>,
  \<open>config/client_ip_rate_limit.rs\<close>): resolving the client's address behind trusted proxies,
  the in-process sliding window, the Redis sliding window script, and the layer that chooses
  between them.

  Parameters: \<open>parse_v6\<close> is the standard library's parser of IPv6 text, \<open>parse_net\<close> and
  \<open>contains\<close> belong to the \<open>ipnetwork\<close> crate, and \<open>pick\<close> is the key a hash map yields first.
  Clock readings are inputs: nanoseconds for \<open>Instant\<close>, milliseconds for Redis.
\<close>

subsection \<open>Configuration\<close>

datatype ClientIpRateLimitBackend = CipMemory | CipRedis

record ClientIpRateLimitConfig =
  cip_enabled :: bool
  cip_requests_per_second :: u32
  cip_backend :: ClientIpRateLimitBackend
  cip_trusted_proxy_cidrs :: "string list"
  cip_redis_key_prefix :: string

definition default_client_ip_config :: ClientIpRateLimitConfig where
  "default_client_ip_config = \<lparr>cip_enabled = False, cip_requests_per_second = 0,
     cip_backend = CipMemory, cip_trusted_proxy_cidrs = [],
     cip_redis_key_prefix = ''gw:iprl:''\<rparr>"

datatype client_ip_init_error = InvalidRateLimitConfig string | InvalidClientIpRateLimitConfig string

definition validate_global_client_ip_rate_limit ::
  "ClientIpRateLimitConfig option \<Rightarrow> (client_ip_init_error, unit) result" where
  "validate_global_client_ip_rate_limit g =
     (case g of None \<Rightarrow> Ok ()
      | Some c \<Rightarrow>
          if \<not> cip_enabled c then Ok ()
          else if cip_requests_per_second c = 0 then Err (InvalidRateLimitConfig
            ''global.client-ip-rate-limit: requests-per-second must be >= 1 when enabled'')
          else Ok ())"

subsection \<open>The client's address\<close>

datatype IpAddr = V4 "32 word" | V6 "128 word"

text \<open>One octet: one to three digits, no leading zero, at most 255.\<close>

definition parse_octet :: "string \<Rightarrow> nat option" where
  "parse_octet s =
     (if s = [] \<or> length s > 3 \<or> (length s > 1 \<and> hd s = CHR ''0'') then None
      else (case parse_digits 0 s of None \<Rightarrow> None
            | Some n \<Rightarrow> if n \<le> 255 then Some n else None))"

definition parse_v4 :: "string \<Rightarrow> 32 word option" where
  "parse_v4 s =
     (case map parse_octet (split_on (CHR ''.'') s) of
        [Some a, Some b, Some c, Some d] \<Rightarrow>
          Some (word_of_nat (((a * 256 + b) * 256 + c) * 256 + d))
      | _ \<Rightarrow> None)"

definition parse_ip :: "(string \<Rightarrow> 128 word option) \<Rightarrow> string \<Rightarrow> IpAddr option" where
  "parse_ip parse_v6 s =
     (case parse_v4 s of Some a \<Rightarrow> Some (V4 a) | None \<Rightarrow> map_option V6 (parse_v6 s))"

fun parse_trusted_proxy_networks ::
  "(string \<Rightarrow> 'net option) \<Rightarrow> string list \<Rightarrow> (client_ip_init_error, 'net list) result" where
  "parse_trusted_proxy_networks parse_net [] = Ok []"
| "parse_trusted_proxy_networks parse_net (s # ss) =
     (case parse_net s of
        None \<Rightarrow> Err (InvalidClientIpRateLimitConfig (''trusted-proxy-cidrs: invalid CIDR '' @ s))
      | Some n \<Rightarrow> map_sum id (\<lambda>ns. n # ns) (parse_trusted_proxy_networks parse_net ss))"

definition effective_client_ip ::
  "('net \<Rightarrow> IpAddr \<Rightarrow> bool) \<Rightarrow> (string \<Rightarrow> 128 word option) \<Rightarrow> IpAddr \<Rightarrow> headers \<Rightarrow> 'net list
     \<Rightarrow> IpAddr" where
  "effective_client_ip contains parse_v6 peer_ip hs trusted =
     (if list_ex (\<lambda>n. contains n peer_ip) trusted then
        (case header_str hs ''x-forwarded-for'' of None \<Rightarrow> peer_ip
         | Some raw \<Rightarrow>
             (case split_on (CHR '','') raw of [] \<Rightarrow> peer_ip
              | first # _ \<Rightarrow>
                  (case parse_ip parse_v6 (str_trim first) of Some ip \<Rightarrow> ip | None \<Rightarrow> peer_ip)))
      else peer_ip)"

subsection \<open>The in-process window\<close>

definition max_tracked_ips :: nat where "max_tracked_ips = 100000"

definition memory_window :: nat where "memory_window = nanos_per_sec"

record memory_limiter =
  ml_limit :: u32
  ml_map :: "(IpAddr \<times> nat list) list"

definition memory_limiter_new :: "u32 \<Rightarrow> memory_limiter" where
  "memory_limiter_new l = \<lparr>ml_limit = l, ml_map = []\<rparr>"

definition evict_one ::
  "(IpAddr list \<Rightarrow> IpAddr) \<Rightarrow> IpAddr \<Rightarrow> (IpAddr \<times> nat list) list \<Rightarrow> (IpAddr \<times> nat list) list" where
  "evict_one pick ip m =
     (if length m \<ge> max_tracked_ips \<and> ip \<notin> fst ` set m
      then (case m of [] \<Rightarrow> m | _ \<Rightarrow> AList.delete (pick (map fst m)) m) else m)"

definition deque_of :: "(IpAddr \<times> nat list) list \<Rightarrow> IpAddr \<Rightarrow> nat list" where
  "deque_of m ip = (case map_of m ip of None \<Rightarrow> [] | Some dq \<Rightarrow> dq)"

text \<open>The bucket's part of \<open>check\<close>: drop what left the window from the front, then compare.\<close>

definition memory_prune :: "nat \<Rightarrow> nat list \<Rightarrow> nat list" where
  "memory_prune now dq = dropWhile (\<lambda>t. now - t > memory_window) dq"

definition bucket_check :: "nat \<Rightarrow> nat \<Rightarrow> nat list \<Rightarrow> bool \<times> nat list" where
  "bucket_check limit now dq =
     (let d = memory_prune now dq; active = min (length d) (2 ^ 32 - 1)
      in if active \<ge> limit then (False, d) else (True, d @ [now]))"

text \<open>
  \<open>check\<close> with the instant it has read before the lock; \<open>duration_since\<close> is zero for a later
  instant, as subtraction on the naturals is.
\<close>

definition memory_check ::
  "(IpAddr list \<Rightarrow> IpAddr) \<Rightarrow> nat \<Rightarrow> IpAddr \<Rightarrow> memory_limiter \<Rightarrow> bool \<times> memory_limiter" where
  "memory_check pick now ip l =
     (if ml_limit l = 0 then (True, l)
      else
        (let m = evict_one pick ip (ml_map l);
             (ok, dq) = bucket_check (unat (ml_limit l)) now (deque_of m ip)
         in (ok, l\<lparr>ml_map := AList.update ip dq m\<rparr>)))"

subsection \<open>The Redis window\<close>

text \<open>
  A sorted set with its expiry. \<open>ZREMRANGEBYSCORE key -inf (now - window)\<close> removes the
  scores up to and including that bound, \<open>ZADD\<close> sets a member's score, \<open>PEXPIRE\<close> sets the
  time to live.
\<close>

record zset =
  z_entries :: "(string \<times> nat) list"
  z_expires :: "nat option"

definition zset_live :: "nat \<Rightarrow> zset \<Rightarrow> (string \<times> nat) list" where
  "zset_live now z =
     (case z_expires z of None \<Rightarrow> z_entries z | Some e \<Rightarrow> if now < e then z_entries z else [])"

definition sliding_window_script :: "nat \<Rightarrow> nat \<Rightarrow> int \<Rightarrow> string \<Rightarrow> zset \<Rightarrow> int \<times> zset" where
  "sliding_window_script now window lim member z =
     (let kept = filter (\<lambda>(_, score). \<not> score + window \<le> now) (zset_live now z)
      in if int (length kept) \<ge> lim then (0, z\<lparr>z_entries := kept\<rparr>)
         else (1, \<lparr>z_entries = AList.update member now kept, z_expires = Some (now + window + 1000)\<rparr>))"

subsection \<open>The layer\<close>

record 'net client_ip_state =
  ci_cfg :: ClientIpRateLimitConfig
  ci_trusted :: "'net list"
  ci_memory :: memory_limiter
  ci_redis :: bool
  ci_use_redis :: bool
  ci_rejected :: nat
  ci_allowed :: nat
  ci_degraded :: nat

definition client_ip_layer_new ::
  "(string \<Rightarrow> 'net option) \<Rightarrow> ClientIpRateLimitConfig option \<Rightarrow> bool \<Rightarrow> bool
     \<Rightarrow> (client_ip_init_error, 'net client_ip_state) result" where
  "client_ip_layer_new parse_net g has_redis ping_ok =
     (let cfg = (case g of None \<Rightarrow> default_client_ip_config | Some c \<Rightarrow> c)
      in try_bind
           (if cip_enabled cfg then parse_trusted_proxy_networks parse_net (cip_trusted_proxy_cidrs cfg)
            else Ok [])
           (\<lambda>trusted. Ok \<lparr>ci_cfg = cfg, ci_trusted = trusted,
              ci_memory = memory_limiter_new (max (cip_requests_per_second cfg) 1),
              ci_redis = has_redis,
              ci_use_redis =
                (cip_enabled cfg \<and> cip_backend cfg = CipRedis \<and> has_redis \<and> ping_ok),
              ci_rejected = 0, ci_allowed = 0, ci_degraded = 0\<rparr>))"

definition client_ip_recover_tick :: "bool \<Rightarrow> 'net client_ip_state \<Rightarrow> 'net client_ip_state" where
  "client_ip_recover_tick ping_ok s =
     (if \<not> ci_redis s \<or> ci_use_redis s then s
      else if ping_ok then s\<lparr>ci_use_redis := True\<rparr> else s)"

text \<open>The Redis keyspace of the limiter, from a key to its sorted set.\<close>

type_synonym zset_db = "string \<Rightarrow> zset"

datatype client_ip_call = CipForward | CipTooMany TooManyRequestsError

definition client_ip_memory_decide ::
  "(IpAddr list \<Rightarrow> IpAddr) \<Rightarrow> nat \<Rightarrow> IpAddr \<Rightarrow> 'net client_ip_state \<Rightarrow> bool \<times> 'net client_ip_state" where
  "client_ip_memory_decide pick inst ip s =
     (let (ok, m) = memory_check pick inst ip (ci_memory s) in (ok, s\<lparr>ci_memory := m\<rparr>))"

text \<open>
  \<open>Service::call\<close> up to the inner service. \<open>show_ip\<close> prints an address, \<open>member\<close> is the
  unique member built from the clock and a random number, \<open>ms\<close> the Redis server's clock.
\<close>

definition client_ip_call ::
  "('net \<Rightarrow> IpAddr \<Rightarrow> bool) \<Rightarrow> (string \<Rightarrow> 128 word option) \<Rightarrow> (IpAddr \<Rightarrow> string)
     \<Rightarrow> (IpAddr list \<Rightarrow> IpAddr) \<Rightarrow> nat \<Rightarrow> nat \<Rightarrow> string \<Rightarrow> bool \<Rightarrow> IpAddr option \<Rightarrow> headers
     \<Rightarrow> 'net client_ip_state \<Rightarrow> zset_db \<Rightarrow> client_ip_call \<times> 'net client_ip_state \<times> zset_db" where
  "client_ip_call contains parse_v6 show_ip pick inst ms member up peer hs s db =
     (if \<not> cip_enabled (ci_cfg s) then (CipForward, s, db)
      else case peer of None \<Rightarrow> (CipForward, s, db)
      | Some peer_ip \<Rightarrow>
          (let ip = effective_client_ip contains parse_v6 peer_ip hs (ci_trusted s);
               key = cip_redis_key_prefix (ci_cfg s) @ show_ip ip;
               (allowed, s1, db1) =
                 (if ci_use_redis s \<and> ci_redis s then
                    (if up then
                       (let (v, z) = sliding_window_script ms 1000
                              (uint (cip_requests_per_second (ci_cfg s))) member (db key)
                        in (v = 1, s, db(key := z)))
                     else
                       (let (ok, s') = client_ip_memory_decide pick inst ip
                              (s\<lparr>ci_degraded := ci_degraded s + 1, ci_use_redis := False\<rparr>)
                        in (ok, s', db)))
                  else (let (ok, s') = client_ip_memory_decide pick inst ip s in (ok, s', db)))
           in if \<not> allowed then
                (CipTooMany \<lparr>ratelimit_limit = ucast (cip_requests_per_second (ci_cfg s)),
                   ratelimit_remaining = 0, retry_after = 1\<rparr>,
                 s1\<lparr>ci_rejected := ci_rejected s1 + 1\<rparr>, db1)
              else (CipForward, s1\<lparr>ci_allowed := ci_allowed s1 + 1\<rparr>, db1)))"


subsection \<open>What a sliding window promises\<close>

text \<open>
  A window limiter remembers admission times; \<open>keep now t\<close> says that an admission at time
  \<open>t\<close> still counts at \<open>now\<close>. The two backends differ in the boundary of \<open>keep\<close> and in how
  they prune, not in the promise.
\<close>

text \<open>Feed requests to a bucket; the result is the admission times and the bucket.\<close>

fun window_run ::
  "('r \<Rightarrow> 'b \<Rightarrow> bool \<times> 'b) \<Rightarrow> ('r \<Rightarrow> nat) \<Rightarrow> 'r list \<Rightarrow> 'b \<Rightarrow> nat list \<times> 'b" where
  "window_run chk time [] b = ([], b)"
| "window_run chk time (r # rs) b =
     (let (ok, b1) = chk r b; (adm, b2) = window_run chk time rs b1
      in ((if ok then [time r] else []) @ adm, b2))"

text \<open>Every request of a run meets the precondition \<open>pre\<close> in the state it finds.\<close>

fun window_pre ::
  "('r \<Rightarrow> 'b \<Rightarrow> bool \<times> 'b) \<Rightarrow> ('r \<Rightarrow> 'b \<Rightarrow> bool) \<Rightarrow> 'r list \<Rightarrow> 'b \<Rightarrow> bool" where
  "window_pre chk pre [] b \<longleftrightarrow> True"
| "window_pre chk pre (r # rs) b \<longleftrightarrow> pre r b \<and> window_pre chk pre rs (snd (chk r b))"

locale window_limiter =
  fixes chk :: "'r \<Rightarrow> 'b \<Rightarrow> bool \<times> 'b"
    and time :: "'r \<Rightarrow> nat"
    and pre :: "'r \<Rightarrow> 'b \<Rightarrow> bool"
    and recent :: "nat \<Rightarrow> 'b \<Rightarrow> nat list"
    and keep :: "nat \<Rightarrow> nat \<Rightarrow> bool"
    and limit :: nat
  assumes keep_anti: "keep z x \<Longrightarrow> y \<le> z \<Longrightarrow> keep y x"
    and chk_ok: "pre r b \<Longrightarrow> fst (chk r b) \<Longrightarrow>
      length (filter (keep (time r)) (recent (time r) b)) < limit"
    and recent_chk: "pre r b \<Longrightarrow> time r \<le> z \<Longrightarrow>
      filter (keep z) (recent z (snd (chk r b))) =
        filter (keep z) (recent (time r) b @ (if fst (chk r b) then [time r] else []))"
begin

text \<open>The bucket remembers every admission that still counts, now or later.\<close>

definition tracks :: "nat \<Rightarrow> nat list \<Rightarrow> 'b \<Rightarrow> bool" where
  "tracks now adm b \<longleftrightarrow> (\<forall>z\<ge>now. filter (keep z) (recent z b) = filter (keep z) adm)"

definition bounded :: "nat list \<Rightarrow> bool" where
  "bounded adm \<longleftrightarrow> (\<forall>z. length (filter (\<lambda>x. x \<le> z \<and> keep z x) adm) \<le> limit)"

lemma filter_keep_later:
  assumes "now \<le> z" "filter (keep now) xs = filter (keep now) ys"
  shows "filter (keep z) xs = filter (keep z) ys"
proof -
  have key: "filter (keep z) l = filter (keep z) (filter (keep now) l)" for l
    unfolding filter_filter using keep_anti [OF _ assms(1)] by (intro filter_cong) auto
  have "filter (keep z) xs = filter (keep z) (filter (keep now) xs)" by (rule key)
  also have "\<dots> = filter (keep z) (filter (keep now) ys)" by (simp only: assms(2))
  also have "\<dots> = filter (keep z) ys" by (rule key [symmetric])
  finally show ?thesis .
qed

lemma chk_tracks:
  assumes "pre r b" and "tracks (time r) adm b"
  shows "tracks (time r) (adm @ (if fst (chk r b) then [time r] else [])) (snd (chk r b))"
  unfolding tracks_def
proof (intro allI impI)
  fix z assume z: "time r \<le> z"
  have "filter (keep (time r)) (recent (time r) b) = filter (keep (time r)) adm"
    using assms(2) by (simp add: tracks_def)
  then have "filter (keep z) (recent (time r) b) = filter (keep z) adm"
    by (rule filter_keep_later [OF z])
  with recent_chk [OF assms(1) z]
  show "filter (keep z) (recent z (snd (chk r b))) =
      filter (keep z) (adm @ (if fst (chk r b) then [time r] else []))" by simp
qed

lemma chk_bounded:
  assumes "pre r b" and "tracks (time r) adm b" and "bounded adm" and "fst (chk r b)"
  shows "bounded (adm @ [time r])"
  unfolding bounded_def
proof
  fix z
  show "length (filter (\<lambda>x. x \<le> z \<and> keep z x) (adm @ [time r])) \<le> limit"
  proof (cases "time r \<le> z")
    case True
    have "filter (\<lambda>x. x \<le> z \<and> keep z x) adm =
        filter (\<lambda>x. x \<le> z \<and> keep z x) (filter (keep (time r)) adm)"
      unfolding filter_filter using keep_anti [OF _ True] by (intro filter_cong) auto
    then have "length (filter (\<lambda>x. x \<le> z \<and> keep z x) adm) \<le> length (filter (keep (time r)) adm)"
      by (metis length_filter_le)
    also have "\<dots> < limit"
      using chk_ok [OF assms(1,4)] assms(2) by (simp add: tracks_def)
    finally show ?thesis by simp
  next
    case False
    then show ?thesis using assms(3) by (simp add: bounded_def)
  qed
qed

lemma run_bounded:
  assumes "sorted (map time rs)" and "\<forall>r\<in>set rs. t0 \<le> time r" and "tracks t0 adm b"
    and "bounded adm" and "window_pre chk pre rs b"
  shows "bounded (adm @ fst (window_run chk time rs b))"
  using assms
proof (induction rs arbitrary: t0 adm b)
  case (Cons r rs)
  obtain ok b1 where c: "chk r b = (ok, b1)" by fastforce
  let ?adm = "adm @ (if ok then [time r] else [])"
  from Cons.prems have t0: "t0 \<le> time r" and pre: "pre r b" by auto
  then have tr: "tracks (time r) adm b" using Cons.prems(3) unfolding tracks_def by auto
  have "tracks (time r) ?adm b1" using chk_tracks [OF pre tr] c by simp
  moreover have "bounded ?adm" using chk_bounded [OF pre tr Cons.prems(4)] Cons.prems(4) c by auto
  ultimately have "bounded (?adm @ fst (window_run chk time rs b1))"
    using Cons.IH [of "time r" ?adm b1] Cons.prems(1,5) c by auto
  then show ?case using c by (auto simp: Let_def split: prod.splits)
qed simp

text \<open>From a bucket that remembers nothing, no window ever holds more than \<open>limit\<close> admissions.\<close>

lemma window_bound:
  assumes "sorted (map time rs)" and "window_pre chk pre rs b"
    and "\<And>z. filter (keep z) (recent z b) = []"
  shows "length (filter (\<lambda>x. x \<le> z \<and> keep z x) (fst (window_run chk time rs b))) \<le> limit"
proof -
  have "tracks 0 [] b" using assms(3) by (simp add: tracks_def)
  moreover have "bounded []" by (simp add: bounded_def)
  ultimately have "bounded ([] @ fst (window_run chk time rs b))"
    using assms(1,2) by (intro run_bounded [of rs 0]) auto
  then show ?thesis by (simp add: bounded_def)
qed

end

text \<open>
  A limiter whose memory does not depend on the clock that reads it keeps a promise even when
  requests are handled out of the order of their instants: if no request is handled after one
  with an instant more than \<open>d\<close> later, the bound holds for windows shortened by \<open>d\<close>.
\<close>

locale window_skew = window_limiter +
  assumes recent_const: "recent y b = recent z b"
begin

definition bounded_skew :: "nat \<Rightarrow> nat list \<Rightarrow> bool" where
  "bounded_skew d adm \<longleftrightarrow> (\<forall>z. length (filter (\<lambda>x. x \<le> z \<and> keep (z + d) x) adm) \<le> limit)"

lemma chk_tracks_skew:
  assumes "pre r b" and "tracks t adm b"
  shows "tracks (max t (time r)) (adm @ (if fst (chk r b) then [time r] else [])) (snd (chk r b))"
  unfolding tracks_def
proof (intro allI impI)
  fix z assume z: "max t (time r) \<le> z"
  then have "filter (keep z) (recent z b) = filter (keep z) adm"
    using assms(2) by (simp add: tracks_def)
  with recent_chk [OF assms(1), of z] z recent_const [of "time r" b z]
  show "filter (keep z) (recent z (snd (chk r b))) =
      filter (keep z) (adm @ (if fst (chk r b) then [time r] else []))" by simp
qed

lemma length_filter_mono: "(\<And>x. P x \<Longrightarrow> Q x) \<Longrightarrow> length (filter P xs) \<le> length (filter Q xs)"
  by (induction xs) (auto intro: le_SucI)

lemma chk_bounded_skew:
  assumes "pre r b" and "tracks t adm b" and "t \<le> time r + d" and "bounded_skew d adm"
    and "fst (chk r b)"
  shows "bounded_skew d (adm @ [time r])"
  unfolding bounded_skew_def
proof
  fix z
  show "length (filter (\<lambda>x. x \<le> z \<and> keep (z + d) x) (adm @ [time r])) \<le> limit"
  proof (cases "time r \<le> z")
    case True
    let ?T = "max t (time r)"
    have T: "?T \<le> z + d" using True assms(3) by simp
    have "length (filter (\<lambda>x. x \<le> z \<and> keep (z + d) x) adm) \<le> length (filter (keep ?T) adm)"
      using keep_anti [OF _ T] by (intro length_filter_mono) auto
    also have "\<dots> = length (filter (keep ?T) (recent (time r) b))"
      using assms(2) recent_const [of ?T b "time r"] unfolding tracks_def by (metis max.cobounded1)
    also have "\<dots> \<le> length (filter (keep (time r)) (recent (time r) b))"
      using keep_anti by (intro length_filter_mono) auto
    also have "\<dots> < limit" by (rule chk_ok [OF assms(1,5)])
    finally show ?thesis by simp
  next
    case False
    then show ?thesis using assms(4) by (simp add: bounded_skew_def)
  qed
qed

lemma run_bounded_skew:
  assumes "sorted_wrt (\<lambda>q r. time q \<le> time r + d) rs" and "\<forall>r\<in>set rs. t \<le> time r + d"
    and "tracks t adm b" and "bounded_skew d adm" and "window_pre chk pre rs b"
  shows "bounded_skew d (adm @ fst (window_run chk time rs b))"
  using assms
proof (induction rs arbitrary: t adm b)
  case (Cons r rs)
  obtain ok b1 where c: "chk r b = (ok, b1)" by fastforce
  let ?adm = "adm @ (if ok then [time r] else [])"
  from Cons.prems have pre: "pre r b" and t: "t \<le> time r + d" by auto
  have "tracks (max t (time r)) ?adm b1" using chk_tracks_skew [OF pre Cons.prems(3)] c by simp
  moreover have "bounded_skew d ?adm"
    using chk_bounded_skew [OF pre Cons.prems(3) t Cons.prems(4)] Cons.prems(4) c by auto
  ultimately have "bounded_skew d (?adm @ fst (window_run chk time rs b1))"
    using Cons.IH [of "max t (time r)" ?adm b1] Cons.prems(1,2,5) c by auto
  then show ?case using c by (auto simp: Let_def split: prod.splits)
qed simp

lemma window_bound_skew:
  assumes "sorted_wrt (\<lambda>q r. time q \<le> time r + d) rs" and "window_pre chk pre rs b"
    and "\<And>z. filter (keep z) (recent z b) = []"
  shows "length (filter (\<lambda>x. x \<le> z \<and> keep (z + d) x) (fst (window_run chk time rs b))) \<le> limit"
proof -
  have "tracks 0 [] b" using assms(3) by (simp add: tracks_def)
  moreover have "bounded_skew d []" by (simp add: bounded_skew_def)
  ultimately have "bounded_skew d ([] @ fst (window_run chk time rs b))"
    using assms(1,2) by (intro run_bounded_skew [of d rs 0]) auto
  then show ?thesis by (simp add: bounded_skew_def)
qed

end

lemma filter_dropWhile_keep:
  "(\<And>x. Q x \<Longrightarrow> \<not> P x) \<Longrightarrow> filter Q (dropWhile P xs) = filter Q xs"
  by (induction xs) auto

definition memory_keep :: "nat \<Rightarrow> nat \<Rightarrow> bool" where
  "memory_keep now t \<longleftrightarrow> now \<le> t + memory_window"

interpretation mem_window: window_skew "bucket_check (unat (limit :: u32))" "\<lambda>t. t" "\<lambda>_ _. True"
  "\<lambda>_ b. b" memory_keep "unat limit" for limit
proof (unfold_locales, goal_cases)
  case (1 z x y)
  then show ?case by (simp add: memory_keep_def)
next
  case (2 now b)
  have "length (filter (memory_keep now) b) = length (filter (memory_keep now) (memory_prune now b))"
    unfolding memory_prune_def
    by (subst filter_dropWhile_keep) (auto simp: memory_keep_def)
  also have "\<dots> \<le> length (memory_prune now b)" by simp
  also have "\<dots> < unat limit"
    using 2 u32_le_max [of limit] by (auto simp: bucket_check_def Let_def split: if_splits)
  finally show ?case by simp
next
  case (3 now b z)
  have "filter (memory_keep z) (memory_prune now b) = filter (memory_keep z) b"
    unfolding memory_prune_def
    using 3 by (subst filter_dropWhile_keep) (auto simp: memory_keep_def)
  then show ?case by (auto simp: bucket_check_def Let_def)
qed simp

text \<open>
  The Redis bucket. A request is its time and its member; the precondition is that the
  member is new, that the server's clock has not run backwards, and that the time to live
  covers what the set holds, which the script keeps so.
\<close>

definition redis_keep :: "nat \<Rightarrow> nat \<Rightarrow> bool" where
  "redis_keep now t \<longleftrightarrow> now < t + 1000"

definition redis_window_check :: "int \<Rightarrow> nat \<times> string \<Rightarrow> zset \<Rightarrow> bool \<times> zset" where
  "redis_window_check lim r z =
     (let (v, z') = sliding_window_script (fst r) 1000 lim (snd r) z in (v = 1, z'))"

definition zset_covered :: "zset \<Rightarrow> bool" where
  "zset_covered z \<longleftrightarrow> (\<forall>p\<in>set (z_entries z). \<forall>e. z_expires z = Some e \<longrightarrow> snd p + 1000 \<le> e)"

definition zset_pre :: "nat \<times> string \<Rightarrow> zset \<Rightarrow> bool" where
  "zset_pre r z \<longleftrightarrow> snd r \<notin> fst ` set (z_entries z) \<and> (\<forall>p\<in>set (z_entries z). snd p \<le> fst r)
     \<and> zset_covered z"

lemma zset_live_covered:
  assumes "zset_covered z"
  shows "filter (redis_keep now) (map snd (zset_live now z)) =
    filter (redis_keep now) (map snd (z_entries z))"
proof (cases "z_expires z")
  case (Some e)
  show ?thesis
  proof (cases "now < e")
    case False
    with assms Some have "\<forall>p\<in>set (z_entries z). \<not> redis_keep now (snd p)"
      by (force simp: zset_covered_def redis_keep_def)
    then have "filter (redis_keep now) (map snd (z_entries z)) = []" by (simp add: filter_empty_conv)
    with False Some show ?thesis by (simp add: zset_live_def)
  qed (simp add: zset_live_def Some)
qed (simp add: zset_live_def)

definition zset_kept :: "nat \<Rightarrow> zset \<Rightarrow> (string \<times> nat) list" where
  "zset_kept now z = filter (\<lambda>(_, score). \<not> score + 1000 \<le> now) (zset_live now z)"

lemma map_snd_kept:
  assumes "zset_covered z"
  shows "map snd (zset_kept now z) = filter (redis_keep now) (map snd (z_entries z))"
proof -
  have "map snd (zset_kept now z) = filter (redis_keep now) (map snd (zset_live now z))"
    by (simp add: zset_kept_def filter_map o_def redis_keep_def split_def not_le)
  then show ?thesis using zset_live_covered [OF assms] by simp
qed

lemma set_kept_subset: "set (zset_kept now z) \<subseteq> set (z_entries z)"
  by (auto simp: zset_kept_def zset_live_def split: option.splits if_splits)

lemma redis_window_check_simp:
  "redis_window_check lim r z =
     (if int (length (zset_kept (fst r) z)) \<ge> lim
      then (False, z\<lparr>z_entries := zset_kept (fst r) z\<rparr>)
      else (True, \<lparr>z_entries = AList.update (snd r) (fst r) (zset_kept (fst r) z),
              z_expires = Some (fst r + 2000)\<rparr>))"
  by (simp add: redis_window_check_def sliding_window_script_def zset_kept_def Let_def)

lemma update_fresh: "k \<notin> fst ` set al \<Longrightarrow> AList.update k v al = al @ [(k, v)]"
  by (induction al) auto

text \<open>The script re-establishes its invariant, at its own time and every later one.\<close>

lemma redis_window_check_entries:
  assumes "zset_pre r z"
  shows "z_entries (snd (redis_window_check lim r z)) =
      zset_kept (fst r) z @ (if fst (redis_window_check lim r z) then [(snd r, fst r)] else [])"
    and "zset_covered (snd (redis_window_check lim r z))"
proof -
  have fresh: "snd r \<notin> fst ` set (zset_kept (fst r) z)"
    using assms set_kept_subset [of "fst r" z] by (auto simp: zset_pre_def)
  show "z_entries (snd (redis_window_check lim r z)) =
      zset_kept (fst r) z @ (if fst (redis_window_check lim r z) then [(snd r, fst r)] else [])"
    using fresh by (simp add: redis_window_check_simp update_fresh)
  have old: "\<forall>p\<in>set (zset_kept (fst r) z). snd p \<le> fst r \<and>
      (\<forall>e. z_expires z = Some e \<longrightarrow> snd p + 1000 \<le> e)"
    using assms set_kept_subset [of "fst r" z] by (force simp: zset_pre_def zset_covered_def)
  then show "zset_covered (snd (redis_window_check lim r z))"
    using fresh by (auto simp: redis_window_check_simp update_fresh zset_covered_def)
qed

interpretation redis_window: window_limiter "redis_window_check (int limit)" fst zset_pre
  "\<lambda>now z. map snd (zset_live now z)" redis_keep limit for limit
proof (unfold_locales, goal_cases)
  case (1 z x y)
  then show ?case by (simp add: redis_keep_def)
next
  case (2 r b)
  then have "int (length (zset_kept (fst r) b)) < int limit"
    by (simp add: redis_window_check_simp split: if_splits)
  then have "length (map snd (zset_kept (fst r) b)) < limit" by simp
  moreover have "filter (redis_keep (fst r)) (map snd (zset_live (fst r) b)) =
      map snd (zset_kept (fst r) b)"
    by (simp add: zset_kept_def filter_map o_def redis_keep_def split_def not_le)
  ultimately show ?case by simp
next
  case (3 r b z)
  let ?c = "redis_window_check (int limit) r b"
  have cov: "zset_covered b" using 3 by (simp add: zset_pre_def)
  have later: "filter (redis_keep z) (filter (redis_keep (fst r)) xs) = filter (redis_keep z) xs" for xs
    using 3(2) unfolding filter_filter by (intro filter_cong) (auto simp: redis_keep_def)
  have "filter (redis_keep z) (map snd (zset_live z (snd ?c))) =
      filter (redis_keep z) (map snd (z_entries (snd ?c)))"
    by (rule zset_live_covered [OF redis_window_check_entries(2) [OF 3(1)]])
  also have "\<dots> = filter (redis_keep z) (map snd (zset_kept (fst r) b)) @
      filter (redis_keep z) (if fst ?c then [fst r] else [])"
    by (simp add: redis_window_check_entries(1) [OF 3(1)])
  also have "filter (redis_keep z) (map snd (zset_kept (fst r) b)) =
      filter (redis_keep z) (map snd (z_entries b))"
    by (simp only: map_snd_kept [OF cov] later)
  also have "\<dots> = filter (redis_keep z) (map snd (zset_live (fst r) b))"
    using zset_live_covered [OF cov, of "fst r"] later by metis
  finally show ?case by simp
qed


subsection \<open>The whole limiter over many addresses\<close>

fun memory_run ::
  "(IpAddr list \<Rightarrow> IpAddr) \<Rightarrow> (nat \<times> IpAddr) list \<Rightarrow> memory_limiter
     \<Rightarrow> (nat \<times> IpAddr) list \<times> memory_limiter" where
  "memory_run pick [] l = ([], l)"
| "memory_run pick ((now, ip) # rs) l =
     (let (ok, l1) = memory_check pick now ip l; (adm, l2) = memory_run pick rs l1
      in ((if ok then [(now, ip)] else []) @ adm, l2))"

definition times_of :: "IpAddr \<Rightarrow> (nat \<times> IpAddr) list \<Rightarrow> nat list" where
  "times_of ip rs = map fst (filter (\<lambda>r. snd r = ip) rs)"

lemma times_of_simps [simp]:
  "times_of ip [] = []"
  "times_of ip ((t, a) # rs) = (if a = ip then [t] else []) @ times_of ip rs"
  "times_of ip (xs @ ys) = times_of ip xs @ times_of ip ys"
  by (auto simp: times_of_def)

lemma sorted_times_of:
  "sorted_wrt (\<lambda>q r. fst q \<le> fst r + d) rs \<Longrightarrow> sorted_wrt (\<lambda>q r. q \<le> r + d) (times_of ip rs)"
  by (induction rs) (auto simp: times_of_def)

lemma no_eviction:
  assumes "distinct (map fst m)" and "fst ` set m \<subseteq> A" and "ip \<in> A" and "finite A"
    and "card A \<le> max_tracked_ips"
  shows "evict_one pick ip m = m"
proof (cases "ip \<in> fst ` set m")
  case False
  have "length m = card (fst ` set m)" using assms(1) by (metis distinct_card length_map set_map)
  also have "\<dots> < card A" using False assms(2-4) by (intro psubset_card_mono) auto
  also have "\<dots> \<le> max_tracked_ips" by (rule assms(5))
  finally show ?thesis by (simp add: evict_one_def)
qed (simp add: evict_one_def)

lemma memory_check_bucket:
  assumes "ml_limit l \<noteq> 0" and "evict_one pick ip (ml_map l) = ml_map l"
  shows "fst (memory_check pick now ip l) = fst (bucket_check (unat (ml_limit l)) now (deque_of (ml_map l) ip))"
    and "ml_limit (snd (memory_check pick now ip l)) = ml_limit l"
    and "deque_of (ml_map (snd (memory_check pick now ip l))) a =
      (if a = ip then snd (bucket_check (unat (ml_limit l)) now (deque_of (ml_map l) ip))
       else deque_of (ml_map l) a)"
    and "fst ` set (ml_map (snd (memory_check pick now ip l))) = insert ip (fst ` set (ml_map l))"
    and "distinct (map fst (ml_map l)) \<Longrightarrow>
      distinct (map fst (ml_map (snd (memory_check pick now ip l))))"
  using assms
  by (auto simp: memory_check_def Let_def deque_of_def update_conv' dom_update distinct_update
      split: prod.splits)

text \<open>While no address is evicted, each address sees its own bucket and no other.\<close>

lemma memory_run_bucket:
  assumes "ml_limit l \<noteq> 0" and "distinct (map fst (ml_map l))"
    and "fst ` set (ml_map l) \<subseteq> A" and "snd ` set rs \<subseteq> A" and "finite A"
    and "card A \<le> max_tracked_ips"
  shows "times_of a (fst (memory_run pick rs l)) =
    fst (window_run (bucket_check (unat (ml_limit l))) (\<lambda>t. t) (times_of a rs) (deque_of (ml_map l) a))"
  using assms
proof (induction rs arbitrary: l)
  case (Cons r rs)
  obtain now ip where r: "r = (now, ip)" by fastforce
  have ne: "evict_one pick ip (ml_map l) = ml_map l"
    using Cons.prems r by (intro no_eviction [of _ A]) auto
  note step = memory_check_bucket [OF Cons.prems(1) ne, of now]
  let ?l1 = "snd (memory_check pick now ip l)"
  have "times_of a (fst (memory_run pick rs ?l1)) =
      fst (window_run (bucket_check (unat (ml_limit ?l1))) (\<lambda>t. t) (times_of a rs) (deque_of (ml_map ?l1) a))"
    using Cons.prems r step(2,4,5) by (intro Cons.IH) auto
  then show ?case
    using r step(1-3) by (cases "a = ip") (auto simp: Let_def split: prod.splits if_splits)
qed simp

subsection \<open>Properties\<close>

text \<open>
  C6. \<open>check\<close> reads the clock before it takes the lock, so calls may be handled out of the order
  of their instants. Let \<open>d\<close> bound how far: no call is handled after one whose instant is more
  than \<open>d\<close> nanoseconds later. Then, for every client address at once and as long as the
  addresses fit the table, no closed window of one second less \<open>d\<close> holds more admissions of
  one address than the configured limit. With \<open>d = 0\<close>, calls handled in the order of their
  instants, this is the whole second.
\<close>

theorem memory_limiter_window:
  assumes "limit \<noteq> 0" and "sorted_wrt (\<lambda>q r. fst q \<le> fst r + d) rs"
    and "card (snd ` set rs) \<le> max_tracked_ips"
  shows "length (filter (\<lambda>x. x \<le> z \<and> z + d \<le> x + nanos_per_sec)
      (times_of ip (fst (memory_run pick rs (memory_limiter_new limit))))) \<le> unat limit"
proof -
  have "times_of ip (fst (memory_run pick rs (memory_limiter_new limit))) =
      fst (window_run (bucket_check (unat limit)) (\<lambda>t. t) (times_of ip rs) [])"
    using assms memory_run_bucket [of "memory_limiter_new limit" "snd ` set rs" rs ip pick]
    by (simp add: memory_limiter_new_def deque_of_def)
  moreover have "window_pre (bucket_check (unat limit)) (\<lambda>_ _. True) ts b" for ts b
    by (induction ts arbitrary: b) auto
  ultimately show ?thesis
    using mem_window.window_bound_skew [of d "times_of ip rs" limit "[]" z] sorted_times_of [OF assms(2)]
    by (simp add: memory_keep_def memory_window_def)
qed

theorem memory_limiter_window_witness:
  "length (filter (\<lambda>x. x \<le> 5 \<and> (5::nat) + 1 \<le> x + nanos_per_sec)
     (times_of (V4 1) (fst (memory_run hd [(4, V4 1), (3, V4 1), (5, V4 1)] (memory_limiter_new 2))))) \<le> 2"
  using memory_limiter_window [of 2 1 "[(4, V4 1), (3, V4 1), (5, V4 1)]" 5 "V4 1" hd]
  by (simp add: max_tracked_ips_def)

text \<open>
  The loss is real: with a limit of two, a call whose thread is held up between the clock and
  the lock is the third admission of its address within one second.
\<close>

theorem memory_limiter_skew_exceeds:
  "length (filter (\<lambda>x. x \<le> nanos_per_sec \<and> nanos_per_sec \<le> x + nanos_per_sec)
     (times_of (V4 1) (fst (memory_run hd
        [(0, V4 1), (1, V4 1), (nanos_per_sec + 2, V4 1), (nanos_per_sec, V4 1)]
        (memory_limiter_new 2))))) = 3"
  by (simp add: memory_check_def memory_limiter_new_def bucket_check_def memory_prune_def
      memory_window_def evict_one_def deque_of_def max_tracked_ips_def nanos_per_sec_def Let_def)

lemma zset_pre_run:
  assumes "sorted (map fst rs)" and "distinct (map snd rs)"
    and "\<forall>r\<in>set rs. zset_pre r z"
  shows "window_pre (redis_window_check lim) zset_pre rs z"
  using assms
proof (induction rs arbitrary: z)
  case (Cons r rs)
  have r: "zset_pre r z" using Cons.prems(3) by simp
  have sub: "set (z_entries (snd (redis_window_check lim r z))) \<subseteq>
      insert (snd r, fst r) (set (z_entries z))"
    using redis_window_check_entries(1) [OF r] set_kept_subset [of "fst r" z] by auto
  have "zset_pre q (snd (redis_window_check lim r z))" if q: "q \<in> set rs" for q
  proof -
    have notin: "snd r \<notin> snd ` set rs" and "fst r \<le> fst q" and "zset_pre q z"
      using Cons.prems q by auto
    moreover have "snd q \<noteq> snd r" using notin q by (metis imageI)
    ultimately show ?thesis
      using sub redis_window_check_entries(2) [OF r] by (auto simp: zset_pre_def)
  qed
  then show ?case using Cons.IH Cons.prems r by simp
qed simp

text \<open>
  C15. The Redis script keeps the same promise for a key: with members that are all different
  and a server clock that does not run backwards, no half-open window of 1000 milliseconds
  holds more than \<open>limit\<close> admissions; letting the key expire never forgets one that counts.
\<close>

theorem redis_limiter_window:
  assumes "sorted (map fst rs)" and "distinct (map snd rs)"
  shows "length (filter (\<lambda>x. x \<le> z \<and> z < x + 1000)
      (fst (window_run (redis_window_check (int limit)) fst rs \<lparr>z_entries = [], z_expires = None\<rparr>)))
    \<le> limit"
proof -
  have "window_pre (redis_window_check (int limit)) zset_pre rs \<lparr>z_entries = [], z_expires = None\<rparr>"
    using assms by (intro zset_pre_run) (auto simp: zset_pre_def zset_covered_def)
  from redis_window.window_bound [OF assms(1) this, of z] show ?thesis
    by (simp add: redis_keep_def zset_live_def)
qed

theorem redis_limiter_window_witness:
  "length (filter (\<lambda>x. x \<le> 5 \<and> (5::nat) < x + 1000)
     (fst (window_run (redis_window_check (int 1)) fst [(4, ''a''), (5, ''b'')]
        \<lparr>z_entries = [], z_expires = None\<rparr>))) \<le> 1"
  using redis_limiter_window [of "[(4, ''a''), (5, ''b'')]" 5 1] by simp

text \<open>
  C16. \<open>X-Forwarded-For\<close> is believed only from a trusted proxy: whenever the limiter buckets a
  request under an address other than the peer's, some trusted network contains the peer and
  that address is what the leftmost entry of the header says.
\<close>

theorem xff_only_from_trusted:
  assumes "effective_client_ip contains parse_v6 peer hs trusted = ip" and "ip \<noteq> peer"
  shows "(\<exists>n\<in>set trusted. contains n peer)
    \<and> (\<exists>raw. header_str hs ''x-forwarded-for'' = Some raw
         \<and> parse_ip parse_v6 (str_trim (takeWhile (\<lambda>c. c \<noteq> CHR '','') raw)) = Some ip)"
proof -
  have trusted: "list_ex (\<lambda>n. contains n peer) trusted"
    using assms by (auto simp: effective_client_ip_def split: if_splits)
  with assms obtain raw where raw: "header_str hs ''x-forwarded-for'' = Some raw"
    by (auto simp: effective_client_ip_def split: option.splits)
  obtain first rest where sp: "split_on (CHR '','') raw = first # rest"
    using split_on_ne [of "CHR '',''" raw] by (cases "split_on (CHR '','') raw") auto
  then have "first = takeWhile (\<lambda>c. c \<noteq> CHR '','') raw" using hd_split_on [of "CHR '',''" raw] by simp
  moreover from trusted raw sp assms have "parse_ip parse_v6 (str_trim first) = Some ip"
    by (auto simp: effective_client_ip_def split: option.splits)
  ultimately show ?thesis using trusted raw by (auto simp: list_ex_iff)
qed

theorem xff_only_from_trusted_witness:
  "effective_client_ip (\<lambda>_ _. True) (\<lambda>_. None) (V4 1) [(''x-forwarded-for'', ''0.0.0.7, 10.0.0.2'')] [()]
     = V4 7
   \<and> (\<exists>n\<in>set [()]. True)"
proof -
  have e: "effective_client_ip (\<lambda>(_ :: unit) _. True) (\<lambda>_. None) (V4 1)
      [(''x-forwarded-for'', ''0.0.0.7, 10.0.0.2'')] [()] = V4 7"
    by code_simp
  show ?thesis using e xff_only_from_trusted [OF e] by simp
qed

end
