(* ===== verification/Workspace_Concurrency.thy ===== *)
theory Workspace_Concurrency
  imports Gateway_Prelude In_Flight_Limit
begin

text \<open>
  Approximate per-workspace in-flight counts on Redis (\<open>middleware/workspace_concurrency\<close>) with
  the command pair \<open>AppRedis::incr_and_expire\<close> of \<open>app_redis.rs\<close>. The layer only counts: it
  never refuses a request. A request passes through three stages: the increment, the inner
  service, and, when the response was wrapped, the release of its body.

  \<open>up1\<close> and \<open>up2\<close> say whether the two commands of the increment reach Redis; \<open>show_uuid\<close>
  prints a workspace id.
\<close>

definition ws_key_prefix :: string where "ws_key_prefix = ''lc:mq:rmt:concurrency:ws:''"

definition ws_ttl_secs :: nat where "ws_ttl_secs = 3600"

definition ws_redis_key :: "('uuid \<Rightarrow> string) \<Rightarrow> 'uuid \<Rightarrow> string" where
  "ws_redis_key show_uuid w = ws_key_prefix @ show_uuid w"

text \<open>The workspace of a request: its organisation, or the nil id without authentication.\<close>

definition ws_of_request :: "'uuid \<Rightarrow> 'uuid option \<Rightarrow> 'uuid" where
  "ws_of_request nil_uuid auth_org = (case auth_org of None \<Rightarrow> nil_uuid | Some w \<Rightarrow> w)"

definition incr_and_expire ::
  "nat \<Rightarrow> bool \<Rightarrow> bool \<Rightarrow> nat \<Rightarrow> redis_db \<Rightarrow> string \<Rightarrow> (unit, unit) result \<times> redis_db" where
  "incr_and_expire now up1 up2 ttl db k =
     (if \<not> up1 then (Err (), db)
      else (let db1 = snd (redis_incr now db k)
            in if \<not> up2 then (Err (), db1) else (Ok (), redis_expire now ttl db1 k)))"

definition ws_incr_refresh_ttl ::
  "nat \<Rightarrow> bool \<Rightarrow> bool \<Rightarrow> redis_db \<Rightarrow> string \<Rightarrow> (unit, unit) result \<times> redis_db" where
  "ws_incr_refresh_ttl now up1 up2 db k = incr_and_expire now up1 up2 ws_ttl_secs db k"

definition ws_decr_floor_refresh_ttl ::
  "nat \<Rightarrow> bool \<Rightarrow> redis_db \<Rightarrow> string \<Rightarrow> (unit, unit) result \<times> redis_db" where
  "ws_decr_floor_refresh_ttl now up db k =
     (if up then (Ok (), snd (decr_floor_script now ws_ttl_secs db k)) else (Err (), db))"

record ws_metrics =
  incr_ok :: nat
  incr_err :: nat
  decr_ok :: nat
  decr_err :: nat

text \<open>
  What the service hands back: the inner service's error, its response as it is, or its
  response with the body wrapped so that its end runs the release callback once.
\<close>

datatype ('e, 'r) ws_outcome = WsError 'e | WsPlain 'r | WsWrapped 'r counted_body

definition ws_call ::
  "bool \<Rightarrow> nat \<Rightarrow> bool \<Rightarrow> bool \<Rightarrow> string \<Rightarrow> ('e, 'r) result \<Rightarrow> ws_metrics \<Rightarrow> redis_db
     \<Rightarrow> ('e, 'r) ws_outcome \<times> ws_metrics \<times> redis_db" where
  "ws_call has_redis now up1 up2 key inner_result mt db =
     (if \<not> has_redis then
        ((case inner_result of Inl e \<Rightarrow> WsError e | Inr r \<Rightarrow> WsPlain r), mt, db)
      else
        (let (res, db1) = ws_incr_refresh_ttl now up1 up2 db key;
             mt1 = (if is_ok res then mt\<lparr>incr_ok := incr_ok mt + 1\<rparr>
                    else mt\<lparr>incr_err := incr_err mt + 1\<rparr>)
         in (case inner_result of
               Inl e \<Rightarrow> (WsError e, mt1, db1)
             | Inr r \<Rightarrow> if \<not> is_ok res then (WsPlain r, mt1, db1)
                         else (WsWrapped r counted_body_new, mt1, db1))))"

definition ws_on_release ::
  "nat \<Rightarrow> bool \<Rightarrow> string \<Rightarrow> ws_metrics \<Rightarrow> redis_db \<Rightarrow> ws_metrics \<times> redis_db" where
  "ws_on_release now up key mt db =
     (let (res, db1) = ws_decr_floor_refresh_ttl now up db key
      in (if is_ok res then mt\<lparr>decr_ok := decr_ok mt + 1\<rparr> else mt\<lparr>decr_err := decr_err mt + 1\<rparr>, db1))"

text \<open>The whole life of one request: the call, the polls of its body, and the release task.\<close>

definition ws_request ::
  "bool \<Rightarrow> nat \<Rightarrow> bool \<Rightarrow> bool \<Rightarrow> string \<Rightarrow> ('e, 'r) result \<Rightarrow> poll_frame_out list \<Rightarrow> nat \<Rightarrow> bool
     \<Rightarrow> ws_metrics \<Rightarrow> redis_db \<Rightarrow> ws_metrics \<times> redis_db" where
  "ws_request has_redis now up1 up2 key inner_result polls now' up' mt db =
     (case ws_call has_redis now up1 up2 key inner_result mt db of
        (WsWrapped r b, mt1, db1) \<Rightarrow>
          ((\<lambda>(m, d). ws_on_release now' up' key m d) ^^ body_life polls) (mt1, db1)
      | (_, mt1, db1) \<Rightarrow> (mt1, db1))"

subsection \<open>Counting lemmas\<close>

lemma ws_ttl_pos [simp]: "0 < ws_ttl_secs"
  by (simp add: ws_ttl_secs_def)

lemma redis_count_incr: "redis_count now k (snd (redis_incr now db k)) = redis_count now k db + 1"
  by (auto simp: redis_script_simps redis_count_def split: option.splits)

lemma redis_count_expire:
  "0 < ttl \<Longrightarrow> redis_count now k (redis_expire now ttl db k) = redis_count now k db"
  by (auto simp: redis_script_simps redis_count_def split: option.splits dest: redis_live_future)

lemma ws_incr_count:
  "redis_count now k (snd (ws_incr_refresh_ttl now up1 up2 db k)) =
     redis_count now k db + (if up1 then 1 else 0)"
  by (simp add: ws_incr_refresh_ttl_def incr_and_expire_def redis_count_incr redis_count_expire Let_def)

lemma ws_incr_ok: "is_ok (fst (ws_incr_refresh_ttl now up1 up2 db k)) \<longleftrightarrow> up1 \<and> up2"
  by (simp add: ws_incr_refresh_ttl_def incr_and_expire_def Let_def)

lemma ws_on_release_count:
  "0 < redis_count now k db \<Longrightarrow>
     redis_count now k (snd (ws_on_release now up k mt db)) =
       redis_count now k db - (if up then 1 else 0)"
  by (simp add: ws_on_release_def ws_decr_floor_refresh_ttl_def decr_floor_count)

lemma ws_call_cases:
  "ws_call True now up1 up2 key res mt db =
     (let mt1 = (if up1 \<and> up2 then mt\<lparr>incr_ok := incr_ok mt + 1\<rparr> else mt\<lparr>incr_err := incr_err mt + 1\<rparr>);
          db1 = snd (ws_incr_refresh_ttl now up1 up2 db key)
      in (case res of Inl e \<Rightarrow> (WsError e, mt1, db1)
          | Inr r \<Rightarrow> if up1 \<and> up2 then (WsWrapped r counted_body_new, mt1, db1)
                      else (WsPlain r, mt1, db1)))"
  using ws_incr_ok [of now up1 up2 db key]
  by (auto simp: ws_call_def Let_def split: prod.splits sum.splits)

lemma redis_count_later:
  assumes "now \<le> now'" and "now' < now + ttl"
  shows "redis_count now' k (redis_expire now ttl (snd (redis_incr now db k)) k) =
    redis_count now k db + 1"
  using assms by (auto simp: redis_script_simps redis_count_def split: option.splits dest: redis_live_future)

lemma ws_incr_count_later:
  "\<lbrakk>now \<le> now'; now' < now + ws_ttl_secs\<rbrakk> \<Longrightarrow>
     redis_count now' k (snd (ws_incr_refresh_ttl now True True db k)) = redis_count now k db + 1"
  by (simp add: ws_incr_refresh_ttl_def incr_and_expire_def redis_count_later Let_def)

lemma ws_request_db:
  "snd (ws_request True now up1 up2 key res polls now' up' mt db) =
     (let db1 = snd (ws_incr_refresh_ttl now up1 up2 db key)
      in if is_ok res \<and> up1 \<and> up2
         then snd (ws_on_release now' up' key (mt\<lparr>incr_ok := incr_ok mt + 1\<rparr>) db1) else db1)"
  by (cases res) (auto simp: ws_request_def ws_call_cases Let_def body_life_one)

subsection \<open>Properties\<close>

text \<open>
  C17. The exact effect of one whole request on its workspace's counter, when the body ends
  before the hour the increment gave the key: seen at the time the body ends, a request whose
  increment succeeded leaves the counter as it was before if the inner service succeeded and the
  decrement reached Redis, and one higher in every other case. When the increment failed, nothing is
  released later and the counter is one higher exactly if the first of the two commands went through.
\<close>

theorem ws_request_balance:
  assumes "0 \<le> redis_count now key db" and "now \<le> now'" and "now' < now + ws_ttl_secs"
  shows "redis_count now' key (snd (ws_request True now True True key res polls now' up' mt db)) =
      redis_count now key db + (if is_ok res \<and> up' then 0 else 1)
    \<and> (\<not> (up1 \<and> up2) \<longrightarrow>
        redis_count now key (snd (ws_request True now up1 up2 key res polls now' up' mt db)) =
          redis_count now key db + (if up1 then 1 else 0))"
  using assms
  by (auto simp: ws_request_db Let_def ws_incr_count ws_incr_count_later ws_on_release_count)

theorem ws_request_balance_witness:
  "redis_count 60 ''w'' (snd (ws_request True 0 True True ''w'' (Inr () :: (unit, unit) result) [PollEnd] 60 True
     \<lparr>incr_ok = 0, incr_err = 0, decr_ok = 0, decr_err = 0\<rparr> Map.empty)) = 0"
proof -
  have z: "redis_count 0 ''w'' Map.empty = 0" by (simp add: redis_count_def redis_get_def redis_live_def)
  then have nn: "0 \<le> redis_count 0 ''w'' Map.empty" by simp
  have t: "(60::nat) < 0 + ws_ttl_secs" by (simp add: ws_ttl_secs_def)
  show ?thesis
    using ws_request_balance [OF nn _ t, of "Inr () :: (unit, unit) result" "[PollEnd]" True
        "\<lparr>incr_ok = 0, incr_err = 0, decr_ok = 0, decr_err = 0\<rparr>"] z by simp
qed

text \<open>
  A request that the inner service answers with an error keeps its place in the count: its
  increment has been made, no body is wrapped, and so no release is ever scheduled.
\<close>

theorem ws_inner_error_leaks:
  "fst (ws_call True now True True key (Inl e) mt db) = WsError e
   \<and> redis_count now key (snd (snd (ws_call True now True True key (Inl e) mt db))) =
       redis_count now key db + 1"
  by (simp add: ws_call_cases Let_def ws_incr_count)

end
