(* ===== verification/Providers.thy ===== *)
theory Providers
  imports Gateway_Prelude
begin

text \<open>
  Inference providers and their names (\<open>types/provider.rs\<close>), with the store of provider keys
  per organisation. A provider is written in three ways: the text of requests and configuration
  (\<open>FromStr\<close>), the display text (\<open>AsRef\<close>) and the code of the database (\<open>as_provider_code\<close>).
\<close>

datatype InferenceProvider =
    OpenAI | Anthropic | Bedrock | Ollama | GoogleGemini | Custom | Named string

datatype ProviderError = InvalidProviderName string

definition provider_as_ref :: "InferenceProvider \<Rightarrow> string" where
  "provider_as_ref p =
     (case p of
        Named n \<Rightarrow> n
      | OpenAI \<Rightarrow> ''openai''
      | Anthropic \<Rightarrow> ''anthropic''
      | Bedrock \<Rightarrow> ''bedrock''
      | Ollama \<Rightarrow> ''ollama''
      | GoogleGemini \<Rightarrow> ''gemini''
      | Custom \<Rightarrow> ''custom'')"

definition as_provider_code :: "InferenceProvider \<Rightarrow> string" where
  "as_provider_code p = (case p of GoogleGemini \<Rightarrow> ''google'' | _ \<Rightarrow> provider_as_ref p)"

text \<open>The codes of the database seed that stand for themselves.\<close>

definition db_provider_codes :: "string list" where
  "db_provider_codes =
     [''ai21'', ''aion-labs'', ''alfredpros'', ''alibaba'', ''allenai'', ''alpindale'',
      ''anthracite-org'', ''arcee-ai'', ''baidu'', ''bytedance'', ''bytedance-seed'',
      ''cognitivecomputations'', ''cohere'', ''deepcogito'', ''deepseek'', ''eleutherai'',
      ''essentialai'', ''gryphe'', ''groq'', ''hyperbolic'', ''ibm-granite'', ''inception'',
      ''inflection'', ''kwaipilot'', ''liquid'', ''mancer'', ''meituan'', ''meta-llama'',
      ''microsoft'', ''minimax'', ''mistral'', ''mistralai'', ''moonshotai'', ''morph'',
      ''nex-agi'', ''nousresearch'', ''nvidia'', ''openrouter'', ''perplexity'',
      ''prime-intellect'', ''qwen'', ''reka'', ''rekaai'', ''relace'', ''sao10k'', ''stepfun'',
      ''switchpoint'', ''tencent'', ''thedrummer'', ''tngtech'', ''undi95'', ''upstage'',
      ''writer'', ''x-ai'', ''xiaomi'', ''z-ai'']"

text \<open>The arms of the match in \<open>from_provider_code\<close> with a provider of their own.\<close>

definition provider_aliases :: "(string \<times> InferenceProvider) list" where
  "provider_aliases =
     [(''openai'', OpenAI), (''anthropic'', Anthropic),
      (''aws bedrock'', Bedrock), (''bedrock'', Bedrock), (''amazon'', Bedrock),
      (''ollama'', Ollama),
      (''google'', GoogleGemini), (''google ai (gemini)'', GoogleGemini), (''gemini'', GoogleGemini),
      (''custom'', Custom),
      (''mistral ai'', Named ''mistral''), (''zai'', Named ''z-ai''),
      (''x.ai (grok)'', Named ''x-ai''), (''xai'', Named ''x-ai'')]"

definition from_provider_code :: "string \<Rightarrow> (ProviderError, InferenceProvider) result" where
  "from_provider_code provider_name =
     (let normalized = to_ascii_lowercase (str_trim provider_name)
      in case map_of provider_aliases normalized of
           Some p \<Rightarrow> Ok p
         | None \<Rightarrow> if normalized \<in> set db_provider_codes then Ok (Named normalized)
                    else Err (InvalidProviderName provider_name))"

definition skips_model_mapping_catalog :: "InferenceProvider \<Rightarrow> bool" where
  "skips_model_mapping_catalog p = (case p of Named n \<Rightarrow> n = ''openrouter'' | _ \<Rightarrow> False)"

text \<open>\<open>FromStr\<close> cannot fail: an unknown name is a named provider.\<close>

definition provider_from_str :: "string \<Rightarrow> InferenceProvider" where
  "provider_from_str s =
     (let normalized = str_trim s
      in case from_provider_code normalized of Inr p \<Rightarrow> p | Inl _ \<Rightarrow> Named normalized)"

subsection \<open>Provider keys\<close>

datatype ProviderKey = SecretKey string | AwsCredentials string string | NotRequired

definition as_secret :: "ProviderKey \<Rightarrow> string option" where
  "as_secret k = (case k of SecretKey s \<Rightarrow> Some s | _ \<Rightarrow> None)"

definition as_aws_credentials :: "ProviderKey \<Rightarrow> string option \<times> string option" where
  "as_aws_credentials k = (case k of AwsCredentials a s \<Rightarrow> (Some a, Some s) | _ \<Rightarrow> (None, None))"

type_synonym provider_key_map = "InferenceProvider \<rightharpoonup> ProviderKey"
type_synonym 'org provider_keys = "'org \<rightharpoonup> provider_key_map"

definition set_all_provider_keys :: "'org provider_keys \<Rightarrow> 'org provider_keys \<Rightarrow> 'org provider_keys" where
  "set_all_provider_keys new old = new"

definition set_org_provider_keys ::
  "'org \<Rightarrow> provider_key_map \<Rightarrow> 'org provider_keys \<Rightarrow> 'org provider_keys" where
  "set_org_provider_keys org ks keys = keys(org \<mapsto> ks)"

definition get_provider_key ::
  "InferenceProvider \<Rightarrow> 'org option \<Rightarrow> 'org provider_keys \<Rightarrow> ProviderKey option" where
  "get_provider_key p org keys =
     (case org of None \<Rightarrow> None
      | Some i \<Rightarrow> (case keys i of None \<Rightarrow> None | Some m \<Rightarrow> m p))"

subsection \<open>Lemmas on names\<close>

lemma trim_start_head: "trim_start s = [] \<or> \<not> is_ascii_whitespace (hd (trim_start s))"
  by (metis hd_dropWhile trim_start_def)

lemma trim_start_fix: "s = [] \<or> \<not> is_ascii_whitespace (hd s) \<Longrightarrow> trim_start s = s"
  by (cases s) (auto simp: trim_start_def)

lemma trim_start_suffix: "\<exists>p. s = p @ trim_start s"
  unfolding trim_start_def by (metis takeWhile_dropWhile_id)

lemma str_trim_ends:
  assumes "str_trim s \<noteq> []"
  shows "\<not> is_ascii_whitespace (hd (str_trim s))" and "\<not> is_ascii_whitespace (last (str_trim s))"
proof -
  let ?t = "trim_start s" and ?r = "trim_start (rev (trim_start s))"
  have st: "str_trim s = rev ?r" by (simp add: str_trim_def)
  with assms have rne: "?r \<noteq> []" by auto
  then show "\<not> is_ascii_whitespace (last (str_trim s))"
    using trim_start_head [of "rev ?t"] by (simp add: st last_rev)
  obtain p where p: "rev ?t = p @ ?r" using trim_start_suffix by blast
  then have "?t = rev ?r @ rev p" by (metis rev_append rev_rev_ident)
  then have "hd (rev ?r) = hd ?t" using rne by (metis hd_append2 rev_is_Nil_conv)
  moreover have "?t \<noteq> []" using \<open>?t = rev ?r @ rev p\<close> rne by auto
  ultimately show "\<not> is_ascii_whitespace (hd (str_trim s))"
    using trim_start_head [of s] by (simp add: st)
qed

lemma str_trim_fix:
  assumes "s = [] \<or> (\<not> is_ascii_whitespace (hd s) \<and> \<not> is_ascii_whitespace (last s))"
  shows "str_trim s = s"
  using assms by (auto simp: str_trim_def trim_start_fix hd_rev)

lemma str_trim_idem [simp]: "str_trim (str_trim s) = str_trim s"
  using str_trim_ends [of s] by (intro str_trim_fix) blast

lemma db_codes_normal:
  "c \<in> set db_provider_codes \<Longrightarrow>
     to_ascii_lowercase c = c \<and> str_trim c = c \<and> map_of provider_aliases c = None"
proof -
  have "list_all (\<lambda>c. to_ascii_lowercase c = c \<and> str_trim c = c
      \<and> map_of provider_aliases c = None) db_provider_codes"
    by code_simp
  then show "c \<in> set db_provider_codes \<Longrightarrow> ?thesis" by (simp add: list_all_iff)
qed

lemma alias_codes_normal:
  "p \<in> snd ` set provider_aliases \<Longrightarrow>
     from_provider_code (provider_as_ref p) = Inr p \<and> str_trim (provider_as_ref p) = provider_as_ref p
     \<and> from_provider_code (as_provider_code p) = Inr p"
proof -
  have "list_all (\<lambda>p. from_provider_code (provider_as_ref p) = Inr p
      \<and> str_trim (provider_as_ref p) = provider_as_ref p
      \<and> from_provider_code (as_provider_code p) = Inr p) (map snd provider_aliases)"
    by code_simp
  then show "p \<in> snd ` set provider_aliases \<Longrightarrow> ?thesis" by (auto simp: list_all_iff)
qed

lemma from_provider_code_cases:
  assumes "from_provider_code s = Inr p"
  shows "p \<in> snd ` set provider_aliases \<or> (\<exists>c \<in> set db_provider_codes. p = Named c)"
  using assms by (auto simp: from_provider_code_def Let_def image_iff
      split: option.splits if_splits dest!: map_of_SomeD) force

lemma from_provider_code_db:
  "c \<in> set db_provider_codes \<Longrightarrow> from_provider_code c = Inr (Named c)"
  using db_codes_normal [of c] by (simp add: from_provider_code_def Let_def)

lemma from_provider_code_fix:
  assumes "from_provider_code s = Inr p"
  shows "from_provider_code (provider_as_ref p) = Inr p" and "str_trim (provider_as_ref p) = provider_as_ref p"
    and "from_provider_code (as_provider_code p) = Inr p"
  using from_provider_code_cases [OF assms] alias_codes_normal [of p]
  by (auto simp: from_provider_code_db db_codes_normal provider_as_ref_def as_provider_code_def)

lemma from_provider_code_trim:
  "is_ok (from_provider_code (str_trim s)) = is_ok (from_provider_code s)"
  by (simp add: from_provider_code_def Let_def split: option.splits)

lemma provider_from_str_as_ref:
  "provider_from_str (provider_as_ref (provider_from_str s)) = provider_from_str s"
proof (cases "from_provider_code (str_trim s)")
  case (Inl e)
  then show ?thesis by (simp add: provider_from_str_def provider_as_ref_def)
next
  case (Inr p)
  then show ?thesis using from_provider_code_fix [OF Inr] by (simp add: provider_from_str_def)
qed

subsection \<open>Properties\<close>

text \<open>
  C18. Provider names are canonical after one reading: whatever text a provider was read from, its
  display text reads back as the same provider, and if the text was one of the known codes, so
  does the code under which the database knows it. Reading never depends on case or surrounding
  blanks of a known code.
\<close>

theorem provider_names_roundtrip:
  "provider_from_str (provider_as_ref (provider_from_str s)) = provider_from_str s
   \<and> (is_ok (from_provider_code s) \<longrightarrow>
        from_provider_code (as_provider_code (provider_from_str s)) = Inr (provider_from_str s))
   \<and> (to_ascii_lowercase (str_trim s') = to_ascii_lowercase (str_trim s) \<and> is_ok (from_provider_code s) \<longrightarrow>
        provider_from_str s' = provider_from_str s)"
proof (intro conjI impI)
  show "provider_from_str (provider_as_ref (provider_from_str s)) = provider_from_str s"
    by (rule provider_from_str_as_ref)
next
  assume "is_ok (from_provider_code s)"
  then have "is_ok (from_provider_code (str_trim s))" by (simp add: from_provider_code_trim)
  then obtain p where p: "from_provider_code (str_trim s) = Inr p" by (cases "from_provider_code (str_trim s)") auto
  then show "from_provider_code (as_provider_code (provider_from_str s)) = Inr (provider_from_str s)"
    using from_provider_code_fix(3) [OF p] by (simp add: provider_from_str_def)
next
  assume "to_ascii_lowercase (str_trim s') = to_ascii_lowercase (str_trim s) \<and> is_ok (from_provider_code s)"
  then show "provider_from_str s' = provider_from_str s"
    by (auto simp: provider_from_str_def from_provider_code_def Let_def split: option.splits if_splits)
qed

theorem provider_names_roundtrip_witness:
  "provider_from_str ''google'' = GoogleGemini \<and> provider_from_str '' Google AI (Gemini) '' = GoogleGemini
   \<and> from_provider_code (as_provider_code (provider_from_str ''gemini'')) = Inr (provider_from_str ''gemini'')"
proof -
  have a: "provider_from_str ''google ai (gemini)'' = GoogleGemini" by code_simp
  have b: "to_ascii_lowercase (str_trim '' Google AI (Gemini) '') = to_ascii_lowercase (str_trim ''google ai (gemini)'')"
    by code_simp
  have c: "is_ok (from_provider_code ''google ai (gemini)'')" "is_ok (from_provider_code ''gemini'')" by code_simp+
  have d: "provider_from_str ''google'' = GoogleGemini" by code_simp
  have e: "provider_from_str '' Google AI (Gemini) '' = provider_from_str ''google ai (gemini)''"
    using provider_names_roundtrip [THEN conjunct2, THEN conjunct2, rule_format, OF conjI, OF b c(1)] .
  have f: "from_provider_code (as_provider_code (provider_from_str ''gemini'')) = Inr (provider_from_str ''gemini'')"
    using provider_names_roundtrip [THEN conjunct2, THEN conjunct1, rule_format, OF c(2)] .
  show ?thesis unfolding e a d f by (intro conjI refl)
qed

end
