(* ===== verification/Model_Id.thy ===== *)
theory Model_Id
  imports Gateway_Prelude Providers
begin

text \<open>
  Model identifiers (\<open>types/model_id.rs\<close>): the \<open>{provider}/{model}\<close> text of requests, the
  version suffix of a model name, and the formats of Bedrock and Ollama.

  Dates come from a calendar library outside the repository: the record \<open>calendar\<close> holds what the
  code calls of it (\<open>NaiveDate::parse_from_str\<close> with its pattern, the formatting of a date with a
  pattern, and the current year). Positions are counted in characters, as in ASCII text.
\<close>

record 'd calendar =
  nd_parse :: "string \<Rightarrow> string \<Rightarrow> 'd option"
  nd_format :: "'d \<Rightarrow> string \<Rightarrow> string"
  current_year :: string

datatype 'd Version =
    ImplicitLatest | Latest | Preview
  | DateVersionedPreview 'd string
  | Date 'd string

datatype MapperError = InvalidModelName string | ProviderNotSupported string

definition version_display :: "'d calendar \<Rightarrow> 'd Version \<Rightarrow> string" where
  "version_display cal v =
     (case v of
        ImplicitLatest \<Rightarrow> ''''
      | Latest \<Rightarrow> ''latest''
      | Preview \<Rightarrow> ''preview''
      | DateVersionedPreview d fmt \<Rightarrow> ''preview-'' @ nd_format cal d fmt
      | Date d fmt \<Rightarrow> nd_format cal d fmt)"

definition parse_date :: "'d calendar \<Rightarrow> string \<Rightarrow> ('d \<times> string) option" where
  "parse_date cal inp =
     (case nd_parse cal inp ''%Y-%m-%d'' of Some d \<Rightarrow> Some (d, ''%Y-%m-%d'') | None \<Rightarrow>
      (case nd_parse cal inp ''%Y%m%d'' of Some d \<Rightarrow> Some (d, ''%Y%m%d'') | None \<Rightarrow>
       (case nd_parse cal (current_year cal @ ''-'' @ inp) ''%Y-%m-%d'' of Some d \<Rightarrow> Some (d, ''%m-%d'') | None \<Rightarrow>
        (case nd_parse cal (current_year cal @ inp) ''%Y%m%d'' of Some d \<Rightarrow> Some (d, ''%m%d'') | None \<Rightarrow>
         None))))"

definition version_from_str :: "'d calendar \<Rightarrow> string \<Rightarrow> (MapperError, 'd Version) result" where
  "version_from_str cal inp =
     (if eq_ignore_ascii_case inp ''latest'' then Ok Latest
      else if eq_ignore_ascii_case inp ''preview'' then Ok Preview
      else (case strip_prefix ''preview-'' inp of
              Some rest \<Rightarrow> (case parse_date cal rest of
                 Some (d, fmt) \<Rightarrow> Ok (DateVersionedPreview d fmt)
               | None \<Rightarrow> Err (InvalidModelName inp))
            | None \<Rightarrow> (case parse_date cal inp of
                 Some (d, fmt) \<Rightarrow> Ok (Date d fmt)
               | None \<Rightarrow> if inp = [] then Ok ImplicitLatest else Err (InvalidModelName inp))))"

text \<open>
  The places a version may start: every separator but one that ends the text. They are collected
  from the right and then reversed, so the longest candidate comes first.
\<close>

definition version_candidates :: "char \<Rightarrow> string \<Rightarrow> (nat \<times> string) list" where
  "version_candidates sep s =
     rev (map (\<lambda>i. (i, drop (i + 1) s))
            (filter (\<lambda>i. s ! i = sep \<and> i \<noteq> length s - 1) (rev [0..<length s])))"

fun full_date_candidate :: "'d calendar \<Rightarrow> (nat \<times> string) list \<Rightarrow> (nat \<times> 'd Version) option" where
  "full_date_candidate cal [] = None"
| "full_date_candidate cal ((idx, candidate) # cs) =
     (case parse_date cal candidate of
        Some (d, fmt) \<Rightarrow>
          if fmt = ''%Y-%m-%d'' \<or> fmt = ''%Y%m%d'' then Some (idx, Date d fmt)
          else full_date_candidate cal cs
      | None \<Rightarrow> full_date_candidate cal cs)"

fun any_version_candidate :: "'d calendar \<Rightarrow> (nat \<times> string) list \<Rightarrow> (nat \<times> 'd Version) option" where
  "any_version_candidate cal [] = None"
| "any_version_candidate cal ((idx, candidate) # cs) =
     (case parse_date cal candidate of
        Some (d, fmt) \<Rightarrow> Some (idx, Date d fmt)
      | None \<Rightarrow>
          if eq_ignore_ascii_case candidate ''latest'' then Some (idx, Latest)
          else if eq_ignore_ascii_case candidate ''preview'' then Some (idx, Preview)
          else any_version_candidate cal cs)"

definition dated_preview :: "'d calendar \<Rightarrow> string \<Rightarrow> (string \<times> 'd Version) option" where
  "dated_preview cal s =
     (case str_rfind ''-preview-'' s of None \<Rightarrow> None
      | Some pos \<Rightarrow> (case parse_date cal (drop (pos + 9) s) of None \<Rightarrow> None
         | Some (d, fmt) \<Rightarrow> Some (take pos s, DateVersionedPreview d fmt)))"

definition parse_model_and_version ::
  "'d calendar \<Rightarrow> string \<Rightarrow> char \<Rightarrow> string \<times> 'd Version option" where
  "parse_model_and_version cal s sep =
     (case dated_preview cal s of Some (model, v) \<Rightarrow> (model, Some v) | None \<Rightarrow>
      (case strip_suffix ''-preview'' s of Some model \<Rightarrow> (model, Some Preview) | None \<Rightarrow>
       (case strip_suffix ''-latest'' s of Some model \<Rightarrow> (model, Some Latest) | None \<Rightarrow>
        (let candidates = version_candidates sep s
         in case full_date_candidate cal candidates of
              Some (idx, v) \<Rightarrow> (take idx s, Some v)
            | None \<Rightarrow> (case any_version_candidate cal candidates of
                 Some (idx, v) \<Rightarrow> (take idx s, Some v)
               | None \<Rightarrow> (s, None))))))"

subsection \<open>The three formats\<close>

record 'd ModelIdWithVersion =
  mv_model :: string
  mv_version :: "'d Version"

definition model_version_from_str ::
  "'d calendar \<Rightarrow> string \<Rightarrow> (MapperError, 'd ModelIdWithVersion) result" where
  "model_version_from_str cal s =
     (if s = [] then Err (InvalidModelName ''Model name cannot be empty'')
      else if last s = CHR ''-'' then Err (InvalidModelName ''Model name cannot end with dash'')
      else if last s = CHR ''.'' then Err (InvalidModelName ''Model name cannot end with dot'')
      else if last s = CHR ''@'' then Err (InvalidModelName ''Model name cannot end with @ symbol'')
      else (let (model, version) = parse_model_and_version cal s (CHR ''-'')
            in Ok \<lparr>mv_model = model,
                   mv_version = (case version of None \<Rightarrow> ImplicitLatest | Some v \<Rightarrow> v)\<rparr>))"

definition model_version_display :: "'d calendar \<Rightarrow> 'd ModelIdWithVersion \<Rightarrow> string" where
  "model_version_display cal m =
     (case mv_version m of ImplicitLatest \<Rightarrow> mv_model m
      | v \<Rightarrow> mv_model m @ ''-'' @ version_display cal v)"

record OllamaModelId =
  ol_model :: string
  ol_tag :: "string option"

text \<open>\<open>splitn(2, ':')\<close> always yields a first piece, so the error of the code never arises.\<close>

definition ollama_from_str :: "string \<Rightarrow> (MapperError, OllamaModelId) result" where
  "ollama_from_str s =
     (case split_once (CHR '':'') s of
        None \<Rightarrow> Ok \<lparr>ol_model = s, ol_tag = None\<rparr>
      | Some (model, t) \<Rightarrow> Ok \<lparr>ol_model = model, ol_tag = (if t \<noteq> [] then Some t else None)\<rparr>)"

definition ollama_display :: "OllamaModelId \<Rightarrow> string" where
  "ollama_display m =
     (case ol_tag m of Some t \<Rightarrow> ol_model m @ '':'' @ t | None \<Rightarrow> ol_model m)"

record 'd BedrockModelId =
  br_geo :: "string option"
  br_provider :: string
  br_model :: string
  br_version :: "'d Version"
  br_internal_version :: string

definition bedrock_parts :: "string \<Rightarrow> (MapperError, string option \<times> string \<times> string) result" where
  "bedrock_parts s =
     (let dot_count = length (filter (\<lambda>c. c = CHR ''.'') s)
      in if dot_count \<ge> 2 then
           (case split_once (CHR ''.'') s of None \<Rightarrow> Err (InvalidModelName s)
            | Some (geo, r) \<Rightarrow> (case split_once (CHR ''.'') r of None \<Rightarrow> Err (InvalidModelName s)
               | Some (provider, rest) \<Rightarrow> Ok (Some geo, provider, rest)))
         else if dot_count = 1 then
           (case split_once (CHR ''.'') s of None \<Rightarrow> Err (InvalidModelName s)
            | Some (provider, rest) \<Rightarrow> Ok (None, provider, rest))
         else Err (InvalidModelName s))"

definition bedrock_from_str :: "'d calendar \<Rightarrow> string \<Rightarrow> (MapperError, 'd BedrockModelId) result" where
  "bedrock_from_str cal s =
     try_bind (bedrock_parts s) (\<lambda>(geo, provider, rest).
       (case str_rfind ''-v'' rest of None \<Rightarrow> Err (InvalidModelName s)
        | Some v_pos \<Rightarrow>
            (let (model, version) = parse_model_and_version cal (take v_pos rest) (CHR ''-'')
             in Ok \<lparr>br_geo = geo, br_provider = provider, br_model = model,
                    br_version = (case version of None \<Rightarrow> ImplicitLatest | Some v \<Rightarrow> v),
                    br_internal_version = drop (v_pos + 1) rest\<rparr>)))"

definition bedrock_display :: "'d calendar \<Rightarrow> 'd BedrockModelId \<Rightarrow> string" where
  "bedrock_display cal b =
     (case (br_geo b, br_version b) of
        (Some geo, ImplicitLatest) \<Rightarrow>
          geo @ ''.'' @ br_provider b @ ''.'' @ br_model b @ ''-'' @ br_internal_version b
      | (Some geo, version) \<Rightarrow>
          geo @ ''.'' @ br_provider b @ ''.'' @ br_model b @ ''-'' @ version_display cal version
            @ ''-'' @ br_internal_version b
      | (None, ImplicitLatest) \<Rightarrow>
          br_provider b @ ''.'' @ br_model b @ ''-'' @ br_internal_version b
      | (None, version) \<Rightarrow>
          br_provider b @ ''.'' @ br_model b @ ''-'' @ version_display cal version
            @ ''-'' @ br_internal_version b)"

subsection \<open>Model ids\<close>

datatype 'd ModelId =
    ModelIdWithVersion InferenceProvider "'d ModelIdWithVersion"
  | BedrockModel "'d BedrockModelId"
  | OllamaModel OllamaModelId
  | UnknownModel string

definition from_str_and_provider ::
  "'d calendar \<Rightarrow> InferenceProvider \<Rightarrow> string \<Rightarrow> (MapperError, 'd ModelId) result" where
  "from_str_and_provider cal request_style s =
     (case request_style of
        OpenAI \<Rightarrow> try_bind (model_version_from_str cal s) (\<lambda>m. Ok (ModelIdWithVersion OpenAI m))
      | Anthropic \<Rightarrow> try_bind (model_version_from_str cal s) (\<lambda>m. Ok (ModelIdWithVersion Anthropic m))
      | Bedrock \<Rightarrow> try_bind (bedrock_from_str cal s) (\<lambda>m. Ok (BedrockModel m))
      | Ollama \<Rightarrow> try_bind (ollama_from_str s) (\<lambda>m. Ok (OllamaModel m))
      | GoogleGemini \<Rightarrow> try_bind (model_version_from_str cal s) (\<lambda>m. Ok (ModelIdWithVersion GoogleGemini m))
      | Custom \<Rightarrow> try_bind (model_version_from_str cal s) (\<lambda>m. Ok (ModelIdWithVersion Custom m))
      | Named name \<Rightarrow> try_bind (model_version_from_str cal s) (\<lambda>m. Ok (ModelIdWithVersion (Named name) m)))"

definition inference_provider :: "'d ModelId \<Rightarrow> InferenceProvider option" where
  "inference_provider m =
     (case m of ModelIdWithVersion p _ \<Rightarrow> Some p | BedrockModel _ \<Rightarrow> Some Bedrock
      | OllamaModel _ \<Rightarrow> Some Ollama | UnknownModel _ \<Rightarrow> None)"

definition as_model_name :: "'d ModelId \<Rightarrow> string" where
  "as_model_name m =
     (case m of ModelIdWithVersion _ i \<Rightarrow> mv_model i | BedrockModel b \<Rightarrow> br_model b
      | OllamaModel ol \<Rightarrow> ol_model ol | UnknownModel s \<Rightarrow> s)"

definition with_latest_version :: "'d ModelId \<Rightarrow> 'd ModelId" where
  "with_latest_version m =
     (case m of
        ModelIdWithVersion p i \<Rightarrow> ModelIdWithVersion p \<lparr>mv_model = mv_model i, mv_version = Latest\<rparr>
      | BedrockModel b \<Rightarrow> BedrockModel (b\<lparr>br_version := Latest\<rparr>)
      | OllamaModel ol \<Rightarrow> OllamaModel ol
      | UnknownModel s \<Rightarrow> UnknownModel s)"

definition model_id_display :: "'d calendar \<Rightarrow> 'd ModelId \<Rightarrow> string" where
  "model_id_display cal m =
     (case m of ModelIdWithVersion _ i \<Rightarrow> model_version_display cal i
      | BedrockModel b \<Rightarrow> bedrock_display cal b
      | OllamaModel ol \<Rightarrow> ollama_display ol
      | UnknownModel s \<Rightarrow> s)"

definition model_id_serialize :: "'d calendar \<Rightarrow> 'd ModelId \<Rightarrow> string" where
  "model_id_serialize cal m =
     (case inference_provider m of
        Some p \<Rightarrow> provider_as_ref p @ ''/'' @ model_id_display cal m
      | None \<Rightarrow> model_id_display cal m)"

definition model_id_from_str :: "'d calendar \<Rightarrow> string \<Rightarrow> (MapperError, 'd ModelId) result" where
  "model_id_from_str cal s =
     (case split_once (CHR ''/'') s of
        Some (provider_str, model_name) \<Rightarrow>
          if model_name = [] then Err (InvalidModelName ''Model name cannot be empty after provider'')
          else from_str_and_provider cal (provider_from_str provider_str) model_name
      | None \<Rightarrow> Err (InvalidModelName
          (''Model string must be in format '' @ [CHR 0x27] @ ''{provider}/{model_name}'' @ [CHR 0x27]
           @ '', got '' @ [CHR 0x27] @ s @ [CHR 0x27])))"

text \<open>
  \<open>ModelIdWithoutVersion\<close> wraps a model id with its own equality and hash. The hash is modelled by
  the sequence of values it feeds to the hasher.
\<close>

definition without_version_eq :: "'d ModelId \<Rightarrow> 'd ModelId \<Rightarrow> bool" where
  "without_version_eq a b =
     (case (a, b) of
        (ModelIdWithVersion p i, ModelIdWithVersion q j) \<Rightarrow> p = q \<and> mv_model i = mv_model j
      | (BedrockModel x, BedrockModel y) \<Rightarrow>
          br_provider x = br_provider y \<and> br_model x = br_model y
            \<and> br_internal_version x = br_internal_version y
      | (OllamaModel x, OllamaModel y) \<Rightarrow> ol_model x = ol_model y \<and> ol_tag x = ol_tag y
      | (UnknownModel x, UnknownModel y) \<Rightarrow> x = y
      | _ \<Rightarrow> False)"

datatype hashed = HashProvider InferenceProvider | HashStr string | HashOptStr "string option"

definition without_version_hash :: "'d ModelId \<Rightarrow> hashed list" where
  "without_version_hash m =
     (case m of
        ModelIdWithVersion p i \<Rightarrow> [HashProvider p, HashStr (mv_model i)]
      | BedrockModel b \<Rightarrow> [HashStr (br_provider b), HashStr (br_model b), HashStr (br_internal_version b)]
      | OllamaModel ol \<Rightarrow> [HashStr (ol_model ol), HashOptStr (ol_tag ol)]
      | UnknownModel s \<Rightarrow> [HashStr s])"


subsection \<open>Lemmas on versions\<close>

text \<open>A date never starts with a letter: what the code relies on of the calendar library.\<close>

definition is_letter :: "char \<Rightarrow> bool" where
  "is_letter c \<longleftrightarrow> (65 \<le> (of_char c :: nat) \<and> (of_char c :: nat) \<le> 90)
     \<or> (97 \<le> (of_char c :: nat) \<and> (of_char c :: nat) \<le> 122)"

definition dates_start_with_no_letter :: "'d calendar \<Rightarrow> bool" where
  "dates_start_with_no_letter cal \<longleftrightarrow>
     (\<forall>c s fmt. is_letter c \<longrightarrow>
        nd_parse cal (c # s) fmt = None
        \<and> nd_parse cal (current_year cal @ ''-'' @ c # s) ''%Y-%m-%d'' = None
        \<and> nd_parse cal (current_year cal @ c # s) ''%Y%m%d'' = None)"

lemma parse_date_letter:
  "\<lbrakk>dates_start_with_no_letter cal; is_letter c\<rbrakk> \<Longrightarrow> parse_date cal (c # s) = None"
  unfolding parse_date_def dates_start_with_no_letter_def by simp

lemma lower_head_letter:
  assumes "to_ascii_lowercase s = c # cs" and "is_letter c"
  obtains d ds where "s = d # ds" and "is_letter d"
proof -
  from assms(1) obtain d ds where s: "s = d # ds" and c: "ascii_lower d = c"
    by (auto simp: to_ascii_lowercase_def)
  have "is_letter d" using assms(2) c unfolding ascii_lower_def is_letter_def
    by (auto simp: Let_def split: if_splits)
  with s that show thesis by blast
qed

lemma parse_date_not_keyword:
  assumes "dates_start_with_no_letter cal" and "parse_date cal s = Some x"
  shows "\<not> eq_ignore_ascii_case s ''latest''" and "\<not> eq_ignore_ascii_case s ''preview''"
    and "strip_prefix ''preview-'' s = None"
proof -
  have no: "\<not> is_letter (hd s) \<or> s = []"
    using assms parse_date_letter by (cases s) fastforce+
  have l: "is_letter (CHR ''l'')" "is_letter (CHR ''p'')" by (simp_all add: is_letter_def)
  have low: "to_ascii_lowercase ''latest'' = ''latest''" "to_ascii_lowercase ''preview'' = ''preview''"
    by code_simp+
  show "\<not> eq_ignore_ascii_case s ''latest''"
    unfolding eq_ignore_ascii_case_def low using no l(1) by (metis list.sel(1) list.discI lower_head_letter)
  show "\<not> eq_ignore_ascii_case s ''preview''"
    unfolding eq_ignore_ascii_case_def low using no l(2) by (metis list.sel(1) list.discI lower_head_letter)
  show "strip_prefix ''preview-'' s = None"
    using no l(2) by (cases "strip_prefix ''preview-'' s") (auto simp: strip_prefix_Some)
qed

lemma parse_date_version:
  assumes "dates_start_with_no_letter cal" and "parse_date cal s = Some (d, fmt)"
  shows "version_from_str cal s = Inr (Date d fmt)"
  using parse_date_not_keyword [OF assms] assms(2) by (simp add: version_from_str_def)

lemma keyword_versions:
  "eq_ignore_ascii_case s ''latest'' \<Longrightarrow> version_from_str cal s = Inr Latest"
  "eq_ignore_ascii_case s ''preview'' \<Longrightarrow> version_from_str cal s = Inr Preview"
proof -
  have ne: "to_ascii_lowercase ''latest'' \<noteq> to_ascii_lowercase ''preview''" by code_simp
  show "eq_ignore_ascii_case s ''latest'' \<Longrightarrow> version_from_str cal s = Inr Latest"
    by (simp add: version_from_str_def)
  show "eq_ignore_ascii_case s ''preview'' \<Longrightarrow> version_from_str cal s = Inr Preview"
    using ne by (simp add: version_from_str_def eq_ignore_ascii_case_def)
qed

lemma dated_preview_version:
  assumes "parse_date cal s = Some (d, fmt)"
  shows "version_from_str cal (''preview-'' @ s) = Inr (DateVersionedPreview d fmt)"
proof -
  have "length (to_ascii_lowercase (''preview-'' @ s)) = 8 + length s"
    and "length (to_ascii_lowercase ''latest'') = 6" and "length (to_ascii_lowercase ''preview'') = 7"
    by (simp_all add: to_ascii_lowercase_def)
  then have "\<not> eq_ignore_ascii_case (''preview-'' @ s) ''latest''"
    and "\<not> eq_ignore_ascii_case (''preview-'' @ s) ''preview''"
    unfolding eq_ignore_ascii_case_def by (auto dest: arg_cong [where f = length])
  moreover have "strip_prefix ''preview-'' (''preview-'' @ s) = Some s"
    unfolding strip_prefix_Some ..
  ultimately show ?thesis using assms unfolding version_from_str_def by simp
qed

lemma version_candidates_mem:
  assumes "(i, c) \<in> set (version_candidates sep s)"
  shows "s = take i s @ sep # c" and "c \<noteq> []"
proof -
  from assms have i: "i < length s" "s ! i = sep" "i \<noteq> length s - 1" and c: "c = drop (i + 1) s"
    by (auto simp: version_candidates_def)
  show "s = take i s @ sep # c" using i c id_take_nth_drop [of i s] by simp
  show "c \<noteq> []" using i c by auto
qed

lemma full_date_candidate_mem:
  assumes "dates_start_with_no_letter cal" and "full_date_candidate cal cs = Some (i, v)"
  shows "\<exists>c. (i, c) \<in> set cs \<and> version_from_str cal c = Inr v"
  using assms(2)
proof (induction cs)
  case (Cons x cs)
  obtain j c where x: "x = (j, c)" by (cases x)
  show ?case
  proof (cases "full_date_candidate cal cs = Some (i, v)")
    case True
    with Cons.IH show ?thesis by auto
  next
    case False
    with Cons.prems x obtain d fmt where "parse_date cal c = Some (d, fmt)" "i = j" "v = Date d fmt"
      by (auto split: option.splits if_splits)
    with parse_date_version [OF assms(1)] x show ?thesis by auto
  qed
qed simp

lemma any_version_candidate_mem:
  assumes "dates_start_with_no_letter cal" and "any_version_candidate cal cs = Some (i, v)"
  shows "\<exists>c. (i, c) \<in> set cs \<and> version_from_str cal c = Inr v"
  using assms(2)
proof (induction cs)
  case (Cons x cs)
  obtain j c where x: "x = (j, c)" by (cases x)
  show ?case
  proof (cases "any_version_candidate cal cs = Some (i, v)")
    case True
    with Cons.IH show ?thesis by auto
  next
    case False
    have "i = j \<and> version_from_str cal c = Inr v"
    proof (cases "parse_date cal c")
      case None
      with Cons.prems x False show ?thesis by (simp add: keyword_versions split: if_splits)
    next
      case (Some y)
      obtain d fmt where y: "y = (d, fmt)" by (cases y)
      with Some Cons.prems x have "i = j \<and> v = Date d fmt" by simp
      with Some y show ?thesis by (simp add: parse_date_version [OF assms(1)])
    qed
    with x show ?thesis by auto
  qed
qed simp

text \<open>
  \<open>names_version cal s m v\<close>: the text \<open>s\<close> is the model \<open>m\<close> followed, when it has a version, by a dash
  and a text that reads as that version.
\<close>

definition names_version :: "'d calendar \<Rightarrow> string \<Rightarrow> string \<Rightarrow> 'd Version option \<Rightarrow> bool" where
  "names_version cal s m v \<longleftrightarrow>
     (case v of None \<Rightarrow> s = m
      | Some w \<Rightarrow> \<exists>suf. s = m @ CHR ''-'' # suf \<and> version_from_str cal suf = Inr w)"

lemma parse_model_and_version_names:
  assumes cal: "dates_start_with_no_letter cal"
    and p: "parse_model_and_version cal s (CHR ''-'') = (m, v)"
  shows "names_version cal s m v"
proof (cases "dated_preview cal s")
  case (Some y)
  then obtain pos d fmt where pos: "str_rfind ''-preview-'' s = Some pos"
    and d: "parse_date cal (drop (pos + 9) s) = Some (d, fmt)"
    and y: "y = (take pos s, DateVersionedPreview d fmt)"
    by (auto simp: dated_preview_def split: option.splits)
  have len9: "pos + length ''-preview-'' = pos + 9" by simp
  have "s = take pos s @ CHR ''-'' # (''preview-'' @ drop (pos + 9) s)"
    using str_rfind_split [OF pos, unfolded len9] by simp
  with Some y p dated_preview_version [OF d] show ?thesis
    unfolding names_version_def parse_model_and_version_def by auto
next
  case dn: None
  show ?thesis
  proof (cases "strip_suffix ''-preview'' s")
    case (Some r)
    then have "s = r @ CHR ''-'' # ''preview''" by (simp add: strip_suffix_Some)
    moreover have "version_from_str cal ''preview'' = Inr Preview"
      by (simp add: keyword_versions eq_ignore_ascii_case_def)
    ultimately show ?thesis using p dn Some
      unfolding names_version_def parse_model_and_version_def by auto
  next
    case pn: None
    show ?thesis
    proof (cases "strip_suffix ''-latest'' s")
      case (Some r)
      then have "s = r @ CHR ''-'' # ''latest''" by (simp add: strip_suffix_Some)
      moreover have "version_from_str cal ''latest'' = Inr Latest"
        by (simp add: keyword_versions eq_ignore_ascii_case_def)
      ultimately show ?thesis using p dn pn Some
        unfolding names_version_def parse_model_and_version_def by auto
    next
      case ln: None
      let ?cs = "version_candidates (CHR ''-'') s"
      have cand: "names_version cal s (take i s) (Some w)"
        if "\<exists>c. (i, c) \<in> set ?cs \<and> version_from_str cal c = Inr w" for i w
        using that version_candidates_mem(1) unfolding names_version_def by fastforce
      show ?thesis
        using p dn pn ln cand [OF full_date_candidate_mem [OF cal]] cand [OF any_version_candidate_mem [OF cal]]
        unfolding parse_model_and_version_def
        by (auto simp: Let_def names_version_def split: option.splits)
    qed
  qed
qed

lemma version_from_str_implicit: "version_from_str cal suf = Inr ImplicitLatest \<Longrightarrow> suf = []"
  by (auto simp: version_from_str_def split: if_splits option.splits)

lemma names_version_default:
  assumes "names_version cal s m v" and "s \<noteq> []" and "last s \<noteq> CHR ''-''"
  shows "(case v of None \<Rightarrow> ImplicitLatest | Some w \<Rightarrow> w) = ImplicitLatest \<and> s = m
    \<or> (case v of None \<Rightarrow> ImplicitLatest | Some w \<Rightarrow> w) \<noteq> ImplicitLatest
      \<and> (\<exists>suf. s = m @ CHR ''-'' # suf
          \<and> version_from_str cal suf = Inr (case v of None \<Rightarrow> ImplicitLatest | Some w \<Rightarrow> w))"
proof (cases v)
  case None
  with assms show ?thesis by (simp add: names_version_def)
next
  case (Some w)
  with assms obtain suf where suf: "s = m @ CHR ''-'' # suf" "version_from_str cal suf = Inr w"
    by (auto simp: names_version_def)
  with assms(3) have "suf \<noteq> []" by auto
  with suf version_from_str_implicit have "w \<noteq> ImplicitLatest" by blast
  with suf Some show ?thesis by auto
qed

lemma split_once_None: "split_once c s = None \<longleftrightarrow> c \<notin> set s"
  by (simp add: split_once_def)

lemma provider_from_str_no_slash:
  assumes "CHR ''/'' \<notin> set p"
  shows "CHR ''/'' \<notin> set (provider_as_ref (provider_from_str p))"
proof (cases "from_provider_code (str_trim p)")
  case (Inl e)
  have "set (str_trim p) \<subseteq> set p"
    unfolding str_trim_def trim_start_def by (auto dest!: set_dropWhileD)
  with Inl assms show ?thesis by (auto simp: provider_from_str_def provider_as_ref_def)
next
  case (Inr q)
  have al: "list_all (\<lambda>q. CHR ''/'' \<notin> set (provider_as_ref q)) (map snd provider_aliases)"
    and db: "list_all (\<lambda>c. CHR ''/'' \<notin> set c) db_provider_codes" by code_simp+
  from from_provider_code_cases [OF Inr] show ?thesis
  proof
    assume "q \<in> snd ` set provider_aliases"
    with al have "CHR ''/'' \<notin> set (provider_as_ref q)" by (auto simp: list_all_iff)
    with Inr show ?thesis by (simp add: provider_from_str_def)
  next
    assume "\<exists>c\<in>set db_provider_codes. q = Named c"
    with db have "CHR ''/'' \<notin> set (provider_as_ref q)" by (auto simp: list_all_iff provider_as_ref_def)
    with Inr show ?thesis by (simp add: provider_from_str_def)
  qed
qed

lemma from_str_and_provider_style:
  "from_str_and_provider cal p s = Inr m \<Longrightarrow> inference_provider m = Some p"
  by (cases p) (auto simp: from_str_and_provider_def inference_provider_def dest!: try_bind_OkD)

subsection \<open>Properties\<close>

text \<open>
  A model name with a version loses nothing: reading it succeeds exactly on a non-empty text that
  ends in none of dash, dot and at-sign; without a version the model is the whole text, and otherwise the
  text is the model, a dash, and a suffix that reads as the version found.
\<close>

theorem model_name_split:
  assumes "dates_start_with_no_letter cal"
  shows "((\<exists>m. model_version_from_str cal s = Inr m)
      \<longleftrightarrow> s \<noteq> [] \<and> last s \<notin> {CHR ''-'', CHR ''.'', CHR ''@''})
    \<and> (\<forall>m. model_version_from_str cal s = Inr m \<longrightarrow>
        mv_version m = ImplicitLatest \<and> s = mv_model m
        \<or> mv_version m \<noteq> ImplicitLatest
          \<and> (\<exists>suf. s = mv_model m @ CHR ''-'' # suf \<and> version_from_str cal suf = Inr (mv_version m)))"
proof (intro conjI allI impI)
  show "(\<exists>m. model_version_from_str cal s = Inr m)
      \<longleftrightarrow> s \<noteq> [] \<and> last s \<notin> {CHR ''-'', CHR ''.'', CHR ''@''}"
    by (auto simp: model_version_from_str_def split: prod.splits)
next
  fix m
  assume m: "model_version_from_str cal s = Inr m"
  obtain mo v where p: "parse_model_and_version cal s (CHR ''-'') = (mo, v)" by fastforce
  from m p have "s \<noteq> []" "last s \<noteq> CHR ''-''" "m = \<lparr>mv_model = mo,
      mv_version = (case v of None \<Rightarrow> ImplicitLatest | Some w \<Rightarrow> w)\<rparr>"
    by (auto simp: model_version_from_str_def split: if_splits)
  with names_version_default [OF parse_model_and_version_names [OF assms p]]
  show "mv_version m = ImplicitLatest \<and> s = mv_model m
      \<or> mv_version m \<noteq> ImplicitLatest
        \<and> (\<exists>suf. s = mv_model m @ CHR ''-'' # suf \<and> version_from_str cal suf = Inr (mv_version m))"
    by simp
qed

text \<open>A calendar that knows ten-character dates of digits and dashes, for concrete runs.\<close>

definition toy_calendar :: "string calendar" where
  "toy_calendar = \<lparr>
     nd_parse = (\<lambda>s fmt. if fmt = ''%Y-%m-%d'' \<and> length s = 10
                   \<and> list_all (\<lambda>c. c = CHR ''-'' \<or> digit_value c \<noteq> None) s then Some s else None),
     nd_format = (\<lambda>d fmt. if fmt = ''%m-%d'' then drop 5 d else d), current_year = ''2025''\<rparr>"

lemma toy_calendar_ok: "dates_start_with_no_letter toy_calendar"
proof -
  have "is_letter c \<Longrightarrow> \<not> (c = CHR ''-'' \<or> digit_value c \<noteq> None)" for c
    by (auto simp: is_letter_def digit_value_def Let_def)
  then show ?thesis
    by (auto simp: dates_start_with_no_letter_def toy_calendar_def)
qed

theorem model_name_split_witness:
  "model_version_from_str toy_calendar ''gpt-4o-2024-08-15''
     = Inr \<lparr>mv_model = ''gpt-4o'', mv_version = Date ''2024-08-15'' ''%Y-%m-%d''\<rparr>
   \<and> (\<exists>suf. ''gpt-4o-2024-08-15'' = ''gpt-4o'' @ CHR ''-'' # suf
        \<and> version_from_str toy_calendar suf = Inr (Date ''2024-08-15'' ''%Y-%m-%d''))"
proof -
  have m: "model_version_from_str toy_calendar ''gpt-4o-2024-08-15''
      = Inr \<lparr>mv_model = ''gpt-4o'', mv_version = Date ''2024-08-15'' ''%Y-%m-%d''\<rparr>"
    by code_simp
  show ?thesis
    using model_name_split [OF toy_calendar_ok, THEN conjunct2, rule_format, OF m] m by simp
qed

text \<open>
  The shape of a Bedrock model id: reading succeeds only on \<open>geo.provider.rest\<close> or
  \<open>provider.rest\<close>, where neither part before a dot contains one and the rest is the model, its
  version suffix if any, a dash, and an internal version that starts with \<open>v\<close>; the identifier
  keeps each part as written.
\<close>

theorem bedrock_id_shape:
  assumes "dates_start_with_no_letter cal" and "bedrock_from_str cal s = Inr b"
  shows "\<exists>suf iv. s = (case br_geo b of None \<Rightarrow> [] | Some g \<Rightarrow> g @ ''.'') @ br_provider b @ ''.''
        @ br_model b @ suf @ ''-'' @ br_internal_version b
    \<and> br_internal_version b = CHR ''v'' # iv
    \<and> CHR ''.'' \<notin> set (br_provider b)
    \<and> (\<forall>g. br_geo b = Some g \<longrightarrow> CHR ''.'' \<notin> set g)
    \<and> (suf = [] \<and> br_version b = ImplicitLatest
       \<or> (\<exists>v. suf = CHR ''-'' # v \<and> version_from_str cal v = Inr (br_version b)))"
proof -
  from assms(2) obtain geo pr rest pos where parts: "bedrock_parts s = Inr (geo, pr, rest)"
    and pos: "str_rfind ''-v'' rest = Some pos"
    by (auto simp: bedrock_from_str_def split: option.splits dest!: try_bind_OkD)
  obtain mo v where p: "parse_model_and_version cal (take pos rest) (CHR ''-'') = (mo, v)" by fastforce
  from assms(2) parts pos p have b: "b = \<lparr>br_geo = geo, br_provider = pr, br_model = mo,
      br_version = (case v of None \<Rightarrow> ImplicitLatest | Some w \<Rightarrow> w),
      br_internal_version = drop (pos + 1) rest\<rparr>"
    by (simp add: bedrock_from_str_def)
  have s: "s = (case geo of None \<Rightarrow> [] | Some g \<Rightarrow> g @ ''.'') @ pr @ ''.'' @ rest
      \<and> CHR ''.'' \<notin> set pr \<and> (\<forall>g. geo = Some g \<longrightarrow> CHR ''.'' \<notin> set g)"
    using parts unfolding bedrock_parts_def
    by (auto simp: Let_def split: if_splits option.splits dest!: split_onceD)
  have r: "rest = take pos rest @ ''-v'' @ drop (pos + 2) rest"
    using str_rfind_split [OF pos] by simp
  then have iv: "drop (pos + 1) rest = CHR ''v'' # drop (pos + 2) rest"
    and dash: "rest = take pos rest @ ''-'' @ drop (pos + 1) rest"
  proof -
    have "drop pos rest = CHR ''-'' # CHR ''v'' # drop (pos + 2) rest"
      using r by (metis append_Cons append_Nil append_eq_conv_conj append_take_drop_id same_append_eq)
    then have "drop 1 (drop pos rest) = CHR ''v'' # drop (pos + 2) rest" by simp
    then show "drop (pos + 1) rest = CHR ''v'' # drop (pos + 2) rest" by simp
    then show "rest = take pos rest @ ''-'' @ drop (pos + 1) rest" using r by simp
  qed
  from parse_model_and_version_names [OF assms(1) p]
  obtain suf where suf: "take pos rest = mo @ suf" "suf = [] \<and> v = None
      \<or> (\<exists>w x. v = Some w \<and> suf = CHR ''-'' # x \<and> version_from_str cal x = Inr w)"
    by (cases v) (auto simp: names_version_def)
  have "s = (case br_geo b of None \<Rightarrow> [] | Some g \<Rightarrow> g @ ''.'') @ br_provider b @ ''.''
      @ br_model b @ suf @ ''-'' @ br_internal_version b"
    using s dash suf(1) b by simp
  moreover have "suf = [] \<and> br_version b = ImplicitLatest
      \<or> (\<exists>v. suf = CHR ''-'' # v \<and> version_from_str cal v = Inr (br_version b))"
    using suf(2) b by auto
  ultimately show ?thesis using b s iv by (intro exI [of _ suf] exI [of _ "drop (pos + 2) rest"]) simp
qed

theorem bedrock_id_shape_witness:
  "\<exists>iv. br_internal_version \<lparr>br_geo = Some ''us'', br_provider = ''anthropic'', br_model = ''claude'',
      br_version = Date ''2024-02-29'' ''%Y-%m-%d'', br_internal_version = ''v1:0''\<rparr> = CHR ''v'' # iv"
proof -
  have b: "bedrock_from_str toy_calendar ''us.anthropic.claude-2024-02-29-v1:0''
      = Inr \<lparr>br_geo = Some ''us'', br_provider = ''anthropic'', br_model = ''claude'',
          br_version = Date ''2024-02-29'' ''%Y-%m-%d'', br_internal_version = ''v1:0''\<rparr>"
    by code_simp
  show ?thesis using bedrock_id_shape [OF toy_calendar_ok b] by blast
qed

text \<open>
  A name whose versions are in their printed spelling: what follows a dash is, where it reads as a date, the
  date as the calendar prints it with the pattern found, and where it is a keyword up to case, in lower case.
  For Bedrock this is asked of the part before the internal version; an Ollama name must not end in its first colon.
\<close>

definition printed_version :: "'d calendar \<Rightarrow> string \<Rightarrow> bool" where
  "printed_version cal c \<longleftrightarrow>
     (case parse_date cal c of Some (d, fmt) \<Rightarrow> nd_format cal d fmt = c | None \<Rightarrow> True)
     \<and> (eq_ignore_ascii_case c ''latest'' \<longrightarrow> c = ''latest'')
     \<and> (eq_ignore_ascii_case c ''preview'' \<longrightarrow> c = ''preview'')"

definition canonical_versions :: "'d calendar \<Rightarrow> string \<Rightarrow> bool" where
  "canonical_versions cal s \<longleftrightarrow>
     list_all (\<lambda>i. s ! i = CHR ''-'' \<longrightarrow> printed_version cal (drop (i + 1) s)) [0..<length s]"

definition canonical_name :: "'d calendar \<Rightarrow> InferenceProvider \<Rightarrow> string \<Rightarrow> bool" where
  "canonical_name cal p s \<longleftrightarrow>
     (case p of
        Bedrock \<Rightarrow>
          (case bedrock_parts s of Inl _ \<Rightarrow> True
           | Inr (_, _, rest) \<Rightarrow>
               (case str_rfind ''-v'' rest of None \<Rightarrow> True | Some pos \<Rightarrow> canonical_versions cal (take pos rest)))
      | Ollama \<Rightarrow> \<not> (s \<noteq> [] \<and> last s = CHR '':'' \<and> CHR '':'' \<notin> set (butlast s))
      | _ \<Rightarrow> canonical_versions cal s)"

lemma canonical_after_dash:
  assumes "canonical_versions cal (a @ CHR ''-'' # c)"
  shows "printed_version cal c"
proof -
  have "length a \<in> set [0..<length (a @ CHR ''-'' # c)]" by simp
  with assms have "(a @ CHR ''-'' # c) ! length a = CHR ''-'' \<longrightarrow>
      printed_version cal (drop (length a + 1) (a @ CHR ''-'' # c))"
    unfolding canonical_versions_def list_all_iff by blast
  then show ?thesis by simp
qed

text \<open>The version that is found is printed as it was written.\<close>

definition prints_as :: "'d calendar \<Rightarrow> string \<Rightarrow> string \<Rightarrow> 'd Version option \<Rightarrow> bool" where
  "prints_as cal s m v \<longleftrightarrow> v \<noteq> Some ImplicitLatest
     \<and> s = (case v of None \<Rightarrow> m | Some w \<Rightarrow> m @ CHR ''-'' # version_display cal w)"

lemma full_date_prints:
  assumes "full_date_candidate cal cs = Some (i, v)"
    and "\<And>i c. (i, c) \<in> set cs \<Longrightarrow> s = take i s @ CHR ''-'' # c \<and> printed_version cal c"
  shows "prints_as cal s (take i s) (Some v)"
  using assms
proof (induction cs)
  case (Cons x cs)
  obtain j c where x: "x = (j, c)" by (cases x)
  have c: "s = take j s @ CHR ''-'' # c" "printed_version cal c" using Cons.prems(2) [of j c] x by auto
  show ?case
  proof (cases "full_date_candidate cal cs = Some (i, v)")
    case True
    show ?thesis by (rule Cons.IH [OF True]) (meson Cons.prems(2) list.set_intros(2))
  next
    case False
    with Cons.prems(1) x obtain d fmt where "parse_date cal c = Some (d, fmt)" "i = j" "v = Date d fmt"
      by (auto split: option.splits if_splits)
    with c show ?thesis by (simp add: prints_as_def printed_version_def version_display_def)
  qed
qed simp

lemma any_version_prints:
  assumes "any_version_candidate cal cs = Some (i, v)"
    and "\<And>i c. (i, c) \<in> set cs \<Longrightarrow> s = take i s @ CHR ''-'' # c \<and> printed_version cal c"
  shows "prints_as cal s (take i s) (Some v)"
  using assms
proof (induction cs)
  case (Cons x cs)
  obtain j c where x: "x = (j, c)" by (cases x)
  have c: "s = take j s @ CHR ''-'' # c" "printed_version cal c" using Cons.prems(2) [of j c] x by auto
  show ?case
  proof (cases "any_version_candidate cal cs = Some (i, v)")
    case True
    show ?thesis by (rule Cons.IH [OF True]) (meson Cons.prems(2) list.set_intros(2))
  next
    case False
    then have "i = j \<and> v \<noteq> ImplicitLatest \<and> version_display cal v = c"
      using Cons.prems(1) x c(2)
      by (auto simp: printed_version_def version_display_def split: option.splits if_splits)
    with c(1) show ?thesis by (simp add: prints_as_def)
  qed
qed simp

lemma parse_model_and_version_prints:
  assumes can: "canonical_versions cal s" and p: "parse_model_and_version cal s (CHR ''-'') = (m, v)"
  shows "prints_as cal s m v"
proof (cases "dated_preview cal s")
  case (Some y)
  then obtain pos d fmt where pos: "str_rfind ''-preview-'' s = Some pos"
    and d: "parse_date cal (drop (pos + 9) s) = Some (d, fmt)"
    and y: "y = (take pos s, DateVersionedPreview d fmt)"
    by (auto simp: dated_preview_def split: option.splits)
  have len9: "pos + length ''-preview-'' = pos + 9" by simp
  have sp: "s = (take pos s @ ''-preview'') @ CHR ''-'' # drop (pos + 9) s"
    using str_rfind_split [OF pos, unfolded len9] by simp
  with can canonical_after_dash have "printed_version cal (drop (pos + 9) s)" by metis
  with d have "nd_format cal d fmt = drop (pos + 9) s" by (simp add: printed_version_def)
  moreover have "m = take pos s" "v = Some (DateVersionedPreview d fmt)"
    using Some y p by (auto simp: parse_model_and_version_def)
  ultimately show ?thesis using sp by (simp add: prints_as_def version_display_def)
next
  case dn: None
  let ?cs = "version_candidates (CHR ''-'') s"
  have cs: "s = take i s @ CHR ''-'' # c \<and> printed_version cal c" if "(i, c) \<in> set ?cs" for i c
    using version_candidates_mem(1) [OF that] can canonical_after_dash by metis
  show ?thesis
    using p dn full_date_prints [of cal ?cs, OF _ cs] any_version_prints [of cal ?cs, OF _ cs]
    unfolding parse_model_and_version_def
    by (auto simp: Let_def prints_as_def version_display_def strip_suffix_Some split: option.splits)
qed

lemma model_version_prints:
  assumes "canonical_versions cal s" and "model_version_from_str cal s = Inr m"
  shows "model_version_display cal m = s"
proof -
  obtain mo v where p: "parse_model_and_version cal s (CHR ''-'') = (mo, v)" by fastforce
  with assms(2) have "m = \<lparr>mv_model = mo, mv_version = (case v of None \<Rightarrow> ImplicitLatest | Some w \<Rightarrow> w)\<rparr>"
    by (auto simp: model_version_from_str_def split: if_splits)
  with parse_model_and_version_prints [OF assms(1) p] show ?thesis
    by (auto simp: prints_as_def model_version_display_def split: option.splits Version.splits)
qed

lemma bedrock_parts_join:
  "bedrock_parts s = Inr (geo, pr, rest) \<Longrightarrow>
     s = (case geo of None \<Rightarrow> [] | Some g \<Rightarrow> g @ ''.'') @ pr @ ''.'' @ rest"
  unfolding bedrock_parts_def by (auto simp: Let_def split: if_splits option.splits dest!: split_onceD)

lemma bedrock_prints:
  assumes "canonical_name cal Bedrock s" and "bedrock_from_str cal s = Inr b"
  shows "bedrock_display cal b = s"
proof -
  from assms(2) obtain geo pr rest pos where parts: "bedrock_parts s = Inr (geo, pr, rest)"
    and pos: "str_rfind ''-v'' rest = Some pos"
    by (auto simp: bedrock_from_str_def split: option.splits dest!: try_bind_OkD)
  obtain mo v where p: "parse_model_and_version cal (take pos rest) (CHR ''-'') = (mo, v)" by fastforce
  from assms(2) parts pos p have b: "b = \<lparr>br_geo = geo, br_provider = pr, br_model = mo,
      br_version = (case v of None \<Rightarrow> ImplicitLatest | Some w \<Rightarrow> w), br_internal_version = drop (pos + 1) rest\<rparr>"
    by (simp add: bedrock_from_str_def)
  have "canonical_versions cal (take pos rest)" using assms(1) parts pos by (simp add: canonical_name_def)
  from parse_model_and_version_prints [OF this p]
  have m: "v \<noteq> Some ImplicitLatest"
    "take pos rest = (case v of None \<Rightarrow> mo | Some w \<Rightarrow> mo @ CHR ''-'' # version_display cal w)"
    by (auto simp: prints_as_def)
  have "drop pos rest = ''-v'' @ drop (pos + 2) rest"
    using str_rfind_split [OF pos] by (metis append_take_drop_id same_append_eq length_Cons list.size(3) One_nat_def Suc_1)
  then have "drop pos rest = CHR ''-'' # drop (pos + 1) rest"
    by (metis append_Cons drop_Suc list.sel(3) Suc_eq_plus1 tl_drop)
  then have rest: "rest = take pos rest @ ''-'' @ drop (pos + 1) rest" by (metis append_Cons append_Nil append_take_drop_id)
  have "bedrock_display cal b = (case geo of None \<Rightarrow> [] | Some g \<Rightarrow> g @ ''.'') @ pr @ ''.'' @
      (case v of None \<Rightarrow> mo | Some w \<Rightarrow> mo @ CHR ''-'' # version_display cal w) @ ''-'' @ drop (pos + 1) rest"
    using m(1) unfolding b bedrock_display_def
    by (auto split: option.splits Version.splits)
  also have "\<dots> = (case geo of None \<Rightarrow> [] | Some g \<Rightarrow> g @ ''.'') @ pr @ ''.'' @ rest"
    using m(2) rest by (metis append.assoc)
  also have "\<dots> = s" using bedrock_parts_join [OF parts] by simp
  finally show ?thesis .
qed

lemma ollama_prints:
  assumes "canonical_name cal Ollama s" and "ollama_from_str s = Inr m"
  shows "ollama_display m = s"
  using assms
  by (auto simp: canonical_name_def ollama_from_str_def ollama_display_def split: option.splits if_splits
      dest!: split_onceD)

lemma from_str_and_provider_prints:
  assumes "canonical_name cal p s" and "from_str_and_provider cal p s = Inr m"
  shows "model_id_display cal m = s"
  using assms
  by (cases p) (auto simp: from_str_and_provider_def model_id_display_def canonical_name_def
      dest!: try_bind_OkD intro: model_version_prints
      bedrock_prints [unfolded canonical_name_def, simplified] ollama_prints [unfolded canonical_name_def, simplified])

text \<open>
  C19. Reading and writing a model id agree: a text \<open>provider/name\<close> is read for the provider the
  part before the first slash names, never as an unknown model. When the versions of the name are in their
  printed spelling, the id displays the name as it was written, is written with the provider's own code before
  the slash, and what is written is read back as the same id.
\<close>

theorem model_id_serde_roundtrip:
  assumes "model_id_from_str cal s = Inr m"
  shows "\<exists>p rest. s = p @ CHR ''/'' # rest \<and> CHR ''/'' \<notin> set p \<and> rest \<noteq> []
    \<and> inference_provider m = Some (provider_from_str p)
    \<and> (canonical_name cal (provider_from_str p) rest \<longrightarrow>
         model_id_display cal m = rest
         \<and> model_id_serialize cal m = provider_as_ref (provider_from_str p) @ CHR ''/'' # rest
         \<and> model_id_from_str cal (model_id_serialize cal m) = Inr m)"
proof -
  from assms obtain p rest where sp: "split_once (CHR ''/'') s = Some (p, rest)" and ne: "rest \<noteq> []"
    and fp: "from_str_and_provider cal (provider_from_str p) rest = Inr m"
    by (auto simp: model_id_from_str_def split: option.splits if_splits)
  have ip: "inference_provider m = Some (provider_from_str p)"
    using from_str_and_provider_style [OF fp] .
  have ns: "CHR ''/'' \<notin> set p" and s: "s = p @ CHR ''/'' # rest" using split_onceD [OF sp] by auto
  have "model_id_display cal m = rest
      \<and> model_id_serialize cal m = provider_as_ref (provider_from_str p) @ CHR ''/'' # rest
      \<and> model_id_from_str cal (model_id_serialize cal m) = Inr m"
    if "canonical_name cal (provider_from_str p) rest"
  proof -
    have d: "model_id_display cal m = rest" by (rule from_str_and_provider_prints [OF that fp])
    then have ser: "model_id_serialize cal m = provider_as_ref (provider_from_str p) @ CHR ''/'' # rest"
      using ip by (simp add: model_id_serialize_def)
    have "split_once (CHR ''/'') (model_id_serialize cal m) = Some (provider_as_ref (provider_from_str p), rest)"
      unfolding ser by (rule split_once_join [OF provider_from_str_no_slash [OF ns]])
    with ne fp d ser show ?thesis by (simp add: model_id_from_str_def provider_from_str_as_ref)
  qed
  with s ns ne ip show ?thesis by blast
qed

theorem model_id_serde_roundtrip_witness:
  "model_id_from_str toy_calendar ''Google/gemini-2.0-2024-08-15'' =
     Inr (ModelIdWithVersion GoogleGemini \<lparr>mv_model = ''gemini-2.0'', mv_version = Date ''2024-08-15'' ''%Y-%m-%d''\<rparr>)
   \<and> model_id_serialize toy_calendar
        (ModelIdWithVersion GoogleGemini \<lparr>mv_model = ''gemini-2.0'', mv_version = Date ''2024-08-15'' ''%Y-%m-%d''\<rparr>)
       = provider_as_ref GoogleGemini @ ''/gemini-2.0-2024-08-15''"
proof -
  let ?m = "ModelIdWithVersion GoogleGemini \<lparr>mv_model = ''gemini-2.0'', mv_version = Date ''2024-08-15'' ''%Y-%m-%d''\<rparr>"
  have m: "model_id_from_str toy_calendar ''Google/gemini-2.0-2024-08-15'' = Inr ?m" by code_simp
  obtain p rest where p: "''Google/gemini-2.0-2024-08-15'' = p @ CHR ''/'' # rest" "CHR ''/'' \<notin> set p"
    and r: "canonical_name toy_calendar (provider_from_str p) rest \<longrightarrow>
      model_id_serialize toy_calendar ?m = provider_as_ref (provider_from_str p) @ CHR ''/'' # rest"
    using model_id_serde_roundtrip [OF m] by blast
  have "split_once (CHR ''/'') ''Google/gemini-2.0-2024-08-15'' = Some (p, rest)"
    unfolding p(1) by (rule split_once_join [OF p(2)])
  moreover have "split_once (CHR ''/'') ''Google/gemini-2.0-2024-08-15'' = Some (''Google'', ''gemini-2.0-2024-08-15'')"
    by code_simp
  ultimately have pr: "p = ''Google''" "rest = ''gemini-2.0-2024-08-15''" by auto
  have "canonical_name toy_calendar GoogleGemini ''gemini-2.0-2024-08-15''" by code_simp
  moreover have "provider_from_str ''Google'' = GoogleGemini" by code_simp
  ultimately show ?thesis using r m unfolding pr by simp
qed

text \<open>
  \<open>ModelIdWithoutVersion\<close> is a lawful hash-map key: its equality is reflexive, symmetric and
  transitive, equal keys feed the same values to the hasher, and changing only the version to the
  latest one leaves the key equal.
\<close>

theorem without_version_key_laws:
  "without_version_eq a a
   \<and> (without_version_eq a b \<longrightarrow> without_version_eq b a)
   \<and> (without_version_eq a b \<and> without_version_eq b c \<longrightarrow> without_version_eq a c)
   \<and> (without_version_eq a b \<longrightarrow> without_version_hash a = without_version_hash b)
   \<and> without_version_eq (with_latest_version a) a"
  by (cases a; cases b; cases c)
    (simp_all add: without_version_eq_def without_version_hash_def with_latest_version_def)

theorem without_version_key_laws_witness:
  "without_version_hash (ModelIdWithVersion OpenAI \<lparr>mv_model = ''o1'', mv_version = Latest\<rparr> :: string ModelId)
     = without_version_hash (ModelIdWithVersion OpenAI \<lparr>mv_model = ''o1'', mv_version = Preview\<rparr> :: string ModelId)"
proof -
  have "without_version_eq (ModelIdWithVersion OpenAI \<lparr>mv_model = ''o1'', mv_version = Latest\<rparr> :: string ModelId)
      (ModelIdWithVersion OpenAI \<lparr>mv_model = ''o1'', mv_version = Preview\<rparr>)"
    by (simp add: without_version_eq_def)
  then show ?thesis
    by (rule without_version_key_laws [THEN conjunct2, THEN conjunct2, THEN conjunct2, THEN conjunct1, THEN mp])
qed

text \<open>
  Ollama names: reading never fails; an id whose model has no colon and whose tag is not empty is
  read back from its printed form, and a text that does not end in its first colon is printed as it was.
\<close>

theorem ollama_roundtrip:
  "(\<exists>m. ollama_from_str s = Inr m
       \<and> (ollama_display m = s \<or> (\<exists>a. s = a @ '':'' \<and> CHR '':'' \<notin> set a \<and> ollama_display m = a)))
   \<and> (CHR '':'' \<notin> set (ol_model i) \<and> ol_tag i \<noteq> Some [] \<longrightarrow> ollama_from_str (ollama_display i) = Inr i)"
proof (intro conjI impI)
  show "\<exists>m. ollama_from_str s = Inr m
      \<and> (ollama_display m = s \<or> (\<exists>a. s = a @ '':'' \<and> CHR '':'' \<notin> set a \<and> ollama_display m = a))"
    by (auto simp: ollama_from_str_def ollama_display_def split: option.splits dest!: split_onceD)
next
  assume "CHR '':'' \<notin> set (ol_model i) \<and> ol_tag i \<noteq> Some []"
  then show "ollama_from_str (ollama_display i) = Inr i"
    by (cases "ol_tag i") (auto simp: ollama_from_str_def ollama_display_def split_once_None [THEN iffD2] split_once_join)
qed

theorem ollama_roundtrip_witness:
  "ollama_from_str (ollama_display \<lparr>ol_model = ''llama3'', ol_tag = Some ''8b''\<rparr>)
     = Inr \<lparr>ol_model = ''llama3'', ol_tag = Some ''8b''\<rparr>"
  using ollama_roundtrip [of "[]" "\<lparr>ol_model = ''llama3'', ol_tag = Some ''8b''\<rparr>"] by simp

end
