(* ===== verification/Endpoints.thy ===== *)
theory Endpoints
  imports Gateway_Prelude Providers Model_Id
begin

text \<open>
  The endpoints of the unified API (\<open>endpoints/mod.rs\<close>, \<open>endpoints/mappings.rs\<close> and one module per
  vendor): the routes a client may ask for, the endpoint a request is sent to, and the mapping of an
  endpoint to the vendor that serves it. The conversions between vendors panic on most endpoints;
  here a conversion that panics is \<open>None\<close>, so that a theorem can say the mapping never does.
\<close>

datatype EndpointType = Chat | Embeddings | Image | Audio

datatype EndpointRoute =
    RouteChatCompletions | RouteCompletions | RouteEmbeddings | RouteImageGenerations
  | RouteResponses | RouteMessages

definition route_path :: "EndpointRoute \<Rightarrow> string" where
  "route_path r =
     (case r of RouteChatCompletions \<Rightarrow> ''chat/completions''
      | RouteCompletions \<Rightarrow> ''completions''
      | RouteEmbeddings \<Rightarrow> ''embeddings''
      | RouteImageGenerations \<Rightarrow> ''images/generations''
      | RouteResponses \<Rightarrow> ''responses''
      | RouteMessages \<Rightarrow> ''messages'')"

definition route_from_path :: "string \<Rightarrow> EndpointRoute option" where
  "route_from_path p =
     (if p = ''chat/completions'' then Some RouteChatCompletions
      else if p = ''completions'' then Some RouteCompletions
      else if p = ''embeddings'' then Some RouteEmbeddings
      else if p = ''images/generations'' then Some RouteImageGenerations
      else if p = ''responses'' then Some RouteResponses
      else if p = ''messages'' then Some RouteMessages
      else None)"

datatype OpenAIEndpoint =
    OaChatCompletions | OaCompletions | OaEmbeddings | OaImageGenerations | OaResponses
datatype AnthropicEndpoint = AnMessages
datatype GoogleEndpoint = GoGenerateContents
datatype OllamaEndpoint = OlChatCompletions
datatype BedrockEndpoint = BrConverse

datatype InvalidRequestError =
    UnsupportedEndpoint string | UnsupportedProvider InferenceProvider | NotFound string
datatype InternalError = Internal

definition openai_path :: "OpenAIEndpoint \<Rightarrow> string" where
  "openai_path e =
     (case e of OaChatCompletions \<Rightarrow> ''v1/chat/completions''
      | OaCompletions \<Rightarrow> ''v1/completions''
      | OaEmbeddings \<Rightarrow> ''v1/embeddings''
      | OaImageGenerations \<Rightarrow> ''v1/images/generations''
      | OaResponses \<Rightarrow> ''v1/responses'')"

definition openai_endpoint_type :: "OpenAIEndpoint \<Rightarrow> EndpointType" where
  "openai_endpoint_type e =
     (case e of OaChatCompletions \<Rightarrow> Chat | OaCompletions \<Rightarrow> Chat | OaResponses \<Rightarrow> Chat
      | OaEmbeddings \<Rightarrow> Embeddings | OaImageGenerations \<Rightarrow> Image)"

definition openai_try_from :: "EndpointRoute \<Rightarrow> (InvalidRequestError, OpenAIEndpoint) result" where
  "openai_try_from r =
     (case r of RouteChatCompletions \<Rightarrow> Ok OaChatCompletions
      | RouteCompletions \<Rightarrow> Ok OaCompletions
      | RouteEmbeddings \<Rightarrow> Ok OaEmbeddings
      | RouteImageGenerations \<Rightarrow> Ok OaImageGenerations
      | RouteResponses \<Rightarrow> Ok OaResponses
      | RouteMessages \<Rightarrow> Err (UnsupportedEndpoint ''messages is resolved via Anthropic, not OpenAI''))"

definition anthropic_path :: "AnthropicEndpoint \<Rightarrow> string" where
  "anthropic_path e = (case e of AnMessages \<Rightarrow> ''v1/messages'')"

definition anthropic_endpoint_type :: "AnthropicEndpoint \<Rightarrow> EndpointType" where
  "anthropic_endpoint_type e = (case e of AnMessages \<Rightarrow> Chat)"

definition google_path :: "GoogleEndpoint \<Rightarrow> string" where
  "google_path e = (case e of GoGenerateContents \<Rightarrow> ''generateContent'')"

definition google_endpoint_type :: "GoogleEndpoint \<Rightarrow> EndpointType" where
  "google_endpoint_type e = (case e of GoGenerateContents \<Rightarrow> Chat)"

definition ollama_path :: "OllamaEndpoint \<Rightarrow> string" where
  "ollama_path e = (case e of OlChatCompletions \<Rightarrow> ''v1/chat/completions'')"

definition ollama_endpoint_type :: "OllamaEndpoint \<Rightarrow> EndpointType" where
  "ollama_endpoint_type e = (case e of OlChatCompletions \<Rightarrow> Chat)"

definition ollama_try_from :: "string \<Rightarrow> (InvalidRequestError, OllamaEndpoint) result" where
  "ollama_try_from p =
     (if p = ''v1/chat/completions'' then Ok OlChatCompletions else Err (NotFound p))"

definition bedrock_path :: "'d calendar \<Rightarrow> BedrockEndpoint \<Rightarrow> 'd ModelId \<Rightarrow> bool \<Rightarrow> string" where
  "bedrock_path cal e model_id is_stream =
     (case e of BrConverse \<Rightarrow>
        if is_stream then ''model/'' @ model_id_display cal model_id @ ''/converse-stream''
        else ''model/'' @ model_id_display cal model_id @ ''/converse'')"

definition bedrock_endpoint_type :: "BedrockEndpoint \<Rightarrow> EndpointType" where
  "bedrock_endpoint_type e = (case e of BrConverse \<Rightarrow> Chat)"

subsection \<open>Conversions between vendors\<close>

definition anthropic_to_openai :: "AnthropicEndpoint \<Rightarrow> OpenAIEndpoint" where
  "anthropic_to_openai e = (case e of AnMessages \<Rightarrow> OaChatCompletions)"

definition google_to_openai :: "GoogleEndpoint \<Rightarrow> OpenAIEndpoint" where
  "google_to_openai e = (case e of GoGenerateContents \<Rightarrow> OaChatCompletions)"

definition ollama_to_openai :: "OllamaEndpoint \<Rightarrow> OpenAIEndpoint" where
  "ollama_to_openai e = (case e of OlChatCompletions \<Rightarrow> OaChatCompletions)"

definition openai_to_anthropic :: "OpenAIEndpoint \<Rightarrow> AnthropicEndpoint option" where
  "openai_to_anthropic e = (case e of OaChatCompletions \<Rightarrow> Some AnMessages | _ \<Rightarrow> None)"

definition openai_to_google :: "OpenAIEndpoint \<Rightarrow> GoogleEndpoint option" where
  "openai_to_google e = (case e of OaChatCompletions \<Rightarrow> Some GoGenerateContents | _ \<Rightarrow> None)"

definition openai_to_ollama :: "OpenAIEndpoint \<Rightarrow> OllamaEndpoint option" where
  "openai_to_ollama e = (case e of OaChatCompletions \<Rightarrow> Some OlChatCompletions | _ \<Rightarrow> None)"

definition openai_to_bedrock :: "OpenAIEndpoint \<Rightarrow> BedrockEndpoint option" where
  "openai_to_bedrock e = (case e of OaChatCompletions \<Rightarrow> Some BrConverse | _ \<Rightarrow> None)"

subsection \<open>API endpoints\<close>

datatype ApiEndpoint =
    ApiOpenAI OpenAIEndpoint
  | ApiAnthropic AnthropicEndpoint
  | ApiGoogle GoogleEndpoint
  | ApiOllama OllamaEndpoint
  | ApiBedrock BedrockEndpoint
  | ApiOpenAICompatible InferenceProvider OpenAIEndpoint

definition api_endpoint_new :: "string \<Rightarrow> ApiEndpoint option" where
  "api_endpoint_new path =
     (case route_from_path path of None \<Rightarrow> None
      | Some r \<Rightarrow>
          if r = RouteMessages then Some (ApiAnthropic AnMessages)
          else (case openai_try_from r of Inl _ \<Rightarrow> None | Inr e \<Rightarrow> Some (ApiOpenAI e)))"

definition cross_message :: string where
  "cross_message =
     ''this path is only routed to the same OpenAPI family (e.g. OpenAI or a named OpenAI-compatible); use chat/completions for cross-vendor chat mapping''"

text \<open>The outer \<open>None\<close> is a panic of a conversion.\<close>

definition api_endpoint_mapped ::
  "ApiEndpoint \<Rightarrow> InferenceProvider \<Rightarrow> (InvalidRequestError, ApiEndpoint) result option" where
  "api_endpoint_mapped source_endpoint target_provider =
     (if (case source_endpoint of
            ApiOpenAI oi \<Rightarrow> oi \<noteq> OaChatCompletions
              \<and> \<not> (case target_provider of OpenAI \<Rightarrow> True | Named _ \<Rightarrow> True | _ \<Rightarrow> False)
          | _ \<Rightarrow> False)
      then Some (Err (UnsupportedEndpoint cross_message))
      else (case (source_endpoint, target_provider) of
          (ApiOpenAI e, Anthropic) \<Rightarrow> map_option (\<lambda>a. Ok (ApiAnthropic a)) (openai_to_anthropic e)
        | (ApiOpenAI e, OpenAI) \<Rightarrow> Some (Ok (ApiOpenAI e))
        | (ApiOpenAI e, GoogleGemini) \<Rightarrow> map_option (\<lambda>a. Ok (ApiGoogle a)) (openai_to_google e)
        | (ApiOpenAI e, Ollama) \<Rightarrow> map_option (\<lambda>a. Ok (ApiOllama a)) (openai_to_ollama e)
        | (ApiOpenAI e, Bedrock) \<Rightarrow> map_option (\<lambda>a. Ok (ApiBedrock a)) (openai_to_bedrock e)
        | (ApiOpenAI e, Named name) \<Rightarrow> Some (Ok (ApiOpenAICompatible (Named name) e))
        | (ApiOpenAI e, Custom) \<Rightarrow> Some (Ok (ApiOpenAICompatible Custom e))
        | _ \<Rightarrow> Some (Err (UnsupportedProvider target_provider))))"

definition api_endpoint_provider :: "ApiEndpoint \<Rightarrow> InferenceProvider" where
  "api_endpoint_provider e =
     (case e of ApiOpenAI _ \<Rightarrow> OpenAI | ApiAnthropic _ \<Rightarrow> Anthropic | ApiGoogle _ \<Rightarrow> GoogleGemini
      | ApiOllama _ \<Rightarrow> Ollama | ApiBedrock _ \<Rightarrow> Bedrock | ApiOpenAICompatible p _ \<Rightarrow> p)"

definition api_endpoint_path ::
  "'d calendar \<Rightarrow> ApiEndpoint \<Rightarrow> 'd ModelId option \<Rightarrow> bool \<Rightarrow> (InternalError, string) result" where
  "api_endpoint_path cal e model_id is_stream =
     (case e of
        ApiOpenAI o' \<Rightarrow> Ok (openai_path o')
      | ApiOpenAICompatible _ o' \<Rightarrow> Ok (openai_path o')
      | ApiAnthropic a \<Rightarrow> Ok (anthropic_path a)
      | ApiGoogle g \<Rightarrow> Ok (google_path g)
      | ApiOllama ol \<Rightarrow> Ok (ollama_path ol)
      | ApiBedrock b \<Rightarrow> (case model_id of Some i \<Rightarrow> Ok (bedrock_path cal b i is_stream)
                        | None \<Rightarrow> Err Internal))"

definition api_endpoint_type :: "ApiEndpoint \<Rightarrow> EndpointType" where
  "api_endpoint_type e =
     (case e of ApiOpenAI o' \<Rightarrow> openai_endpoint_type o'
      | ApiOpenAICompatible _ o' \<Rightarrow> openai_endpoint_type o'
      | ApiAnthropic a \<Rightarrow> anthropic_endpoint_type a
      | ApiGoogle g \<Rightarrow> google_endpoint_type g
      | ApiOllama ol \<Rightarrow> ollama_endpoint_type ol
      | ApiBedrock b \<Rightarrow> bedrock_endpoint_type b)"

text \<open>\<open>InferenceProvider::endpoints\<close>, in the order of the enums.\<close>

definition openai_endpoints :: "OpenAIEndpoint list" where
  "openai_endpoints = [OaChatCompletions, OaCompletions, OaEmbeddings, OaImageGenerations, OaResponses]"

definition provider_endpoints :: "InferenceProvider \<Rightarrow> ApiEndpoint list" where
  "provider_endpoints p =
     (case p of
        OpenAI \<Rightarrow> map ApiOpenAI openai_endpoints
      | Anthropic \<Rightarrow> [ApiAnthropic AnMessages]
      | Ollama \<Rightarrow> [ApiOllama OlChatCompletions]
      | Bedrock \<Rightarrow> [ApiBedrock BrConverse]
      | GoogleGemini \<Rightarrow> [ApiGoogle GoGenerateContents]
      | Custom \<Rightarrow> map (ApiOpenAICompatible p) openai_endpoints
      | Named _ \<Rightarrow> map (ApiOpenAICompatible p) openai_endpoints)"

subsection \<open>Lemmas\<close>

lemmas endpoint_simps =
  openai_to_anthropic_def openai_to_google_def openai_to_ollama_def openai_to_bedrock_def
  api_endpoint_provider_def api_endpoint_type_def openai_endpoint_type_def
  anthropic_endpoint_type_def google_endpoint_type_def ollama_endpoint_type_def bedrock_endpoint_type_def

lemma route_path_inv: "route_from_path p = Some r \<longleftrightarrow> p = route_path r"
  unfolding route_from_path_def route_path_def by (cases r) auto

lemma mapped_not_openai:
  "(\<And>e. s \<noteq> ApiOpenAI e) \<Longrightarrow> api_endpoint_mapped s t = Some (Err (UnsupportedProvider t))"
  by (cases s) (auto simp: api_endpoint_mapped_def)

lemma mapped_chat:
  "\<exists>e'. api_endpoint_mapped (ApiOpenAI OaChatCompletions) t = Some (Inr e')
     \<and> api_endpoint_provider e' = t \<and> api_endpoint_type e' = Chat \<and> e' \<in> set (provider_endpoints t)"
  by (cases t) (simp_all add: api_endpoint_mapped_def endpoint_simps provider_endpoints_def openai_endpoints_def)

lemma mapped_other:
  "e \<noteq> OaChatCompletions \<Longrightarrow> api_endpoint_mapped (ApiOpenAI e) t =
     Some (case t of OpenAI \<Rightarrow> Inr (ApiOpenAI e) | Named n \<Rightarrow> Inr (ApiOpenAICompatible (Named n) e)
           | _ \<Rightarrow> Inl (UnsupportedEndpoint cross_message))"
  by (cases t) (simp_all add: api_endpoint_mapped_def)

subsection \<open>Properties\<close>

text \<open>
  Routing a client path to a provider never reaches a panicking conversion. A chat request is
  mapped to every provider; any other OpenAI endpoint only to OpenAI and to named providers, and is
  refused as an unsupported endpoint elsewhere; an endpoint of another vendor is refused as an
  unsupported provider.
\<close>

theorem mapped_never_panics:
  "api_endpoint_mapped s t \<noteq> None
   \<and> ((\<exists>e. api_endpoint_mapped s t = Some (Inr e)) \<longleftrightarrow>
        (\<exists>o'. s = ApiOpenAI o' \<and> (o' = OaChatCompletions \<or> t = OpenAI \<or> (\<exists>n. t = Named n))))
   \<and> (api_endpoint_mapped s t = Some (Inl (UnsupportedProvider t)) \<longleftrightarrow> (\<forall>o'. s \<noteq> ApiOpenAI o'))"
proof (cases "\<exists>e. s = ApiOpenAI e")
  case False
  then show ?thesis by (simp add: mapped_not_openai)
next
  case True
  then obtain e where e: "s = ApiOpenAI e" by blast
  show ?thesis
  proof (cases "e = OaChatCompletions")
    case True
    with e mapped_chat [of t] show ?thesis by auto
  next
    case False
    with e show ?thesis by (cases t) (simp_all add: mapped_other)
  qed
qed

text \<open>
  A successful mapping lands on the provider asked for, keeps the kind of the endpoint (chat,
  embeddings, image), and lands on one of the endpoints that provider offers.
\<close>

theorem mapped_keeps_kind:
  assumes "api_endpoint_mapped s t = Some (Inr e)"
  shows "api_endpoint_provider e = t \<and> api_endpoint_type e = api_endpoint_type s
    \<and> e \<in> set (provider_endpoints t)"
proof -
  from assms obtain o' where s: "s = ApiOpenAI o'" by (cases s) (auto simp: api_endpoint_mapped_def)
  show ?thesis
  proof (cases "o' = OaChatCompletions")
    case True
    with assms s mapped_chat [of t] show ?thesis by (auto simp: api_endpoint_type_def openai_endpoint_type_def)
  next
    case False
    with assms s show ?thesis
      by (cases t; cases o') (auto simp: mapped_other endpoint_simps provider_endpoints_def openai_endpoints_def)
  qed
qed

theorem mapped_keeps_kind_witness:
  "api_endpoint_mapped (ApiOpenAI OaChatCompletions) Bedrock = Some (Inr (ApiBedrock BrConverse))
   \<and> api_endpoint_provider (ApiBedrock BrConverse) = Bedrock"
proof -
  have m: "api_endpoint_mapped (ApiOpenAI OaChatCompletions) Bedrock = Some (Inr (ApiBedrock BrConverse))"
    by (simp add: api_endpoint_mapped_def openai_to_bedrock_def)
  from mapped_keeps_kind [OF m] m show ?thesis by simp
qed

text \<open>
  A custom provider is listed with every OpenAI endpoint, but requests reach only its chat
  endpoint: each of the other four endpoints it offers is refused.
\<close>

theorem custom_offers_unreachable:
  "ApiOpenAICompatible Custom e \<in> set (provider_endpoints Custom)
   \<and> (api_endpoint_mapped (ApiOpenAI e) Custom =
        Some (if e = OaChatCompletions then Inr (ApiOpenAICompatible Custom e)
              else Inl (UnsupportedEndpoint cross_message)))"
  by (cases e) (simp_all add: provider_endpoints_def openai_endpoints_def api_endpoint_mapped_def)

text \<open>
  The routes a client may ask for and the paths sent upstream correspond: a path is accepted
  exactly if it is the path of a route, and for the routes of the OpenAI family the upstream path is the
  client's path under \<open>v1/\<close>.
\<close>

theorem routes_and_paths:
  "(api_endpoint_new p \<noteq> None \<longleftrightarrow> (\<exists>r. p = route_path r))
   \<and> (\<forall>e. api_endpoint_new p = Some e \<longrightarrow> api_endpoint_path cal e None st = Inr (''v1/'' @ p))"
proof (cases "route_from_path p")
  case None
  then show ?thesis using route_path_inv [of p] by (auto simp: api_endpoint_new_def)
next
  case (Some r)
  then have p: "p = route_path r" by (simp add: route_path_inv)
  have "api_endpoint_new p \<noteq> None" using Some by (cases r) (simp_all add: api_endpoint_new_def openai_try_from_def)
  moreover have "api_endpoint_new p = Some e \<Longrightarrow> api_endpoint_path cal e None st = Inr (''v1/'' @ p)" for e
    using Some unfolding p
    by (cases r) (auto simp: api_endpoint_new_def openai_try_from_def api_endpoint_path_def
        openai_path_def anthropic_path_def route_path_def)
  ultimately show ?thesis using p by blast
qed

theorem routes_and_paths_witness:
  "api_endpoint_new ''embeddings'' = Some (ApiOpenAI OaEmbeddings)
   \<and> api_endpoint_path toy_calendar (ApiOpenAI OaEmbeddings) None False = Inr ''v1/embeddings''"
proof -
  have e: "api_endpoint_new ''embeddings'' = Some (ApiOpenAI OaEmbeddings)"
    by (simp add: api_endpoint_new_def route_from_path_def openai_try_from_def)
  with routes_and_paths [THEN conjunct2, rule_format, OF e, of toy_calendar False] show ?thesis by simp
qed

end
