(* ===== verification/Float64.thy ===== *)
theory Float64
  imports Complex_Main Gateway_Prelude
begin

text \<open>
  The part of \<open>f64\<close> the gateway computes with: division of counters, multiplication of weights,
  comparison, and the saturating cast to \<open>u32\<close>. A value is a rational number, an infinity or NaN
  (the sign of zero is not kept: no code of the gateway depends on it). Every operation
  rounds the exact result to binary64, to nearest with ties to even, with the subnormal
  range and overflow to infinity; rounding is executable and monotone.
\<close>

datatype f64 = NaN | PosInf | NegInf | Fin rat

fun bit_length :: "nat \<Rightarrow> nat" where
  "bit_length n = (if n = 0 then 0 else Suc (bit_length (n div 2)))"

declare bit_length.simps [simp del]

definition ilog2 :: "rat \<Rightarrow> int" where
  "ilog2 q =
     (let (a, b) = quotient_of q;
          e = int (bit_length (nat a)) - int (bit_length (nat b))
      in if 2 powi e \<le> q then e else e - 1)"

definition round_half_even :: "rat \<Rightarrow> int" where
  "round_half_even x =
     (let f = floor x; d = x - of_int f
      in if d < 1 / 2 then f else if d > 1 / 2 then f + 1 else if even f then f else f + 1)"

definition f64_exponent :: "rat \<Rightarrow> int" where
  "f64_exponent q = max (ilog2 q - 52) (- 1074)"

definition round_pos :: "rat \<Rightarrow> rat" where
  "round_pos q =
     of_int (round_half_even (q / 2 powi f64_exponent q)) * 2 powi f64_exponent q"

definition f64_round :: "rat \<Rightarrow> f64" where
  "f64_round q =
     (if q = 0 then Fin 0
      else if q > 0 then (if round_pos q \<ge> 2 ^ 1024 then PosInf else Fin (round_pos q))
      else (if round_pos (- q) \<ge> 2 ^ 1024 then NegInf else Fin (- round_pos (- q))))"

definition f64_gt :: "f64 \<Rightarrow> f64 \<Rightarrow> bool" where
  "f64_gt x y =
     (case (x, y) of
        (NaN, _) \<Rightarrow> False | (_, NaN) \<Rightarrow> False
      | (PosInf, PosInf) \<Rightarrow> False | (PosInf, _) \<Rightarrow> True
      | (_, PosInf) \<Rightarrow> False
      | (NegInf, _) \<Rightarrow> False
      | (Fin _, NegInf) \<Rightarrow> True
      | (Fin a, Fin b) \<Rightarrow> a > b)"

text \<open>Division of two finite values, the only one the code performs.\<close>

definition f64_div :: "rat \<Rightarrow> rat \<Rightarrow> f64" where
  "f64_div a b =
     (if b = 0 then (if a = 0 then NaN else if a > 0 then PosInf else NegInf) else f64_round (a / b))"

definition f64_mul :: "rat \<Rightarrow> rat \<Rightarrow> f64" where
  "f64_mul a b = f64_round (a * b)"

definition f64_add :: "rat \<Rightarrow> rat \<Rightarrow> f64" where
  "f64_add a b = f64_round (a + b)"

text \<open>The operators on all values.\<close>

definition f64_div_f64 :: "f64 \<Rightarrow> f64 \<Rightarrow> f64" where
  "f64_div_f64 x y =
     (case (x, y) of
        (NaN, _) \<Rightarrow> NaN | (_, NaN) \<Rightarrow> NaN
      | (Fin a, Fin b) \<Rightarrow> f64_div a b
      | (Fin _, _) \<Rightarrow> Fin 0
      | (PosInf, Fin b) \<Rightarrow> if b < 0 then NegInf else PosInf
      | (NegInf, Fin b) \<Rightarrow> if b < 0 then PosInf else NegInf
      | _ \<Rightarrow> NaN)"

definition f64_mul_f64 :: "f64 \<Rightarrow> f64 \<Rightarrow> f64" where
  "f64_mul_f64 x y =
     (let inf = (\<lambda>neg q. if q = 0 then NaN else if (q < 0) = neg then PosInf else NegInf)
      in case (x, y) of
        (NaN, _) \<Rightarrow> NaN | (_, NaN) \<Rightarrow> NaN
      | (Fin a, Fin b) \<Rightarrow> f64_mul a b
      | (PosInf, Fin b) \<Rightarrow> inf False b | (Fin a, PosInf) \<Rightarrow> inf False a
      | (NegInf, Fin b) \<Rightarrow> inf True b | (Fin a, NegInf) \<Rightarrow> inf True a
      | (PosInf, PosInf) \<Rightarrow> PosInf | (NegInf, NegInf) \<Rightarrow> PosInf
      | _ \<Rightarrow> NegInf)"

definition f64_floor :: "f64 \<Rightarrow> f64" where
  "f64_floor x = (case x of Fin q \<Rightarrow> Fin (of_int (floor q)) | y \<Rightarrow> y)"

text \<open>\<open>Duration::as_secs_f64\<close>: whole seconds and the fraction, each converted, then added.\<close>

definition as_secs_f64 :: "duration \<Rightarrow> f64" where
  "as_secs_f64 d =
     (case (f64_round (of_nat (d div nanos_per_sec)),
            f64_div (of_nat (d mod nanos_per_sec)) (of_nat nanos_per_sec)) of
        (Fin a, Fin b) \<Rightarrow> f64_add a b
      | (x, _) \<Rightarrow> x)"

text \<open>\<open>f64::round\<close>: to the nearest integer, ties away from zero.\<close>

definition round_half_away :: "rat \<Rightarrow> int" where
  "round_half_away x = (if x \<ge> 0 then floor (x + 1 / 2) else - floor (- x + 1 / 2))"

text \<open>\<open>x as u32\<close>: NaN and negative values give 0, values beyond the range its largest value.\<close>

definition f64_to_u32 :: "f64 \<Rightarrow> u32" where
  "f64_to_u32 x =
     (case x of NaN \<Rightarrow> 0 | PosInf \<Rightarrow> - 1 | NegInf \<Rightarrow> 0
      | Fin q \<Rightarrow> if q \<ge> 2 ^ 32 - 1 then - 1 else if q < 0 then 0 else of_int (floor q))"

text \<open>\<open>x as u64\<close> and \<open>x as usize\<close> on a 64-bit machine.\<close>

definition f64_to_u64 :: "f64 \<Rightarrow> u64" where
  "f64_to_u64 x =
     (case x of NaN \<Rightarrow> 0 | PosInf \<Rightarrow> - 1 | NegInf \<Rightarrow> 0
      | Fin q \<Rightarrow> if q \<ge> 2 ^ 64 - 1 then - 1 else if q < 0 then 0 else of_int (floor q))"

subsection \<open>Logarithm and rounding\<close>

lemma bit_length_bounds:
  "0 < n \<Longrightarrow> 2 ^ (bit_length n - 1) \<le> n \<and> n < 2 ^ bit_length n \<and> 0 < bit_length n"
proof (induction n rule: bit_length.induct)
  case (1 n)
  show ?case
  proof (cases "n div 2 = 0")
    case True
    with 1 have "n = 1" by auto
    then show ?thesis by (simp add: bit_length.simps)
  next
    case False
    with 1 have ih: "2 ^ (bit_length (n div 2) - 1) \<le> n div 2" "n div 2 < 2 ^ bit_length (n div 2)"
      "0 < bit_length (n div 2)" by auto
    have bl: "bit_length n = Suc (bit_length (n div 2))" using 1 by (simp add: bit_length.simps)
    have "(2::nat) ^ bit_length (n div 2) = 2 * 2 ^ (bit_length (n div 2) - 1)"
      using ih(3) by (cases "bit_length (n div 2)") auto
    with ih show ?thesis unfolding bl by simp linarith
  qed
qed

lemma powi_two_pos [simp]: "0 < (2::rat) powi e"
  by (simp add: zero_less_power_int)

lemma powi_two_mono: "e \<le> f \<Longrightarrow> (2::rat) powi e \<le> 2 powi f"
  by (simp add: power_int_increasing)

lemma powi_two_add: "(2::rat) powi (a + b) = 2 powi a * 2 powi b"
  by (simp add: power_int_add)

lemma powi_two_less: "(2::rat) powi e < 2 powi f \<Longrightarrow> e < f"
  using powi_two_mono [of f e] by linarith

lemma ilog2_bounds:
  assumes "0 < q"
  shows "2 powi ilog2 q \<le> q" and "q < 2 powi (ilog2 q + 1)"
proof -
  obtain a b where ab: "quotient_of q = (a, b)" by fastforce
  have q: "q = of_int a / of_int b" and b: "0 < b"
    using quotient_of_div [OF ab] quotient_of_denom_pos [OF ab] by auto
  with assms have a: "0 < a" by (simp add: zero_less_divide_iff)
  let ?la = "bit_length (nat a)" and ?lb = "bit_length (nat b)"
  let ?e = "int ?la - int ?lb"
  have A: "2 ^ (?la - 1) \<le> nat a" "nat a < 2 ^ ?la" "0 < ?la"
    and B: "2 ^ (?lb - 1) \<le> nat b" "nat b < 2 ^ ?lb" "0 < ?lb"
    using bit_length_bounds [of "nat a"] bit_length_bounds [of "nat b"] a b by auto
  have A': "(2::rat) powi (int ?la - 1) \<le> of_int a" "of_int a < (2::rat) powi int ?la"
  proof -
    have "(2::rat) powi (int ?la - 1) = of_nat (2 ^ (?la - 1))"
      using A(3) by (simp add: power_int_def nat_diff_distrib)
    also have "\<dots> \<le> of_nat (nat a)" using A(1) by (rule of_nat_mono)
    finally show "(2::rat) powi (int ?la - 1) \<le> of_int a" using a by simp
    have "of_nat (nat a) < (of_nat (2 ^ ?la) :: rat)" using A(2) by (simp only: of_nat_less_iff)
    then show "of_int a < (2::rat) powi int ?la" using a by simp
  qed
  have B': "(2::rat) powi (int ?lb - 1) \<le> of_int b" "of_int b < (2::rat) powi int ?lb"
  proof -
    have "(2::rat) powi (int ?lb - 1) = of_nat (2 ^ (?lb - 1))"
      using B(3) by (simp add: power_int_def nat_diff_distrib)
    also have "\<dots> \<le> of_nat (nat b)" using B(1) by (rule of_nat_mono)
    finally show "(2::rat) powi (int ?lb - 1) \<le> of_int b" using b by simp
    have "of_nat (nat b) < (of_nat (2 ^ ?lb) :: rat)" using B(2) by (simp only: of_nat_less_iff)
    then show "of_int b < (2::rat) powi int ?lb" using b by simp
  qed
  have bq: "of_int b * q = of_int a" using q b by simp
  have up: "q < 2 powi (?e + 1)"
  proof -
    have "2 powi (int ?lb - 1) * q \<le> of_int b * q" using B'(1) assms by simp
    also have "\<dots> < 2 powi ((int ?lb - 1) + (?e + 1))" using bq A'(2) by (simp add: algebra_simps)
    also have "\<dots> = 2 powi (int ?lb - 1) * 2 powi (?e + 1)" by (rule powi_two_add)
    finally show ?thesis by simp
  qed
  have low: "2 powi (?e - 1) \<le> q"
  proof -
    have "2 powi int ?lb * 2 powi (?e - 1) = (2::rat) powi (int ?la - 1)"
      unfolding powi_two_add [symmetric] by (simp add: algebra_simps)
    also have "\<dots> \<le> of_int b * q" using A'(1) bq by simp
    also have "\<dots> \<le> 2 powi int ?lb * q" using B'(2) assms by simp
    finally show ?thesis by simp
  qed
  have il: "ilog2 q = (if 2 powi ?e \<le> q then ?e else ?e - 1)" by (simp add: ilog2_def ab)
  show "2 powi ilog2 q \<le> q" unfolding il using low by simp
  show "q < 2 powi (ilog2 q + 1)" unfolding il using up by (auto simp: not_le)
qed

lemma ilog2_mono: "\<lbrakk>0 < p; p \<le> q\<rbrakk> \<Longrightarrow> ilog2 p \<le> ilog2 q"
proof -
  assume p: "0 < p" "p \<le> q"
  then have "2 powi ilog2 p < (2::rat) powi (ilog2 q + 1)"
    using ilog2_bounds [of p] ilog2_bounds [of q] by linarith
  then show ?thesis by (auto dest: powi_two_less)
qed

lemma round_half_even_bounds: "floor x \<le> round_half_even x \<and> round_half_even x \<le> floor x + 1"
  by (auto simp: round_half_even_def Let_def)

lemma round_half_even_int [simp]: "round_half_even (of_int n) = n"
  by (simp add: round_half_even_def)

lemma round_half_even_mono:
  assumes "x \<le> y"
  shows "round_half_even x \<le> round_half_even y"
proof (cases "floor x = floor y")
  case True
  with assms show ?thesis by (auto simp: round_half_even_def Let_def)
next
  case False
  with floor_mono [OF assms] have "floor x + 1 \<le> floor y" by simp
  with round_half_even_bounds [of x] round_half_even_bounds [of y] show ?thesis by linarith
qed

lemma round_half_even_le_int: "x \<le> of_int n \<Longrightarrow> round_half_even x \<le> n"
  using round_half_even_mono [of x "of_int n"] by simp

lemma round_half_even_ge_int: "of_int n \<le> x \<Longrightarrow> n \<le> round_half_even x"
  using round_half_even_mono [of "of_int n" x] by simp

subsection \<open>Rounding is monotone and exact on small integers\<close>

lemma powi_two_ge1: "0 \<le> e \<Longrightarrow> (2::rat) powi e = of_int (2 ^ nat e)"
  by (simp add: power_int_def)

lemma f64_exponent_mono: "\<lbrakk>0 < p; p \<le> q\<rbrakk> \<Longrightarrow> f64_exponent p \<le> f64_exponent q"
  unfolding f64_exponent_def using ilog2_mono by fastforce

text \<open>The rounded value stays between the powers of two around the exact one.\<close>

lemma round_pos_le_power:
  assumes "0 < q" and "f64_exponent q \<le> k" and "q \<le> 2 powi k"
  shows "round_pos q \<le> 2 powi k"
proof -
  let ?e = "f64_exponent q"
  have k: "(2::rat) powi k = 2 powi ?e * of_int (2 ^ nat (k - ?e))"
    using assms(2) powi_two_add [of ?e "k - ?e"] powi_two_ge1 [of "k - ?e"] by simp
  have "q / 2 powi ?e \<le> of_int (2 ^ nat (k - ?e))"
    using assms(3) unfolding k by (simp add: divide_simps mult.commute)
  then have "round_half_even (q / 2 powi ?e) \<le> 2 ^ nat (k - ?e)" by (rule round_half_even_le_int)
  then have "of_int (round_half_even (q / 2 powi ?e)) \<le> (of_int (2 ^ nat (k - ?e)) :: rat)"
    by (simp only: of_int_le_iff)
  then show ?thesis unfolding round_pos_def k by (simp add: mult.commute)
qed

lemma round_pos_ge_power:
  assumes "0 < q" and "f64_exponent q \<le> k" and "2 powi k \<le> q"
  shows "2 powi k \<le> round_pos q"
proof -
  let ?e = "f64_exponent q"
  have k: "(2::rat) powi k = 2 powi ?e * of_int (2 ^ nat (k - ?e))"
    using assms(2) powi_two_add [of ?e "k - ?e"] powi_two_ge1 [of "k - ?e"] by simp
  have "of_int (2 ^ nat (k - ?e)) \<le> q / 2 powi ?e"
    using assms(3) unfolding k by (simp add: divide_simps mult.commute)
  then have "2 ^ nat (k - ?e) \<le> round_half_even (q / 2 powi ?e)" by (rule round_half_even_ge_int)
  then have "(of_int (2 ^ nat (k - ?e)) :: rat) \<le> of_int (round_half_even (q / 2 powi ?e))"
    by (simp only: of_int_le_iff)
  then show ?thesis unfolding round_pos_def k by (simp add: mult.commute)
qed

lemma round_pos_mono:
  assumes "0 < p" and "p \<le> q"
  shows "round_pos p \<le> round_pos q"
proof (cases "f64_exponent p = f64_exponent q")
  case True
  have "p / 2 powi f64_exponent q \<le> q / 2 powi f64_exponent q"
    using assms by (simp add: divide_right_mono)
  from round_half_even_mono [OF this] show ?thesis unfolding round_pos_def True by simp
next
  case False
  with f64_exponent_mono [OF assms] have less: "f64_exponent p < f64_exponent q" by simp
  let ?k = "ilog2 q"
  have q: "0 < q" using assms by simp
  have e: "f64_exponent q = ?k - 52" and "f64_exponent p \<ge> ilog2 p - 52"
    using less by (auto simp: f64_exponent_def)
  then have k: "ilog2 p + 1 \<le> ?k" using less by simp
  have "p \<le> 2 powi ?k" using ilog2_bounds(2) [OF assms(1)] powi_two_mono [OF k] by linarith
  then have "round_pos p \<le> 2 powi ?k" using assms(1) less e by (intro round_pos_le_power) auto
  also have "2 powi ?k \<le> round_pos q" using ilog2_bounds(1) [OF q] q e by (intro round_pos_ge_power) auto
  finally show ?thesis .
qed

lemma round_pos_nonneg: "0 < q \<Longrightarrow> 0 \<le> round_pos q"
  unfolding round_pos_def by (auto intro!: mult_nonneg_nonneg round_half_even_ge_int [of 0, simplified])

lemma round_pos_small_int:
  assumes "0 < n" and "n < 2 ^ 53"
  shows "round_pos (of_nat n) = of_nat n"
proof -
  let ?q = "of_nat n :: rat"
  have q: "0 < ?q" using assms by simp
  have "(2::rat) powi ilog2 ?q < 2 powi 53"
  proof -
    have "?q < of_nat (2 ^ 53)" using assms(2) by (simp only: of_nat_less_iff)
    also have "\<dots> = 2 powi 53" by (simp add: power_int_def)
    finally show ?thesis using ilog2_bounds(1) [OF q] by linarith
  qed
  from powi_two_less [OF this] have "ilog2 ?q \<le> 52" by simp
  then have e: "f64_exponent ?q \<le> 0" by (simp add: f64_exponent_def)
  let ?m = "int n * 2 ^ nat (- f64_exponent ?q)"
  have "(2::rat) ^ nat (- f64_exponent ?q) * 2 powi f64_exponent ?q = 1"
    using e powi_two_add [of "- f64_exponent ?q" "f64_exponent ?q"] powi_two_ge1 [of "- f64_exponent ?q"]
    by simp
  then have m: "of_int ?m * 2 powi f64_exponent ?q = ?q" by simp
  then have "?q / 2 powi f64_exponent ?q = of_int ?m" by (simp add: divide_simps)
  then show ?thesis using m unfolding round_pos_def by (simp only: round_half_even_int)
qed

lemma f64_round_small_int:
  assumes "n < 2 ^ 53"
  shows "f64_round (of_nat n) = Fin (of_nat n)"
proof (cases "n = 0")
  case False
  have "(of_nat n :: rat) < of_nat (2 ^ 53)" using assms by (simp only: of_nat_less_iff)
  also have "\<dots> \<le> 2 ^ 1024" by simp
  finally have "(of_nat n :: rat) < 2 ^ 1024" .
  with False assms show ?thesis by (simp only: f64_round_def round_pos_small_int) auto
qed (simp add: f64_round_def)

lemma f64_round_nonneg_mono:
  assumes "0 \<le> p" and "p \<le> q" and "f64_gt (f64_round p) t"
  shows "f64_gt (f64_round q) t"
proof (cases "p = 0")
  case True
  with assms(3) have t: "f64_gt (Fin 0) t" by (simp add: f64_round_def)
  show ?thesis
  proof (cases "q = 0")
    case False
    with True assms(2) have "0 \<le> round_pos q" "0 < q" using round_pos_nonneg [of q] by auto
    with t show ?thesis by (cases t) (auto simp: f64_gt_def f64_round_def)
  qed (use t in \<open>simp add: f64_round_def\<close>)
next
  case False
  with assms have "0 < p" "0 < q" by auto
  with round_pos_mono [of p q] assms show ?thesis
    by (cases t) (auto simp: f64_gt_def f64_round_def split: if_splits)
qed

text \<open>A ratio of counts above a threshold stays above it when the numerator grows.\<close>

lemma f64_div_gt_mono:
  assumes "0 \<le> a" and "a \<le> a'" and "0 \<le> b" and "f64_gt (f64_div a b) t"
  shows "f64_gt (f64_div a' b) t"
proof (cases "b = 0")
  case True
  with assms show ?thesis by (auto simp: f64_div_def f64_gt_def split: if_splits f64.splits)
next
  case False
  with assms show ?thesis
    by (auto simp: f64_div_def intro!: f64_round_nonneg_mono [of "a / b" "a' / b"] divide_right_mono)
qed

end
