(* ===== verification/Discovery.thy ===== *)
theory Discovery
  imports Gateway_Prelude Float64 Providers Model_Id Endpoints
begin

text \<open>
  The load-balance configuration (\<open>config/balance.rs\<close>, \<open>config/router.rs\<close>), the weights of the balancer
  (\<open>crates/weighted-balance/src/weight.rs\<close>), the four discoveries that turn a configuration
  into keys and dispatchers (\<open>discover/provider\<close>, \<open>discover/model\<close>), the stream of changes they
  yield (\<open>discover/mod.rs\<close>, \<open>discover/dispatcher/mod.rs\<close>) and the balancer that consumes it
  (\<open>crates/weighted-balance/src/balance/mod.rs\<close>).

  Decimal numbers are a library type: \<open>decimal_ops\<close> holds what the code uses of it. Building a
  dispatcher (\<open>Dispatcher::new\<close>, \<open>new_with_model_id\<close>) is the parameter \<open>mk\<close>. A hash map is an
  association list with distinct keys, in whatever order it iterates.
\<close>

subsection \<open>Weights\<close>

type_synonym Weight = u32

definition weight_MIN :: Weight where "weight_MIN = 0"
definition weight_UNIT :: Weight where "weight_UNIT = 10000"
definition weight_MAX :: Weight where "weight_MAX = - 1"

definition weight_from_f64 :: "f64 \<Rightarrow> Weight" where
  "weight_from_f64 w =
     (case w of
        NaN \<Rightarrow> weight_MIN
      | NegInf \<Rightarrow> weight_MIN
      | PosInf \<Rightarrow> weight_MAX
      | Fin q \<Rightarrow>
          if q < 0 then weight_MIN
          else (case f64_mul q (of_nat (unat weight_UNIT)) of
                  Fin r \<Rightarrow> f64_to_u32 (Fin (of_int (round_half_away r)))
                | x \<Rightarrow> f64_to_u32 x))"

definition f64_from_weight :: "Weight \<Rightarrow> f64" where
  "f64_from_weight w = f64_div (of_nat (unat w)) (of_nat (unat weight_UNIT))"

text \<open>A load divided by a weight; the lowest weight makes every load infinite.\<close>

definition div_weight :: "f64 \<Rightarrow> Weight \<Rightarrow> f64" where
  "div_weight x w = (if w = weight_MIN then PosInf else f64_div_f64 x (f64_from_weight w))"

subsection \<open>Configuration\<close>

record 'w decimal_ops =
  dec_sum :: "'w list \<Rightarrow> 'w"
  dec_one :: 'w
  dec_to_f64 :: "'w \<Rightarrow> f64 option"
  dec_show :: "'w \<Rightarrow> string"

record 'w WeightedProvider =
  wp_provider :: InferenceProvider
  wp_weight :: 'w

record ('d, 'w) WeightedModel =
  wm_model :: "'d ModelId"
  wm_weight :: 'w

datatype ('d, 'w) BalanceConfigInner =
    ProviderWeighted "'w WeightedProvider list"
  | BalancedLatency "InferenceProvider list"
  | ModelWeighted "('d, 'w) WeightedModel list"
  | ModelLatency "'d ModelId list"

type_synonym ('d, 'w) BalanceConfig = "(EndpointType \<times> ('d, 'w) BalanceConfigInner) list"

text \<open>Collecting into an \<open>IndexSet\<close> keeps the first occurrence of each element, in order.\<close>

fun index_set_insert_all :: "'a list \<Rightarrow> 'a list \<Rightarrow> 'a list" where
  "index_set_insert_all acc [] = acc"
| "index_set_insert_all acc (x # xs) = index_set_insert_all (if x \<in> set acc then acc else acc @ [x]) xs"

definition index_set :: "'a list \<Rightarrow> 'a list" where
  "index_set xs = index_set_insert_all [] xs"

definition balance_default :: "('d, 'w) BalanceConfig" where
  "balance_default =
     [(Chat, BalancedLatency [OpenAI, Anthropic, GoogleGemini]),
      (Embeddings, BalancedLatency [OpenAI, Anthropic, GoogleGemini])]"

definition balance_providers :: "('d, 'w) BalanceConfigInner \<Rightarrow> InferenceProvider list" where
  "balance_providers b =
     (case b of
        ProviderWeighted ps \<Rightarrow> index_set (map wp_provider ps)
      | BalancedLatency ps \<Rightarrow> index_set ps
      | ModelWeighted ms \<Rightarrow> index_set (List.map_filter (\<lambda>m. inference_provider (wm_model m)) ms)
      | ModelLatency ms \<Rightarrow> index_set (List.map_filter inference_provider ms))"

definition config_providers :: "('d, 'w) BalanceConfig \<Rightarrow> InferenceProvider list" where
  "config_providers cfg = index_set (concat (map (balance_providers \<circ> snd) cfg))"

datatype 'e InitError =
    InvalidBalancer string | InvalidWeight InferenceProvider | ModelIdNotRecognized string | DispatcherInit 'e

definition weights_message :: "string \<Rightarrow> string" where
  "weights_message t = ''Balance weights dont sum to 1: '' @ t"

fun validate_balance :: "'w decimal_ops \<Rightarrow> ('d, 'w) BalanceConfig \<Rightarrow> ('e InitError, unit) result" where
  "validate_balance D [] = Ok ()"
| "validate_balance D ((_, b) # cfg) =
     (case b of
        ProviderWeighted ps \<Rightarrow>
          (let total = dec_sum D (map wp_weight ps)
           in if total \<noteq> dec_one D then Err (InvalidBalancer (weights_message (dec_show D total)))
              else validate_balance D cfg)
      | ModelWeighted ms \<Rightarrow>
          (let total = dec_sum D (map wm_weight ms)
           in if total \<noteq> dec_one D then Err (InvalidBalancer (weights_message (dec_show D total)))
              else validate_balance D cfg)
      | BalancedLatency _ \<Rightarrow> validate_balance D cfg
      | ModelLatency _ \<Rightarrow> validate_balance D cfg)"

subsection \<open>Discoveries\<close>

definition hm_insert :: "'k \<Rightarrow> 'v \<Rightarrow> ('k \<times> 'v) list \<Rightarrow> ('k \<times> 'v) list" where
  "hm_insert k v m = (k, v) # filter (\<lambda>e. fst e \<noteq> k) m"

record ProviderEndpointKey =
  pk_provider :: InferenceProvider
  pk_endpoint_type :: EndpointType

record ProviderWeightedKey =
  pwk_provider :: InferenceProvider
  pwk_endpoint_type :: EndpointType
  pwk_weight :: Weight

record 'd ModelKey =
  mk_model_id :: "'d ModelId"
  mk_endpoint_type :: EndpointType

record 'd ModelWeightedKey =
  mwk_model_id :: "'d ModelId"
  mwk_endpoint_type :: EndpointType
  mwk_weight :: Weight

text \<open>\<open>mk p m\<close> builds the dispatcher of provider \<open>p\<close>, bound to the model \<open>m\<close> when there is one.\<close>

type_synonym ('d, 'e, 'svc) make_dispatcher =
  "InferenceProvider \<Rightarrow> 'd ModelId option \<Rightarrow> ('e, 'svc) result"

definition dispatcher_new ::
  "('d, 'e, 'svc) make_dispatcher \<Rightarrow> InferenceProvider \<Rightarrow> 'd ModelId option \<Rightarrow> ('e InitError, 'svc) result" where
  "dispatcher_new mk p m = (case mk p m of Inl e \<Rightarrow> Err (DispatcherInit e) | Inr s \<Rightarrow> Ok s)"

text \<open>The inner loops: one entry per provider or model of one endpoint type.\<close>

fun insert_providers where
  "insert_providers mk ep [] m = Ok m"
| "insert_providers mk ep (p # ps) m =
     try_bind (dispatcher_new mk p None) (\<lambda>s.
       insert_providers mk ep ps (hm_insert \<lparr>pk_provider = p, pk_endpoint_type = ep\<rparr> s m))"

fun discover_providers ::
  "('d, 'e, 'svc) make_dispatcher \<Rightarrow> ('d, 'w) BalanceConfig \<Rightarrow> (ProviderEndpointKey \<times> 'svc) list
     \<Rightarrow> ('e InitError, (ProviderEndpointKey \<times> 'svc) list) result" where
  "discover_providers mk [] m = Ok m"
| "discover_providers mk ((ep, b) # cfg) m =
     try_bind (insert_providers mk ep (balance_providers b) m) (discover_providers mk cfg)"

fun insert_weighted_providers where
  "insert_weighted_providers D mk ep [] m = Ok m"
| "insert_weighted_providers D mk ep (t # ts) m =
     try_bind (ok_or (InvalidWeight (wp_provider t)) (dec_to_f64 D (wp_weight t))) (\<lambda>w.
     try_bind (dispatcher_new mk (wp_provider t) None) (\<lambda>s.
       insert_weighted_providers D mk ep ts
         (hm_insert \<lparr>pwk_provider = wp_provider t, pwk_endpoint_type = ep, pwk_weight = weight_from_f64 w\<rparr> s m)))"

fun discover_weighted_providers ::
  "'w decimal_ops \<Rightarrow> ('d, 'e, 'svc) make_dispatcher \<Rightarrow> ('d, 'w) BalanceConfig
     \<Rightarrow> (ProviderWeightedKey \<times> 'svc) list \<Rightarrow> ('e InitError, (ProviderWeightedKey \<times> 'svc) list) result" where
  "discover_weighted_providers D mk [] m = Ok m"
| "discover_weighted_providers D mk ((ep, b) # cfg) m =
     (case b of
        ProviderWeighted ps \<Rightarrow>
          try_bind (insert_weighted_providers D mk ep ps m) (discover_weighted_providers D mk cfg)
      | ModelWeighted _ \<Rightarrow> Err (InvalidBalancer
          ''Model weighted balancer not supported for provider weighted discovery'')
      | BalancedLatency _ \<Rightarrow> Err (InvalidBalancer ''P2C balancer not supported for weighted discovery'')
      | ModelLatency _ \<Rightarrow> Err (InvalidBalancer
          ''Model latency balancer not supported for provider weighted discovery''))"

fun insert_models where
  "insert_models cal mk ep [] m = Ok m"
| "insert_models cal mk ep (x # xs) m =
     try_bind (ok_or (ModelIdNotRecognized (model_id_display cal x)) (inference_provider x)) (\<lambda>p.
     try_bind (dispatcher_new mk p (Some x)) (\<lambda>s.
       insert_models cal mk ep xs (hm_insert \<lparr>mk_model_id = x, mk_endpoint_type = ep\<rparr> s m)))"

fun discover_models ::
  "'d calendar \<Rightarrow> ('d, 'e, 'svc) make_dispatcher \<Rightarrow> ('d, 'w) BalanceConfig
     \<Rightarrow> ('d ModelKey \<times> 'svc) list \<Rightarrow> ('e InitError, ('d ModelKey \<times> 'svc) list) result" where
  "discover_models cal mk [] m = Ok m"
| "discover_models cal mk ((ep, b) # cfg) m =
     (case b of
        ModelLatency ms \<Rightarrow> try_bind (insert_models cal mk ep ms m) (discover_models cal mk cfg)
      | _ \<Rightarrow> Err (InvalidBalancer
          ''incorrect dispatch discovery type used with model latency config''))"

fun insert_weighted_models where
  "insert_weighted_models cal D mk ep [] m = Ok m"
| "insert_weighted_models cal D mk ep (t # ts) m =
     try_bind (ok_or (ModelIdNotRecognized (model_id_display cal (wm_model t))) (inference_provider (wm_model t))) (\<lambda>p.
     try_bind (ok_or (InvalidWeight p) (dec_to_f64 D (wm_weight t))) (\<lambda>w.
     try_bind (dispatcher_new mk p (Some (wm_model t))) (\<lambda>s.
       insert_weighted_models cal D mk ep ts
         (hm_insert \<lparr>mwk_model_id = wm_model t, mwk_endpoint_type = ep, mwk_weight = weight_from_f64 w\<rparr> s m))))"

fun discover_weighted_models ::
  "'d calendar \<Rightarrow> 'w decimal_ops \<Rightarrow> ('d, 'e, 'svc) make_dispatcher \<Rightarrow> ('d, 'w) BalanceConfig
     \<Rightarrow> ('d ModelWeightedKey \<times> 'svc) list \<Rightarrow> ('e InitError, ('d ModelWeightedKey \<times> 'svc) list) result" where
  "discover_weighted_models cal D mk [] m = Ok m"
| "discover_weighted_models cal D mk ((ep, b) # cfg) m =
     (case b of
        ModelWeighted ms \<Rightarrow>
          try_bind (insert_weighted_models cal D mk ep ms m) (discover_weighted_models cal D mk cfg)
      | ModelLatency _ \<Rightarrow> Err (InvalidBalancer
          ''Model latency balancer not supported for model weighted discovery'')
      | ProviderWeighted _ \<Rightarrow> Err (InvalidBalancer
          ''Provider weighted balancer not supported for model weighted discovery'')
      | BalancedLatency _ \<Rightarrow> Err (InvalidBalancer ''P2C balancer not supported for weighted discovery''))"

subsection \<open>The stream of changes\<close>

datatype 'a poll = Pending | Ready 'a

datatype ('k, 'svc) change = Insert 'k 'svc | Remove 'k

text \<open>
  \<open>DispatcherDiscovery\<close>: the services known at the start that were not yet yielded, and the channel
  of later changes, which is closed once every sender is gone.
\<close>

record ('k, 'svc) dispatcher_discovery =
  dd_initial :: "('k \<times> 'svc) list"
  dd_events :: "('k, 'svc) change list"
  dd_closed :: bool

definition service_map_poll_next ::
  "('k \<times> 'svc) list \<Rightarrow> ('k, 'svc) change option poll \<times> ('k \<times> 'svc) list" where
  "service_map_poll_next m =
     (case m of [] \<Rightarrow> (Ready None, []) | (k, s) # r \<Rightarrow> (Ready (Some (Insert k s)), r))"

definition discovery_poll_next ::
  "('k, 'svc) dispatcher_discovery \<Rightarrow>
     ('k, 'svc) change option poll \<times> ('k, 'svc) dispatcher_discovery" where
  "discovery_poll_next d =
     (case service_map_poll_next (dd_initial d) of
        (Ready (Some c), r) \<Rightarrow> (Ready (Some c), d\<lparr>dd_initial := r\<rparr>)
      | _ \<Rightarrow>
          (case dd_events d of
             c # cs \<Rightarrow> (Ready (Some c), d\<lparr>dd_events := cs\<rparr>)
           | [] \<Rightarrow> (if dd_closed d then Ready None else Pending, d)))"

text \<open>\<open>WeightedDiscover::poll_next\<close>: an inserted service carries the weight of its key.\<close>

definition weighted_poll_next ::
  "('k \<Rightarrow> Weight) \<Rightarrow> ('k, 'svc) dispatcher_discovery \<Rightarrow>
     ('k, 'svc \<times> Weight) change option poll \<times> ('k, 'svc) dispatcher_discovery" where
  "weighted_poll_next wt d =
     (case discovery_poll_next d of
        (Pending, d') \<Rightarrow> (Pending, d')
      | (Ready None, d') \<Rightarrow> (Ready None, d')
      | (Ready (Some (Insert k s)), d') \<Rightarrow> (Ready (Some (Insert k (s, wt k))), d')
      | (Ready (Some (Remove k)), d') \<Rightarrow> (Ready (Some (Remove k)), d'))"

text \<open>
  \<open>update_pending_from_discover\<close>: the balancer drains the stream into its cache of services, a
  library type of which only \<open>push\<close> and \<open>evict\<close> are used here. The loop ends when the stream is
  pending or closed.
\<close>

lemma weighted_poll_next_size:
  "weighted_poll_next wt d = (Ready (Some c), d') \<Longrightarrow>
     length (dd_initial d') + length (dd_events d') < length (dd_initial d) + length (dd_events d)"
  by (auto simp: weighted_poll_next_def discovery_poll_next_def service_map_poll_next_def
      split: list.splits poll.splits option.splits change.splits prod.splits if_splits)

function update_pending_from_discover ::
  "('k \<Rightarrow> 'svc \<times> Weight \<Rightarrow> 'c \<Rightarrow> 'c) \<Rightarrow> ('k \<Rightarrow> 'c \<Rightarrow> 'c) \<Rightarrow> ('k \<Rightarrow> Weight)
     \<Rightarrow> ('k, 'svc) dispatcher_discovery \<Rightarrow> 'c \<Rightarrow> unit option poll \<times> ('k, 'svc) dispatcher_discovery \<times> 'c" where
  "update_pending_from_discover push evict wt d cache =
     (case weighted_poll_next wt d of
        (Pending, d') \<Rightarrow> (Pending, d', cache)
      | (Ready None, d') \<Rightarrow> (Ready None, d', cache)
      | (Ready (Some (Remove k)), d') \<Rightarrow> update_pending_from_discover push evict wt d' (evict k cache)
      | (Ready (Some (Insert k s)), d') \<Rightarrow> update_pending_from_discover push evict wt d' (push k s cache))"
  by pat_completeness auto
termination
  by (relation "measure (\<lambda>(_, _, _, d, _). length (dd_initial d) + length (dd_events d))")
    (auto dest: weighted_poll_next_size [OF sym])

declare update_pending_from_discover.simps [simp del]

text \<open>
  \<open>ready_index\<close>: with no ready service there is nothing to choose, a single one is taken as it is,
  and among several a library sampler draws one by the weights of the keys.
\<close>

definition ready_index ::
  "((nat \<Rightarrow> Weight) \<Rightarrow> nat \<Rightarrow> ('se, nat) result) \<Rightarrow> ('k \<Rightarrow> Weight) \<Rightarrow> 'k list \<Rightarrow> ('se, nat option) result" where
  "ready_index sample wt ready =
     (case ready of [] \<Rightarrow> Ok None
      | [_] \<Rightarrow> Ok (Some 0)
      | _ \<Rightarrow> try_bind (sample (\<lambda>i. wt (ready ! i)) (length ready)) (\<lambda>i. Ok (Some i)))"

subsection \<open>Lemmas on the discoveries\<close>

text \<open>All four discoveries insert one entry per target: this is their common loop.\<close>

fun insert_all :: "('t \<Rightarrow> ('e, 'k \<times> 's) result) \<Rightarrow> 't list \<Rightarrow> ('k \<times> 's) list \<Rightarrow> ('e, ('k \<times> 's) list) result" where
  "insert_all step [] m = Ok m"
| "insert_all step (t # ts) m = try_bind (step t) (\<lambda>(k, s). insert_all step ts (hm_insert k s m))"

lemma insert_all_append:
  "insert_all step (ts @ us) m = try_bind (insert_all step ts m) (insert_all step us)"
proof (induction ts arbitrary: m)
  case (Cons t ts)
  then show ?case by (cases "step t") auto
qed simp

lemma set_hm_insert: "set (hm_insert k v m) = insert (k, v) {e \<in> set m. fst e \<noteq> k}"
  by (auto simp: hm_insert_def)

lemma distinct_hm_insert: "distinct (map fst m) \<Longrightarrow> distinct (map fst (hm_insert k v m))"
  by (induction m) (auto simp: hm_insert_def)

lemma fst_hm_insert: "fst ` set (hm_insert k v m) = insert k (fst ` set m)"
  by (auto simp: hm_insert_def image_iff)

lemma insert_all_ok:
  assumes "insert_all step ts m = Inr m'" and "distinct (map fst m)"
  shows "distinct (map fst m')"
    and "fst ` set m' = fst ` set m \<union> {k. \<exists>t \<in> set ts. \<exists>s. step t = Inr (k, s)}"
    and "set m' \<subseteq> set m \<union> {e. \<exists>t \<in> set ts. step t = Inr e}"
    and "\<forall>t \<in> set ts. is_ok (step t)"
  using assms
proof (induction ts arbitrary: m)
  case (Cons t ts)
  {
    case 1
    then obtain k s where st: "step t = Inr (k, s)"
      and r: "insert_all step ts (hm_insert k s m) = Inr m'"
      by (cases "step t") auto
    from Cons.IH(1) [OF r distinct_hm_insert [OF 1(2)]] show ?case .
  next
    case 2
    then obtain k s where st: "step t = Inr (k, s)"
      and r: "insert_all step ts (hm_insert k s m) = Inr m'"
      by (cases "step t") auto
    from Cons.IH(2) [OF r distinct_hm_insert [OF 2(2)]] st show ?case by (auto simp: fst_hm_insert)
  next
    case 3
    then obtain k s where st: "step t = Inr (k, s)"
      and r: "insert_all step ts (hm_insert k s m) = Inr m'"
      by (cases "step t") auto
    from Cons.IH(3) [OF r distinct_hm_insert [OF 3(2)]] st show ?case by (auto simp: set_hm_insert)
  next
    case 4
    then obtain k s where st: "step t = Inr (k, s)"
      and r: "insert_all step ts (hm_insert k s m) = Inr m'"
      by (cases "step t") auto
    from Cons.IH(4) [OF r distinct_hm_insert [OF 4(2)]] st show ?case by auto
  }
qed auto

definition weighted_provider_step ::
  "'w decimal_ops \<Rightarrow> ('d, 'e, 'svc) make_dispatcher \<Rightarrow> EndpointType \<times> 'w WeightedProvider
     \<Rightarrow> ('e InitError, ProviderWeightedKey \<times> 'svc) result" where
  "weighted_provider_step D mk = (\<lambda>(ep, t).
     try_bind (ok_or (InvalidWeight (wp_provider t)) (dec_to_f64 D (wp_weight t))) (\<lambda>w.
     try_bind (dispatcher_new mk (wp_provider t) None) (\<lambda>s.
       Ok (\<lparr>pwk_provider = wp_provider t, pwk_endpoint_type = ep, pwk_weight = weight_from_f64 w\<rparr>, s))))"

definition weighted_model_step ::
  "'d calendar \<Rightarrow> 'w decimal_ops \<Rightarrow> ('d, 'e, 'svc) make_dispatcher \<Rightarrow> EndpointType \<times> ('d, 'w) WeightedModel
     \<Rightarrow> ('e InitError, 'd ModelWeightedKey \<times> 'svc) result" where
  "weighted_model_step cal D mk = (\<lambda>(ep, t).
     try_bind (ok_or (ModelIdNotRecognized (model_id_display cal (wm_model t))) (inference_provider (wm_model t))) (\<lambda>p.
     try_bind (ok_or (InvalidWeight p) (dec_to_f64 D (wm_weight t))) (\<lambda>w.
     try_bind (dispatcher_new mk p (Some (wm_model t))) (\<lambda>s.
       Ok (\<lparr>mwk_model_id = wm_model t, mwk_endpoint_type = ep, mwk_weight = weight_from_f64 w\<rparr>, s)))))"

lemma try_bind_assoc: "try_bind (try_bind r f) g = try_bind r (\<lambda>x. try_bind (f x) g)"
  by (cases r) auto

lemma insert_weighted_providers_all:
  "insert_weighted_providers D mk ep ts m = insert_all (weighted_provider_step D mk) (map (Pair ep) ts) m"
  by (induction ts arbitrary: m) (simp_all add: weighted_provider_step_def try_bind_assoc)

lemma insert_weighted_models_all:
  "insert_weighted_models cal D mk ep ts m = insert_all (weighted_model_step cal D mk) (map (Pair ep) ts) m"
  by (induction ts arbitrary: m) (simp_all add: weighted_model_step_def try_bind_assoc)

text \<open>The targets of a configuration, endpoint type by endpoint type.\<close>

definition provider_targets :: "('d, 'w) BalanceConfig \<Rightarrow> (EndpointType \<times> 'w WeightedProvider) list" where
  "provider_targets cfg =
     concat (map (\<lambda>(ep, b). case b of ProviderWeighted ps \<Rightarrow> map (Pair ep) ps | _ \<Rightarrow> []) cfg)"

definition model_targets :: "('d, 'w) BalanceConfig \<Rightarrow> (EndpointType \<times> ('d, 'w) WeightedModel) list" where
  "model_targets cfg =
     concat (map (\<lambda>(ep, b). case b of ModelWeighted ps \<Rightarrow> map (Pair ep) ps | _ \<Rightarrow> []) cfg)"

lemma discover_weighted_providers_all:
  assumes "discover_weighted_providers D mk cfg m = Inr m'"
  shows "insert_all (weighted_provider_step D mk) (provider_targets cfg) m = Inr m'"
  using assms
proof (induction cfg arbitrary: m)
  case (Cons x cfg)
  then show ?case
    by (cases x; cases "snd x")
      (auto simp: provider_targets_def insert_all_append insert_weighted_providers_all dest!: try_bind_OkD)
qed (simp add: provider_targets_def)

lemma discover_weighted_models_all:
  assumes "discover_weighted_models cal D mk cfg m = Inr m'"
  shows "insert_all (weighted_model_step cal D mk) (model_targets cfg) m = Inr m'"
  using assms
proof (induction cfg arbitrary: m)
  case (Cons x cfg)
  then show ?case
    by (cases x; cases "snd x")
      (auto simp: model_targets_def insert_all_append insert_weighted_models_all dest!: try_bind_OkD)
qed (simp add: model_targets_def)

lemma weighted_model_step_ok:
  "weighted_model_step cal D mk (ep, t) = Inr (k, s) \<longleftrightarrow>
     (\<exists>p w. inference_provider (wm_model t) = Some p \<and> dec_to_f64 D (wm_weight t) = Some w
        \<and> k = \<lparr>mwk_model_id = wm_model t, mwk_endpoint_type = ep, mwk_weight = weight_from_f64 w\<rparr>
        \<and> mk p (Some (wm_model t)) = Inr s)"
  unfolding weighted_model_step_def dispatcher_new_def
  by (cases "inference_provider (wm_model t)"; cases "dec_to_f64 D (wm_weight t)")
    (auto split: sum.splits)

lemma weighted_provider_step_ok:
  "weighted_provider_step D mk (ep, t) = Inr (k, s) \<longleftrightarrow>
     (\<exists>w. dec_to_f64 D (wp_weight t) = Some w
        \<and> k = \<lparr>pwk_provider = wp_provider t, pwk_endpoint_type = ep, pwk_weight = weight_from_f64 w\<rparr>
        \<and> mk (wp_provider t) None = Inr s)"
  unfolding weighted_provider_step_def dispatcher_new_def
  by (cases "dec_to_f64 D (wp_weight t)") (auto split: sum.splits)

text \<open>The whole stream of a discovery: the initial services in order, then the events.\<close>

definition stream_changes :: "('k, 'svc) dispatcher_discovery \<Rightarrow> ('k, 'svc) change list" where
  "stream_changes d = map (\<lambda>(k, s). Insert k s) (dd_initial d) @ dd_events d"

definition apply_change ::
  "('k \<Rightarrow> 'svc \<times> Weight \<Rightarrow> 'c \<Rightarrow> 'c) \<Rightarrow> ('k \<Rightarrow> 'c \<Rightarrow> 'c) \<Rightarrow> ('k \<Rightarrow> Weight) \<Rightarrow> ('k, 'svc) change \<Rightarrow> 'c \<Rightarrow> 'c" where
  "apply_change push evict wt c cache =
     (case c of Insert k s \<Rightarrow> push k (s, wt k) cache | Remove k \<Rightarrow> evict k cache)"

lemma discovery_poll_next_stream:
  "fst (discovery_poll_next d) =
     (case stream_changes d of c # _ \<Rightarrow> Ready (Some c) | [] \<Rightarrow> if dd_closed d then Ready None else Pending)"
  "stream_changes (snd (discovery_poll_next d)) = tl (stream_changes d)"
  "dd_closed (snd (discovery_poll_next d)) = dd_closed d"
  by (auto simp: discovery_poll_next_def service_map_poll_next_def stream_changes_def split: list.splits)

lemma stream_changes_Nil: "stream_changes d = [] \<Longrightarrow> discovery_poll_next d = (if dd_closed d then Ready None else Pending, d)"
  by (auto simp: discovery_poll_next_def service_map_poll_next_def stream_changes_def split: list.splits)

lemma update_pending_fold:
  "update_pending_from_discover push evict wt d cache =
     (if dd_closed d then Ready None else Pending, d\<lparr>dd_initial := [], dd_events := []\<rparr>,
      fold (apply_change push evict wt) (stream_changes d) cache)"
proof (induction "stream_changes d" arbitrary: d cache)
  case Nil
  then have e: "dd_initial d = []" "dd_events d = []" by (auto simp: stream_changes_def)
  then have "d\<lparr>dd_initial := [], dd_events := []\<rparr> = d" by simp
  with Nil show ?case
    by (subst update_pending_from_discover.simps) (simp add: weighted_poll_next_def stream_changes_Nil [OF Nil [symmetric]])
next
  case (Cons c cs)
  obtain p d' where pd: "discovery_poll_next d = (p, d')" by fastforce
  from discovery_poll_next_stream [of d] pd Cons.hyps(2) [symmetric]
  have p: "p = Ready (Some c)" and cs: "cs = stream_changes d'" and cl: "dd_closed d' = dd_closed d" by auto
  have same: "d'\<lparr>dd_initial := [], dd_events := []\<rparr> = d\<lparr>dd_initial := [], dd_events := []\<rparr>"
    using cl by simp
  show ?case
    using Cons.hyps(1) [OF cs] pd p cl same Cons.hyps(2) [symmetric] cs
    by (subst update_pending_from_discover.simps)
      (simp add: weighted_poll_next_def apply_change_def split: change.splits)
qed

text \<open>Whether a key is in the pool after a list of changes: the last change of the key decides.\<close>

definition last_change :: "'k \<Rightarrow> ('k, 'svc) change list \<Rightarrow> bool \<Rightarrow> bool" where
  "last_change k cs b =
     fold (\<lambda>c b. case c of Insert k' _ \<Rightarrow> k' = k \<or> b | Remove k' \<Rightarrow> k' \<noteq> k \<and> b) cs b"

lemma last_change_snoc:
  "last_change k (cs @ [c]) b =
     (case c of Insert k' _ \<Rightarrow> k' = k \<or> last_change k cs b | Remove k' \<Rightarrow> k' \<noteq> k \<and> last_change k cs b)"
  by (cases c) (simp_all add: last_change_def)

text \<open>
  A monitor that takes keys out of the pool and puts them back keeps a ledger: the keys it has taken out,
  and the changes it has sent. One move of the ledger changes both together; then the two agree for ever.
  The health monitor and the rate-limit monitor are both such monitors.
\<close>

definition ledger_move :: "'k set \<times> ('k, 's) change list \<Rightarrow> 'k set \<times> ('k, 's) change list \<Rightarrow> bool" where
  "ledger_move a b \<longleftrightarrow> b = a
     \<or> (\<exists>k. k \<notin> fst a \<and> b = (insert k (fst a), snd a @ [Remove k]))
     \<or> (\<exists>k s. k \<in> fst a \<and> b = (fst a - {k}, snd a @ [Insert k s]))"

definition ledger_consistent :: "'k set \<times> ('k, 's) change list \<Rightarrow> bool" where
  "ledger_consistent a \<longleftrightarrow> (\<forall>k. last_change k (snd a) True \<longleftrightarrow> k \<notin> fst a)"

lemma ledger_move_consistent: "ledger_move a b \<Longrightarrow> ledger_consistent a \<Longrightarrow> ledger_consistent b"
  unfolding ledger_move_def ledger_consistent_def
  by (elim disjE exE conjE) (simp_all add: last_change_snoc, blast+)

lemma ledger_consistent_empty: "ledger_consistent ({}, [])"
  by (simp add: ledger_consistent_def last_change_def)

text \<open>How often a key was taken out and put back differs by at most the one time it is out now.\<close>

definition removals :: "'k \<Rightarrow> ('k, 's) change list \<Rightarrow> nat" where
  "removals k cs = length (filter (\<lambda>c. case c of Remove k' \<Rightarrow> k' = k | _ \<Rightarrow> False) cs)"

definition insertions :: "'k \<Rightarrow> ('k, 's) change list \<Rightarrow> nat" where
  "insertions k cs = length (filter (\<lambda>c. case c of Insert k' _ \<Rightarrow> k' = k | _ \<Rightarrow> False) cs)"

definition ledger_balanced :: "'k set \<times> ('k, 's) change list \<Rightarrow> bool" where
  "ledger_balanced a \<longleftrightarrow>
     (\<forall>k. removals k (snd a) = insertions k (snd a) + (if k \<in> fst a then 1 else 0))"

lemma ledger_move_balanced: "ledger_move a b \<Longrightarrow> ledger_balanced a \<Longrightarrow> ledger_balanced b"
  unfolding ledger_move_def ledger_balanced_def
  by (elim disjE exE conjE) (simp_all add: removals_def insertions_def)

locale pool_ledger =
  fixes marked :: "'m \<Rightarrow> 'k set" and log :: "'m \<Rightarrow> ('k, 's) change list" and step :: "'m \<Rightarrow> 'm \<Rightarrow> bool"
  assumes step_move: "step m m' \<Longrightarrow> ledger_move (marked m, log m) (marked m', log m')"
begin

lemma run_consistent:
  "step\<^sup>*\<^sup>* m m' \<Longrightarrow> ledger_consistent (marked m, log m) \<Longrightarrow> ledger_consistent (marked m', log m')"
  by (induction rule: rtranclp_induct) (auto intro: ledger_move_consistent step_move)

lemma run_balanced:
  "step\<^sup>*\<^sup>* m m' \<Longrightarrow> ledger_balanced (marked m, log m) \<Longrightarrow> ledger_balanced (marked m', log m')"
  by (induction rule: rtranclp_induct) (auto intro: ledger_move_balanced step_move)

lemma pool_exact:
  assumes "step\<^sup>*\<^sup>* m m'" and "marked m = {}" and "log m = []"
  shows "last_change k (log m') True \<longleftrightarrow> k \<notin> marked m'"
    and "removals k (log m') = insertions k (log m') + (if k \<in> marked m' then 1 else 0)"
  using run_consistent [OF assms(1)] run_balanced [OF assms(1)] assms(2,3)
  by (simp_all add: ledger_consistent_empty ledger_consistent_def ledger_balanced_def removals_def insertions_def
      last_change_def)

end

lemma fold_last_change:
  assumes "\<And>k k' s c. mem k (push k' s c) \<longleftrightarrow> k' = k \<or> mem k c"
    and "\<And>k k' c. mem k (evict k' c) \<longleftrightarrow> k' \<noteq> k \<and> mem k c"
  shows "mem k (fold (apply_change push evict wt) cs c) \<longleftrightarrow> last_change k cs (mem k c)"
proof (induction cs arbitrary: c)
  case (Cons x cs)
  then show ?case by (cases x) (simp_all add: last_change_def apply_change_def assms)
qed (simp add: last_change_def)

lemma round_half_away_nat [simp]: "round_half_away (of_nat n) = int n"
  by (simp add: round_half_away_def floor_eq_iff)

lemma weight_from_f64_nat:
  assumes "10000 * n < 2 ^ 32 - 1"
  shows "weight_from_f64 (Fin (of_nat n)) = of_nat n * weight_UNIT"
proof -
  have "f64_mul (of_nat n) (of_nat (unat weight_UNIT)) = f64_round (of_nat (n * 10000))"
    by (simp add: f64_mul_def weight_UNIT_def)
  also have "\<dots> = Fin (of_nat (n * 10000))" using assms by (intro f64_round_small_int) simp
  finally have r: "f64_mul (of_nat n) (of_nat (unat weight_UNIT)) = Fin (of_nat (n * 10000))" .
  have "(of_nat (n * 10000) :: rat) < of_nat (2 ^ 32 - 1)"
    using assms by (simp only: of_nat_less_iff mult.commute)
  then have "\<not> (of_nat (n * 10000) :: rat) \<ge> 2 ^ 32 - 1" by simp
  then have "f64_to_u32 (Fin (of_nat (n * 10000))) = of_int (floor (of_nat (n * 10000) :: rat))"
    by (simp only: f64_to_u32_def f64.case) simp
  also have "\<dots> = of_nat n * weight_UNIT" by (simp only: floor_of_nat) (simp add: weight_UNIT_def)
  finally have u: "f64_to_u32 (Fin (of_nat (n * 10000))) = of_nat n * weight_UNIT" .
  have nn: "\<not> (of_nat n :: rat) < 0" by simp
  show ?thesis
    unfolding weight_from_f64_def
    by (simp only: r f64.case round_half_away_nat of_int_of_nat_eq u nn if_False)
qed

lemma step_okE:
  assumes "\<forall>t\<in>set ts. is_ok (step t)" and "t \<in> set ts"
  obtains k s where "step t = Inr (k, s)"
  using assms by (cases "step t") force+

lemma weighted_provider_discovery:
  assumes "discover_weighted_providers D mk cfg [] = Inr m"
  shows "distinct (map fst m)"
    and "fst ` set m = {\<lparr>pwk_provider = wp_provider t, pwk_endpoint_type = ep, pwk_weight = weight_from_f64 w\<rparr> |ep t w.
           (ep, t) \<in> set (provider_targets cfg) \<and> dec_to_f64 D (wp_weight t) = Some w}"
    and "\<forall>(k, s) \<in> set m. mk (pwk_provider k) None = Inr s"
proof -
  let ?step = "weighted_provider_step D mk" and ?ts = "provider_targets cfg"
  from insert_all_ok [OF discover_weighted_providers_all [OF assms]]
  have k: "fst ` set m = {k. \<exists>t\<in>set ?ts. \<exists>s. ?step t = Inr (k, s)}"
    and v: "set m \<subseteq> {e. \<exists>t\<in>set ?ts. ?step t = Inr e}" and a: "\<forall>t\<in>set ?ts. is_ok (?step t)"
    and d: "distinct (map fst m)" by auto
  show "distinct (map fst m)" by (rule d)
  show "\<forall>(k, s) \<in> set m. mk (pwk_provider k) None = Inr s"
    using v by (fastforce simp: weighted_provider_step_ok)
  show "fst ` set m = {\<lparr>pwk_provider = wp_provider t, pwk_endpoint_type = ep, pwk_weight = weight_from_f64 w\<rparr> |ep t w.
      (ep, t) \<in> set ?ts \<and> dec_to_f64 D (wp_weight t) = Some w}" (is "_ = ?R")
  proof
    show "fst ` set m \<subseteq> ?R" unfolding k by (auto simp: weighted_provider_step_ok) blast
    show "?R \<subseteq> fst ` set m"
    proof
      fix x assume "x \<in> ?R"
      then obtain ep t w where x: "x = \<lparr>pwk_provider = wp_provider t, pwk_endpoint_type = ep, pwk_weight = weight_from_f64 w\<rparr>"
        and t: "(ep, t) \<in> set ?ts" and w: "dec_to_f64 D (wp_weight t) = Some w" by blast
      obtain k' s where "?step (ep, t) = Inr (k', s)" using step_okE [OF a t] .
      moreover from this w have "k' = x" by (simp add: weighted_provider_step_ok x)
      ultimately show "x \<in> fst ` set m" unfolding k using t by blast
    qed
  qed
qed

lemma weighted_model_discovery:
  assumes "discover_weighted_models cal D mk cfg [] = Inr m"
  shows "distinct (map fst m)"
    and "fst ` set m = {\<lparr>mwk_model_id = wm_model t, mwk_endpoint_type = ep, mwk_weight = weight_from_f64 w\<rparr> |ep t w.
           (ep, t) \<in> set (model_targets cfg) \<and> dec_to_f64 D (wm_weight t) = Some w}"
    and "\<forall>(k, s) \<in> set m. \<exists>p. inference_provider (mwk_model_id k) = Some p
           \<and> mk p (Some (mwk_model_id k)) = Inr s"
proof -
  let ?step = "weighted_model_step cal D mk" and ?ts = "model_targets cfg"
  from insert_all_ok [OF discover_weighted_models_all [OF assms]]
  have k: "fst ` set m = {k. \<exists>t\<in>set ?ts. \<exists>s. ?step t = Inr (k, s)}"
    and v: "set m \<subseteq> {e. \<exists>t\<in>set ?ts. ?step t = Inr e}" and a: "\<forall>t\<in>set ?ts. is_ok (?step t)"
    and d: "distinct (map fst m)" by auto
  show "distinct (map fst m)" by (rule d)
  show "\<forall>(k, s) \<in> set m. \<exists>p. inference_provider (mwk_model_id k) = Some p
      \<and> mk p (Some (mwk_model_id k)) = Inr s"
    using v by (fastforce simp: weighted_model_step_ok)
  show "fst ` set m = {\<lparr>mwk_model_id = wm_model t, mwk_endpoint_type = ep, mwk_weight = weight_from_f64 w\<rparr> |ep t w.
      (ep, t) \<in> set ?ts \<and> dec_to_f64 D (wm_weight t) = Some w}" (is "_ = ?R")
  proof
    show "fst ` set m \<subseteq> ?R" unfolding k by (auto simp: weighted_model_step_ok) blast
    show "?R \<subseteq> fst ` set m"
    proof
      fix x assume "x \<in> ?R"
      then obtain ep t w where x: "x = \<lparr>mwk_model_id = wm_model t, mwk_endpoint_type = ep, mwk_weight = weight_from_f64 w\<rparr>"
        and t: "(ep, t) \<in> set ?ts" and w: "dec_to_f64 D (wm_weight t) = Some w" by blast
      obtain k' s where "?step (ep, t) = Inr (k', s)" using step_okE [OF a t] .
      moreover from this w have "k' = x" by (auto simp: weighted_model_step_ok x)
      ultimately show "x \<in> fst ` set m" unfolding k using t by blast
    qed
  qed
qed

subsection \<open>Properties\<close>

text \<open>
  Weighted discovery is exact. When the discovery over the providers succeeds, the keys are
  exactly the configured targets with their endpoint type and rounded weight, no key twice, and
  each carries a dispatcher built for its own provider; the discovery over models likewise, each
  dispatcher built for the provider of its model and bound to that model.
\<close>

theorem weighted_discovery_exact:
  "(discover_weighted_providers D mk cfg [] = Inr m \<longrightarrow>
      distinct (map fst m)
      \<and> fst ` set m = {\<lparr>pwk_provider = wp_provider t, pwk_endpoint_type = ep, pwk_weight = weight_from_f64 w\<rparr> |ep t w.
           (ep, t) \<in> set (provider_targets cfg) \<and> dec_to_f64 D (wp_weight t) = Some w}
      \<and> (\<forall>(k, s) \<in> set m. mk (pwk_provider k) None = Inr s))
   \<and> (discover_weighted_models cal D mk cfg [] = Inr m' \<longrightarrow>
      distinct (map fst m')
      \<and> fst ` set m' = {\<lparr>mwk_model_id = wm_model t, mwk_endpoint_type = ep, mwk_weight = weight_from_f64 w\<rparr> |ep t w.
           (ep, t) \<in> set (model_targets cfg) \<and> dec_to_f64 D (wm_weight t) = Some w}
      \<and> (\<forall>(k, s) \<in> set m'. \<exists>p. inference_provider (mwk_model_id k) = Some p
           \<and> mk p (Some (mwk_model_id k)) = Inr s))"
  by (intro conjI impI weighted_provider_discovery weighted_model_discovery)

definition unit_decimal :: "nat decimal_ops" where
  "unit_decimal = \<lparr>dec_sum = sum_list, dec_one = 1,
     dec_to_f64 = (\<lambda>n. Some (Fin (of_nat n))), dec_show = (\<lambda>_. [])\<rparr>"

theorem weighted_discovery_exact_witness:
  "discover_weighted_providers unit_decimal ((\<lambda>p _. Inr p) :: (nat, unit, InferenceProvider) make_dispatcher)
      [(Chat, ProviderWeighted [\<lparr>wp_provider = Ollama, wp_weight = 1\<rparr>])] []
      = Inr [(\<lparr>pwk_provider = Ollama, pwk_endpoint_type = Chat, pwk_weight = 10000\<rparr>, Ollama)]
   \<and> {\<lparr>pwk_provider = Ollama, pwk_endpoint_type = Chat, pwk_weight = 10000\<rparr>} =
      {\<lparr>pwk_provider = wp_provider t, pwk_endpoint_type = ep, pwk_weight = weight_from_f64 w\<rparr> |ep t w.
         (ep, t) \<in> set (provider_targets [(Chat, (ProviderWeighted [\<lparr>wp_provider = Ollama, wp_weight = 1\<rparr>]
            :: (nat, nat) BalanceConfigInner))]) \<and> dec_to_f64 unit_decimal (wp_weight t) = Some w}"
proof -
  let ?mk = "(\<lambda>p _. Inr p) :: (nat, unit, InferenceProvider) make_dispatcher"
  have w: "weight_from_f64 (Fin 1) = 10000" using weight_from_f64_nat [of 1] by (simp add: weight_UNIT_def)
  have d: "discover_weighted_providers unit_decimal ?mk
      [(Chat, ProviderWeighted [\<lparr>wp_provider = Ollama, wp_weight = 1\<rparr>])] []
      = Inr [(\<lparr>pwk_provider = Ollama, pwk_endpoint_type = Chat, pwk_weight = 10000\<rparr>, Ollama)]"
    by (simp add: unit_decimal_def dispatcher_new_def hm_insert_def w)
  have "fst ` set [(\<lparr>pwk_provider = Ollama, pwk_endpoint_type = Chat, pwk_weight = 10000\<rparr>, Ollama)] =
      {\<lparr>pwk_provider = wp_provider t, pwk_endpoint_type = ep, pwk_weight = weight_from_f64 w\<rparr> |ep t w.
         (ep, t) \<in> set (provider_targets [(Chat, (ProviderWeighted [\<lparr>wp_provider = Ollama, wp_weight = 1\<rparr>]
            :: (nat, nat) BalanceConfigInner))]) \<and> dec_to_f64 unit_decimal (wp_weight t) = Some w}"
    using weighted_discovery_exact [THEN conjunct1, THEN mp, OF d] by blast
  with d show ?thesis by simp
qed

text \<open>
  C8. The balancer's pool follows the stream. Draining the discovery always ends, with the stream
  empty; the pool then holds a key exactly if the last change of that key, among the initial services
  followed by the queued events, was an insertion, or the key was there before and no change names it.
\<close>

theorem pool_follows_stream:
  assumes "\<And>k k' s c. mem k (push k' s c) \<longleftrightarrow> k' = k \<or> mem k c"
    and "\<And>k k' c. mem k (evict k' c) \<longleftrightarrow> k' \<noteq> k \<and> mem k c"
  shows "\<exists>d' c'. update_pending_from_discover push evict wt d c
        = (if dd_closed d then Ready None else Pending, d', c')
      \<and> dd_initial d' = [] \<and> dd_events d' = []
      \<and> (\<forall>k. mem k c' \<longleftrightarrow> last_change k (stream_changes d) (mem k c))"
  unfolding update_pending_fold by (simp add: fold_last_change [OF assms])

theorem pool_follows_stream_witness:
  "\<exists>d' c'. update_pending_from_discover (\<lambda>k _. insert k) (\<lambda>k c. c - {k}) (\<lambda>_. 1)
        \<lparr>dd_initial = [(1::nat, ''a''), (2, ''b'')], dd_events = [Remove 1, Insert 3 ''c''], dd_closed = False\<rparr> {}
      = (Pending, d', c') \<and> 2 \<in> c' \<and> 1 \<notin> c'"
proof -
  let ?d = "\<lparr>dd_initial = [(1::nat, ''a''), (2, ''b'')], dd_events = [Remove 1, Insert 3 ''c''], dd_closed = False\<rparr>"
  have "\<exists>d' c'. update_pending_from_discover (\<lambda>k _. insert k) (\<lambda>k c. c - {k}) (\<lambda>_. 1) ?d {}
        = (if dd_closed ?d then Ready None else Pending, d', c')
      \<and> dd_initial d' = [] \<and> dd_events d' = []
      \<and> (\<forall>k. k \<in> c' \<longleftrightarrow> last_change k (stream_changes ?d) (k \<in> {}))"
    by (rule pool_follows_stream) auto
  then show ?thesis by (auto simp: last_change_def stream_changes_def)
qed

text \<open>
  Validation accepts a load-balance configuration exactly if the weights of every weighted entry
  sum to one; otherwise it names the total of the first entry that does not.
\<close>

theorem balance_validation:
  "validate_balance D cfg =
     (case find (\<lambda>(_, b). case b of ProviderWeighted ps \<Rightarrow> dec_sum D (map wp_weight ps) \<noteq> dec_one D
                 | ModelWeighted ms \<Rightarrow> dec_sum D (map wm_weight ms) \<noteq> dec_one D | _ \<Rightarrow> False) cfg of
        None \<Rightarrow> Inr ()
      | Some (_, b) \<Rightarrow> Inl (InvalidBalancer (weights_message (dec_show D (dec_sum D
          (case b of ProviderWeighted ps \<Rightarrow> map wp_weight ps | ModelWeighted ms \<Rightarrow> map wm_weight ms | _ \<Rightarrow> []))))))"
  by (induction D cfg rule: validate_balance.induct)
    (auto simp: Let_def split: BalanceConfigInner.splits)

text \<open>
  Weights lose their smallest values: a configured weight of up to one forty-thousandth, although
  it counts towards the sum that validation checks, becomes the lowest weight, which makes every load of
  the service infinite.
\<close>

theorem tiny_weights_vanish:
  assumes "0 \<le> q" and "q \<le> 1 / 40000"
  shows "weight_from_f64 (Fin q) = weight_MIN \<and> div_weight x (weight_from_f64 (Fin q)) = PosInf"
proof -
  have "q * 10000 \<le> 1 / 4" using assms by simp
  have "\<exists>r. f64_round (q * 10000) = Fin r \<and> 0 \<le> r \<and> r \<le> 1 / 4"
  proof (cases "q = 0")
    case False
    then have pos: "0 < q * 10000" using assms by simp
    have "ilog2 (q * 10000) \<le> - 2"
    proof -
      have "(2::rat) powi ilog2 (q * 10000) \<le> 1 / 4"
        using ilog2_bounds(1) [OF pos] \<open>q * 10000 \<le> 1 / 4\<close> by linarith
      also have "(1 / 4 :: rat) < 2 powi (- 1)" by (simp add: power_int_def)
      finally show ?thesis using powi_two_less [of "ilog2 (q * 10000)" "- 1"] by simp
    qed
    then have e: "f64_exponent (q * 10000) \<le> - 2" by (simp add: f64_exponent_def)
    have "(2::rat) powi (- 2) = 1 / 4" by (simp add: power_int_def field_simps)
    then have "round_pos (q * 10000) \<le> 1 / 4"
      using round_pos_le_power [OF pos e] \<open>q * 10000 \<le> 1 / 4\<close> by simp
    moreover have "(1 / 4 :: rat) < 2 ^ 1024" by simp
    ultimately show ?thesis using pos round_pos_nonneg [OF pos]
      by (auto simp: f64_round_def)
  qed (simp add: f64_round_def)
  then obtain r where r: "f64_round (q * 10000) = Fin r" "0 \<le> r" "r \<le> 1 / 4" by blast
  then have "round_half_away r = 0" by (simp add: round_half_away_def floor_eq_iff)
  with r assms have "weight_from_f64 (Fin q) = weight_MIN"
    by (simp add: weight_from_f64_def f64_mul_def weight_UNIT_def f64_to_u32_def weight_MIN_def)
  then show ?thesis by (simp add: div_weight_def)
qed

theorem tiny_weights_vanish_witness: "weight_from_f64 (Fin (1 / 50000)) = weight_MIN"
  using tiny_weights_vanish [of "1 / 50000" NaN] by simp

end
