(* ===== verification/Retry.thy ===== *)
theory Retry
  imports Gateway_Prelude
begin

text \<open>
  Retrying a request (\<open>utils/retry.rs\<close>): the hand-written future \<open>RetryWithResult\<close> that calls a
  function again after a delay as long as its result is retryable and the backoff yields delays,
  with the retry configuration (\<open>config/retry.rs\<close>) and the predicate under which the dispatcher
  retries a synchronous request (\<open>dispatcher/service.rs\<close>).

  What a future does when polled is described by a script: how many times it is pending, and then
  its result; \<open>fut i\<close> is the script of the future the \<open>i\<close>-th call of \<open>future_fn\<close> returns, and
  \<open>sleeper i\<close> the number of times the \<open>i\<close>-th sleep is pending. The backoff is the list of the delays
  its iterator still yields.
\<close>

type_synonym 'r future = "nat \<times> 'r"

datatype 'r retry_state = Idle | Polling "'r future" | Sleeping nat

record 'r retry =
  backoff :: "duration list"
  calls :: nat
  sleeps :: "duration list"
  state :: "'r retry_state"

definition retry_new :: "duration list \<Rightarrow> 'r retry" where
  "retry_new b = \<lparr>backoff = b, calls = 0, sleeps = [], state = Idle\<rparr>"

definition default_adjust :: "'r \<Rightarrow> duration option \<Rightarrow> duration option" where
  "default_adjust _ dur = dur"

text \<open>
  One turn of the loop in \<open>poll\<close>: \<open>Inl\<close> leaves the loop, pending (\<open>None\<close>) or with the result;
  \<open>Inr\<close> goes on. \<open>sleeps\<close> records the delays passed to \<open>notify_fn\<close> and to the sleeper.
\<close>

definition retry_turn ::
  "(nat \<Rightarrow> 'r future) \<Rightarrow> (nat \<Rightarrow> nat) \<Rightarrow> ('r \<Rightarrow> bool) \<Rightarrow> ('r \<Rightarrow> duration option \<Rightarrow> duration option)
     \<Rightarrow> 'r retry \<Rightarrow> ('r option \<times> 'r retry) + 'r retry" where
  "retry_turn fut sleeper retryable adjust r =
     (case state r of
        Idle \<Rightarrow> Inr (r\<lparr>state := Polling (fut (calls r)), calls := Suc (calls r)\<rparr>)
      | Polling (Suc n, result) \<Rightarrow> Inl (None, r\<lparr>state := Polling (n, result)\<rparr>)
      | Polling (0, result) \<Rightarrow>
          if \<not> retryable result then Inl (Some result, r)
          else (let next = (case backoff r of [] \<Rightarrow> None | d # _ \<Rightarrow> Some d);
                    r1 = r\<lparr>backoff := tl (backoff r)\<rparr>
                in case adjust result next of
                     None \<Rightarrow> Inl (Some result, r1)
                   | Some dur \<Rightarrow>
                       Inr (r1\<lparr>state := Sleeping (sleeper (length (sleeps r))), sleeps := sleeps r @ [dur]\<rparr>))
      | Sleeping (Suc n) \<Rightarrow> Inl (None, r\<lparr>state := Sleeping n\<rparr>)
      | Sleeping 0 \<Rightarrow> Inr (r\<lparr>state := Idle\<rparr>))"

text \<open>\<open>poll\<close> itself; the fuel bounds the turns, \<open>None\<close> is a loop that did not end within it.\<close>

fun retry_poll where
  "retry_poll fut sleeper retryable adjust 0 r = None"
| "retry_poll fut sleeper retryable adjust (Suc fuel) r =
     (case retry_turn fut sleeper retryable adjust r of
        Inl out \<Rightarrow> Some out
      | Inr r' \<Rightarrow> retry_poll fut sleeper retryable adjust fuel r')"

text \<open>The executor polls again whenever the future was pending.\<close>

fun retry_await where
  "retry_await fut sleeper retryable adjust fuel 0 r = None"
| "retry_await fut sleeper retryable adjust fuel (Suc polls) r =
     (case retry_poll fut sleeper retryable adjust fuel r of
        None \<Rightarrow> None
      | Some (Some result, r') \<Rightarrow> Some (result, r')
      | Some (None, r') \<Rightarrow> retry_await fut sleeper retryable adjust fuel polls r')"

subsection \<open>Configuration and the dispatcher's predicate\<close>

datatype 'dec RetryConfig =
    Exponential duration duration u8 'dec
  | Constant duration u8

definition default_max_retries :: u8 where "default_max_retries = 2"
definition default_min_delay :: duration where "default_min_delay = from_secs 1"
definition default_max_delay :: duration where "default_max_delay = from_secs 30"

definition retry_config_default :: "'dec \<Rightarrow> 'dec RetryConfig" where
  "retry_config_default factor = Exponential default_min_delay default_max_delay default_max_retries factor"

text \<open>
  \<open>as_iterator\<close> and the two builders in the dispatcher: the delays come from a library, of which the
  code fixes the largest number of them.
\<close>

definition config_max_retries :: "'dec RetryConfig \<Rightarrow> nat" where
  "config_max_retries c = (case c of Exponential _ _ n _ \<Rightarrow> unat n | Constant _ n \<Rightarrow> unat n)"

definition as_iterator :: "('dec RetryConfig \<Rightarrow> nat \<Rightarrow> duration list) \<Rightarrow> 'dec RetryConfig \<Rightarrow> duration list" where
  "as_iterator build c = build c (config_max_retries c)"

datatype reqwest_failure = ReqwestFailure bool "nat option"
datatype dispatch_error = ReqwestError reqwest_failure | OtherApiError

definition is_server_error :: "nat \<Rightarrow> bool" where
  "is_server_error code \<longleftrightarrow> 500 \<le> code \<and> code < 600"

definition sync_retryable :: "(dispatch_error, nat) result \<Rightarrow> bool" where
  "sync_retryable result =
     (case result of
        Inr status \<Rightarrow> is_server_error status
      | Inl (ReqwestError (ReqwestFailure is_connect status)) \<Rightarrow>
          is_connect \<or> (case status of None \<Rightarrow> False | Some s \<Rightarrow> is_server_error s)
      | Inl OtherApiError \<Rightarrow> False)"

subsection \<open>Lemmas\<close>

text \<open>How many attempts the delays allow, and the result they end with.\<close>

fun retry_spec :: "(nat \<Rightarrow> 'r) \<Rightarrow> ('r \<Rightarrow> bool) \<Rightarrow> duration list \<Rightarrow> nat \<Rightarrow> 'r \<times> nat \<times> duration list" where
  "retry_spec res retryable [] i = (res i, Suc i, [])"
| "retry_spec res retryable (d # ds) i =
     (if retryable (res i)
      then (let (r, n, sl) = retry_spec res retryable ds (Suc i) in (r, n, d # sl))
      else (res i, Suc i, []))"

lemma retry_spec_bounds:
  "retry_spec res retryable ds i = (r, n, sl) \<Longrightarrow>
     i < n \<and> n \<le> i + length ds + 1 \<and> r = res (n - 1) \<and> sl = take (n - 1 - i) ds
     \<and> (\<forall>j. i \<le> j \<and> j < n - 1 \<longrightarrow> retryable (res j))
     \<and> (retryable r \<longrightarrow> n = i + length ds + 1)"
proof (induction ds arbitrary: i r n sl)
  case (Cons d ds)
  show ?case
  proof (cases "retryable (res i)")
    case True
    obtain r' n' sl' where s: "retry_spec res retryable ds (Suc i) = (r', n', sl')" by (metis prod_cases3)
    with True Cons.prems have e: "r = r'" "n = n'" "sl = d # sl'" by auto
    from Cons.IH [OF s] have ih: "Suc i < n'" "n' \<le> Suc i + length ds + 1" "r' = res (n' - 1)"
      "sl' = take (n' - 1 - Suc i) ds" "\<forall>j. Suc i \<le> j \<and> j < n' - 1 \<longrightarrow> retryable (res j)"
      "retryable r' \<longrightarrow> n' = Suc i + length ds + 1" by blast+
    have "n' - 1 - i = Suc (n' - 1 - Suc i)" using ih(1) by linarith
    then have sl: "sl = take (n - 1 - i) (d # ds)" using ih(4) e by simp
    have "retryable (res j)" if "i \<le> j" "j < n' - 1" for j
      using that ih(5) True by (cases "j = i") auto
    then have all: "\<forall>j. i \<le> j \<and> j < n - 1 \<longrightarrow> retryable (res j)" using e(2) by blast
    have "i < n" using ih(1) e(2) by simp
    moreover have "n \<le> i + length (d # ds) + 1" using ih(2) e(2) by simp
    moreover have "r = res (n - 1)" unfolding e by (rule ih(3))
    moreover have "retryable r \<longrightarrow> n = i + length (d # ds) + 1" unfolding e using ih(6) by (metis add_Suc_shift length_Cons)
    ultimately show ?thesis using sl all by blast
  next
    case False
    with Cons.prems show ?thesis by auto
  qed
qed auto

text \<open>Driving the machine turn by turn, through pending polls and sleeps alike.\<close>

fun retry_drive where
  "retry_drive fut sleeper retryable adjust 0 r = None"
| "retry_drive fut sleeper retryable adjust (Suc n) r =
     (case retry_turn fut sleeper retryable adjust r of
        Inl (Some result, r') \<Rightarrow> Some (result, r')
      | Inl (None, r') \<Rightarrow> retry_drive fut sleeper retryable adjust n r'
      | Inr r' \<Rightarrow> retry_drive fut sleeper retryable adjust n r')"

lemma retry_drive_polling:
  "state r = Polling (k, x) \<Longrightarrow>
     retry_drive fut sleeper retryable adjust (k + n) r =
     retry_drive fut sleeper retryable adjust n (r\<lparr>state := Polling (0, x)\<rparr>)"
proof (induction k arbitrary: r)
  case 0
  then have "r\<lparr>state := Polling (0, x)\<rparr> = r" by simp
  then show ?case by simp
next
  case (Suc k)
  from Suc.prems have "retry_turn fut sleeper retryable adjust r = Inl (None, r\<lparr>state := Polling (k, x)\<rparr>)"
    by (simp add: retry_turn_def)
  with Suc.IH [of "r\<lparr>state := Polling (k, x)\<rparr>"] show ?case by simp
qed

lemma retry_drive_sleeping:
  "state r = Sleeping k \<Longrightarrow>
     retry_drive fut sleeper retryable adjust (Suc k + n) r =
     retry_drive fut sleeper retryable adjust n (r\<lparr>state := Idle\<rparr>)"
proof (induction k arbitrary: r)
  case 0
  then show ?case by (simp add: retry_turn_def)
next
  case (Suc k)
  from Suc.prems have "retry_turn fut sleeper retryable adjust r = Inl (None, r\<lparr>state := Sleeping k\<rparr>)"
    by (simp add: retry_turn_def)
  with Suc.IH [of "r\<lparr>state := Sleeping k\<rparr>"] show ?case by simp
qed

lemma retry_drive_attempt:
  assumes "state r = Idle" and "fut (calls r) = (k, x)"
  shows "retry_drive fut sleeper retryable adjust (Suc (k + n)) r =
    retry_drive fut sleeper retryable adjust n (r\<lparr>calls := Suc (calls r), state := Polling (0, x)\<rparr>)"
proof -
  let ?r = "r\<lparr>calls := Suc (calls r), state := Polling (k, x)\<rparr>"
  have "retry_turn fut sleeper retryable adjust r = Inr ?r" using assms by (simp add: retry_turn_def)
  then have "retry_drive fut sleeper retryable adjust (Suc (k + n)) r
      = retry_drive fut sleeper retryable adjust (k + n) ?r" by simp
  also have "\<dots> = retry_drive fut sleeper retryable adjust n (?r\<lparr>state := Polling (0, x)\<rparr>)"
    by (rule retry_drive_polling) simp
  finally show ?thesis by simp
qed

lemma retry_drive_spec:
  assumes "state r = Idle" and "backoff r = ds"
    and "retry_spec (\<lambda>i. snd (fut i)) retryable ds (calls r) = (x, n, sl)"
  shows "\<exists>fuel r'. retry_drive fut sleeper retryable default_adjust fuel r = Some (x, r')
    \<and> calls r' = n \<and> sleeps r' = sleeps r @ sl"
  using assms
proof (induction ds arbitrary: r x n sl)
  case Nil
  obtain k y where f: "fut (calls r) = (k, y)" by fastforce
  let ?r = "r\<lparr>calls := Suc (calls r), state := Polling (0, y)\<rparr>"
  have one: "\<exists>r'. retry_drive fut sleeper retryable default_adjust (Suc 0) ?r = Some (y, r')
      \<and> calls r' = Suc (calls r) \<and> sleeps r' = sleeps r"
    using Nil by (simp add: retry_turn_def default_adjust_def)
  from Nil f have "x = y" "n = Suc (calls r)" "sl = []" by auto
  with one retry_drive_attempt [where r = r and fut = fut and n = "Suc 0", OF Nil(1) f]
  show ?case by (metis append_Nil2)
next
  case (Cons d ds)
  obtain k y where f: "fut (calls r) = (k, y)" by fastforce
  let ?r = "r\<lparr>calls := Suc (calls r), state := Polling (0, y)\<rparr>"
  show ?case
  proof (cases "retryable y")
    case False
    have "\<exists>r'. retry_drive fut sleeper retryable default_adjust (Suc 0) ?r = Some (y, r')
        \<and> calls r' = Suc (calls r) \<and> sleeps r' = sleeps r"
      using False by (simp add: retry_turn_def)
    moreover from False Cons.prems f have "x = y" "n = Suc (calls r)" "sl = []" by auto
    ultimately show ?thesis
      using retry_drive_attempt [where r = r and fut = fut and n = "Suc 0", OF Cons.prems(1) f]
      by (metis append_Nil2)
  next
    case True
    obtain x' n' sl' where s: "retry_spec (\<lambda>i. snd (fut i)) retryable ds (Suc (calls r)) = (x', n', sl')"
      by (metis prod_cases3)
    with True Cons.prems f have e: "x = x'" "n = n'" "sl = d # sl'" by auto
    let ?z = "sleeper (length (sleeps r))"
    let ?s = "?r\<lparr>backoff := ds, sleeps := sleeps r @ [d], state := Sleeping ?z\<rparr>"
    let ?i = "?s\<lparr>state := Idle\<rparr>"
    have turn: "retry_turn fut sleeper retryable default_adjust ?r = Inr ?s"
      using True Cons.prems(2) by (simp add: retry_turn_def default_adjust_def Let_def)
    have "state ?i = Idle" "backoff ?i = ds"
      "retry_spec (\<lambda>i. snd (fut i)) retryable ds (calls ?i) = (x', n', sl')" using s by simp_all
    from Cons.IH [OF this] obtain fuel r' where
      ih: "retry_drive fut sleeper retryable default_adjust fuel ?i = Some (x', r')"
        "calls r' = n'" "sleeps r' = (sleeps r @ [d]) @ sl'" by auto
    have "retry_drive fut sleeper retryable default_adjust (Suc (k + Suc (Suc ?z + fuel))) r
        = retry_drive fut sleeper retryable default_adjust (Suc (Suc ?z + fuel)) ?r"
      by (rule retry_drive_attempt [where fut = fut and r = r, OF Cons.prems(1) f])
    also have "\<dots> = retry_drive fut sleeper retryable default_adjust (Suc ?z + fuel) ?s"
      using turn by simp
    also have "\<dots> = retry_drive fut sleeper retryable default_adjust fuel ?i"
      by (rule retry_drive_sleeping) simp
    finally have "retry_drive fut sleeper retryable default_adjust (Suc (k + Suc (Suc ?z + fuel))) r
        = Some (x', r')" using ih(1) by simp
    with ih e show ?thesis by (metis append.assoc append_Cons append_Nil)
  qed
qed

text \<open>Polling in bursts, as the executor does, reaches the same end as driving turn by turn.\<close>

lemma poll_drive:
  assumes "retry_drive fut sleeper retryable adjust n r = Some (x, r')" and "n \<le> fuel"
  shows "retry_poll fut sleeper retryable adjust fuel r = Some (Some x, r')
    \<or> (\<exists>m r''. m < n \<and> retry_poll fut sleeper retryable adjust fuel r = Some (None, r'')
         \<and> retry_drive fut sleeper retryable adjust m r'' = Some (x, r'))"
  using assms
proof (induction n arbitrary: r fuel)
  case (Suc n)
  then obtain f where f: "fuel = Suc f" "n \<le> f" by (cases fuel) auto
  show ?case
  proof (cases "retry_turn fut sleeper retryable adjust r")
    case (Inl out)
    obtain a s where "out = (a, s)" by (cases out)
    with Inl Suc.prems f show ?thesis by (cases a) auto
  next
    case (Inr s)
    with Suc.prems f have "retry_drive fut sleeper retryable adjust n s = Some (x, r')" by simp
    from Suc.IH [OF this f(2)] Inr f show ?thesis by (auto intro: less_SucI)
  qed
qed simp

lemma await_drive:
  "\<lbrakk>retry_drive fut sleeper retryable adjust n r = Some (x, r'); n \<le> fuel; n \<le> polls\<rbrakk> \<Longrightarrow>
     retry_await fut sleeper retryable adjust fuel polls r = Some (x, r')"
proof (induction n arbitrary: r polls rule: less_induct)
  case (less n)
  have "n \<noteq> 0" using less.prems(1) by (cases n) auto
  with less.prems(3) obtain q where q: "polls = Suc q" by (cases polls) auto
  from poll_drive [OF less.prems(1,2)] show ?case
  proof
    assume "retry_poll fut sleeper retryable adjust fuel r = Some (Some x, r')"
    with q show ?thesis by simp
  next
    assume "\<exists>m r''. m < n \<and> retry_poll fut sleeper retryable adjust fuel r = Some (None, r'')
      \<and> retry_drive fut sleeper retryable adjust m r'' = Some (x, r')"
    then obtain m r'' where m: "m < n" "retry_poll fut sleeper retryable adjust fuel r = Some (None, r'')"
      "retry_drive fut sleeper retryable adjust m r'' = Some (x, r')" by blast
    have "retry_await fut sleeper retryable adjust fuel q r'' = Some (x, r')"
      using less.IH [OF m(1) m(3)] m(1) less.prems(2,3) q by simp
    with m(2) q show ?thesis by simp
  qed
qed

lemma retry_spec_completes:
  fixes fut :: "nat \<Rightarrow> 'r future"
  shows "\<exists>bound x r' n. (\<forall>fuel polls. bound \<le> fuel \<and> bound \<le> polls \<longrightarrow>
        retry_await fut sleeper retryable default_adjust fuel polls (retry_new ds) = Some (x, r'))
     \<and> calls r' = Suc n \<and> n \<le> length ds \<and> x = snd (fut n)
     \<and> sleeps r' = take n ds
     \<and> (\<forall>j < n. retryable (snd (fut j)))
     \<and> (retryable x \<longrightarrow> n = length ds)"
proof -
  obtain x n sl where s: "retry_spec (\<lambda>i. snd (fut i)) retryable ds 0 = (x, n, sl)" by (metis prod_cases3)
  have new: "state (retry_new ds :: 'r retry) = Idle" "backoff (retry_new ds :: 'r retry) = ds"
    "calls (retry_new ds :: 'r retry) = 0" "sleeps (retry_new ds :: 'r retry) = []" by (simp_all add: retry_new_def)
  have sp: "retry_spec (\<lambda>i. snd (fut i)) retryable ds (calls (retry_new ds :: 'r retry)) = (x, n, sl)"
    using s new(3) by simp
  from retry_drive_spec [where sleeper = sleeper, OF new(1,2) sp] obtain bound r' where
    d: "retry_drive fut sleeper retryable default_adjust bound (retry_new ds) = Some (x, r')"
      "calls r' = n" "sleeps r' = sl" unfolding new(4) append_Nil by blast
  from retry_spec_bounds [OF s] have b: "0 < n" "n \<le> 0 + length ds + 1" "x = snd (fut (n - 1))"
    "sl = take (n - 1 - 0) ds" "\<forall>j. 0 \<le> j \<and> j < n - 1 \<longrightarrow> retryable (snd (fut j))"
    "retryable x \<longrightarrow> n = 0 + length ds + 1" by blast+
  have aw: "\<forall>fuel polls. bound \<le> fuel \<and> bound \<le> polls \<longrightarrow>
      retry_await fut sleeper retryable default_adjust fuel polls (retry_new ds) = Some (x, r')"
    using await_drive [OF d(1)] by blast
  have "calls r' = Suc (n - 1)" using b(1) d(2) by simp
  moreover have "n - 1 \<le> length ds" using b(2) by simp
  moreover have "sleeps r' = take (n - 1) ds" unfolding d(3) b(4) by simp
  moreover have "retryable x \<longrightarrow> n - 1 = length ds" using b(6) by simp
  moreover have "\<forall>j < n - 1. retryable (snd (fut j))" using b(5) by blast
  ultimately show ?thesis using aw b(3) by blast
qed

lemma retry_spec_total:
  "\<exists>bound x r' n. retry_await fut sleeper retryable default_adjust bound bound (retry_new ds) = Some (x, r')
     \<and> calls r' = Suc n \<and> n \<le> length ds"
  using retry_spec_completes [of fut sleeper retryable ds] by blast

subsection \<open>Properties\<close>

text \<open>
  C10. A retrying future always completes: with enough fuel and polls it returns. Its result is the
  result of the last attempt; every earlier attempt was retryable; there is at least one attempt
  and at most one more than the backoff has delays; the delays slept are the first ones of the
  backoff, one between every two attempts; and a result that is itself retryable is returned only when
  the backoff is exhausted.
\<close>

theorem retry_completes:
  "\<exists>bound x r' n. (\<forall>fuel polls. bound \<le> fuel \<and> bound \<le> polls \<longrightarrow>
        retry_await fut sleeper retryable default_adjust fuel polls (retry_new ds) = Some (x, r'))
     \<and> calls r' = Suc n \<and> n \<le> length ds \<and> x = snd (fut n)
     \<and> sleeps r' = take n ds
     \<and> (\<forall>j < n. retryable (snd (fut j)))
     \<and> (retryable x \<longrightarrow> n = length ds)"
  by (rule retry_spec_completes)

definition flaky :: "nat \<Rightarrow> nat future" where
  "flaky i = (i, if i = 0 then 503 else 200)"

theorem retry_completes_witness:
  "\<exists>bound x r' n. (\<forall>fuel polls. bound \<le> fuel \<and> bound \<le> polls \<longrightarrow>
        retry_await flaky (\<lambda>_. 2) is_server_error default_adjust fuel polls (retry_new [5, 10]) = Some (x, r'))
     \<and> calls r' = Suc n \<and> n \<le> length [5::nat, 10] \<and> x = snd (flaky n)
     \<and> sleeps r' = take n [5, 10]
     \<and> (\<forall>j < n. is_server_error (snd (flaky j)))
     \<and> (is_server_error x \<longrightarrow> n = length [5::nat, 10])"
  by (rule retry_completes)

text \<open>
  The number of upstream calls a retry configuration allows: at most the configured retries plus one,
  so never more than 256, whatever the upstream answers, when the library yields at most as many
  delays as it is asked for.
\<close>

theorem retry_calls_bounded:
  assumes "\<And>n. length (build c n) \<le> n"
  shows "\<exists>fuel x r'. retry_await fut sleeper retryable default_adjust fuel fuel
        (retry_new (as_iterator build c)) = Some (x, r')
    \<and> calls r' \<le> config_max_retries c + 1 \<and> calls r' \<le> 256"
proof -
  have len: "length (as_iterator build c) \<le> config_max_retries c" by (simp add: as_iterator_def assms)
  have "config_max_retries c < 256"
  proof -
    have u: "unat (w :: u8) < 256" for w using unsigned_less [of w] by simp
    show ?thesis by (cases c) (simp_all add: config_max_retries_def u)
  qed
  moreover obtain bound x r' n where "retry_await fut sleeper retryable default_adjust bound bound
      (retry_new (as_iterator build c)) = Some (x, r')" "calls r' = Suc n" "n \<le> length (as_iterator build c)"
    using retry_spec_total [of fut sleeper retryable "as_iterator build c"] by blast
  ultimately show ?thesis using len by (intro exI conjI) (assumption, linarith+)
qed

theorem retry_calls_bounded_witness:
  "\<exists>fuel x r'. retry_await (\<lambda>i. (0, 503 :: nat)) (\<lambda>_. 0) is_server_error default_adjust fuel fuel
      (retry_new (as_iterator (\<lambda>_ n. replicate n 1) (Constant 1 2 :: unit RetryConfig))) = Some (x, r')
    \<and> calls r' \<le> config_max_retries (Constant 1 2 :: unit RetryConfig) + 1 \<and> calls r' \<le> 256"
  by (rule retry_calls_bounded) simp

end
