(* ===== verification/Fallback_Policy.thy ===== *)
theory Fallback_Policy
  imports Gateway_Prelude Float64 Retry
begin

text \<open>
  The fallback policy: its configuration and validation (\<open>config/fallback_policy.rs\<close>), the bridge to the
  legacy settings (\<open>config/fallback_bridge.rs\<close>, \<open>config/monitor.rs\<close>), the judgements of
  \<open>fallback/evaluator.rs\<close> and the decision log of \<open>fallback/observability.rs\<close>.

  A decimal is the rational number it denotes; its conversion to \<open>f64\<close> is the parameter \<open>to_f64\<close>.
\<close>

datatype FallbackMode = Compat | Unified

datatype GracePeriod = Requests u32

record ProviderFailoverHealthPolicy =
  h_enabled :: bool
  error_ratio_threshold :: rat
  h_interval :: duration
  h_grace_period :: GracePeriod

record ProviderFailoverRateLimitPolicy =
  rl_enabled :: bool
  default_retry_after_seconds :: u64
  restore_buffer :: duration

record ProviderFailoverPolicyBlock =
  health :: ProviderFailoverHealthPolicy
  rate_limit :: ProviderFailoverRateLimitPolicy

record FallbackObservabilityPolicy =
  emit_decision_log :: bool
  metrics_prefix :: string

record FallbackPolicyConfig =
  fp_enabled :: bool
  mode :: FallbackMode
  retry_cfg :: "rat RetryConfig"
  provider_failover :: ProviderFailoverPolicyBlock
  observability :: FallbackObservabilityPolicy

definition default_health_policy :: ProviderFailoverHealthPolicy where
  "default_health_policy =
     \<lparr>h_enabled = True, error_ratio_threshold = 1 / 10, h_interval = from_secs 5,
      h_grace_period = Requests 20\<rparr>"

definition default_rate_limit_policy :: ProviderFailoverRateLimitPolicy where
  "default_rate_limit_policy =
     \<lparr>rl_enabled = True, default_retry_after_seconds = 30, restore_buffer = from_secs 30\<rparr>"

definition default_observability :: FallbackObservabilityPolicy where
  "default_observability = \<lparr>emit_decision_log = True, metrics_prefix = ''ai_gateway.fallback''\<rparr>"

definition default_fallback_policy :: FallbackPolicyConfig where
  "default_fallback_policy =
     \<lparr>fp_enabled = True, mode = Compat, retry_cfg = retry_config_default 2,
      provider_failover = \<lparr>health = default_health_policy, rate_limit = default_rate_limit_policy\<rparr>,
      observability = default_observability\<rparr>"

datatype policy_error = InvalidFallbackPolicy string

definition clamp :: "rat \<Rightarrow> rat \<Rightarrow> rat \<Rightarrow> rat" where
  "clamp lo hi x = (if x < lo then lo else if x > hi then hi else x)"

definition validate_health :: "ProviderFailoverHealthPolicy \<Rightarrow> (policy_error, unit) result" where
  "validate_health h =
     (if h_interval h = 0 then Err (InvalidFallbackPolicy
        ''provider-failover.health.interval must be positive when health failover is enabled'')
      else if clamp 0 1 (error_ratio_threshold h) \<noteq> error_ratio_threshold h then Err (InvalidFallbackPolicy
        ''provider-failover.health.error-ratio-threshold must be between 0 and 1 inclusive'')
      else (case h_grace_period h of Requests min_requests \<Rightarrow>
        if min_requests = 0 then Err (InvalidFallbackPolicy
          ''provider-failover.health.grace-period.min-requests must be > 0'')
        else Ok ()))"

definition validate_rate_limit :: "ProviderFailoverRateLimitPolicy \<Rightarrow> (policy_error, unit) result" where
  "validate_rate_limit r =
     (if default_retry_after_seconds r = 0 then Err (InvalidFallbackPolicy
        ''provider-failover.rate-limit.default-retry-after-seconds must be > 0 when rate-limit failover is enabled'')
      else if restore_buffer r = 0 then Err (InvalidFallbackPolicy
        ''provider-failover.rate-limit.restore-buffer must be positive when rate-limit failover is enabled'')
      else Ok ())"

definition validate_fallback_policy :: "FallbackPolicyConfig \<Rightarrow> (policy_error, unit) result" where
  "validate_fallback_policy p =
     try_bind (if h_enabled (health (provider_failover p)) then validate_health (health (provider_failover p)) else Ok ()) (\<lambda>_.
     try_bind (if rl_enabled (rate_limit (provider_failover p)) then validate_rate_limit (rate_limit (provider_failover p)) else Ok ()) (\<lambda>_.
     try_bind (case retry_cfg p of
         Exponential min_delay max_delay _ _ \<Rightarrow>
           if min_delay > max_delay then Err (InvalidFallbackPolicy
             ''fallback-policy.retry.min-delay must be <= max-delay'') else Ok ()
       | Constant _ _ \<Rightarrow> Ok ()) (\<lambda>_.
     if str_trim (metrics_prefix (observability p)) = [] then Err (InvalidFallbackPolicy
         ''observability.metrics-prefix must be non-empty'')
     else Ok ())))"

subsection \<open>Judgements\<close>

datatype ErrorClass = Upstream5xx | ConnectionError | StreamRetryable | NonRetryable
datatype FailoverSource = Health | RateLimit

definition should_retry :: "FallbackPolicyConfig \<Rightarrow> ErrorClass \<Rightarrow> bool" where
  "should_retry policy error_class =
     (if \<not> fp_enabled policy then False
      else (case mode policy of
              Compat \<Rightarrow> error_class \<in> {Upstream5xx, ConnectionError, StreamRetryable}
            | Unified \<Rightarrow> error_class \<in> {Upstream5xx, ConnectionError, StreamRetryable}))"

definition should_remove :: "FallbackPolicyConfig \<Rightarrow> FailoverSource \<Rightarrow> bool" where
  "should_remove policy source =
     (if \<not> fp_enabled policy then False
      else (case source of
              Health \<Rightarrow> h_enabled (health (provider_failover policy))
            | RateLimit \<Rightarrow> rl_enabled (rate_limit (provider_failover policy))))"

text \<open>The sum of the two durations panics (\<open>None\<close>) when it does not fit.\<close>

definition restore_after :: "FallbackPolicyConfig \<Rightarrow> u64 option \<Rightarrow> duration option" where
  "restore_after policy retry_after_header_secs =
     (let base = from_secs (case retry_after_header_secs of Some s \<Rightarrow> s
                  | None \<Rightarrow> default_retry_after_seconds (rate_limit (provider_failover policy)))
      in duration_add base (restore_buffer (rate_limit (provider_failover policy))))"

subsection \<open>Decision log\<close>

datatype DecisionKind = DRetry | CrossProviderFallback | DRemove | DRestore | ProviderDenied

definition decision_as_str :: "DecisionKind \<Rightarrow> string" where
  "decision_as_str k =
     (case k of DRetry \<Rightarrow> ''retry'' | CrossProviderFallback \<Rightarrow> ''cross_provider_fallback''
      | DRemove \<Rightarrow> ''remove'' | DRestore \<Rightarrow> ''restore'' | ProviderDenied \<Rightarrow> ''provider_denied'')"

definition source_as_str :: "FailoverSource \<Rightarrow> string" where
  "source_as_str s = (case s of Health \<Rightarrow> ''health'' | RateLimit \<Rightarrow> ''rate_limit'')"

type_synonym decision_log = "(string \<times> string option \<times> string) list"

definition log_decision ::
  "FallbackPolicyConfig \<Rightarrow> DecisionKind \<Rightarrow> FailoverSource option \<Rightarrow> string \<Rightarrow> decision_log \<Rightarrow> decision_log" where
  "log_decision policy kind source provider lg =
     (if \<not> emit_decision_log (observability policy) then lg
      else lg @ [(decision_as_str kind, map_option source_as_str source, provider)])"

subsection \<open>Legacy settings and the bridge\<close>

record HealthMonitorConfig =
  ratio :: rat
  window :: duration
  buckets :: nat
  m_interval :: duration
  m_grace_period :: GracePeriod

definition monitor_error_threshold :: "(rat \<Rightarrow> f64 option) \<Rightarrow> HealthMonitorConfig \<Rightarrow> f64" where
  "monitor_error_threshold to_f64 c =
     (case to_f64 (ratio c) of Some x \<Rightarrow> x | None \<Rightarrow> f64_round (15 / 100))"

record HealthMonitorParams =
  error_threshold :: f64
  interval :: duration
  grace_period :: GracePeriod

datatype 'router DeprecatedRetryLocation = UnifiedApi | Router 'router

text \<open>The part of \<open>Config\<close> the bridge reads; a router is its id and its own retries.\<close>

record 'router gateway_config =
  fallback_policy :: FallbackPolicyConfig
  discover_monitor :: HealthMonitorConfig
  global_retries :: "rat RetryConfig option"
  unified_api_retries :: "rat RetryConfig option"
  routers :: "('router \<times> rat RetryConfig option) list"

definition resolved_health_monitor_config ::
  "(rat \<Rightarrow> f64 option) \<Rightarrow> 'router gateway_config \<Rightarrow> HealthMonitorParams" where
  "resolved_health_monitor_config to_f64 config =
     (let fp = fallback_policy config; h = health (provider_failover fp)
      in if fp_enabled fp \<and> h_enabled h then
           \<lparr>error_threshold = (case to_f64 (error_ratio_threshold h) of Some x \<Rightarrow> x | None \<Rightarrow> f64_round (1 / 10)),
            interval = h_interval h, grace_period = h_grace_period h\<rparr>
         else
           \<lparr>error_threshold = monitor_error_threshold to_f64 (discover_monitor config),
            interval = m_interval (discover_monitor config),
            grace_period = m_grace_period (discover_monitor config)\<rparr>)"

definition resolved_rate_limit_restore_after :: "'router gateway_config \<Rightarrow> u64 option \<Rightarrow> duration option" where
  "resolved_rate_limit_restore_after config retry_after_secs =
     restore_after (fallback_policy config) retry_after_secs"

definition resolved_global_retry :: "'router gateway_config \<Rightarrow> rat RetryConfig option" where
  "resolved_global_retry config =
     (if fp_enabled (fallback_policy config) then Some (retry_cfg (fallback_policy config))
      else global_retries config)"

definition deprecated_per_path_retries :: "'router gateway_config \<Rightarrow> 'router DeprecatedRetryLocation list" where
  "deprecated_per_path_retries config =
     (if unified_api_retries config \<noteq> None then [UnifiedApi] else [])
     @ map (\<lambda>(r, _). Router r) (filter (\<lambda>(_, rc). rc \<noteq> None) (routers config))"

subsection \<open>Lemmas\<close>

lemma clamp_unit: "clamp 0 1 x = x \<longleftrightarrow> 0 \<le> x \<and> x \<le> 1"
  by (auto simp: clamp_def)

lemma validate_health_ok:
  "validate_health h = Inr () \<longleftrightarrow>
     0 < h_interval h \<and> 0 \<le> error_ratio_threshold h \<and> error_ratio_threshold h \<le> 1
     \<and> h_grace_period h \<noteq> Requests 0"
  by (cases "h_grace_period h") (auto simp: validate_health_def clamp_unit)

lemma validate_rate_limit_ok:
  "validate_rate_limit r = Inr () \<longleftrightarrow> default_retry_after_seconds r \<noteq> 0 \<and> 0 < restore_buffer r"
  by (auto simp: validate_rate_limit_def)

lemma try_bind_unit_ok: "try_bind (r :: ('e, unit) result) f = Inr () \<longleftrightarrow> r = Inr () \<and> f () = Inr ()"
  by (cases r) auto

lemma validate_fallback_policy_ok:
  "validate_fallback_policy p = Inr () \<longleftrightarrow>
      (h_enabled (health (provider_failover p)) \<longrightarrow> validate_health (health (provider_failover p)) = Inr ())
      \<and> (rl_enabled (rate_limit (provider_failover p)) \<longrightarrow> validate_rate_limit (rate_limit (provider_failover p)) = Inr ())
      \<and> (\<forall>a b n f. retry_cfg p = Exponential a b n f \<longrightarrow> a \<le> b)
      \<and> str_trim (metrics_prefix (observability p)) \<noteq> []"
  unfolding validate_fallback_policy_def try_bind_unit_ok
  by (cases "retry_cfg p") auto

lemma default_policy_parts:
  "validate_health default_health_policy = Inr ()" "validate_rate_limit default_rate_limit_policy = Inr ()"
  by (simp_all add: validate_health_ok validate_rate_limit_ok default_health_policy_def
      default_rate_limit_policy_def from_secs_def nanos_per_sec_def)

lemma restore_after_overflow:
  "restore_after p secs = None \<longleftrightarrow>
     duration_max < from_secs (case secs of Some s \<Rightarrow> s | None \<Rightarrow> default_retry_after_seconds (rate_limit (provider_failover p)))
       + restore_buffer (rate_limit (provider_failover p))"
  by (auto simp: restore_after_def duration_add_def Let_def)

subsection \<open>Properties\<close>

text \<open>
  Validation accepts exactly the sound policies: with health failover on, a positive interval, a
  threshold between zero and one and at least one request of grace; with rate-limit failover on, a
  positive default wait and buffer; a retry range in order; and a metrics prefix that is not blank. The
  default policy is accepted.
\<close>

theorem fallback_policy_validation:
  "(validate_fallback_policy p = Inr () \<longleftrightarrow>
      (h_enabled (health (provider_failover p)) \<longrightarrow>
         0 < h_interval (health (provider_failover p))
         \<and> 0 \<le> error_ratio_threshold (health (provider_failover p))
         \<and> error_ratio_threshold (health (provider_failover p)) \<le> 1
         \<and> h_grace_period (health (provider_failover p)) \<noteq> Requests 0)
      \<and> (rl_enabled (rate_limit (provider_failover p)) \<longrightarrow>
         default_retry_after_seconds (rate_limit (provider_failover p)) \<noteq> 0
         \<and> 0 < restore_buffer (rate_limit (provider_failover p)))
      \<and> (\<forall>a b n f. retry_cfg p = Exponential a b n f \<longrightarrow> a \<le> b)
      \<and> str_trim (metrics_prefix (observability p)) \<noteq> [])
   \<and> validate_fallback_policy default_fallback_policy = Inr ()"
proof
  show "validate_fallback_policy default_fallback_policy = Inr ()"
  proof -
    have "default_min_delay \<le> default_max_delay"
      by (simp add: default_min_delay_def default_max_delay_def from_secs_def)
    moreover have "str_trim (metrics_prefix default_observability) \<noteq> []"
      unfolding default_observability_def by code_simp
    ultimately show ?thesis
      by (simp add: validate_fallback_policy_ok default_policy_parts default_fallback_policy_def
          retry_config_default_def)
  qed
qed (simp add: validate_fallback_policy_ok validate_health_ok validate_rate_limit_ok)

theorem fallback_policy_validation_witness:
  "validate_fallback_policy (default_fallback_policy\<lparr>retry_cfg := Exponential 2 1 3 2\<rparr>) \<noteq> Inr ()"
  using fallback_policy_validation [of "default_fallback_policy\<lparr>retry_cfg := Exponential 2 1 3 2\<rparr>"] by auto

text \<open>
  The wait before a rate-limited provider returns. It is the provider's \<open>Retry-After\<close> (or the
  configured default) plus the buffer whenever that fits a duration, 60 seconds with the default
  policy and no header; and a provider that announces the largest number of seconds makes the sum
  overflow, a panic, as soon as the buffer has a whole second.
\<close>

theorem restore_after_exact:
  "(from_secs s + restore_buffer (rate_limit (provider_failover p)) \<le> duration_max \<longrightarrow>
      restore_after p (Some s) = Some (from_secs s + restore_buffer (rate_limit (provider_failover p))))
   \<and> restore_after p None = restore_after p (Some (default_retry_after_seconds (rate_limit (provider_failover p))))
   \<and> (nanos_per_sec \<le> restore_buffer (rate_limit (provider_failover p)) \<longrightarrow> restore_after p (Some (- 1)) = None)
   \<and> restore_after default_fallback_policy None = Some (60 * nanos_per_sec)"
proof (intro conjI impI)
  assume "from_secs s + restore_buffer (rate_limit (provider_failover p)) \<le> duration_max"
  then show "restore_after p (Some s) = Some (from_secs s + restore_buffer (rate_limit (provider_failover p)))"
    by (simp add: restore_after_def duration_add_def)
next
  show "restore_after p None = restore_after p (Some (default_retry_after_seconds (rate_limit (provider_failover p))))"
    by (simp add: restore_after_def)
next
  assume "nanos_per_sec \<le> restore_buffer (rate_limit (provider_failover p))"
  moreover have "unat (- 1 :: u64) = 2 ^ 64 - 1"
    by (simp add: unsigned_minus_1_eq_mask mask_eq_exp_minus_1)
  ultimately show "restore_after p (Some (- 1)) = None"
    by (simp add: restore_after_overflow from_secs_def duration_max_def nanos_per_sec_def)
next
  show "restore_after default_fallback_policy None = Some (60 * nanos_per_sec)"
    by (simp add: restore_after_def duration_add_def default_fallback_policy_def default_rate_limit_policy_def
        from_secs_def duration_max_def nanos_per_sec_def)
qed

theorem restore_after_exact_witness: "restore_after default_fallback_policy (Some (- 1)) = None"
proof -
  have "nanos_per_sec \<le> restore_buffer (rate_limit (provider_failover default_fallback_policy))"
    by (simp add: default_fallback_policy_def default_rate_limit_policy_def from_secs_def)
  with restore_after_exact [of 0 default_fallback_policy] show ?thesis by blast
qed

text \<open>
  The bridge's priorities: with the policy enabled its own retry settings and, if its health block is
  enabled too, its own health settings apply and no legacy value has any influence; with the policy
  disabled the legacy values apply as they are. The per-path retries are reported exactly where they
  are set, and never change the effective retry.
\<close>

theorem bridge_priorities:
  "(fp_enabled (fallback_policy c) \<longrightarrow>
      resolved_global_retry c = Some (retry_cfg (fallback_policy c))
      \<and> (h_enabled (health (provider_failover (fallback_policy c))) \<longrightarrow>
           resolved_health_monitor_config to_f64 (c\<lparr>discover_monitor := m, global_retries := g\<rparr>)
             = resolved_health_monitor_config to_f64 c))
   \<and> (\<not> fp_enabled (fallback_policy c) \<longrightarrow>
      resolved_global_retry c = global_retries c
      \<and> interval (resolved_health_monitor_config to_f64 c) = m_interval (discover_monitor c)
      \<and> grace_period (resolved_health_monitor_config to_f64 c) = m_grace_period (discover_monitor c))
   \<and> resolved_global_retry (c\<lparr>unified_api_retries := u, routers := rs\<rparr>) = resolved_global_retry c
   \<and> set (deprecated_per_path_retries c) =
       {UnifiedApi |_ :: unit. unified_api_retries c \<noteq> None} \<union> {Router r |r rc. (r, Some rc) \<in> set (routers c)}"
  by (auto simp: resolved_global_retry_def resolved_health_monitor_config_def Let_def
      deprecated_per_path_retries_def image_iff)

theorem bridge_priorities_witness:
  "resolved_global_retry (\<lparr>fallback_policy = default_fallback_policy,
      discover_monitor = \<lparr>ratio = 1, window = 1, buckets = 1, m_interval = 1, m_grace_period = Requests 1\<rparr>,
      global_retries = None, unified_api_retries = None, routers = []\<rparr> :: nat gateway_config)
    = Some (retry_cfg default_fallback_policy)"
proof -
  let ?c = "\<lparr>fallback_policy = default_fallback_policy,
      discover_monitor = \<lparr>ratio = 1, window = 1, buckets = 1, m_interval = 1, m_grace_period = Requests 1\<rparr>,
      global_retries = None, unified_api_retries = None, routers = []\<rparr> :: nat gateway_config"
  have "fp_enabled (fallback_policy ?c)" by (simp add: default_fallback_policy_def)
  then have "resolved_global_retry ?c = Some (retry_cfg (fallback_policy ?c))"
    using bridge_priorities [of ?c] by blast
  then show ?thesis by simp
qed

end
