(* ===== verification/Rolling_Counter.thy ===== *)
theory Rolling_Counter
  imports Gateway_Prelude Float64 Providers Endpoints
begin

text \<open>
  The windowed counters of \<open>metrics/rolling_counter.rs\<close> and the registry of endpoint metrics built
  from them (\<open>discover/monitor/metrics.rs\<close>).

  A counter is first modelled one call at a time. Then the four atomic accesses of \<open>incr\<close> on one
  bucket are modelled as steps of concurrent threads, with an invariant over every interleaving.
\<close>

record rolling_counter =
  rc_buckets :: u32
  bucket_duration :: f64
  start :: duration
  counters :: "u32 list"
  laps :: "u64 list"

text \<open>\<open>new\<close> panics (\<open>None\<close>) without buckets.\<close>

definition rolling_new :: "duration \<Rightarrow> duration \<Rightarrow> u32 \<Rightarrow> rolling_counter option" where
  "rolling_new now win n =
     (if n = 0 then None
      else Some \<lparr>rc_buckets = n,
                 bucket_duration = f64_div_f64 (as_secs_f64 win) (Fin (of_nat (unat n))),
                 start = now,
                 counters = replicate (unat n) 0,
                 laps = replicate (unat n) 0\<rparr>)"

definition get_index_and_lap :: "rolling_counter \<Rightarrow> duration \<Rightarrow> nat \<times> u64" where
  "get_index_and_lap c now =
     (let elapsed = as_secs_f64 (now - start c);
          lap = f64_to_u64 (f64_floor (f64_div_f64 elapsed
                  (f64_mul_f64 (bucket_duration c) (Fin (of_nat (unat (rc_buckets c)))))));
          idx = unat (f64_to_u64 (f64_div_f64 elapsed (bucket_duration c))) mod unat (rc_buckets c)
      in (idx, lap))"

text \<open>One call of \<open>incr\<close> without interference, in bucket \<open>idx\<close> and lap \<open>lap\<close>.\<close>

definition incr_at :: "nat \<Rightarrow> u64 \<Rightarrow> rolling_counter \<Rightarrow> rolling_counter" where
  "incr_at idx lap c =
     (let c1 = (if laps c ! idx \<noteq> lap
                then c\<lparr>laps := (laps c)[idx := lap], counters := (counters c)[idx := 0]\<rparr> else c)
      in c1\<lparr>counters := (counters c1)[idx := counters c1 ! idx + 1]\<rparr>)"

definition rolling_incr :: "duration \<Rightarrow> rolling_counter \<Rightarrow> rolling_counter" where
  "rolling_incr now c = (let (idx, lap) = get_index_and_lap c now in incr_at idx lap c)"

definition total_at :: "u64 \<Rightarrow> rolling_counter \<Rightarrow> u32" where
  "total_at now_lap c =
     sum_list (map fst (filter (\<lambda>(v, l). l = now_lap) (zip (counters c) (laps c))))"

definition rolling_total :: "duration \<Rightarrow> rolling_counter \<Rightarrow> u32" where
  "rolling_total now c = total_at (snd (get_index_and_lap c now)) c"

definition rolling_default :: "duration \<Rightarrow> rolling_counter option" where
  "rolling_default now = rolling_new now (from_secs 60) 10"

subsection \<open>Endpoint metrics\<close>

record endpoint_metrics =
  request_count :: rolling_counter
  remote_internal_error_count :: rolling_counter

definition endpoint_metrics_default :: "duration \<Rightarrow> endpoint_metrics option" where
  "endpoint_metrics_default now =
     (case rolling_default now of None \<Rightarrow> None
      | Some c \<Rightarrow> Some \<lparr>request_count = c, remote_internal_error_count = c\<rparr>)"

definition incr_req_count :: "duration \<Rightarrow> endpoint_metrics \<Rightarrow> endpoint_metrics" where
  "incr_req_count now m = m\<lparr>request_count := rolling_incr now (request_count m)\<rparr>"

definition incr_remote_internal_error_count :: "duration \<Rightarrow> endpoint_metrics \<Rightarrow> endpoint_metrics" where
  "incr_remote_internal_error_count now m =
     m\<lparr>remote_internal_error_count := rolling_incr now (remote_internal_error_count m)\<rparr>"

datatype stream_error =
    StreamEnded | InvalidStatusCode nat | Utf8 | Parser | Transport | InvalidContentType | InvalidLastEventId

definition incr_for_stream_error :: "duration \<Rightarrow> stream_error \<Rightarrow> endpoint_metrics \<Rightarrow> endpoint_metrics" where
  "incr_for_stream_error now e m =
     (case e of
        StreamEnded \<Rightarrow> m
      | InvalidStatusCode code \<Rightarrow>
          if 500 \<le> code \<and> code < 600 then incr_remote_internal_error_count now m else m
      | _ \<Rightarrow> incr_remote_internal_error_count now m)"

datatype metrics_error = MetricsNotConfigured ApiEndpoint

type_synonym metrics_registry = "ApiEndpoint \<rightharpoonup> endpoint_metrics"

definition registry_new :: "endpoint_metrics \<Rightarrow> InferenceProvider list \<Rightarrow> metrics_registry" where
  "registry_new fresh ps =
     fold (\<lambda>p m. fold (\<lambda>e m. m(e \<mapsto> fresh)) (provider_endpoints p) m) ps Map.empty"

text \<open>The endpoints of custom providers share one set of counters that nobody reads.\<close>

definition health_metrics ::
  "endpoint_metrics \<Rightarrow> metrics_registry \<Rightarrow> ApiEndpoint \<Rightarrow> (metrics_error, endpoint_metrics) result" where
  "health_metrics discard reg e =
     (case e of
        ApiOpenAICompatible Custom _ \<Rightarrow> Ok discard
      | _ \<Rightarrow> ok_or (MetricsNotConfigured e) (reg e))"

subsection \<open>Lemmas on single calls\<close>

definition rc_wf :: "rolling_counter \<Rightarrow> bool" where
  "rc_wf c \<longleftrightarrow> length (counters c) = unat (rc_buckets c) \<and> length (laps c) = unat (rc_buckets c)
     \<and> 0 < unat (rc_buckets c)"

lemma rolling_new_wf: "rolling_new now win n = Some c \<Longrightarrow> rc_wf c"
  by (auto simp: rolling_new_def rc_wf_def unat_gt_0 split: if_splits)

lemma incr_at_wf: "rc_wf c \<Longrightarrow> rc_wf (incr_at i l c)"
  by (auto simp: incr_at_def rc_wf_def Let_def)

lemma get_index_bound: "rc_wf c \<Longrightarrow> fst (get_index_and_lap c now) < length (counters c)"
  by (simp add: get_index_and_lap_def Let_def rc_wf_def)

lemma rolling_incr_wf: "rc_wf c \<Longrightarrow> rc_wf (rolling_incr now c)"
  by (simp add: rolling_incr_def incr_at_wf split: prod.splits)

lemma rolling_incr_frame:
  "start (rolling_incr now c) = start c" "bucket_duration (rolling_incr now c) = bucket_duration c"
  "rc_buckets (rolling_incr now c) = rc_buckets c"
  by (simp_all add: rolling_incr_def incr_at_def Let_def split: prod.splits)

lemma get_index_and_lap_incr [simp]: "get_index_and_lap (rolling_incr now c) t = get_index_and_lap c t"
  by (simp add: get_index_and_lap_def rolling_incr_frame)

definition bucket_value :: "u64 \<Rightarrow> rolling_counter \<Rightarrow> nat \<Rightarrow> u32" where
  "bucket_value l c i = (if laps c ! i = l then counters c ! i else 0)"

lemma total_at_sum:
  assumes "length (counters c) = length (laps c)"
  shows "total_at l c = (\<Sum>i < length (laps c). bucket_value l c i)"
proof -
  have "sum_list (map fst (filter (\<lambda>(v, k). k = l) (zip cs ls))) =
      (\<Sum>i < length ls. if ls ! i = l then cs ! i else (0 :: u32))" if "length cs = length ls" for cs ls
    using that
  proof (induction cs ls rule: list_induct2)
    case (Cons x xs y ys)
    have "(\<Sum>i < Suc (length ys). if (y # ys) ! i = l then (x # xs) ! i else 0) =
        (if y = l then x else 0) + (\<Sum>i < length ys. if ys ! i = l then xs ! i else 0)"
      by (subst sum.lessThan_Suc_shift) (simp cong: if_cong)
    with Cons show ?case by simp
  qed simp
  from this [OF assms] show ?thesis by (simp add: total_at_def bucket_value_def)
qed

lemma incr_at_lens:
  "length (laps (incr_at i l c)) = length (laps c)" "length (counters (incr_at i l c)) = length (counters c)"
  by (simp_all add: incr_at_def Let_def)

text \<open>
  One increment in lap \<open>l\<close>: the total of that lap grows by one, and the bucket it used leaves the
  total of every other lap.
\<close>

lemma incr_at_same_lap:
  assumes "rc_wf c" and "i < length (laps c)"
  shows "total_at l (incr_at i l c) = total_at l c + 1"
proof -
  have len: "length (counters c) = length (laps c)" using assms(1) by (simp add: rc_wf_def)
  have b: "bucket_value l (incr_at i l c) j = bucket_value l c j + (if j = i then 1 else 0)"
    if "j < length (laps c)" for j
    using that assms(2) len by (auto simp: bucket_value_def incr_at_def Let_def nth_list_update)
  have "total_at l (incr_at i l c) = (\<Sum>j < length (laps c). bucket_value l c j + (if j = i then 1 else 0))"
    using total_at_sum [of "incr_at i l c" l] len b by (simp add: incr_at_lens)
  also have "\<dots> = total_at l c + 1"
    using assms(2) by (simp add: sum.distrib total_at_sum [OF len])
  finally show ?thesis .
qed

lemma bucket_value_bound_lap:
  "\<lbrakk>rc_wf c; \<forall>k \<in> set (laps c). k \<noteq> l\<rbrakk> \<Longrightarrow> total_at l c = 0"
  by (subst total_at_sum) (auto simp: rc_wf_def bucket_value_def intro!: sum.neutral)

text \<open>The laps of a run of increments never go back.\<close>

fun incr_all :: "(nat \<times> u64) list \<Rightarrow> rolling_counter \<Rightarrow> rolling_counter" where
  "incr_all [] c = c"
| "incr_all ((i, l) # xs) c = incr_all xs (incr_at i l c)"

lemma incr_at_laps: "set (laps (incr_at i l c)) \<subseteq> insert l (set (laps c))"
  using set_update_subset_insert [of "laps c" i l] by (auto simp: incr_at_def Let_def)

lemma incr_all_total:
  assumes "rc_wf c" and "\<forall>(i, l) \<in> set xs. i < length (laps c)"
    and "sorted (map snd xs)" and "\<forall>l \<in> set (laps c). \<forall>x \<in> set xs. l \<le> snd x" and "\<forall>x \<in> set xs. snd x \<le> L"
    and "\<forall>l \<in> set (laps c). l \<le> L"
  shows "total_at L (incr_all xs c) = total_at L c + of_nat (length (filter (\<lambda>x. snd x = L) xs))"
  using assms
proof (induction xs arbitrary: c)
  case (Cons x xs)
  obtain i l where x: "x = (i, l)" by (cases x)
  let ?c = "incr_at i l c"
  have i: "i < length (laps c)" using Cons.prems(2) x by auto
  have step: "total_at L ?c = total_at L c + (if l = L then 1 else 0)"
  proof (cases "l = L")
    case True
    then show ?thesis using incr_at_same_lap [OF Cons.prems(1) i] by simp
  next
    case False
    then have "l < L" using Cons.prems(5) x by (simp add: order_less_le)
    then have "\<forall>k \<in> set (laps c). k \<noteq> L" using Cons.prems(4) x by (auto simp: order_less_le)
    moreover have "\<forall>k \<in> set (laps ?c). k \<noteq> L" using calculation False incr_at_laps [of i l c] by auto
    ultimately show ?thesis
      using False bucket_value_bound_lap incr_at_wf Cons.prems(1) by simp
  qed
  have "\<forall>k \<in> set (laps ?c). \<forall>y \<in> set xs. k \<le> snd y"
    using Cons.prems(3,4) x incr_at_laps [of i l c] by fastforce
  moreover have "\<forall>k \<in> set (laps ?c). k \<le> L" using Cons.prems(5,6) x incr_at_laps [of i l c] by fastforce
  ultimately have "total_at L (incr_all xs ?c) = total_at L ?c + of_nat (length (filter (\<lambda>x. snd x = L) xs))"
    using Cons.prems incr_at_wf by (intro Cons.IH) (auto simp: incr_at_lens)
  then show ?case using step x by simp
qed simp

subsection \<open>The default counter\<close>

text \<open>Sixty seconds in ten buckets: the divisions by bucket and by lap are exact constants.\<close>

lemma f64_div_small:
  assumes "0 < b" and "b dvd a" and "a div b < 2 ^ 53"
  shows "f64_div (of_nat a) (of_nat b) = Fin (of_nat (a div b))"
proof -
  from assms(2) obtain k where "a = b * k" by blast
  with assms(1) have "(of_nat a :: rat) / of_nat b = of_nat (a div b)" by simp
  then show ?thesis using assms(1) f64_round_small_int [OF assms(3)] by (simp add: f64_div_def)
qed

lemma as_secs_f64_whole:
  assumes "s < 2 ^ 53"
  shows "as_secs_f64 (s * nanos_per_sec) = Fin (of_nat s)"
proof -
  have "f64_add (of_nat s) 0 = Fin (of_nat s)" using f64_round_small_int [OF assms] by (simp add: f64_add_def)
  moreover have "f64_div 0 (of_nat nanos_per_sec) = Fin 0" by (simp add: f64_div_def f64_round_def nanos_per_sec_def)
  ultimately show ?thesis
    using f64_round_small_int [OF assms] by (simp add: as_secs_f64_def nanos_per_sec_def)
qed

lemma rolling_default_fields:
  assumes "rolling_default t0 = Some c"
  shows "rc_buckets c = 10" and "bucket_duration c = Fin 6" and "start c = t0"
    and "laps c = replicate 10 0" and "counters c = replicate 10 0"
proof -
  have w: "from_secs 60 = 60 * nanos_per_sec" by (simp add: from_secs_def)
  have "f64_div_f64 (as_secs_f64 (from_secs 60)) (Fin (of_nat (unat (10 :: u32)))) = f64_div (of_nat 60) (of_nat 10)"
    unfolding w by (subst as_secs_f64_whole) (simp_all add: f64_div_f64_def)
  also have "\<dots> = Fin 6" by (subst f64_div_small) simp_all
  finally have d: "f64_div_f64 (as_secs_f64 (from_secs 60)) (Fin (of_nat (unat (10 :: u32)))) = Fin 6" .
  from assms show "rc_buckets c = 10" "bucket_duration c = Fin 6" "start c = t0"
    "laps c = replicate 10 0" "counters c = replicate 10 0"
    by (auto simp: rolling_default_def rolling_new_def d [simplified])
qed

lemma default_lap:
  assumes "bucket_duration c = Fin 6" and "rc_buckets c = 10"
  shows "snd (get_index_and_lap c now) = f64_to_u64 (f64_floor (f64_div_f64 (as_secs_f64 (now - start c)) (Fin 60)))"
proof -
  have "f64_mul (of_nat 6) (of_nat 10) = f64_round (of_nat 60)" by (simp add: f64_mul_def)
  also have "\<dots> = Fin (of_nat 60)" by (rule f64_round_small_int) simp
  finally have "f64_mul_f64 (Fin 6) (Fin 10) = Fin 60" by (simp add: f64_mul_f64_def)
  then show ?thesis using assms by (simp add: get_index_and_lap_def Let_def)
qed

lemma to_u64_round_mono:
  assumes "0 \<le> p" and "p \<le> q"
  shows "f64_to_u64 (f64_floor (f64_round p)) \<le> f64_to_u64 (f64_floor (f64_round q))"
proof -
  have cast: "f64_to_u64 (f64_floor (Fin x)) \<le> f64_to_u64 (f64_floor (Fin y))" if xy: "0 \<le> x" "x \<le> y" for x y :: rat
  proof -
    have fl: "floor x \<le> floor y" "0 \<le> floor x" using xy by (simp_all add: floor_mono)
    have top: "(of_int (floor y) :: rat) \<ge> 2 ^ 64 - 1 \<longleftrightarrow> floor y \<ge> 2 ^ 64 - 1"
      "(of_int (floor x) :: rat) \<ge> 2 ^ 64 - 1 \<longleftrightarrow> floor x \<ge> 2 ^ 64 - 1"
      using of_int_le_iff [where 'a = rat, of "2 ^ 64 - 1" "floor y"]
        of_int_le_iff [where 'a = rat, of "2 ^ 64 - 1" "floor x"] by simp_all
    have "(word_of_int (floor x) :: u64) \<le> word_of_int (floor y)" if "floor y < 2 ^ 64 - 1"
    proof -
      have b: "floor x < 2 ^ 64" "floor y < 2 ^ 64" "0 \<le> floor y" using that fl by linarith+
      have "floor x mod 2 ^ 64 = floor x" by (rule mod_pos_pos_trivial [OF fl(2) b(1)])
      moreover have "floor y mod 2 ^ 64 = floor y" by (rule mod_pos_pos_trivial [OF b(3) b(2)])
      ultimately have "floor x mod 2 ^ 64 \<le> floor y mod 2 ^ 64" using fl(1) by simp
      then show ?thesis by (simp add: word_le_def uint_word_of_int)
    qed
    then show ?thesis using fl top xy by (auto simp: f64_to_u64_def f64_floor_def)
  qed
  have "f64_to_u64 PosInf = - 1" by (simp add: f64_to_u64_def)
  then show ?thesis
  proof (cases "p = 0")
    case True
    then have "f64_to_u64 (f64_floor (f64_round p)) = 0" by (simp add: f64_round_def f64_to_u64_def f64_floor_def)
    then show ?thesis by simp
  next
    case False
    then have pos: "0 < p" "0 < q" using assms by auto
    show ?thesis
      using round_pos_mono [OF pos(1) assms(2)] pos round_pos_nonneg [OF pos(1)] cast
      by (auto simp: f64_round_def f64_floor_def [of PosInf] f64_to_u64_def [of PosInf])
  qed
qed

definition frac_secs :: "nat \<Rightarrow> rat" where
  "frac_secs n = (if n = 0 then 0 else round_pos (of_nat n / of_nat nanos_per_sec))"

lemma frac_secs_bounds:
  assumes "n < nanos_per_sec"
  shows "0 \<le> frac_secs n" and "frac_secs n \<le> 1"
    and "f64_div (of_nat n) (of_nat nanos_per_sec) = Fin (frac_secs n)"
proof -
  let ?q = "of_nat n / of_nat nanos_per_sec :: rat"
  have np: "(0::rat) < of_nat nanos_per_sec" by (simp add: nanos_per_sec_def)
  have q1: "?q < 1" using assms np by (simp add: divide_simps)
  have le: "round_pos ?q \<le> 1" if "n \<noteq> 0"
  proof -
    have pos: "0 < ?q" using that np by simp
    have "2 powi ilog2 ?q < (2::rat) powi 0" using ilog2_bounds(1) [OF pos] q1 by simp
    then have "ilog2 ?q < 0" by (rule powi_two_less)
    then have "f64_exponent ?q \<le> 0" by (simp add: f64_exponent_def)
    from round_pos_le_power [OF pos this] q1 show ?thesis by simp
  qed
  show "frac_secs n \<le> 1" using le by (simp add: frac_secs_def)
  show "0 \<le> frac_secs n" using np by (auto simp: frac_secs_def intro!: round_pos_nonneg)
  have "(1::rat) < 2 ^ 1024" by simp
  then have "\<not> 2 ^ 1024 \<le> round_pos ?q" if "n \<noteq> 0" using le [OF that] by linarith
  then show "f64_div (of_nat n) (of_nat nanos_per_sec) = Fin (frac_secs n)"
    using np by (auto simp: f64_div_def f64_round_def frac_secs_def)
qed

lemma frac_secs_mono: "m \<le> n \<Longrightarrow> n < nanos_per_sec \<Longrightarrow> frac_secs m \<le> frac_secs n"
proof -
  assume a: "m \<le> n" "n < nanos_per_sec"
  show ?thesis
  proof (cases "m = 0")
    case True
    then show ?thesis using frac_secs_bounds(1) [OF a(2)] by (simp add: frac_secs_def)
  next
    case False
    then have "0 < (of_nat m / of_nat nanos_per_sec :: rat)" by (simp add: nanos_per_sec_def)
    then show ?thesis using False a by (auto simp: frac_secs_def intro!: round_pos_mono divide_right_mono)
  qed
qed

text \<open>The seconds a counter computes with, before the last rounding.\<close>

definition exact_secs :: "duration \<Rightarrow> rat" where
  "exact_secs d = of_nat (d div nanos_per_sec) + frac_secs (d mod nanos_per_sec)"

lemma nanos_mod_less [simp]: "d mod nanos_per_sec < nanos_per_sec"
  by (simp add: nanos_per_sec_def)

lemma as_secs_f64_exact:
  assumes "d div nanos_per_sec < 2 ^ 53"
  shows "as_secs_f64 d = f64_round (exact_secs d)"
  using f64_round_small_int [OF assms] frac_secs_bounds(3) [OF nanos_mod_less [of d]]
  by (simp add: as_secs_f64_def f64_add_def exact_secs_def)

lemma exact_secs_mono:
  assumes "d \<le> e"
  shows "exact_secs d \<le> exact_secs e" and "0 \<le> exact_secs d"
proof -
  note bd = frac_secs_bounds(1,2) [OF nanos_mod_less [of d]] and be = frac_secs_bounds(1,2) [OF nanos_mod_less [of e]]
  show "0 \<le> exact_secs d" using bd by (simp add: exact_secs_def)
  show "exact_secs d \<le> exact_secs e"
  proof (cases "d div nanos_per_sec = e div nanos_per_sec")
    case True
    then have "d mod nanos_per_sec \<le> e mod nanos_per_sec"
      using assms by (metis div_mult_mod_eq nat_add_left_cancel_le)
    with True show ?thesis using frac_secs_mono by (simp add: exact_secs_def)
  next
    case False
    with div_le_mono [OF assms, of nanos_per_sec] have "d div nanos_per_sec + 1 \<le> e div nanos_per_sec" by simp
    then have "of_nat (d div nanos_per_sec + 1) \<le> (of_nat (e div nanos_per_sec) :: rat)" by (simp only: of_nat_le_iff)
    with bd be show ?thesis by (simp add: exact_secs_def)
  qed
qed

definition secs :: "duration \<Rightarrow> rat" where
  "secs d = (if exact_secs d = 0 then 0 else round_pos (exact_secs d))"

lemma secs_mono: "d \<le> e \<Longrightarrow> secs d \<le> secs e \<and> 0 \<le> secs d"
  using exact_secs_mono [of d e] exact_secs_mono(2) [of e e] round_pos_mono [of "exact_secs d" "exact_secs e"]
    round_pos_nonneg [of "exact_secs d"] round_pos_nonneg [of "exact_secs e"]
  by (auto simp: secs_def)

lemma as_secs_f64_secs:
  assumes "d div nanos_per_sec < 2 ^ 53"
  shows "as_secs_f64 d = Fin (secs d)"
proof (cases "exact_secs d = 0")
  case True
  then show ?thesis using as_secs_f64_exact [OF assms] by (simp add: secs_def f64_round_def)
next
  case False
  then have pos: "0 < exact_secs d" using exact_secs_mono(2) [of d d] by simp
  have "of_nat (d div nanos_per_sec) < (of_nat (2 ^ 53) :: rat)" using assms by (simp only: of_nat_less_iff)
  then have "exact_secs d \<le> 2 powi 54"
    using frac_secs_bounds(2) [OF nanos_mod_less [of d]] by (simp add: exact_secs_def power_int_def)
  moreover have "f64_exponent (exact_secs d) \<le> 54"
  proof -
    have "2 powi ilog2 (exact_secs d) < (2::rat) powi 55"
      using ilog2_bounds(1) [OF pos] \<open>exact_secs d \<le> 2 powi 54\<close> by (simp add: power_int_def)
    from powi_two_less [OF this] show ?thesis by (simp add: f64_exponent_def)
  qed
  ultimately have "round_pos (exact_secs d) \<le> 2 powi 54" using pos by (intro round_pos_le_power)
  moreover have "(2::rat) powi 54 < 2 ^ 1024" by (simp add: power_int_def)
  ultimately have "\<not> 2 ^ 1024 \<le> round_pos (exact_secs d)" by linarith
  then show ?thesis using as_secs_f64_exact [OF assms] pos False by (simp add: secs_def f64_round_def)
qed

definition lap_of :: "duration \<Rightarrow> u64" where
  "lap_of d = f64_to_u64 (f64_floor (f64_round (secs d / 60)))"

lemma lap_of_mono: "d \<le> e \<Longrightarrow> lap_of d \<le> lap_of e"
  unfolding lap_of_def using secs_mono [of d e] by (intro to_u64_round_mono) simp_all

lemma default_lap_of:
  assumes "bucket_duration c = Fin 6" and "rc_buckets c = 10" and "(now - start c) div nanos_per_sec < 2 ^ 53"
  shows "snd (get_index_and_lap c now) = lap_of (now - start c)"
  using default_lap [OF assms(1,2)] as_secs_f64_secs [OF assms(3)]
  by (simp add: lap_of_def f64_div_f64_def f64_div_def)

lemma fold_rolling_frame:
  "bucket_duration (fold rolling_incr ts c) = bucket_duration c"
  "rc_buckets (fold rolling_incr ts c) = rc_buckets c" "start (fold rolling_incr ts c) = start c"
  by (induction ts arbitrary: c) (simp_all add: rolling_incr_frame)

lemma fold_rolling_incr: "fold rolling_incr ts c = incr_all (map (get_index_and_lap c) ts) c"
proof (induction ts arbitrary: c)
  case (Cons t ts)
  have g: "get_index_and_lap (rolling_incr t c) = get_index_and_lap c" by (rule ext) simp
  have "incr_all (map (get_index_and_lap c) (t # ts)) c = incr_all (map (get_index_and_lap c) ts) (rolling_incr t c)"
    by (cases "get_index_and_lap c t") (simp add: rolling_incr_def)
  with Cons [of "rolling_incr t c", unfolded g] show ?case by simp
qed simp

subsection \<open>Concurrent increments of one bucket\<close>

text \<open>
  Each thread runs \<open>incr\<close> once in lap \<open>L\<close>: it loads the bucket's lap, exchanges it if it is another
  one, clears the counter if the exchange succeeded, and adds one. A step is one atomic access.
\<close>

datatype incr_pc = Load | Exchange u64 | Clear | Add | Done

record bucket =
  b_lap :: u64
  b_count :: u32

inductive incr_step :: "u64 \<Rightarrow> bucket \<times> incr_pc list \<Rightarrow> bucket \<times> incr_pc list \<Rightarrow> bool" for L where
  load: "\<lbrakk>i < length ps; ps ! i = Load\<rbrakk> \<Longrightarrow>
    incr_step L (b, ps) (b, ps[i := (if b_lap b \<noteq> L then Exchange (b_lap b) else Add)])"
| exchange: "\<lbrakk>i < length ps; ps ! i = Exchange l; b_lap b = l\<rbrakk> \<Longrightarrow>
    incr_step L (b, ps) (b\<lparr>b_lap := L\<rparr>, ps[i := Clear])"
| exchange_fail: "\<lbrakk>i < length ps; ps ! i = Exchange l; b_lap b \<noteq> l\<rbrakk> \<Longrightarrow>
    incr_step L (b, ps) (b, ps[i := Add])"
| clear: "\<lbrakk>i < length ps; ps ! i = Clear\<rbrakk> \<Longrightarrow>
    incr_step L (b, ps) (b\<lparr>b_count := 0\<rparr>, ps[i := Add])"
| add: "\<lbrakk>i < length ps; ps ! i = Add\<rbrakk> \<Longrightarrow>
    incr_step L (b, ps) (b\<lparr>b_count := b_count b + 1\<rparr>, ps[i := Done])"


inductive_cases incr_stepE: "incr_step L s s'"

inductive incr_reachable :: "u64 \<Rightarrow> bucket \<Rightarrow> nat \<Rightarrow> bucket \<times> incr_pc list \<Rightarrow> bool" for L b n where
  init: "incr_reachable L b n (b, replicate n Load)"
| step: "\<lbrakk>incr_reachable L b n s; incr_step L s s'\<rbrakk> \<Longrightarrow> incr_reachable L b n s'"

text \<open>
  Until the first exchange nobody has counted; afterwards at most one thread is about to clear, no
  thread can exchange again, and once the counter is cleared it never exceeds the finished threads.
\<close>

definition incr_inv :: "u64 \<Rightarrow> bucket \<Rightarrow> nat \<Rightarrow> bucket \<times> incr_pc list \<Rightarrow> bool" where
  "incr_inv L b0 n s =
     (case s of (b, ps) \<Rightarrow>
        length ps = n
        \<and> (\<forall>l. Exchange l \<in> set ps \<longrightarrow> l = b_lap b0)
        \<and> (b_lap b = b_lap b0 \<longrightarrow> set ps \<subseteq> {Load, Exchange (b_lap b0)} \<and> b = b0)
        \<and> (b_lap b \<noteq> b_lap b0 \<longrightarrow> b_lap b = L
             \<and> count_list ps Clear \<le> 1
             \<and> (Clear \<notin> set ps \<longrightarrow> unat (b_count b) \<le> count_list ps Done)))"

lemma count_list_update:
  "i < length ps \<Longrightarrow> count_list (ps[i := x]) y + (if ps ! i = y then 1 else 0)
     = count_list ps y + (if x = y then 1 else 0)"
proof (induction ps arbitrary: i)
  case (Cons p ps)
  then show ?case
  proof (cases i)
    case (Suc j)
    then show ?thesis using Cons.IH [of j] Cons.prems by auto
  qed auto
qed simp

lemma count_list_zero: "count_list ps y = 0 \<longleftrightarrow> y \<notin> set ps"
  by (induction ps) auto

lemma unat_add_one_le: "unat (w + 1 :: u32) \<le> unat w + 1"
  by (metis Suc_eq_plus1 order_refl le_SucI unatSuc unsigned_0 add.commute le0)

lemma incr_inv_step:
  assumes inv: "incr_inv L b0 n s" and "incr_step L s s'" and ne: "b_lap b0 \<noteq> L"
  shows "incr_inv L b0 n s'"
  using assms(2)
proof (cases rule: incr_step.cases)
  case (load i ps b)
  let ?x = "if b_lap b \<noteq> L then Exchange (b_lap b) else Add"
  have c: "count_list (ps[i := ?x]) Done = count_list ps Done" "count_list (ps[i := ?x]) Clear = count_list ps Clear"
    using load count_list_update [of i ps ?x Done] count_list_update [of i ps ?x Clear] by (auto split: if_splits)
  then have "Clear \<in> set (ps[i := ?x]) \<longleftrightarrow> Clear \<in> set ps" by (metis count_list_zero)
  have sub: "set (ps[i := ?x]) \<subseteq> insert ?x (set ps)" by (rule set_update_subset_insert)
  show ?thesis
  proof (cases "b_lap b = b_lap b0")
    case True
    with ne have x: "?x = Exchange (b_lap b0)" by simp
    from inv True load have "set ps \<subseteq> {Load, Exchange (b_lap b0)}" "b = b0" "length ps = n"
      by (auto simp: incr_inv_def)
    with sub x True load show ?thesis by (auto simp: incr_inv_def)
  next
    case False
    with inv load have x: "?x = Add" and L: "b_lap b = L" by (auto simp: incr_inv_def)
    from sub x inv load have "\<forall>l. Exchange l \<in> set (ps[i := Add]) \<longrightarrow> l = b_lap b0" by (auto simp: incr_inv_def)
    with inv load False L x c \<open>Clear \<in> set (ps[i := ?x]) \<longleftrightarrow> Clear \<in> set ps\<close> show ?thesis
      by (simp add: incr_inv_def)
  qed
next
  case (exchange i ps l b)
  have "Exchange l \<in> set ps" using exchange by (metis nth_mem)
  with inv exchange have e: "l = b_lap b0" "set ps \<subseteq> {Load, Exchange (b_lap b0)}" "length ps = n"
    by (auto simp: incr_inv_def)
  then have "count_list ps Clear = 0" by (auto simp: count_list_zero)
  then have "count_list (ps[i := Clear]) Clear = 1"
    using exchange count_list_update [of i ps Clear Clear] by simp
  moreover have "Clear \<in> set (ps[i := Clear])" using exchange by (metis length_list_update nth_list_update_eq nth_mem)
  moreover have "\<forall>k. Exchange k \<in> set (ps[i := Clear]) \<longrightarrow> k = b_lap b0"
    using set_update_subset_insert [of ps i Clear] e by auto
  ultimately show ?thesis using exchange e ne by (simp add: incr_inv_def)
next
  case (exchange_fail i ps l b)
  have "Exchange l \<in> set ps" using exchange_fail by (metis nth_mem)
  with inv exchange_fail have l: "l = b_lap b0" by (auto simp: incr_inv_def)
  have c: "count_list (ps[i := Add]) Done = count_list ps Done" "count_list (ps[i := Add]) Clear = count_list ps Clear"
    using exchange_fail count_list_update [of i ps Add Done] count_list_update [of i ps Add Clear] by auto
  then have "Clear \<in> set (ps[i := Add]) \<longleftrightarrow> Clear \<in> set ps" by (metis count_list_zero)
  with inv exchange_fail l c set_update_subset_insert [of ps i Add] show ?thesis
    by (auto simp: incr_inv_def)
next
  case (clear i ps b)
  have mem: "Clear \<in> set ps" using clear by (metis nth_mem)
  with inv clear have "b_lap b \<noteq> b_lap b0" and k: "count_list ps Clear \<le> 1" by (auto simp: incr_inv_def)
  moreover have "count_list (ps[i := Add]) Clear \<le> 1"
    using k clear count_list_update [of i ps Add Clear] by simp
  moreover have "unat (b_count (b\<lparr>b_count := 0\<rparr>)) \<le> count_list (ps[i := Add]) Done" by simp
  ultimately show ?thesis
    using inv clear set_update_subset_insert [of ps i Add] by (auto simp: incr_inv_def)
next
  case (add i ps b)
  have mem: "Add \<in> set ps" using add by (metis nth_mem)
  with inv add have lap: "b_lap b \<noteq> b_lap b0" by (auto simp: incr_inv_def)
  have c: "count_list (ps[i := Done]) Done = Suc (count_list ps Done)"
    "count_list (ps[i := Done]) Clear = count_list ps Clear"
    using add count_list_update [of i ps Done Done] count_list_update [of i ps Done Clear] by auto
  then have "Clear \<in> set (ps[i := Done]) \<longleftrightarrow> Clear \<in> set ps" by (metis count_list_zero)
  moreover have "unat (b_count b + 1) \<le> Suc (unat (b_count b))" using unat_add_one_le [of "b_count b"] by simp
  ultimately show ?thesis
    using inv add lap c set_update_subset_insert [of ps i Done] by (auto simp: incr_inv_def)
qed

lemma incr_reachable_inv:
  assumes "incr_reachable L b0 n s" and "b_lap b0 \<noteq> L"
  shows "incr_inv L b0 n s"
  using assms(1)
proof induction
  case init
  then show ?case by (auto simp: incr_inv_def)
next
  case (step s s')
  then show ?case using incr_inv_step assms(2) by blast
qed

subsection \<open>Properties\<close>

text \<open>
  What the counter counts. Over any run of increments at non-decreasing times, as long as the counter is
  younger than 2 to the 53 seconds, the total of a default counter is the number of increments in the
  current lap of sixty seconds, modulo 2 to the 32: increments of an earlier lap count for nothing,
  however recent they are.
\<close>

theorem rolling_total_current_lap:
  assumes "rolling_default t0 = Some c" and "sorted (ts @ [now])" and "\<forall>t \<in> set ts. t0 \<le> t"
    and "(now - t0) div nanos_per_sec < 2 ^ 53"
  shows "rolling_total now (fold rolling_incr ts c) =
    of_nat (length (filter (\<lambda>t. lap_of (t - t0) = lap_of (now - t0)) ts))"
proof -
  note c = rolling_default_fields [OF assms(1)]
  have wf: "rc_wf c" using assms(1) by (auto simp: rolling_default_def intro: rolling_new_wf)
  have late: "t \<le> now" if "t \<in> set ts" for t using assms(2) that by (auto simp: sorted_append)
  have lap: "snd (get_index_and_lap c t) = lap_of (t - t0)" if "t \<in> set ts \<or> t = now" for t
  proof -
    have "(t - t0) div nanos_per_sec \<le> (now - t0) div nanos_per_sec"
      using that late by (auto intro!: div_le_mono diff_le_mono)
    with assms(4) show ?thesis using default_lap_of [OF c(2,1), of t] c(3) by simp
  qed
  let ?xs = "map (get_index_and_lap c) ts" and ?L = "lap_of (now - t0)"
  have snds: "map snd ?xs = map (\<lambda>t. lap_of (t - t0)) ts" using lap by simp
  have "sorted (map (\<lambda>t. lap_of (t - t0)) ts)"
    using assms(2) by (auto simp: sorted_append sorted_map intro: sorted_wrt_mono_rel lap_of_mono diff_le_mono)
  then have srt: "sorted (map snd ?xs)" unfolding snds .
  have "total_at ?L (incr_all ?xs c) = total_at ?L c + of_nat (length (filter (\<lambda>x. snd x = ?L) ?xs))"
  proof (rule incr_all_total [OF wf _ srt])
    show "\<forall>(i, l)\<in>set ?xs. i < length (laps c)"
      using get_index_bound [OF wf] wf by (auto simp: rc_wf_def case_prod_unfold)
    show "\<forall>l\<in>set (laps c). \<forall>x\<in>set ?xs. l \<le> snd x" using c(4) by simp
    show "\<forall>x\<in>set ?xs. snd x \<le> ?L" using lap late by (auto intro!: lap_of_mono diff_le_mono)
    show "\<forall>l\<in>set (laps c). l \<le> ?L" using c(4) by simp
  qed
  moreover have "total_at ?L c = 0"
    using c(4,5) by (subst total_at_sum) (auto simp: bucket_value_def intro!: sum.neutral)
  moreover have "length (filter (\<lambda>x. snd x = ?L) ?xs) = length (filter (\<lambda>t. lap_of (t - t0) = ?L) ts)"
    using lap by (simp add: filter_map o_def cong: filter_cong)
  moreover have "rolling_total now (fold rolling_incr ts c) = total_at ?L (incr_all ?xs c)"
    using default_lap_of [OF c(2,1), of now] assms(4) c(3)
    by (simp add: rolling_total_def fold_rolling_incr [symmetric] get_index_and_lap_def fold_rolling_frame)
  ultimately show ?thesis by simp
qed

theorem rolling_total_current_lap_witness:
  "map_option (\<lambda>c. rolling_total (60 * nanos_per_sec) (fold rolling_incr [30 * nanos_per_sec] c))
     (rolling_default 0) = Some 0"
proof -
  obtain c where c: "rolling_default 0 = Some c" by (simp add: rolling_default_def rolling_new_def)
  have s: "secs (n * nanos_per_sec) = of_nat n" if "n < 2 ^ 53" for n
    using as_secs_f64_whole [OF that] as_secs_f64_secs [of "n * nanos_per_sec"] that by (simp add: nanos_per_sec_def)
  have half: "f64_to_u64 (f64_floor (f64_round (1 / 2))) = 0"
  proof -
    have "round_pos (1 / 2) \<le> 2 powi (- 1)"
    proof (rule round_pos_le_power)
      have "(2::rat) powi ilog2 (1 / 2) < 2 powi 0" using ilog2_bounds(1) [of "1 / 2"] by simp
      from powi_two_less [OF this] show "f64_exponent (1 / 2) \<le> - 1" by (simp add: f64_exponent_def)
    qed (simp_all add: power_int_def)
    then have r: "0 \<le> round_pos (1 / 2)" "round_pos (1 / 2) \<le> 1 / 2"
      using round_pos_nonneg [of "1 / 2"] by (simp_all add: power_int_def)
    then have "floor (round_pos (1 / 2)) = 0" by (simp add: floor_eq_iff)
    moreover have "\<not> 2 ^ 1024 \<le> round_pos (1 / 2)" using r by simp
    ultimately show ?thesis by (simp add: f64_round_def f64_floor_def f64_to_u64_def)
  qed
  have one: "f64_to_u64 (f64_floor (f64_round 1)) = 1"
    using f64_round_small_int [of 1] by (simp add: f64_floor_def f64_to_u64_def)
  have "lap_of (30 * nanos_per_sec) = 0" "lap_of (60 * nanos_per_sec) = 1"
    using s [of 30] s [of 60] half one by (simp_all add: lap_of_def)
  moreover have "(60 * nanos_per_sec - 0) div nanos_per_sec < 2 ^ 53" by (simp add: nanos_per_sec_def)
  ultimately have "rolling_total (60 * nanos_per_sec) (fold rolling_incr [30 * nanos_per_sec] c) = 0"
    using rolling_total_current_lap [OF c, of "[30 * nanos_per_sec]" "60 * nanos_per_sec"] by simp
  with c show ?thesis by simp
qed

text \<open>
  Concurrent increments of a bucket whose lap is over: whatever the interleaving of their atomic
  accesses, when all \<open>n\<close> threads are done the bucket is in the new lap and counts at most \<open>n\<close>, so a new lap
  never inherits counts of an old one.
\<close>

theorem concurrent_incr_upper:
  assumes "incr_reachable L b0 n (b, replicate n Done)" and "b_lap b0 \<noteq> L" and "0 < n"
  shows "b_lap b = L \<and> unat (b_count b) \<le> n"
proof -
  have inv: "incr_inv L b0 n (b, replicate n Done)" by (rule incr_reachable_inv [OF assms(1,2)])
  then have "b_lap b \<noteq> b_lap b0" using assms(3) by (auto simp: incr_inv_def)
  moreover have "count_list (replicate n Done) Done = n" by (induction n) auto
  ultimately show ?thesis using inv by (auto simp: incr_inv_def)
qed

text \<open>
  Increments can be lost: there is an interleaving of two increments at the start of a lap after
  which both threads are done and the bucket counts one.
\<close>

theorem concurrent_incr_loses:
  assumes "b_lap b0 \<noteq> L"
  shows "incr_reachable L b0 2 (\<lparr>b_lap = L, b_count = 1\<rparr>, [Done, Done])"
proof -
  let ?l = "b_lap b0" and ?b = "b0\<lparr>b_lap := L\<rparr>"
  have s0: "incr_reachable L b0 2 (b0, [Load, Load])"
    using incr_reachable.init [of L b0 2] by (simp add: numeral_2_eq_2)
  have s1: "incr_reachable L b0 2 (b0, [Exchange ?l, Load])"
    using incr_reachable.step [OF s0 incr_step.load [where i = 0]] assms by simp
  have s2: "incr_reachable L b0 2 (?b, [Clear, Load])"
    using incr_reachable.step [OF s1 incr_step.exchange [where i = 0 and l = ?l]] by simp
  have s3: "incr_reachable L b0 2 (?b, [Clear, Add])"
    using incr_reachable.step [OF s2 incr_step.load [where i = 1]] by simp
  have s4: "incr_reachable L b0 2 (?b\<lparr>b_count := b_count b0 + 1\<rparr>, [Clear, Done])"
    using incr_reachable.step [OF s3 incr_step.add [where i = 1]] by simp
  have s5: "incr_reachable L b0 2 (?b\<lparr>b_count := 0\<rparr>, [Add, Done])"
    using incr_reachable.step [OF s4 incr_step.clear [where i = 0]] by simp
  have "incr_reachable L b0 2 (?b\<lparr>b_count := 1\<rparr>, [Done, Done])"
    using incr_reachable.step [OF s5 incr_step.add [where i = 0]] by simp
  moreover have "?b\<lparr>b_count := 1\<rparr> = \<lparr>b_lap = L, b_count = 1\<rparr>" by simp
  ultimately show ?thesis by simp
qed

theorem concurrent_incr_loses_witness:
  "incr_reachable 1 \<lparr>b_lap = 0, b_count = 7\<rparr> 2 (\<lparr>b_lap = 1, b_count = 1\<rparr>, [Done, Done])"
  by (rule concurrent_incr_loses) simp

theorem concurrent_incr_upper_witness:
  "\<exists>b. incr_reachable 1 \<lparr>b_lap = 0, b_count = 7\<rparr> 1 (b, replicate 1 Done) \<and> unat (b_count b) \<le> 1"
proof -
  let ?b = "\<lparr>b_lap = 0, b_count = 7\<rparr>"
  have s0: "incr_reachable 1 ?b 1 (?b, [Load])" using incr_reachable.init [of 1 ?b 1] by simp
  have s1: "incr_reachable 1 ?b 1 (?b, [Exchange 0])"
    using incr_reachable.step [OF s0 incr_step.load [where i = 0]] by simp
  have s2: "incr_reachable 1 ?b 1 (?b\<lparr>b_lap := 1\<rparr>, [Clear])"
    using incr_reachable.step [OF s1 incr_step.exchange [where i = 0 and l = 0]] by simp
  have s3: "incr_reachable 1 ?b 1 (?b\<lparr>b_lap := 1, b_count := 0\<rparr>, [Add])"
    using incr_reachable.step [OF s2 incr_step.clear [where i = 0]] by simp
  have s4: "incr_reachable 1 ?b 1 (?b\<lparr>b_lap := 1, b_count := 1\<rparr>, replicate 1 Done)"
    using incr_reachable.step [OF s3 incr_step.add [where i = 0]] by simp
  from concurrent_incr_upper [OF s4] s4 show ?thesis by auto
qed

end
