(* ===== verification/Health_Monitor.thy ===== *)
theory Health_Monitor
  imports Gateway_Prelude Float64 Providers Model_Id Endpoints Discovery Fallback_Policy Rolling_Counter
begin

text \<open>
  The health monitor (\<open>discover/monitor/health/provider.rs\<close>, \<open>health/broadcast.rs\<close>): for every router it
  compares the error ratio of each configured provider with the threshold, removes the keys of a
  provider that became unhealthy from the balancer and inserts them again when it recovered.

  The state of a monitor is its set of unhealthy keys, with what it has done so far: the changes sent on
  its channel, the decisions logged, the values of the health gauge and the broadcast events. A handler
  returns its result and the state it leaves, also when it fails. The four loops of the code differ
  in the keys they build; what they do for one key is shared here, as the code repeats it.
\<close>

datatype 'e runtime_error =
    RInit "'e InitError" | RInternal | RMetrics metrics_error

subsection \<open>Health of a provider\<close>

type_synonym endpoint_totals = "ApiEndpoint \<Rightarrow> (metrics_error, u32 \<times> u32) result"

text \<open>The two totals of an endpoint: requests and upstream errors.\<close>

definition registry_totals :: "endpoint_metrics \<Rightarrow> metrics_registry \<Rightarrow> duration \<Rightarrow> endpoint_totals" where
  "registry_totals discard reg now e =
     try_bind (health_metrics discard reg e) (\<lambda>m.
       Ok (rolling_total now (request_count m), rolling_total now (remote_internal_error_count m)))"

fun check_endpoints ::
  "HealthMonitorParams \<Rightarrow> endpoint_totals \<Rightarrow> ApiEndpoint list \<Rightarrow> bool \<Rightarrow> (metrics_error, bool) result" where
  "check_endpoints params totals [] all_healthy = Ok all_healthy"
| "check_endpoints params totals (e # es) all_healthy =
     try_bind (totals e) (\<lambda>(requests, errors).
       (case grace_period params of Requests min_requests \<Rightarrow>
          if requests < min_requests then check_endpoints params totals es all_healthy
          else check_endpoints params totals es
            (if f64_gt (f64_div (of_nat (unat errors)) (of_nat (unat requests))) (error_threshold params)
             then False else all_healthy)))"

definition check_health ::
  "HealthMonitorParams \<Rightarrow> endpoint_totals \<Rightarrow> InferenceProvider \<Rightarrow> (metrics_error, bool) result" where
  "check_health params totals provider =
     (if provider = Custom then Ok True
      else check_endpoints params totals (provider_endpoints provider) True)"

subsection \<open>Broadcast\<close>

datatype HealthStatus = Down | Up

record publisher =
  dedup_window :: duration
  last_published :: "string \<Rightarrow> duration option"
  events :: "(string \<times> HealthStatus \<times> duration) list"

text \<open>
  \<open>publish\<close> for one router: nothing within the window after the last event of the same provider. The
  event is handed to Redis, whose failure is only logged.
\<close>

definition publish :: "duration \<Rightarrow> string \<Rightarrow> HealthStatus \<Rightarrow> publisher \<Rightarrow> publisher" where
  "publish now provider_key status p =
     (if (case last_published p provider_key of None \<Rightarrow> False | Some t \<Rightarrow> now - t < dedup_window p) then p
      else p\<lparr>last_published := (last_published p)(provider_key \<mapsto> now),
             events := events p @ [(provider_key, status, now)]\<rparr>)"

subsection \<open>The monitor\<close>

record ('k, 'svc) monitor =
  unhealthy_keys :: "'k set"
  tx_open :: bool
  sent :: "('k, 'svc) change list"
  decisions :: decision_log
  gauge :: "(string \<times> nat) list"
  health_broadcaster :: "publisher option"

definition monitor_new :: "publisher option \<Rightarrow> ('k, 'svc) monitor" where
  "monitor_new pub =
     \<lparr>unhealthy_keys = {}, tx_open = True, sent = [], decisions = [], gauge = [],
      health_broadcaster = pub\<rparr>"

definition tx_send :: "('k, 'svc) change \<Rightarrow> ('k, 'svc) monitor \<Rightarrow> ('k, 'svc) monitor" where
  "tx_send c m = (if tx_open m then m\<lparr>sent := sent m @ [c]\<rparr> else m)"

definition decide :: "FallbackPolicyConfig \<Rightarrow> DecisionKind \<Rightarrow> InferenceProvider \<Rightarrow> ('k, 'svc) monitor \<Rightarrow> ('k, 'svc) monitor" where
  "decide policy kind p m =
     m\<lparr>decisions := log_decision policy kind (Some Health) (provider_as_ref p) (decisions m)\<rparr>"

definition broadcast :: "duration \<Rightarrow> InferenceProvider \<Rightarrow> HealthStatus \<Rightarrow> ('k, 'svc) monitor \<Rightarrow> ('k, 'svc) monitor" where
  "broadcast now p status m =
     m\<lparr>health_broadcaster := map_option (publish now (provider_as_ref p) status) (health_broadcaster m)\<rparr>"

definition record_health :: "InferenceProvider \<Rightarrow> bool \<Rightarrow> ('k, 'svc) monitor \<Rightarrow> ('k, 'svc) monitor" where
  "record_health p healthy m =
     m\<lparr>gauge := gauge m @ [(provider_as_ref p, if healthy then 1 else 0)]\<rparr>"

text \<open>What the code reads from the application state.\<close>

record ('d, 'e, 'svc) hm_env =
  policy :: FallbackPolicyConfig
  params :: HealthMonitorParams
  totals :: endpoint_totals
  dispatcher :: "('d, 'e, 'svc) make_dispatcher"
  now :: duration

definition mark_unhealthy :: "'k \<Rightarrow> ('k, 'svc) monitor \<Rightarrow> ('k, 'svc) monitor" where
  "mark_unhealthy k m = m\<lparr>unhealthy_keys := insert k (unhealthy_keys m)\<rparr>"

definition unmark_unhealthy :: "'k \<Rightarrow> ('k, 'svc) monitor \<Rightarrow> ('k, 'svc) monitor" where
  "unmark_unhealthy k m = m\<lparr>unhealthy_keys := unhealthy_keys m - {k}\<rparr>"

text \<open>The body of the loops over providers, for one key.\<close>

definition check_provider_key ::
  "('d, 'e, 'svc) hm_env \<Rightarrow> 'k \<Rightarrow> InferenceProvider \<Rightarrow> ('k, 'svc) monitor
     \<Rightarrow> ('e runtime_error, unit) result \<times> ('k, 'svc) monitor" where
  "check_provider_key env key provider m =
     (case check_health (params env) (totals env) provider of
        Inl e \<Rightarrow> (Err (RMetrics e), m)
      | Inr is_healthy \<Rightarrow>
          (let was_unhealthy = key \<in> unhealthy_keys m
           in if \<not> is_healthy \<and> \<not> was_unhealthy then
                (Ok (), record_health provider is_healthy (broadcast (now env) provider Down
                   (mark_unhealthy key (tx_send (Remove key) (decide (policy env) DRemove provider m)))))
              else if is_healthy \<and> was_unhealthy then
                (case dispatcher_new (dispatcher env) provider None of
                   Inl e \<Rightarrow> (Err (RInit e), unmark_unhealthy key m)
                 | Inr service \<Rightarrow>
                     (Ok (), record_health provider is_healthy (broadcast (now env) provider Up
                        (tx_send (Insert key service) (decide (policy env) DRestore provider (unmark_unhealthy key m))))))
              else (Ok (), record_health provider is_healthy m)))"

fun check_weighted_targets where
  "check_weighted_targets D env ep [] m = (Ok (), m)"
| "check_weighted_targets D env ep (t # ts) m =
     (case dec_to_f64 D (wp_weight t) of
        None \<Rightarrow> (Err (RInit (InvalidWeight (wp_provider t))), m)
      | Some w \<Rightarrow>
          (case check_provider_key env
             \<lparr>pwk_provider = wp_provider t, pwk_endpoint_type = ep, pwk_weight = weight_from_f64 w\<rparr> (wp_provider t) m of
             (Inl e, m') \<Rightarrow> (Err e, m')
           | (Inr _, m') \<Rightarrow> check_weighted_targets D env ep ts m'))"

fun check_provider_weighted_monitor ::
  "'w decimal_ops \<Rightarrow> ('d, 'e, 'svc) hm_env \<Rightarrow> ('d, 'w) BalanceConfig \<Rightarrow> (ProviderWeightedKey, 'svc) monitor
     \<Rightarrow> ('e runtime_error, unit) result \<times> (ProviderWeightedKey, 'svc) monitor" where
  "check_provider_weighted_monitor D env [] m = (Ok (), m)"
| "check_provider_weighted_monitor D env ((ep, b) # cfg) m =
     (case b of
        ProviderWeighted ps \<Rightarrow>
          (case check_weighted_targets D env ep ps m of
             (Inl e, m') \<Rightarrow> (Err e, m')
           | (Inr _, m') \<Rightarrow> check_provider_weighted_monitor D env cfg m')
      | _ \<Rightarrow> (Err RInternal, m))"

fun check_latency_targets where
  "check_latency_targets env ep [] m = (Ok (), m)"
| "check_latency_targets env ep (p # ps) m =
     (case check_provider_key env \<lparr>pk_provider = p, pk_endpoint_type = ep\<rparr> p m of
        (Inl e, m') \<Rightarrow> (Err e, m')
      | (Inr _, m') \<Rightarrow> check_latency_targets env ep ps m')"

fun check_provider_latency_monitor ::
  "('d, 'e, 'svc) hm_env \<Rightarrow> ('d, 'w) BalanceConfig \<Rightarrow> (ProviderEndpointKey, 'svc) monitor
     \<Rightarrow> ('e runtime_error, unit) result \<times> (ProviderEndpointKey, 'svc) monitor" where
  "check_provider_latency_monitor env [] m = (Ok (), m)"
| "check_provider_latency_monitor env ((ep, b) # cfg) m =
     (case b of
        BalancedLatency ps \<Rightarrow>
          (case check_latency_targets env ep ps m of
             (Inl e, m') \<Rightarrow> (Err e, m')
           | (Inr _, m') \<Rightarrow> check_provider_latency_monitor env cfg m')
      | _ \<Rightarrow> (Err RInternal, m))"

subsection \<open>Monitors over models\<close>

text \<open>
  The loops over models mark and remove every model of an unhealthy provider at once. The removals
  are sent by concurrent tasks, whose order does not matter for the pool; they are listed in the order they
  were spawned. On recovery only the key at hand is unmarked, and every model of the provider is
  inserted again. \<open>keys\<close> are the keys of the provider's models, \<open>None\<close> where the weight does not convert.
\<close>

fun mark_all :: "'k option list \<Rightarrow> ('k, 'svc) monitor \<Rightarrow> 'k list option \<times> ('k, 'svc) monitor" where
  "mark_all [] m = (Some [], m)"
| "mark_all (None # ks) m = (None, m)"
| "mark_all (Some k # ks) m =
     (let (r, m') = mark_all ks (mark_unhealthy k m) in (map_option ((#) k) r, m'))"

fun reinsert_all ::
  "('d, 'e, 'svc) hm_env \<Rightarrow> InferenceProvider \<Rightarrow> 'k option list \<Rightarrow> ('k, 'svc) monitor
     \<Rightarrow> ('e runtime_error, unit) result \<times> ('k, 'svc) monitor" where
  "reinsert_all env provider [] m = (Ok (), m)"
| "reinsert_all env provider (None # ks) m = (Err (RInit (InvalidWeight provider)), m)"
| "reinsert_all env provider (Some k # ks) m =
     (case dispatcher_new (dispatcher env) provider None of
        Inl e \<Rightarrow> (Err (RInit e), m)
      | Inr service \<Rightarrow> reinsert_all env provider ks (tx_send (Insert k service) m))"

definition check_model_key ::
  "('d, 'e, 'svc) hm_env \<Rightarrow> 'k \<Rightarrow> InferenceProvider \<Rightarrow> 'k option list \<Rightarrow> ('k, 'svc) monitor
     \<Rightarrow> ('e runtime_error, unit) result \<times> ('k, 'svc) monitor" where
  "check_model_key env key provider keys m =
     (case check_health (params env) (totals env) provider of
        Inl e \<Rightarrow> (Err (RMetrics e), m)
      | Inr is_healthy \<Rightarrow>
          (let was_unhealthy = key \<in> unhealthy_keys m
           in if \<not> is_healthy \<and> \<not> was_unhealthy then
                (case mark_all keys (decide (policy env) DRemove provider m) of
                   (None, m1) \<Rightarrow> (Err (RInit (InvalidWeight provider)), m1)
                 | (Some ks, m1) \<Rightarrow>
                     (Ok (), record_health provider is_healthy (broadcast (now env) provider Down
                        (fold (\<lambda>k. tx_send (Remove k)) ks m1))))
              else if is_healthy \<and> was_unhealthy then
                (case reinsert_all env provider keys (unmark_unhealthy key (decide (policy env) DRestore provider m)) of
                   (Inl e, m1) \<Rightarrow> (Err e, m1)
                 | (Inr _, m1) \<Rightarrow>
                     (Ok (), record_health provider is_healthy (broadcast (now env) provider Up m1)))
              else (Ok (), record_health provider is_healthy m)))"

definition model_keys_of ::
  "EndpointType \<Rightarrow> 'd ModelId list \<Rightarrow> InferenceProvider \<Rightarrow> 'd ModelKey option list" where
  "model_keys_of ep ms p =
     map (\<lambda>x. Some \<lparr>mk_model_id = x, mk_endpoint_type = ep\<rparr>) (filter (\<lambda>x. inference_provider x = Some p) ms)"

fun check_model_targets where
  "check_model_targets cal env ep all [] m = (Ok (), m)"
| "check_model_targets cal env ep all (x # xs) m =
     (case inference_provider x of
        None \<Rightarrow> (Err (RInit (ModelIdNotRecognized (model_id_display cal x))), m)
      | Some p \<Rightarrow>
          (case check_model_key env \<lparr>mk_model_id = x, mk_endpoint_type = ep\<rparr> p (model_keys_of ep all p) m of
             (Inl e, m') \<Rightarrow> (Err e, m')
           | (Inr _, m') \<Rightarrow> check_model_targets cal env ep all xs m'))"

fun check_model_latency_monitor ::
  "'d calendar \<Rightarrow> ('d, 'e, 'svc) hm_env \<Rightarrow> ('d, 'w) BalanceConfig \<Rightarrow> ('d ModelKey, 'svc) monitor
     \<Rightarrow> ('e runtime_error, unit) result \<times> ('d ModelKey, 'svc) monitor" where
  "check_model_latency_monitor cal env [] m = (Ok (), m)"
| "check_model_latency_monitor cal env ((ep, b) # cfg) m =
     (case b of
        ModelLatency ms \<Rightarrow>
          (case check_model_targets cal env ep ms ms m of
             (Inl e, m') \<Rightarrow> (Err e, m')
           | (Inr _, m') \<Rightarrow> check_model_latency_monitor cal env cfg m')
      | _ \<Rightarrow> (Err RInternal, m))"

definition model_weighted_key ::
  "'w decimal_ops \<Rightarrow> EndpointType \<Rightarrow> ('d, 'w) WeightedModel \<Rightarrow> 'd ModelWeightedKey option" where
  "model_weighted_key D ep t =
     map_option (\<lambda>w. \<lparr>mwk_model_id = wm_model t, mwk_endpoint_type = ep, mwk_weight = weight_from_f64 w\<rparr>)
       (dec_to_f64 D (wm_weight t))"

fun check_weighted_model_targets where
  "check_weighted_model_targets cal D env ep all [] m = (Ok (), m)"
| "check_weighted_model_targets cal D env ep all (t # ts) m =
     (case inference_provider (wm_model t) of
        None \<Rightarrow> (Err (RInit (ModelIdNotRecognized (model_id_display cal (wm_model t)))), m)
      | Some p \<Rightarrow>
          (case model_weighted_key D ep t of
             None \<Rightarrow> (Err (RInit (InvalidWeight p)), m)
           | Some key \<Rightarrow>
               (case check_model_key env key p
                  (map (model_weighted_key D ep) (filter (\<lambda>u. inference_provider (wm_model u) = Some p) all)) m of
                  (Inl e, m') \<Rightarrow> (Err e, m')
                | (Inr _, m') \<Rightarrow> check_weighted_model_targets cal D env ep all ts m')))"

fun check_model_weighted_monitor ::
  "'d calendar \<Rightarrow> 'w decimal_ops \<Rightarrow> ('d, 'e, 'svc) hm_env \<Rightarrow> ('d, 'w) BalanceConfig \<Rightarrow> ('d ModelWeightedKey, 'svc) monitor
     \<Rightarrow> ('e runtime_error, unit) result \<times> ('d ModelWeightedKey, 'svc) monitor" where
  "check_model_weighted_monitor cal D env [] m = (Ok (), m)"
| "check_model_weighted_monitor cal D env ((ep, b) # cfg) m =
     (case b of
        ModelWeighted ms \<Rightarrow>
          (case check_weighted_model_targets cal D env ep ms ms m of
             (Inl e, m') \<Rightarrow> (Err e, m')
           | (Inr _, m') \<Rightarrow> check_model_weighted_monitor cal D env cfg m')
      | _ \<Rightarrow> (Err RInternal, m))"

text \<open>
  \<open>HealthMonitor::run_forever\<close> for one router, over the environments its ticks see: the first error ends
  it, which shuts the gateway down.
\<close>

fun run_ticks ::
  "('env \<Rightarrow> 'm \<Rightarrow> ('e, unit) result \<times> 'm) \<Rightarrow> 'env list \<Rightarrow> 'm \<Rightarrow> ('e, unit) result \<times> 'm" where
  "run_ticks check [] m = (Ok (), m)"
| "run_ticks check (env # envs) m =
     (case check env m of (Inl e, m') \<Rightarrow> (Err e, m') | (Inr _, m') \<Rightarrow> run_ticks check envs m')"

subsection \<open>Lemmas on health\<close>

definition endpoint_unhealthy :: "HealthMonitorParams \<Rightarrow> u32 \<times> u32 \<Rightarrow> bool" where
  "endpoint_unhealthy pr re =
     (case grace_period pr of Requests n \<Rightarrow> \<not> fst re < n
        \<and> f64_gt (f64_div (of_nat (unat (snd re))) (of_nat (unat (fst re)))) (error_threshold pr))"

lemma check_endpoints_step:
  "tot e = Inr re \<Longrightarrow> check_endpoints pr tot (e # es) acc =
     check_endpoints pr tot es (acc \<and> \<not> endpoint_unhealthy pr re)"
  by (cases re; cases "grace_period pr") (auto simp: endpoint_unhealthy_def)

lemma check_endpoints_ok:
  "check_endpoints pr tot es acc = Inr b \<longleftrightarrow>
     (\<forall>e \<in> set es. is_ok (tot e))
     \<and> b = (acc \<and> (\<forall>e \<in> set es. \<forall>re. tot e = Inr re \<longrightarrow> \<not> endpoint_unhealthy pr re))"
proof (induction es arbitrary: acc)
  case (Cons e es)
  show ?case
  proof (cases "tot e")
    case (Inr re)
    then show ?thesis
      unfolding check_endpoints_step [of tot, OF Inr] Cons.IH by (cases re) auto
  qed simp
qed auto

lemma endpoint_unhealthy_mono:
  assumes "endpoint_unhealthy pr (req, err)" and "err \<le> err'"
  shows "endpoint_unhealthy pr (req, err')"
proof -
  obtain n where n: "grace_period pr = Requests n" by (cases "grace_period pr")
  have le: "(of_nat (unat err) :: rat) \<le> of_nat (unat err')"
    using assms(2) by (simp only: word_le_nat_alt of_nat_le_iff)
  have "\<not> req < n \<and> f64_gt (f64_div (of_nat (unat err)) (of_nat (unat req))) (error_threshold pr)"
    using assms(1) unfolding endpoint_unhealthy_def n GracePeriod.case fst_conv snd_conv .
  then have "\<not> req < n \<and> f64_gt (f64_div (of_nat (unat err')) (of_nat (unat req))) (error_threshold pr)"
    using f64_div_gt_mono [OF of_nat_0_le_iff le of_nat_0_le_iff] by blast
  then show ?thesis unfolding endpoint_unhealthy_def n GracePeriod.case fst_conv snd_conv .
qed

subsection \<open>Lemmas on the monitor\<close>

lemmas monitor_simps =
  tx_send_def decide_def broadcast_def record_health_def mark_unhealthy_def unmark_unhealthy_def

text \<open>The pool as the monitor's own events leave it, every key being there at the start.\<close>

definition pool_view :: "('k, 'svc) monitor \<Rightarrow> bool" where
  "pool_view m \<longleftrightarrow> tx_open m \<and> (\<forall>k. last_change k (sent m) True \<longleftrightarrow> k \<notin> unhealthy_keys m)"

lemma pool_view_new: "pool_view (monitor_new pub)"
  by (simp add: pool_view_def monitor_new_def last_change_def)

lemma unhealthy_keys_simps [simp]:
  "unhealthy_keys (tx_send c m) = unhealthy_keys m" "unhealthy_keys (decide pol d p m) = unhealthy_keys m"
  "unhealthy_keys (broadcast t p st m) = unhealthy_keys m" "unhealthy_keys (record_health p h m) = unhealthy_keys m"
  "unhealthy_keys (mark_unhealthy k m) = insert k (unhealthy_keys m)"
  "unhealthy_keys (unmark_unhealthy k m) = unhealthy_keys m - {k}"
  by (simp_all add: monitor_simps)

lemma sent_simps [simp]:
  "sent (decide pol d p m) = sent m" "sent (broadcast t p st m) = sent m" "sent (record_health p h m) = sent m"
  "sent (mark_unhealthy k m) = sent m" "sent (unmark_unhealthy k m) = sent m"
  "tx_open m \<Longrightarrow> sent (tx_send c m) = sent m @ [c]"
  by (simp_all add: monitor_simps)

lemma tx_open_simps [simp]:
  "tx_open (tx_send c m) = tx_open m" "tx_open (decide pol d p m) = tx_open m"
  "tx_open (broadcast t p st m) = tx_open m" "tx_open (record_health p h m) = tx_open m"
  "tx_open (mark_unhealthy k m) = tx_open m" "tx_open (unmark_unhealthy k m) = tx_open m"
  by (simp_all add: monitor_simps)

text \<open>What one key does to the monitor, on every path that succeeds.\<close>

lemma check_provider_key_cases:
  assumes "check_provider_key env key p m = (Inr u, m')"
  obtains h where "check_health (params env) (totals env) p = Inr h" "h \<noteq> (key \<in> unhealthy_keys m)"
      "m' = record_health p h m"
    | "check_health (params env) (totals env) p = Inr False" "key \<notin> unhealthy_keys m"
      "m' = record_health p False (broadcast (now env) p Down
          (mark_unhealthy key (tx_send (Remove key) (decide (policy env) DRemove p m))))"
    | service where "check_health (params env) (totals env) p = Inr True" "key \<in> unhealthy_keys m"
      "m' = record_health p True (broadcast (now env) p Up
          (tx_send (Insert key service) (decide (policy env) DRestore p (unmark_unhealthy key m))))"
proof -
  obtain h where h: "check_health (params env) (totals env) p = Inr h"
    using assms by (cases "check_health (params env) (totals env) p") (simp_all add: check_provider_key_def)
  note c = assms [unfolded check_provider_key_def h sum.case Let_def]
  show ?thesis
  proof (cases "h = (key \<in> unhealthy_keys m)")
    case False
    with c have "m' = record_health p h m" by auto
    with False h show ?thesis by (intro that(1)) simp_all
  next
    case True
    show ?thesis
    proof (cases h)
      case False
      with True c h show ?thesis by (intro that(2)) simp_all
    next
      case up: True
      with True c obtain service where "m' = record_health p True (broadcast (now env) p Up
          (tx_send (Insert key service) (decide (policy env) DRestore p (unmark_unhealthy key m))))"
        by (auto split: sum.splits)
      with True up h show ?thesis by (intro that(3)) simp_all
    qed
  qed
qed

definition health_key_step :: "('k, 'svc) monitor \<Rightarrow> ('k, 'svc) monitor \<Rightarrow> bool" where
  "health_key_step m m' \<longleftrightarrow> tx_open m \<and>
     (\<exists>(env :: (nat, unit, 'svc) hm_env) key p u. check_provider_key env key p m = (Inr u, m'))"

lemma check_provider_key_ledger:
  assumes "tx_open m" and "check_provider_key env key p m = (Inr u, m')"
  shows "ledger_move (unhealthy_keys m, sent m) (unhealthy_keys m', sent m')"
  using assms(2)
proof (cases rule: check_provider_key_cases)
  case (2)
  then show ?thesis using assms(1) by (auto simp: ledger_move_def)
next
  case (3 service)
  then show ?thesis using assms(1) by (auto simp: ledger_move_def)
qed (simp add: ledger_move_def)

interpretation health_ledger: pool_ledger unhealthy_keys sent health_key_step
  by unfold_locales (auto simp: health_key_step_def intro: check_provider_key_ledger)

lemma check_provider_key_ok:
  assumes "check_provider_key env key p m = (Inr u, m')"
  shows "\<exists>h. check_health (params env) (totals env) p = Inr h
      \<and> unhealthy_keys m' = (if h then unhealthy_keys m - {key} else insert key (unhealthy_keys m))"
    and "pool_view m \<Longrightarrow> pool_view m'"
proof -
  show "\<exists>h. check_health (params env) (totals env) p = Inr h
      \<and> unhealthy_keys m' = (if h then unhealthy_keys m - {key} else insert key (unhealthy_keys m))"
    using assms by (cases rule: check_provider_key_cases) auto
  have "tx_open m' = tx_open m" using assms by (cases rule: check_provider_key_cases) auto
  then show "pool_view m \<Longrightarrow> pool_view m'"
    using ledger_move_consistent [OF check_provider_key_ledger [OF _ assms]]
    by (auto simp: pool_view_def ledger_consistent_def)
qed

text \<open>Both loops over providers are this loop over keys with their provider.\<close>

fun check_keys where
  "check_keys env [] m = (Ok (), m)"
| "check_keys env ((k, p) # kps) m =
     (case check_provider_key env k p m of
        (Inl e, m') \<Rightarrow> (Err e, m')
      | (Inr _, m') \<Rightarrow> check_keys env kps m')"

lemma check_keys_append:
  "check_keys env (xs @ ys) m =
     (case check_keys env xs m of (Inl e, m') \<Rightarrow> (Inl e, m') | (Inr _, m') \<Rightarrow> check_keys env ys m')"
  by (induction env xs m rule: check_keys.induct) (auto split: prod.splits sum.splits)

lemma check_keys_ok:
  assumes "check_keys env kps m = (Inr u, m')"
    and "\<forall>(k, p) \<in> set kps. \<forall>(k', p') \<in> set kps. k = k' \<longrightarrow> p = p'"
  shows "pool_view m \<Longrightarrow> pool_view m'"
    and "\<forall>(k, p) \<in> set kps. k \<in> unhealthy_keys m' \<longleftrightarrow> check_health (params env) (totals env) p = Inr False"
    and "\<forall>k. k \<notin> fst ` set kps \<longrightarrow> (k \<in> unhealthy_keys m' \<longleftrightarrow> k \<in> unhealthy_keys m)"
proof -
  have "(pool_view m \<longrightarrow> pool_view m')
    \<and> (\<forall>(k, p) \<in> set kps. k \<in> unhealthy_keys m' \<longleftrightarrow> check_health (params env) (totals env) p = Inr False)
    \<and> (\<forall>k. k \<notin> fst ` set kps \<longrightarrow> (k \<in> unhealthy_keys m' \<longleftrightarrow> k \<in> unhealthy_keys m))"
    using assms
  proof (induction kps arbitrary: m)
    case (Cons x xs)
    obtain k p where x: "x = (k, p)" by (cases x)
    obtain m1 where c1: "check_provider_key env k p m = (Inr (), m1)" and c2: "check_keys env xs m1 = (Inr u, m')"
      using Cons.prems(1) x by (auto split: prod.splits sum.splits)
    have fn: "\<forall>(k, p) \<in> set xs. \<forall>(k', p') \<in> set xs. k = k' \<longrightarrow> p = p'" using Cons.prems(2) by auto
    obtain h where h: "check_health (params env) (totals env) p = Inr h"
      "unhealthy_keys m1 = (if h then unhealthy_keys m - {k} else insert k (unhealthy_keys m))"
      using check_provider_key_ok(1) [OF c1] by blast
    note ih = Cons.IH [OF c2 fn]
    have "k \<in> unhealthy_keys m' \<longleftrightarrow> check_health (params env) (totals env) p = Inr False"
    proof (cases "k \<in> fst ` set xs")
      case True
      then obtain p' where p': "(k, p') \<in> set xs" by auto
      with Cons.prems(2) x have "p' = p" by auto
      with ih p' show ?thesis by auto
    next
      case False
      with ih h show ?thesis by auto
    qed
    moreover have "\<forall>j. j \<notin> fst ` set (x # xs) \<longrightarrow> (j \<in> unhealthy_keys m' \<longleftrightarrow> j \<in> unhealthy_keys m)"
      using ih h x by auto
    ultimately show ?case using ih x check_provider_key_ok(2) [OF c1] by auto
  qed auto
  then show "pool_view m \<Longrightarrow> pool_view m'"
    and "\<forall>(k, p) \<in> set kps. k \<in> unhealthy_keys m' \<longleftrightarrow> check_health (params env) (totals env) p = Inr False"
    and "\<forall>k. k \<notin> fst ` set kps \<longrightarrow> (k \<in> unhealthy_keys m' \<longleftrightarrow> k \<in> unhealthy_keys m)" by blast+
qed

text \<open>The keys a configuration yields, with their providers.\<close>

definition weighted_keys ::
  "'w decimal_ops \<Rightarrow> (EndpointType \<times> 'w WeightedProvider) list \<Rightarrow> (ProviderWeightedKey \<times> InferenceProvider) list" where
  "weighted_keys D ts =
     map (\<lambda>(ep, t). (\<lparr>pwk_provider = wp_provider t, pwk_endpoint_type = ep,
         pwk_weight = weight_from_f64 (the (dec_to_f64 D (wp_weight t)))\<rparr>, wp_provider t)) ts"

lemma weighted_targets_keys:
  "check_weighted_targets D env ep ts m = (Inr u, m') \<Longrightarrow>
     check_keys env (weighted_keys D (map (Pair ep) ts)) m = (Inr u, m')
     \<and> (\<forall>t \<in> set ts. dec_to_f64 D (wp_weight t) \<noteq> None)"
proof (induction ts arbitrary: m)
  case (Cons t ts)
  then show ?case
    by (auto simp: weighted_keys_def split: option.splits prod.splits sum.splits)
qed (simp add: weighted_keys_def)

lemma weighted_monitor_keys:
  "check_provider_weighted_monitor D env cfg m = (Inr u, m') \<Longrightarrow>
     check_keys env (weighted_keys D (provider_targets cfg)) m = (Inr u, m')
     \<and> (\<forall>(ep, t) \<in> set (provider_targets cfg). dec_to_f64 D (wp_weight t) \<noteq> None)"
proof (induction cfg arbitrary: m)
  case (Cons x cfg)
  obtain ep b where x: "x = (ep, b)" by (cases x)
  from Cons.prems x obtain ps m1 where b: "b = ProviderWeighted ps"
    and t: "check_weighted_targets D env ep ps m = (Inr (), m1)"
    and r: "check_provider_weighted_monitor D env cfg m1 = (Inr u, m')"
    by (cases b) (auto split: prod.splits sum.splits)
  have "weighted_keys D (provider_targets (x # cfg)) =
      weighted_keys D (map (Pair ep) ps) @ weighted_keys D (provider_targets cfg)"
    using x b by (simp add: weighted_keys_def provider_targets_def)
  moreover have "set (provider_targets (x # cfg)) = Pair ep ` set ps \<union> set (provider_targets cfg)"
    using x b by (simp add: provider_targets_def)
  ultimately show ?case
    using weighted_targets_keys [OF t] Cons.IH [OF r] by (auto simp: check_keys_append)
qed (simp add: weighted_keys_def provider_targets_def)

lemma weighted_keys_functional:
  "\<forall>(k, p) \<in> set (weighted_keys D ts). \<forall>(k', p') \<in> set (weighted_keys D ts). k = k' \<longrightarrow> p = p'"
  by (auto simp: weighted_keys_def)

definition latency_targets :: "('d, 'w) BalanceConfig \<Rightarrow> (EndpointType \<times> InferenceProvider) list" where
  "latency_targets cfg =
     concat (map (\<lambda>(ep, b). case b of BalancedLatency ps \<Rightarrow> map (Pair ep) ps | _ \<Rightarrow> []) cfg)"

definition latency_keys :: "(EndpointType \<times> InferenceProvider) list \<Rightarrow> (ProviderEndpointKey \<times> InferenceProvider) list" where
  "latency_keys ts = map (\<lambda>(ep, p). (\<lparr>pk_provider = p, pk_endpoint_type = ep\<rparr>, p)) ts"

lemma latency_targets_keys:
  "check_latency_targets env ep ps m = check_keys env (latency_keys (map (Pair ep) ps)) m"
  by (induction ps arbitrary: m) (auto simp: latency_keys_def split: prod.splits sum.splits)

lemma latency_monitor_keys:
  "check_provider_latency_monitor env cfg m = (Inr u, m') \<Longrightarrow>
     check_keys env (latency_keys (latency_targets cfg)) m = (Inr u, m')"
proof (induction cfg arbitrary: m)
  case (Cons x cfg)
  obtain ep b where x: "x = (ep, b)" by (cases x)
  from Cons.prems x obtain ps m1 where b: "b = BalancedLatency ps"
    and t: "check_latency_targets env ep ps m = (Inr (), m1)"
    and r: "check_provider_latency_monitor env cfg m1 = (Inr u, m')"
    by (cases b) (auto split: prod.splits sum.splits)
  have "latency_keys (latency_targets (x # cfg)) =
      latency_keys (map (Pair ep) ps) @ latency_keys (latency_targets cfg)"
    using x b by (simp add: latency_keys_def latency_targets_def)
  then show ?case using t Cons.IH [OF r] by (simp add: check_keys_append latency_targets_keys)
qed (simp add: latency_keys_def latency_targets_def)

lemma latency_keys_functional:
  "\<forall>(k, p) \<in> set (latency_keys ts). \<forall>(k', p') \<in> set (latency_keys ts). k = k' \<longrightarrow> p = p'"
  by (auto simp: latency_keys_def)

lemma run_ticks_snoc:
  "run_ticks check (envs @ [env]) m =
     (case run_ticks check envs m of (Inl e, m') \<Rightarrow> (Inl e, m') | (Inr _, m') \<Rightarrow> check env m')"
  by (induction envs arbitrary: m) (auto split: prod.splits sum.splits)

text \<open>A loop over keys keeps the view of the pool, over any number of ticks.\<close>

lemma run_ticks_pool_view:
  assumes "\<And>env m m'. check env m = (Inr (), m') \<Longrightarrow> check_keys env kps m = (Inr (), m')"
    and "\<forall>(k, p) \<in> set kps. \<forall>(k', p') \<in> set kps. k = k' \<longrightarrow> p = p'"
    and "run_ticks check envs m = (Inr (), m')" and "pool_view m"
  shows "pool_view m'"
  using assms(3,4)
proof (induction envs arbitrary: m)
  case (Cons env envs)
  then obtain m1 where c: "check env m = (Inr (), m1)" and r: "run_ticks check envs m1 = (Inr (), m')"
    by (auto split: prod.splits sum.splits)
  from check_keys_ok(1) [OF assms(1) [OF c] assms(2) Cons.prems(2)] Cons.IH [OF r] show ?case by blast
qed simp

lemma run_ticks_pool:
  assumes "\<And>env m m'. check env m = (Inr (), m') \<Longrightarrow> check_keys env kps m = (Inr (), m')"
    and "\<forall>(k, p) \<in> set kps. \<forall>(k', p') \<in> set kps. k = k' \<longrightarrow> p = p'"
    and "run_ticks check (envs @ [env]) (monitor_new pub) = (Inr (), m')" and "(k, p) \<in> set kps"
  shows "last_change k (sent m') True \<longleftrightarrow> check_health (params env) (totals env) p \<noteq> Inr False"
proof -
  obtain m where r: "run_ticks check envs (monitor_new pub) = (Inr (), m)" and c: "check env m = (Inr (), m')"
    using assms(3) by (auto simp: run_ticks_snoc split: prod.splits sum.splits)
  have v: "pool_view m" by (rule run_ticks_pool_view [OF assms(1,2) r pool_view_new])
  note ok = check_keys_ok [OF assms(1) [OF c] assms(2)]
  from ok(1) [OF v] have "last_change k (sent m') True \<longleftrightarrow> k \<notin> unhealthy_keys m'" by (simp add: pool_view_def)
  with ok(2) assms(4) show ?thesis by auto
qed

lemma check_keys_health_ok:
  "check_keys env kps m = (Inr (), m') \<Longrightarrow> (k, p) \<in> set kps \<Longrightarrow> is_ok (check_health (params env) (totals env) p)"
proof (induction kps arbitrary: m)
  case (Cons x xs)
  obtain k' p' where x: "x = (k', p')" by (cases x)
  with Cons.prems obtain m1 where c: "check_provider_key env k' p' m = (Inr (), m1)"
    and r: "check_keys env xs m1 = (Inr (), m')" by (auto split: prod.splits sum.splits)
  from check_provider_key_ok(1) [OF c] Cons.IH [OF r] Cons.prems(2) x show ?case by auto
qed simp

subsection \<open>Lemmas on models\<close>

lemma reinsert_all_ok:
  assumes "dispatcher env p None = Inr s" and "tx_open m"
  shows "reinsert_all env p (map Some ks) m = (Inr (), m\<lparr>sent := sent m @ map (\<lambda>k. Insert k s) ks\<rparr>)"
  using assms(2)
proof (induction ks arbitrary: m)
  case (Cons k ks)
  have "dispatcher_new (dispatcher env) p None = Inr s" using assms(1) by (simp add: dispatcher_new_def)
  with Cons.IH [of "tx_send (Insert k s) m"] Cons.prems show ?case by (simp add: tx_send_def)
qed simp

lemma check_model_key_recover:
  assumes "check_health (params env) (totals env) p = Inr True" and "key \<in> unhealthy_keys m"
    and "dispatcher env p None = Inr s" and "tx_open m"
  shows "\<exists>m'. check_model_key env key p (map Some ks) m = (Inr (), m') \<and> tx_open m'
    \<and> unhealthy_keys m' = unhealthy_keys m - {key} \<and> sent m' = sent m @ map (\<lambda>k. Insert k s) ks"
  using assms reinsert_all_ok [OF assms(3), of "unmark_unhealthy key (decide (policy env) DRestore p m)" ks]
  by (simp add: check_model_key_def)

text \<open>The key of a model under one endpoint type.\<close>

definition model_key :: "EndpointType \<Rightarrow> 'd ModelId \<Rightarrow> 'd ModelKey" where
  "model_key ep x = \<lparr>mk_model_id = x, mk_endpoint_type = ep\<rparr>"

lemma check_model_targets_recover:
  assumes "check_health (params env) (totals env) p = Inr True" and "dispatcher env p None = Inr s"
    and "tx_open m" and "\<forall>x \<in> set all. inference_provider x = Some p" and "set xs \<subseteq> set all"
    and "distinct xs" and "model_key ep ` set xs \<subseteq> unhealthy_keys m"
  shows "\<exists>m'. check_model_targets cal env ep all xs m = (Inr (), m')
    \<and> unhealthy_keys m' = unhealthy_keys m - model_key ep ` set xs
    \<and> sent m' = sent m @ concat (replicate (length xs) (map (\<lambda>x. Insert (model_key ep x) s) all))"
  using assms(3,5-7)
proof (induction xs arbitrary: m)
  case (Cons x xs)
  have px: "inference_provider x = Some p" using Cons.prems(2) assms(4) by auto
  have ks: "model_keys_of ep all p = map Some (map (model_key ep) all)"
    using assms(4) by (simp add: model_keys_of_def model_key_def filter_id_conv)
  have "model_key ep x \<in> unhealthy_keys m" using Cons.prems(4) by auto
  from check_model_key_recover [OF assms(1) this assms(2) Cons.prems(1), of "map (model_key ep) all"]
  obtain m1 where m1: "check_model_key env (model_key ep x) p (model_keys_of ep all p) m = (Inr (), m1)" "tx_open m1"
    "unhealthy_keys m1 = unhealthy_keys m - {model_key ep x}"
    "sent m1 = sent m @ map (\<lambda>x. Insert (model_key ep x) s) all" unfolding ks by (auto simp: o_def)
  have "model_key ep ` set xs \<subseteq> unhealthy_keys m1"
    using Cons.prems(3,4) m1(3) by (auto simp: model_key_def)
  from Cons.IH [OF m1(2) _ _ this] Cons.prems(2,3) obtain m' where
    m': "check_model_targets cal env ep all xs m1 = (Inr (), m')"
      "unhealthy_keys m' = unhealthy_keys m1 - model_key ep ` set xs"
      "sent m' = sent m1 @ concat (replicate (length xs) (map (\<lambda>x. Insert (model_key ep x) s) all))" by auto
  have "check_model_targets cal env ep all (x # xs) m = (Inr (), m')"
    using px m1(1) m'(1) by (simp add: model_key_def)
  moreover have "unhealthy_keys m' = unhealthy_keys m - model_key ep ` set (x # xs)"
    using m'(2) m1(3) by auto
  ultimately show ?case using m'(3) m1(4) by auto
qed simp

subsection \<open>Properties\<close>

text \<open>
  The verdict on a provider: a custom provider is always healthy; any other is judged only when the
  counters of all its endpoints exist, and is then healthy exactly if no endpoint with at least the
  grace number of requests has an error ratio, as a rounded quotient, above the threshold. More errors
  never turn an unhealthy verdict into a healthy one.
\<close>

theorem health_verdict:
  "check_health pr tot Custom = Inr True
   \<and> (p \<noteq> Custom \<longrightarrow>
        (check_health pr tot p = Inr b \<longleftrightarrow>
           (\<forall>e \<in> set (provider_endpoints p). is_ok (tot e))
           \<and> b = (\<forall>e \<in> set (provider_endpoints p). \<forall>req err n. tot e = Inr (req, err)
                    \<and> grace_period pr = Requests n \<and> n \<le> req \<longrightarrow>
                  \<not> f64_gt (f64_div (of_nat (unat err)) (of_nat (unat req))) (error_threshold pr))))
   \<and> (endpoint_unhealthy pr (req, err) \<and> err \<le> err' \<longrightarrow> endpoint_unhealthy pr (req, err'))"
proof (intro conjI impI)
  show "check_health pr tot Custom = Inr True" by (simp add: check_health_def)
  assume "p \<noteq> Custom"
  then have c: "check_health pr tot p = check_endpoints pr tot (provider_endpoints p) True"
    by (simp add: check_health_def)
  obtain n where n: "grace_period pr = Requests n" by (cases "grace_period pr")
  show "check_health pr tot p = Inr b \<longleftrightarrow>
      (\<forall>e \<in> set (provider_endpoints p). is_ok (tot e))
      \<and> b = (\<forall>e \<in> set (provider_endpoints p). \<forall>req err n. tot e = Inr (req, err)
               \<and> grace_period pr = Requests n \<and> n \<le> req \<longrightarrow>
             \<not> f64_gt (f64_div (of_nat (unat err)) (of_nat (unat req))) (error_threshold pr))"
    unfolding c check_endpoints_ok by (auto simp: endpoint_unhealthy_def n not_less)
qed (use endpoint_unhealthy_mono in blast)

theorem health_verdict_witness:
  "check_health \<lparr>error_threshold = Fin 0, interval = 1, grace_period = Requests 20\<rparr>
     (\<lambda>_. Inr (0, 0)) Ollama = Inr True"
proof -
  have "Ollama \<noteq> Custom" by simp
  from health_verdict [THEN conjunct2, THEN conjunct1, rule_format, OF this]
  show ?thesis by simp
qed

text \<open>
  C5. The pool follows the health of the providers. Starting with every configured key in the pool, after
  any number of ticks that all succeeded, a key is in the pool, as far as the monitor's own changes
  decide, exactly if the last tick found its provider healthy; this holds for the weighted and for the
  latency strategy over providers.
\<close>

theorem health_pool_exact:
  "(run_ticks (\<lambda>env. check_provider_weighted_monitor D env cfg) (envs @ [env]) (monitor_new pub) = (Inr (), m)
      \<and> (k, p) \<in> set (weighted_keys D (provider_targets cfg)) \<longrightarrow>
      (last_change k (sent m) True \<longleftrightarrow> check_health (params env) (totals env) p \<noteq> Inr False))
   \<and> (run_ticks (\<lambda>env. check_provider_latency_monitor env cfg) (envs' @ [env']) (monitor_new pub) = (Inr (), m')
      \<and> (k', p') \<in> set (latency_keys (latency_targets cfg)) \<longrightarrow>
      (last_change k' (sent m') True \<longleftrightarrow> check_health (params env') (totals env') p' \<noteq> Inr False))"
proof (intro conjI impI; elim conjE)
  assume "run_ticks (\<lambda>env. check_provider_weighted_monitor D env cfg) (envs @ [env]) (monitor_new pub) = (Inr (), m)"
    and "(k, p) \<in> set (weighted_keys D (provider_targets cfg))"
  then show "last_change k (sent m) True \<longleftrightarrow> check_health (params env) (totals env) p \<noteq> Inr False"
    using run_ticks_pool [where check = "\<lambda>env. check_provider_weighted_monitor D env cfg",
        OF _ weighted_keys_functional [of D "provider_targets cfg"]] weighted_monitor_keys by blast
next
  assume "run_ticks (\<lambda>env. check_provider_latency_monitor env cfg) (envs' @ [env']) (monitor_new pub) = (Inr (), m')"
    and "(k', p') \<in> set (latency_keys (latency_targets cfg))"
  then show "last_change k' (sent m') True \<longleftrightarrow> check_health (params env') (totals env') p' \<noteq> Inr False"
    using run_ticks_pool [where check = "\<lambda>env. check_provider_latency_monitor env cfg",
        OF _ latency_keys_functional [of "latency_targets cfg"]] latency_monitor_keys by blast
qed

text \<open>An environment for concrete runs: Ollama fails half of its hundred requests.\<close>

definition failing_env :: "(nat, unit, nat) hm_env" where
  "failing_env =
     \<lparr>policy = default_fallback_policy,
      params = \<lparr>error_threshold = Fin 0, interval = 1, grace_period = Requests 20\<rparr>,
      totals = (\<lambda>_. Inr (100, 100)), dispatcher = (\<lambda>_ _. Inr 7), now = 0\<rparr>"

lemma failing_env_verdict: "check_health (params failing_env) (totals failing_env) Ollama = Inr False"
proof -
  have "f64_div (of_nat 100) (of_nat 100) = f64_round (of_nat 1)" by (simp add: f64_div_def)
  also have "\<dots> = Fin 1" by (subst f64_round_small_int) simp_all
  finally have "f64_div 100 100 = Fin 1" by simp
  then show ?thesis
    by (simp add: failing_env_def check_health_def provider_endpoints_def f64_gt_def)
qed

theorem health_pool_exact_witness:
  "\<not> last_change \<lparr>pk_provider = Ollama, pk_endpoint_type = Chat\<rparr>
     (sent (snd (run_ticks (\<lambda>env. check_provider_latency_monitor env
        ([(Chat, BalancedLatency [Ollama])] :: (nat, nat) BalanceConfig)) [failing_env] (monitor_new None)))) True"
proof -
  let ?cfg = "[(Chat, BalancedLatency [Ollama])] :: (nat, nat) BalanceConfig"
  let ?r = "run_ticks (\<lambda>env. check_provider_latency_monitor env ?cfg) [failing_env] (monitor_new None)"
  have ok: "fst ?r = Inr ()"
    by (simp add: check_provider_key_def failing_env_verdict monitor_new_def)
  have r: "run_ticks (\<lambda>env. check_provider_latency_monitor env ?cfg) ([] @ [failing_env]) (monitor_new None)
      = (Inr (), snd ?r)"
    using ok by (metis append_Nil prod.collapse)
  have k: "(\<lparr>pk_provider = Ollama, pk_endpoint_type = Chat\<rparr>, Ollama) \<in> set (latency_keys (latency_targets ?cfg))"
    by (simp add: latency_keys_def latency_targets_def)
  from health_pool_exact [THEN conjunct2, THEN mp, OF conjI, OF r k] failing_env_verdict show ?thesis by blast
qed

text \<open>
  Recovery of a provider with several models. When all \<open>n\<close> models of one provider are marked and the
  provider is healthy again, one tick unmarks them all but inserts every one of them \<open>n\<close> times, and each
  inserted dispatcher is built for the provider alone, without the model the key names.
\<close>

theorem model_recovery_duplicates:
  assumes "check_health (params env) (totals env) p = Inr True" and "dispatcher env p None = Inr s"
    and "tx_open m" and "\<forall>x \<in> set ms. inference_provider x = Some p" and "distinct ms"
    and "model_key ep ` set ms \<subseteq> unhealthy_keys m"
  shows "\<exists>m'. check_model_latency_monitor cal env [(ep, ModelLatency ms)] m = (Inr (), m')
    \<and> unhealthy_keys m' = unhealthy_keys m - model_key ep ` set ms
    \<and> sent m' = sent m @ concat (replicate (length ms) (map (\<lambda>x. Insert (model_key ep x) s) ms))"
proof -
  from check_model_targets_recover [OF assms(1-4) subset_refl assms(5,6)] obtain m' where
    "check_model_targets cal env ep ms ms m = (Inr (), m')"
    "unhealthy_keys m' = unhealthy_keys m - model_key ep ` set ms"
    "sent m' = sent m @ concat (replicate (length ms) (map (\<lambda>x. Insert (model_key ep x) s) ms))" by blast
  then show ?thesis by simp
qed

theorem model_recovery_duplicates_witness:
  "\<exists>m'. check_model_latency_monitor toy_calendar
       (\<lparr>policy = default_fallback_policy, params = \<lparr>error_threshold = Fin 0, interval = 1, grace_period = Requests 20\<rparr>,
         totals = (\<lambda>_. Inr (0, 0)), dispatcher = (\<lambda>_ _. Inr 7), now = 0\<rparr> :: (string, unit, nat) hm_env)
       ([(Chat, ModelLatency [OllamaModel \<lparr>ol_model = ''a'', ol_tag = None\<rparr>, OllamaModel \<lparr>ol_model = ''b'', ol_tag = None\<rparr>])]
         :: (string, nat) BalanceConfig)
       ((monitor_new None)\<lparr>unhealthy_keys := model_key Chat ` {OllamaModel \<lparr>ol_model = ''a'', ol_tag = None\<rparr>,
           OllamaModel \<lparr>ol_model = ''b'', ol_tag = None\<rparr>}\<rparr>) = (Inr (), m')
    \<and> length (sent m') = 4"
proof -
  let ?env = "\<lparr>policy = default_fallback_policy, params = \<lparr>error_threshold = Fin 0, interval = 1, grace_period = Requests 20\<rparr>,
         totals = (\<lambda>_. Inr (0, 0)), dispatcher = (\<lambda>_ _. Inr 7), now = 0\<rparr> :: (string, unit, nat) hm_env"
  let ?ms = "[OllamaModel \<lparr>ol_model = ''a'', ol_tag = None\<rparr>, OllamaModel \<lparr>ol_model = ''b'', ol_tag = None\<rparr>] :: string ModelId list"
  let ?m = "(monitor_new None)\<lparr>unhealthy_keys := model_key Chat ` {OllamaModel \<lparr>ol_model = ''a'', ol_tag = None\<rparr>,
           OllamaModel \<lparr>ol_model = ''b'', ol_tag = None\<rparr>}\<rparr> :: (string ModelKey, nat) monitor"
  have h: "check_health (params ?env) (totals ?env) Ollama = Inr True"
    by (simp add: check_health_def provider_endpoints_def)
  have "\<exists>m'. check_model_latency_monitor toy_calendar ?env [(Chat, ModelLatency ?ms)] ?m = (Inr (), m')
      \<and> unhealthy_keys m' = unhealthy_keys ?m - model_key Chat ` set ?ms
      \<and> sent m' = sent ?m @ concat (replicate (length ?ms) (map (\<lambda>x. Insert (model_key Chat x) 7) ?ms))"
    by (rule model_recovery_duplicates [OF h]) (simp_all add: monitor_new_def inference_provider_def)
  then show ?thesis by (auto simp: monitor_new_def)
qed

text \<open>
  A recovery that cannot build its dispatcher ends the monitor: nothing is inserted, yet the key
  is no longer marked, so the monitor's record and the pool disagree when it stops.
\<close>

theorem recovery_failure_forgets:
  assumes "check_health (params env) (totals env) p = Inr True" and "key \<in> unhealthy_keys m"
    and "dispatcher env p None = Inl e"
  shows "check_provider_key env key p m = (Inl (RInit (DispatcherInit e)), unmark_unhealthy key m)
    \<and> key \<notin> unhealthy_keys (unmark_unhealthy key m) \<and> sent (unmark_unhealthy key m) = sent m"
  using assms by (simp add: check_provider_key_def dispatcher_new_def)

theorem recovery_failure_forgets_witness:
  "check_provider_key (failing_env\<lparr>totals := (\<lambda>_. Inr (0, 0)), dispatcher := (\<lambda>_ _. Inl ())\<rparr>) (1::nat) Ollama
     ((monitor_new None)\<lparr>unhealthy_keys := {1}\<rparr>)
   = (Inl (RInit (DispatcherInit ())), unmark_unhealthy 1 ((monitor_new None)\<lparr>unhealthy_keys := {1}\<rparr>))"
proof -
  let ?env = "failing_env\<lparr>totals := (\<lambda>_. Inr (0, 0)), dispatcher := (\<lambda>_ _. Inl ())\<rparr>"
  have h: "check_health (params ?env) (totals ?env) Ollama = Inr True"
    by (simp add: check_health_def provider_endpoints_def failing_env_def)
  show ?thesis
    by (rule recovery_failure_forgets [OF h, THEN conjunct1]) simp_all
qed

text \<open>
  The broadcast is deduplicated by provider, not by status: a recovery within the window after a
  failure is not published, and the other instances keep the last word \<open>Down\<close>.
\<close>

theorem publish_drops_recovery:
  assumes "last_published p key = None" and "t \<le> t'" and "t' < t + dedup_window p"
  shows "events (publish t' key Up (publish t key Down p)) = events p @ [(key, Down, t)]"
  using assms by (auto simp: publish_def)

theorem publish_drops_recovery_witness:
  "events (publish 5 ''openai'' Up (publish 1 ''openai'' Down
     \<lparr>dedup_window = 10, last_published = Map.empty, events = []\<rparr>)) = [(''openai'', Down, 1)]"
  using publish_drops_recovery [of "\<lparr>dedup_window = 10, last_published = Map.empty, events = []\<rparr>" "''openai''" 1 5]
  by simp

end
