(* ===== verification/Rate_Limit_Monitor.thy ===== *)
theory Rate_Limit_Monitor
  imports Gateway_Prelude Providers Model_Id Endpoints Discovery Fallback_Policy Rolling_Counter Health_Monitor
begin

text \<open>
  The rate-limit monitors (\<open>discover/monitor/rate_limit/provider.rs\<close>, \<open>types/rate_limit.rs\<close>) and the part
  of the dispatcher that feeds them (\<open>handle_error_and_rate_limiting\<close> and \<open>extract_retry_after\<close> of
  \<open>dispatcher/service.rs\<close>): a provider that answers 429 leaves the balancer for the time of its
  \<open>Retry-After\<close> plus a buffer, and is then inserted again.

  A monitor task is a state machine. Its \<open>select!\<close> takes an event from its channel, or a restore whose
  timer is over, or ends when the channel is closed and no restore is left. The four \<open>monitor\<close>
  functions of the code differ in how they make the key of an event; the rest is shared here.
\<close>

subsection \<open>Events and the dispatcher's part\<close>

record 'd RateLimitEvent =
  ev_api_endpoint :: ApiEndpoint
  ev_model_id :: "'d ModelId option"
  retry_after_seconds :: "u64 option"

definition rate_limit_event_new :: "ApiEndpoint \<Rightarrow> u64 option \<Rightarrow> 'd RateLimitEvent" where
  "rate_limit_event_new e r = \<lparr>ev_api_endpoint = e, ev_model_id = None, retry_after_seconds = r\<rparr>"

definition with_model_id :: "'d ModelId \<Rightarrow> 'd RateLimitEvent \<Rightarrow> 'd RateLimitEvent" where
  "with_model_id m ev = ev\<lparr>ev_model_id := Some m\<rparr>"

text \<open>
  \<open>parse_http_date\<close> stands for chrono's \<open>parse_from_str\<close>: the timestamp in seconds, if the text is a date.
  The clock \<open>wall\<close> is in seconds since the epoch.
\<close>

definition extract_retry_after :: "(string \<Rightarrow> int option) \<Rightarrow> u64 \<Rightarrow> headers \<Rightarrow> u64 option" where
  "extract_retry_after parse_http_date wall hs =
     (case header_str hs ''retry-after'' of
        None \<Rightarrow> None
      | Some s \<Rightarrow>
          (case parse_uint (2 ^ 64 - 1) s of
             Some n \<Rightarrow> Some (of_nat n)
           | None \<Rightarrow>
               (case parse_http_date s of
                  None \<Rightarrow> None
                | Some t \<Rightarrow>
                    (let target = (if 0 \<le> t \<and> t < 2 ^ 64 then of_int t else 0 :: u64)
                     in if wall < target then Some (target - wall) else None))))"

text \<open>
  What the dispatcher does with the status of an answer: the metrics it changes, the event it sends.
  Without an endpoint it does neither; a channel that is closed loses the event.
\<close>

record 'd dispatch_effects =
  metric_increments :: "ApiEndpoint list"
  rate_limit_tx :: "'d RateLimitEvent list option"

definition handle_error_and_rate_limiting ::
  "(ApiEndpoint \<Rightarrow> (metrics_error, unit) result) \<Rightarrow> (string \<Rightarrow> int option) \<Rightarrow> u64 \<Rightarrow> nat \<Rightarrow> headers \<Rightarrow> ApiEndpoint option
     \<Rightarrow> 'd dispatch_effects \<Rightarrow> (metrics_error, 'd dispatch_effects) result" where
  "handle_error_and_rate_limiting metrics parse_http_date wall status hs ep x =
     (if is_server_error status then
        (case ep of
           None \<Rightarrow> Ok x
         | Some e \<Rightarrow> try_bind (metrics e) (\<lambda>_. Ok (x\<lparr>metric_increments := metric_increments x @ [e]\<rparr>)))
      else if status = 429 then
        (case ep of
           None \<Rightarrow> Ok x
         | Some e \<Rightarrow> Ok (x\<lparr>rate_limit_tx := map_option (\<lambda>q. q @
             [rate_limit_event_new e (extract_retry_after parse_http_date wall hs)]) (rate_limit_tx x)\<rparr>))
      else Ok x)"

subsection \<open>The key of an event\<close>

datatype 'e rl_error = RlInternal | RlInit "'e InitError" | ChannelSendFailed | TaskPanicked

definition latency_key_for_event :: "'d RateLimitEvent \<Rightarrow> ('e rl_error, ProviderEndpointKey) result" where
  "latency_key_for_event ev =
     Ok \<lparr>pk_provider = api_endpoint_provider (ev_api_endpoint ev),
         pk_endpoint_type = api_endpoint_type (ev_api_endpoint ev)\<rparr>"

definition weighted_key_for_event ::
  "'w decimal_ops \<Rightarrow> ('d, 'w) BalanceConfig \<Rightarrow> 'd RateLimitEvent \<Rightarrow> ('e rl_error, ProviderWeightedKey) result" where
  "weighted_key_for_event D cfg ev =
     (let provider = api_endpoint_provider (ev_api_endpoint ev);
          endpoint_type = api_endpoint_type (ev_api_endpoint ev)
      in case map_of cfg endpoint_type of
           Some (ProviderWeighted providers) \<Rightarrow>
             (case find (\<lambda>t. wp_provider t = provider) providers of
                None \<Rightarrow> Err RlInternal
              | Some t \<Rightarrow>
                  (case dec_to_f64 D (wp_weight t) of
                     None \<Rightarrow> Err RlInternal
                   | Some w \<Rightarrow> Ok \<lparr>pwk_provider = provider, pwk_endpoint_type = endpoint_type,
                                   pwk_weight = weight_from_f64 w\<rparr>))
         | _ \<Rightarrow> Err RlInternal)"

definition create_model_weighted_key ::
  "'w decimal_ops \<Rightarrow> ('d, 'w) BalanceConfig \<Rightarrow> 'd RateLimitEvent \<Rightarrow> ('e rl_error, 'd ModelWeightedKey) result" where
  "create_model_weighted_key D cfg ev =
     (case ev_model_id ev of
        None \<Rightarrow> Err RlInternal
      | Some model_id \<Rightarrow>
          (let endpoint_type = api_endpoint_type (ev_api_endpoint ev)
           in case map_of cfg endpoint_type of
                Some (ModelWeighted models) \<Rightarrow>
                  (case find (\<lambda>m. wm_model m = model_id) models of
                     None \<Rightarrow> Err RlInternal
                   | Some m \<Rightarrow>
                       (case dec_to_f64 D (wm_weight m) of
                          None \<Rightarrow> Err RlInternal
                        | Some w \<Rightarrow> Ok \<lparr>mwk_model_id = model_id, mwk_endpoint_type = endpoint_type,
                                        mwk_weight = weight_from_f64 w\<rparr>))
              | _ \<Rightarrow> Err RlInternal))"

definition create_model_latency_key :: "'d RateLimitEvent \<Rightarrow> ('e rl_error, 'd ModelKey) result" where
  "create_model_latency_key ev =
     (case ev_model_id ev of
        None \<Rightarrow> Err RlInternal
      | Some model_id \<Rightarrow> Ok \<lparr>mk_model_id = model_id, mk_endpoint_type = api_endpoint_type (ev_api_endpoint ev)\<rparr>)"

subsection \<open>A monitor task\<close>

text \<open>A pending restore: the key, the endpoint of the event and the time its timer is over.\<close>

record 'k provider_restore =
  r_key :: 'k
  r_endpoint :: ApiEndpoint
  r_deadline :: duration

record ('k, 'd, 'e, 'svc) rl_task =
  inbox :: "'d RateLimitEvent list"
  senders_open :: bool
  rate_limited_providers :: "'k set"
  pending_restores :: "'k provider_restore list"
  change_tx_open :: bool
  changes :: "('k, 'svc) change list"
  rl_decisions :: decision_log
  clock :: duration
  outcome :: "('e rl_error, unit) result option"

definition rl_task_new :: "duration \<Rightarrow> ('k, 'd, 'e, 'svc) rl_task" where
  "rl_task_new t =
     \<lparr>inbox = [], senders_open = True, rate_limited_providers = {}, pending_restores = [], change_tx_open = True,
      changes = [], rl_decisions = [], clock = t, outcome = None\<rparr>"

record ('k, 'd, 'e, 'svc) rl_env =
  rl_policy :: FallbackPolicyConfig
  create_key :: "'d RateLimitEvent \<Rightarrow> ('e rl_error, 'k) result"
  rl_dispatcher :: "('d, 'e, 'svc) make_dispatcher"

definition is_rate_limit_failover_enabled :: "('k, 'd, 'e, 'svc) rl_env \<Rightarrow> bool" where
  "is_rate_limit_failover_enabled env = should_remove (rl_policy env) RateLimit"

definition rl_decide ::
  "('k, 'd, 'e, 'svc) rl_env \<Rightarrow> DecisionKind \<Rightarrow> ApiEndpoint \<Rightarrow> ('k, 'd, 'e, 'svc) rl_task \<Rightarrow> ('k, 'd, 'e, 'svc) rl_task" where
  "rl_decide env kind ep s =
     s\<lparr>rl_decisions := log_decision (rl_policy env) kind (Some RateLimit)
        (provider_as_ref (api_endpoint_provider ep)) (rl_decisions s)\<rparr>"

definition on_rate_limit ::
  "('k, 'd, 'e, 'svc) rl_env \<Rightarrow> 'd RateLimitEvent \<Rightarrow> ('k, 'd, 'e, 'svc) rl_task \<Rightarrow> ('k, 'd, 'e, 'svc) rl_task" where
  "on_rate_limit env ev s =
     (if \<not> is_rate_limit_failover_enabled env then s
      else (case create_key env ev of
              Inl e \<Rightarrow> s\<lparr>outcome := Some (Err e)\<rparr>
            | Inr key \<Rightarrow>
                if key \<in> rate_limited_providers s then s
                else
                  (let s1 = rl_decide env DRemove (ev_api_endpoint ev) s;
                       s2 = (if change_tx_open s1 then s1\<lparr>changes := changes s1 @ [Remove key]\<rparr> else s1)
                   in case restore_after (rl_policy env) (retry_after_seconds ev) of
                        None \<Rightarrow> s2\<lparr>outcome := Some (Err TaskPanicked)\<rparr>
                      | Some d \<Rightarrow>
                          s2\<lparr>pending_restores := pending_restores s2 @
                               [\<lparr>r_key = key, r_endpoint = ev_api_endpoint ev, r_deadline = clock s2 + d\<rparr>],
                             rate_limited_providers := insert key (rate_limited_providers s2)\<rparr>)))"

definition on_restore ::
  "('k, 'd, 'e, 'svc) rl_env \<Rightarrow> 'k provider_restore \<Rightarrow> ('k, 'd, 'e, 'svc) rl_task \<Rightarrow> ('k, 'd, 'e, 'svc) rl_task" where
  "on_restore env r s =
     (case dispatcher_new (rl_dispatcher env) (api_endpoint_provider (r_endpoint r)) None of
        Inl e \<Rightarrow> s\<lparr>outcome := Some (Err (RlInit e))\<rparr>
      | Inr service \<Rightarrow>
          (let s1 = rl_decide env DRestore (r_endpoint r) s
           in if change_tx_open s1
              then s1\<lparr>changes := changes s1 @ [Insert (r_key r) service],
                      rate_limited_providers := rate_limited_providers s1 - {r_key r}\<rparr>
              else s1\<lparr>outcome := Some (Err ChannelSendFailed)\<rparr>))"

text \<open>
  The steps: the three branches of \<open>select!\<close>, and what happens around the task: an event arrives, the
  clock advances, the senders or the receiver of the changes are dropped. Ready restores fire in any order.
\<close>

inductive rl_step :: "('k, 'd, 'e, 'svc) rl_env \<Rightarrow> ('k, 'd, 'e, 'svc) rl_task \<Rightarrow> ('k, 'd, 'e, 'svc) rl_task \<Rightarrow> bool"
  for env where
  recv: "outcome s = None \<Longrightarrow> inbox s = ev # q \<Longrightarrow> rl_step env s (on_rate_limit env ev (s\<lparr>inbox := q\<rparr>))"
| restore: "outcome s = None \<Longrightarrow> pending_restores s = rs @ r # rs' \<Longrightarrow> r_deadline r \<le> clock s
    \<Longrightarrow> rl_step env s (on_restore env r (s\<lparr>pending_restores := rs @ rs'\<rparr>))"
| finish: "outcome s = None \<Longrightarrow> inbox s = [] \<Longrightarrow> \<not> senders_open s \<Longrightarrow> pending_restores s = []
    \<Longrightarrow> rl_step env s (s\<lparr>outcome := Some (Ok ())\<rparr>)"
| arrive: "senders_open s \<Longrightarrow> rl_step env s (s\<lparr>inbox := inbox s @ [ev]\<rparr>)"
| elapse: "rl_step env s (s\<lparr>clock := clock s + d\<rparr>)"
| drop_senders: "rl_step env s (s\<lparr>senders_open := False\<rparr>)"
| drop_pool: "rl_step env s (s\<lparr>change_tx_open := False\<rparr>)"

inductive_cases rl_stepE: "rl_step env s s'"

abbreviation rl_reach :: "('k, 'd, 'e, 'svc) rl_env \<Rightarrow> ('k, 'd, 'e, 'svc) rl_task \<Rightarrow> ('k, 'd, 'e, 'svc) rl_task \<Rightarrow> bool" where
  "rl_reach env \<equiv> (rl_step env)\<^sup>*\<^sup>*"

text \<open>The four monitors of the code: the same steps with the key of each strategy.\<close>

definition latency_monitor ::
  "FallbackPolicyConfig \<Rightarrow> ('d, 'e, 'svc) make_dispatcher
     \<Rightarrow> (ProviderEndpointKey, 'd, 'e, 'svc) rl_task \<Rightarrow> (ProviderEndpointKey, 'd, 'e, 'svc) rl_task \<Rightarrow> bool" where
  "latency_monitor pol mk = rl_step \<lparr>rl_policy = pol, create_key = latency_key_for_event, rl_dispatcher = mk\<rparr>"

definition weighted_monitor ::
  "'w decimal_ops \<Rightarrow> ('d, 'w) BalanceConfig \<Rightarrow> FallbackPolicyConfig \<Rightarrow> ('d, 'e, 'svc) make_dispatcher
     \<Rightarrow> (ProviderWeightedKey, 'd, 'e, 'svc) rl_task \<Rightarrow> (ProviderWeightedKey, 'd, 'e, 'svc) rl_task \<Rightarrow> bool" where
  "weighted_monitor D cfg pol mk = rl_step \<lparr>rl_policy = pol, create_key = weighted_key_for_event D cfg, rl_dispatcher = mk\<rparr>"

definition model_weighted_monitor ::
  "'w decimal_ops \<Rightarrow> ('d, 'w) BalanceConfig \<Rightarrow> FallbackPolicyConfig \<Rightarrow> ('d, 'e, 'svc) make_dispatcher
     \<Rightarrow> ('d ModelWeightedKey, 'd, 'e, 'svc) rl_task \<Rightarrow> ('d ModelWeightedKey, 'd, 'e, 'svc) rl_task \<Rightarrow> bool" where
  "model_weighted_monitor D cfg pol mk = rl_step \<lparr>rl_policy = pol, create_key = create_model_weighted_key D cfg, rl_dispatcher = mk\<rparr>"

definition model_latency_monitor ::
  "FallbackPolicyConfig \<Rightarrow> ('d, 'e, 'svc) make_dispatcher
     \<Rightarrow> ('d ModelKey, 'd, 'e, 'svc) rl_task \<Rightarrow> ('d ModelKey, 'd, 'e, 'svc) rl_task \<Rightarrow> bool" where
  "model_latency_monitor pol mk = rl_step \<lparr>rl_policy = pol, create_key = create_model_latency_key, rl_dispatcher = mk\<rparr>"

subsection \<open>The tasks of all routers\<close>

text \<open>
  \<open>RateLimitMonitor\<close>: on a tick every monitor that waits is started with the receiver of its router. A
  router without a receiver ends the whole monitor, as does a task that fails; the first stops the
  gateway through its shutdown token.
\<close>

datatype ('router, 'e) run_error = RateLimitChannelsNotInitialized 'router | TaskFailed "'e rl_error"

record ('router, 'mon, 'rx) rate_limit_state =
  rate_limit_monitors :: "('router \<times> 'mon) list"
  rate_limit_receivers :: "'router \<rightharpoonup> 'rx"
  tasks :: "('router \<times> 'mon \<times> 'rx) list"

definition remove_rate_limit_receiver ::
  "'router \<Rightarrow> ('router, 'mon, 'rx) rate_limit_state
     \<Rightarrow> (('router, 'e) run_error, 'rx \<times> ('router, 'mon, 'rx) rate_limit_state) result" where
  "remove_rate_limit_receiver r s =
     (case rate_limit_receivers s r of
        None \<Rightarrow> Err (RateLimitChannelsNotInitialized r)
      | Some rx \<Rightarrow> Ok (rx, s\<lparr>rate_limit_receivers := (rate_limit_receivers s)(r := None)\<rparr>))"

definition add_router_rate_limit_monitor ::
  "'router \<Rightarrow> 'mon \<Rightarrow> ('router, 'mon, 'rx) rate_limit_state \<Rightarrow> ('router, 'mon, 'rx) rate_limit_state" where
  "add_router_rate_limit_monitor r mon s = s\<lparr>rate_limit_monitors := hm_insert r mon (rate_limit_monitors s)\<rparr>"

definition add_rate_limit_rx ::
  "'router \<Rightarrow> 'rx \<Rightarrow> ('router, 'mon, 'rx) rate_limit_state \<Rightarrow> ('router, 'mon, 'rx) rate_limit_state" where
  "add_rate_limit_rx r rx s = s\<lparr>rate_limit_receivers := (rate_limit_receivers s)(r \<mapsto> rx)\<rparr>"

fun start_monitors ::
  "('router \<times> 'mon) list \<Rightarrow> ('router, 'mon, 'rx) rate_limit_state
     \<Rightarrow> (('router, 'e) run_error, ('router, 'mon, 'rx) rate_limit_state) result" where
  "start_monitors [] s = Ok s"
| "start_monitors ((r, mon) # ms) s =
     try_bind (remove_rate_limit_receiver r s) (\<lambda>(rx, s').
       start_monitors ms (s'\<lparr>tasks := tasks s' @ [(r, mon, rx)]\<rparr>))"

definition rate_limit_tick ::
  "('router, 'mon, 'rx) rate_limit_state \<Rightarrow> (('router, 'e) run_error, ('router, 'mon, 'rx) rate_limit_state) result" where
  "rate_limit_tick s = start_monitors (rate_limit_monitors s) (s\<lparr>rate_limit_monitors := []\<rparr>)"

definition rate_limit_join :: "('e rl_error, unit) result \<Rightarrow> (('router, 'e) run_error, unit) result" where
  "rate_limit_join res = (case res of Inl e \<Rightarrow> Err (TaskFailed e) | Inr _ \<Rightarrow> Ok ())"

subsection \<open>Lemmas on a task\<close>

lemmas rl_defs = on_rate_limit_def on_restore_def rl_decide_def Let_def

text \<open>
  The invariant of a task that has not failed, while the pool listens: the keys it holds out are those of
  its pending restores, each once, and the pool lacks exactly those keys.
\<close>

definition rl_inv :: "('k, 'd, 'e, 'svc) rl_task \<Rightarrow> bool" where
  "rl_inv s \<longleftrightarrow> distinct (map r_key (pending_restores s))
     \<and> rate_limited_providers s = r_key ` set (pending_restores s)"

definition rl_alive :: "('k, 'd, 'e, 'svc) rl_task \<Rightarrow> bool" where
  "rl_alive s \<longleftrightarrow> change_tx_open s \<and> (\<forall>e. outcome s \<noteq> Some (Inl e))"

lemma rl_step_alive: "rl_step env s s' \<Longrightarrow> rl_alive s' \<Longrightarrow> rl_alive s"
  by (cases rule: rl_step.cases) (auto simp: rl_alive_def rl_defs split: if_splits sum.splits option.splits)

lemma on_rate_limit_cases:
  assumes "rl_alive (on_rate_limit env ev s)"
  obtains "on_rate_limit env ev s = s"
    | key d where "create_key env ev = Inr key" "key \<notin> rate_limited_providers s"
      "restore_after (rl_policy env) (retry_after_seconds ev) = Some d"
      "on_rate_limit env ev s = (rl_decide env DRemove (ev_api_endpoint ev) s)
         \<lparr>changes := changes s @ [Remove key],
          pending_restores := pending_restores s @
            [\<lparr>r_key = key, r_endpoint = ev_api_endpoint ev, r_deadline = clock s + d\<rparr>],
          rate_limited_providers := insert key (rate_limited_providers s)\<rparr>"
  using assms
  by (cases "is_rate_limit_failover_enabled env"; cases "create_key env ev";
      cases "restore_after (rl_policy env) (retry_after_seconds ev)")
    (auto simp: rl_alive_def rl_defs split: if_splits)

lemma on_restore_ok:
  assumes "change_tx_open s" and "rl_dispatcher env (api_endpoint_provider (r_endpoint r)) None = Inr service"
  shows "on_restore env r s = (rl_decide env DRestore (r_endpoint r) s)
     \<lparr>changes := changes s @ [Insert (r_key r) service],
      rate_limited_providers := rate_limited_providers s - {r_key r}\<rparr>"
  using assms by (simp add: rl_defs dispatcher_new_def)

lemma on_restore_cases:
  assumes "rl_alive (on_restore env r s)"
  obtains service where "rl_dispatcher env (api_endpoint_provider (r_endpoint r)) None = Inr service"
    "change_tx_open s"
  using assms by (cases "rl_dispatcher env (api_endpoint_provider (r_endpoint r)) None")
    (auto simp: rl_alive_def rl_defs dispatcher_new_def split: if_splits)

lemma rl_step_inv:
  assumes "rl_step env s s'" and "rl_alive s'" and "rl_inv s"
  shows "rl_inv s' \<and> ledger_move (rate_limited_providers s, changes s) (rate_limited_providers s', changes s')"
  using assms(1)
proof (cases rule: rl_step.cases)
  case (recv ev q)
  note a = assms(2) [unfolded recv(1)]
  from a show ?thesis
  proof (cases rule: on_rate_limit_cases)
    case (2 key d)
    then show ?thesis using assms(3) recv(1) by (auto simp: rl_inv_def ledger_move_def rl_decide_def)
  qed (use assms(3) recv in \<open>simp add: rl_inv_def ledger_move_def\<close>)
next
  case (restore rs r rs')
  note a = assms(2) [unfolded restore(1)]
  from a obtain service where d: "rl_dispatcher env (api_endpoint_provider (r_endpoint r)) None = Inr service"
    "change_tx_open (s\<lparr>pending_restores := rs @ rs'\<rparr>)" by (rule on_restore_cases)
  have "r_key r \<in> rate_limited_providers s" "r_key r \<notin> r_key ` set (rs @ rs')"
    using assms(3) restore(3) by (auto simp: rl_inv_def)
  then show ?thesis using assms(3) restore(1,3) on_restore_ok [OF d(2,1)]
    by (auto simp: rl_inv_def ledger_move_def rl_decide_def)
qed (use assms(3) in \<open>simp_all add: rl_inv_def ledger_move_def\<close>)

definition rl_live_step :: "('k, 'd, 'e, 'svc) rl_env \<Rightarrow> ('k, 'd, 'e, 'svc) rl_task \<Rightarrow> ('k, 'd, 'e, 'svc) rl_task \<Rightarrow> bool" where
  "rl_live_step env s s' \<longleftrightarrow> rl_step env s s' \<and> rl_alive s' \<and> rl_inv s"

interpretation rate_limit_ledger: pool_ledger rate_limited_providers changes "rl_live_step env"
  by unfold_locales (auto simp: rl_live_step_def dest: rl_step_inv)

lemma rl_reach_live:
  assumes "rl_reach env s s'" and "rl_inv s" and "rl_alive s'"
  shows "(rl_live_step env)\<^sup>*\<^sup>* s s' \<and> rl_inv s'"
  using assms
proof (induction rule: rtranclp_induct)
  case (step y z)
  then have "rl_alive y" by (blast intro: rl_step_alive)
  with step have "(rl_live_step env)\<^sup>*\<^sup>* s y" "rl_inv y" by blast+
  moreover from this step have "rl_live_step env y z" by (simp add: rl_live_step_def)
  ultimately show ?case using rl_step_inv step by (metis rtranclp.rtrancl_into_rtrancl)
qed simp

lemma rl_inv_new [simp]: "rl_inv (rl_task_new t)"
  by (simp add: rl_inv_def rl_task_new_def)

text \<open>Every deadline lies at most the wait of one event ahead of the clock.\<close>

lemma rl_clock_mono: "rl_step env s s' \<Longrightarrow> clock s \<le> clock s'"
  by (cases rule: rl_step.cases) (auto simp: rl_defs split: sum.splits option.splits)

text \<open>All due restores can be carried out one after the other, and then nothing is held out.\<close>

lemma drain_restores:
  assumes "rl_inv s" and "change_tx_open s" and "outcome s = None"
    and "\<forall>r \<in> set (pending_restores s). r_deadline r \<le> clock s"
    and "\<forall>p. \<exists>service. rl_dispatcher env p None = Inr service"
  shows "\<exists>s'. (rl_step env ^^ length (pending_restores s)) s s' \<and> pending_restores s' = []
    \<and> rate_limited_providers s' = {} \<and> change_tx_open s' \<and> outcome s' = None \<and> inbox s' = inbox s
    \<and> senders_open s' = senders_open s"
  using assms(1-4)
proof (induction "length (pending_restores s)" arbitrary: s)
  case 0
  then show ?case by (auto simp: rl_inv_def)
next
  case (Suc n)
  then obtain r rs where p: "pending_restores s = [] @ r # rs" by (cases "pending_restores s") auto
  obtain service where d: "rl_dispatcher env (api_endpoint_provider (r_endpoint r)) None = Inr service"
    using assms(5) by blast
  let ?s0 = "s\<lparr>pending_restores := rs\<rparr>"
  let ?s1 = "on_restore env r ?s0"
  have st: "rl_step env s ?s1" using rl_step.restore [OF Suc.prems(3) p, of env] Suc.prems(4) p by simp
  have eq: "?s1 = (rl_decide env DRestore (r_endpoint r) ?s0)
     \<lparr>changes := changes s @ [Insert (r_key r) service],
      rate_limited_providers := rate_limited_providers s - {r_key r}\<rparr>"
    using on_restore_ok [of ?s0 env r service] Suc.prems(2) d by simp
  have "rl_alive ?s1" using Suc.prems(2,3) by (simp add: eq rl_alive_def rl_decide_def)
  with st Suc.prems(1) have "rl_inv ?s1" using rl_step_inv by blast
  moreover have f: "pending_restores ?s1 = rs" "change_tx_open ?s1" "outcome ?s1 = None" "clock ?s1 = clock s"
    "inbox ?s1 = inbox s" "senders_open ?s1 = senders_open s"
    using Suc.prems(2,3) by (simp_all add: eq rl_decide_def)
  moreover have "n = length (pending_restores ?s1)" using Suc.hyps(2) p f by simp
  ultimately obtain s' where s': "(rl_step env ^^ n) ?s1 s'" "pending_restores s' = []"
      "rate_limited_providers s' = {}" "change_tx_open s'" "outcome s' = None" "inbox s' = inbox s"
      "senders_open s' = senders_open s"
    using Suc.hyps(1) [of ?s1] Suc.prems(4) p by auto
  have "(rl_step env ^^ Suc n) s s'" using st s'(1) by (metis relpowp_Suc_I2)
  with s' Suc.hyps(2) show ?case by metis
qed

lemma start_monitors_ok:
  "distinct (map fst ms) \<Longrightarrow>
   start_monitors ms s = (if \<forall>r \<in> fst ` set ms. r \<in> dom (rate_limit_receivers s)
     then Inr (s\<lparr>rate_limit_receivers := (\<lambda>r. if r \<in> fst ` set ms then None else rate_limit_receivers s r),
                tasks := tasks s @ map (\<lambda>(r, mon). (r, mon, the (rate_limit_receivers s r))) ms\<rparr>)
     else Inl (RateLimitChannelsNotInitialized (fst (the (find (\<lambda>(r, _). r \<notin> dom (rate_limit_receivers s)) ms)))))"
proof (induction ms arbitrary: s)
  case (Cons x ms)
  obtain r mon where x: "x = (r, mon)" by (cases x)
  show ?case
  proof (cases "rate_limit_receivers s r")
    case None
    then show ?thesis by (auto simp: x remove_rate_limit_receiver_def)
  next
    case (Some rx)
    let ?s' = "s\<lparr>rate_limit_receivers := (rate_limit_receivers s)(r := None), tasks := tasks s @ [(r, mon, rx)]\<rparr>"
    have fresh: "r \<notin> fst ` set ms" using Cons.prems x by auto
    then have d: "(\<forall>r' \<in> fst ` set ms. r' \<in> dom (rate_limit_receivers ?s')) \<longleftrightarrow>
        (\<forall>r' \<in> fst ` set (x # ms). r' \<in> dom (rate_limit_receivers s))"
      using Some by (auto simp: x domIff image_iff)
    have f: "find (\<lambda>(r', _). r' \<notin> dom (rate_limit_receivers ?s')) ms =
        find (\<lambda>(r', _). r' \<notin> dom (rate_limit_receivers s)) (x # ms)"
      using Some fresh by (auto simp: x domIff image_iff split: if_splits intro!: find_cong)
    have m: "map (\<lambda>(r, mon). (r, mon, the (rate_limit_receivers ?s' r))) ms =
        map (\<lambda>(r, mon). (r, mon, the (rate_limit_receivers s r))) ms" using fresh by force
    have rc: "(\<lambda>ra. if ra \<in> fst ` set ms then None else rate_limit_receivers ?s' ra) =
        (\<lambda>ra. if ra \<in> fst ` set (x # ms) then None else rate_limit_receivers s ra)" by (auto simp: x fun_eq_iff)
    have "start_monitors (x # ms) s = start_monitors ms ?s'"
      by (simp add: x remove_rate_limit_receiver_def Some)
    also note Cons.IH [of ?s']
    finally show ?thesis unfolding d f m rc using Cons.prems Some by (simp add: x)
  qed
qed (simp add: fun_eq_iff)

lemma rl_event_reach: "rl_reach env (rl_task_new t) (on_rate_limit env ev (rl_task_new t))"
proof -
  have "rl_step env (rl_task_new t) (rl_task_new t\<lparr>inbox := [ev]\<rparr>)"
    using rl_step.arrive [of "rl_task_new t" env ev] by (simp add: rl_task_new_def)
  moreover have "rl_step env (rl_task_new t\<lparr>inbox := [ev]\<rparr>) (on_rate_limit env ev (rl_task_new t))"
    using rl_step.recv [of "rl_task_new t\<lparr>inbox := [ev]\<rparr>" ev "[]" env] by (simp add: rl_task_new_def)
  ultimately show ?thesis by (meson converse_rtranclp_into_rtranclp r_into_rtranclp)
qed

lemma rl_reach_disabled:
  assumes "rl_reach env (rl_task_new t) s" and "\<not> is_rate_limit_failover_enabled env"
  shows "changes s = [] \<and> pending_restores s = [] \<and> rate_limited_providers s = {} \<and> rl_decisions s = []
    \<and> outcome s \<in> {None, Some (Inr ())}"
  using assms(1)
proof (induction rule: rtranclp_induct)
  case (step y z)
  from step.hyps(2) step.IH show ?case
    by (cases rule: rl_step.cases) (auto simp: on_rate_limit_def assms(2))
qed (simp add: rl_task_new_def)

lemma model_keys_need_model:
  "create_model_latency_key (rate_limit_event_new e r) = Inl RlInternal"
  "create_model_weighted_key D cfg (rate_limit_event_new e r) = Inl RlInternal"
  by (simp_all add: create_model_latency_key_def create_model_weighted_key_def rate_limit_event_new_def)

subsection \<open>Properties\<close>

text \<open>
  C2. A rate-limit monitor and the pool agree. In every state that a task can reach, whatever the order of
  events, timers and interruptions, as long as it has not failed and the pool listens: a key is missing
  from the pool exactly while one restore for it is pending, no key has two pending restores, and every
  removal but the open one has been undone exactly once.
\<close>

theorem rate_limit_pool_exact:
  assumes "rl_reach env (rl_task_new t) s" and "rl_alive s"
  shows "(last_change k (changes s) True \<longleftrightarrow> k \<notin> r_key ` set (pending_restores s))
    \<and> distinct (map r_key (pending_restores s))
    \<and> removals k (changes s) = insertions k (changes s) + (if k \<in> r_key ` set (pending_restores s) then 1 else 0)"
proof -
  from rl_reach_live [OF assms(1) rl_inv_new assms(2)]
  have live: "(rl_live_step env)\<^sup>*\<^sup>* (rl_task_new t) s" and inv: "rl_inv s" by blast+
  have new: "rate_limited_providers (rl_task_new t) = {}" "changes (rl_task_new t) = []"
    by (simp_all add: rl_task_new_def)
  from rate_limit_ledger.pool_exact [OF live new] inv show ?thesis by (simp add: rl_inv_def)
qed

text \<open>A latency monitor with the default policy, for concrete runs.\<close>

definition latency_env :: "(ProviderEndpointKey, nat, unit, nat) rl_env" where
  "latency_env = \<lparr>rl_policy = default_fallback_policy, create_key = latency_key_for_event, rl_dispatcher = (\<lambda>_ _. Inr 7)\<rparr>"

abbreviation ollama_chat :: ApiEndpoint where "ollama_chat \<equiv> ApiOllama OlChatCompletions"
abbreviation ollama_key :: ProviderEndpointKey where
  "ollama_key \<equiv> \<lparr>pk_provider = Ollama, pk_endpoint_type = Chat\<rparr>"

lemma latency_env_enabled [simp]: "is_rate_limit_failover_enabled latency_env"
  by (simp add: is_rate_limit_failover_enabled_def latency_env_def should_remove_def default_fallback_policy_def
      default_rate_limit_policy_def)

text \<open>One event of the dispatcher, as the task sees it after it received it.\<close>

definition ollama_limited :: "(ProviderEndpointKey, nat, unit, nat) rl_task" where
  "ollama_limited = on_rate_limit latency_env (rate_limit_event_new ollama_chat None) (rl_task_new 0)"

lemma ollama_limited_fields:
  "pending_restores ollama_limited = [\<lparr>r_key = ollama_key, r_endpoint = ollama_chat, r_deadline = 60 * nanos_per_sec\<rparr>]"
  "changes ollama_limited = [Remove ollama_key]" "rate_limited_providers ollama_limited = {ollama_key}"
  "outcome ollama_limited = None" "change_tx_open ollama_limited" "inbox ollama_limited = []" "clock ollama_limited = 0"
proof -
  have r: "restore_after (rl_policy latency_env) None = Some (60 * nanos_per_sec)"
    by (simp add: latency_env_def restore_after_def duration_add_def default_fallback_policy_def
        default_rate_limit_policy_def from_secs_def duration_max_def nanos_per_sec_def)
  have k: "create_key latency_env (rate_limit_event_new ollama_chat None) = Inr ollama_key"
    by (simp add: latency_env_def latency_key_for_event_def rate_limit_event_new_def api_endpoint_provider_def
        api_endpoint_type_def ollama_endpoint_type_def)
  show "pending_restores ollama_limited = [\<lparr>r_key = ollama_key, r_endpoint = ollama_chat, r_deadline = 60 * nanos_per_sec\<rparr>]"
    "changes ollama_limited = [Remove ollama_key]" "rate_limited_providers ollama_limited = {ollama_key}"
    "outcome ollama_limited = None" "change_tx_open ollama_limited" "inbox ollama_limited = []" "clock ollama_limited = 0"
    using r k by (simp_all add: ollama_limited_def on_rate_limit_def rl_decide_def Let_def rate_limit_event_new_def
        rl_task_new_def)
qed

lemma ollama_limited_reach: "rl_reach latency_env (rl_task_new 0) ollama_limited"
  unfolding ollama_limited_def by (rule rl_event_reach)

lemma ollama_limited_alive: "rl_alive ollama_limited"
  by (simp add: rl_alive_def ollama_limited_fields)

theorem rate_limit_pool_exact_witness: "\<not> last_change ollama_key (changes ollama_limited) True"
  using rate_limit_pool_exact [OF ollama_limited_reach ollama_limited_alive, of ollama_key]
  by (simp add: ollama_limited_fields)

text \<open>
  C9. A rate-limited provider comes back. From every reachable state of a running task, if the dispatchers
  can be built, some further steps restore every key: when the clock has reached the last deadline, no
  key is held out, the pool has them all, and no event was consumed for it.
\<close>

theorem rate_limit_restores:
  assumes "rl_reach env (rl_task_new t) s" and "change_tx_open s" and "outcome s = None"
    and "\<forall>p. \<exists>service. rl_dispatcher env p None = Inr service"
  shows "\<exists>s'. rl_reach env s s' \<and> rate_limited_providers s' = {} \<and> pending_restores s' = []
    \<and> (\<forall>k. last_change k (changes s') True) \<and> inbox s' = inbox s \<and> outcome s' = None"
proof -
  have alive: "rl_alive s" using assms(2,3) by (simp add: rl_alive_def)
  have inv: "rl_inv s" using rl_reach_live [OF assms(1) rl_inv_new alive] by blast
  obtain d where d: "\<forall>r \<in> set (pending_restores s). r_deadline r \<le> clock s + d"
  proof
    show "\<forall>r \<in> set (pending_restores s). r_deadline r \<le> clock s + sum_list (map r_deadline (pending_restores s))"
      using member_le_sum_list [of _ "map r_deadline (pending_restores s)"] by (auto intro: trans_le_add2)
  qed
  let ?s1 = "s\<lparr>clock := clock s + d\<rparr>"
  have e: "rl_step env s ?s1" by (rule rl_step.elapse)
  have i1: "rl_inv ?s1" using inv by (simp add: rl_inv_def)
  obtain s' where s': "(rl_step env ^^ length (pending_restores ?s1)) ?s1 s'" "pending_restores s' = []"
      "rate_limited_providers s' = {}" "change_tx_open s'" "outcome s' = None" "inbox s' = inbox ?s1"
    using drain_restores [OF i1, of env] assms(2-4) d by auto
  then have reach: "rl_reach env s s'" using e by (meson converse_rtranclp_into_rtranclp relpowp_imp_rtranclp)
  have "rl_alive s'" using s' by (simp add: rl_alive_def)
  with rl_reach_live [OF rtranclp_trans [OF assms(1) reach] rl_inv_new]
  have "(rl_live_step env)\<^sup>*\<^sup>* (rl_task_new t) s'" by blast
  from rate_limit_ledger.pool_exact(1) [OF this] s'(3) have "\<forall>k. last_change k (changes s') True"
    by (simp add: rl_task_new_def)
  with reach s' show ?thesis by auto
qed

theorem rate_limit_restores_witness:
  "\<exists>s'. rl_reach latency_env ollama_limited s' \<and> last_change ollama_key (changes s') True"
  using rate_limit_restores [OF ollama_limited_reach, simplified ollama_limited_fields]
  by (auto simp: latency_env_def)

text \<open>
  With rate-limit failover switched off the monitor never touches the pool, schedules nothing, logs
  nothing and never fails.
\<close>

theorem rate_limit_disabled_inert:
  assumes "rl_reach env (rl_task_new t) s"
    and "\<not> fp_enabled (rl_policy env) \<or> \<not> rl_enabled (rate_limit (provider_failover (rl_policy env)))"
  shows "changes s = [] \<and> pending_restores s = [] \<and> rl_decisions s = [] \<and> outcome s \<in> {None, Some (Inr ())}"
proof -
  have "\<not> is_rate_limit_failover_enabled env"
    using assms(2) by (auto simp: is_rate_limit_failover_enabled_def should_remove_def)
  from rl_reach_disabled [OF assms(1) this] show ?thesis by blast
qed

theorem rate_limit_disabled_inert_witness:
  "changes (on_rate_limit (latency_env\<lparr>rl_policy := default_fallback_policy\<lparr>fp_enabled := False\<rparr>\<rparr>)
     (rate_limit_event_new ollama_chat None) (rl_task_new 0)) = []"
  using rate_limit_disabled_inert [OF rl_event_reach [of "latency_env\<lparr>rl_policy := default_fallback_policy\<lparr>fp_enabled := False\<rparr>\<rparr>"
      0 "rate_limit_event_new ollama_chat None"]] by simp

text \<open>
  C20. One 429 stops a gateway that routes by model. The event that the dispatcher sends for it carries no
  model, so both model monitors fail on receiving it, before they have touched the pool, and a failed
  task is an error of \<open>run_forever\<close>.
\<close>

theorem model_rate_limit_fatal:
  assumes "rate_limit_tx x = Some []"
    and "handle_error_and_rate_limiting metrics parse_http_date wall 429 hs (Some e) x = Inr x'"
    and "rate_limit_tx x' = Some q"
    and "should_remove p RateLimit"
  shows "\<exists>w l. model_weighted_monitor D cfg p mk (rl_task_new t\<lparr>inbox := q\<rparr>) w
       \<and> outcome w = Some (Inl RlInternal) \<and> changes w = []
       \<and> model_latency_monitor p mk (rl_task_new t\<lparr>inbox := q\<rparr>) l
       \<and> outcome l = Some (Inl RlInternal) \<and> changes l = []
       \<and> rate_limit_join (the (outcome w)) = Inl (TaskFailed RlInternal)"
proof -
  let ?ev = "rate_limit_event_new e (extract_retry_after parse_http_date wall hs)"
  have q: "q = [?ev]" using assms(1-3) by (auto simp: handle_error_and_rate_limiting_def is_server_error_def)
  let ?s = "rl_task_new t\<lparr>inbox := q\<rparr>"
  let ?ew = "\<lparr>rl_policy = p, create_key = create_model_weighted_key D cfg, rl_dispatcher = mk\<rparr>"
    and ?el = "\<lparr>rl_policy = p, create_key = create_model_latency_key, rl_dispatcher = mk\<rparr>"
  have on: "is_rate_limit_failover_enabled ?ew" "is_rate_limit_failover_enabled ?el"
    using assms(4) by (simp_all add: is_rate_limit_failover_enabled_def)
  have "rl_step env ?s (on_rate_limit env ?ev (?s\<lparr>inbox := []\<rparr>))" for env
    by (rule rl_step.recv) (simp_all add: rl_task_new_def q)
  from this [of ?ew] this [of ?el] on show ?thesis
    unfolding model_weighted_monitor_def model_latency_monitor_def
    by (intro exI conjI) (auto simp: on_rate_limit_def model_keys_need_model rate_limit_join_def rl_task_new_def)
qed

theorem model_rate_limit_fatal_witness:
  "\<exists>l. model_latency_monitor default_fallback_policy ((\<lambda>_ _. Inr 7) :: (nat, unit, nat) make_dispatcher)
        (rl_task_new 0\<lparr>inbox := [rate_limit_event_new ollama_chat None]\<rparr>) l \<and> outcome l = Some (Inl RlInternal)"
proof -
  have h: "handle_error_and_rate_limiting (\<lambda>_. Inr ()) (\<lambda>_. None) 0 429 [] (Some ollama_chat)
      \<lparr>metric_increments = [], rate_limit_tx = Some ([] :: nat RateLimitEvent list)\<rparr>
    = Inr \<lparr>metric_increments = [], rate_limit_tx = Some [rate_limit_event_new ollama_chat None]\<rparr>"
    by (simp add: handle_error_and_rate_limiting_def is_server_error_def extract_retry_after_def header_str_def header_get_def)
  have p: "should_remove default_fallback_policy RateLimit"
    by (simp add: should_remove_def default_fallback_policy_def default_rate_limit_policy_def)
  show ?thesis
    using model_rate_limit_fatal [OF _ h _ p, of "[rate_limit_event_new ollama_chat None]" unit_decimal "[]" "\<lambda>_ _. Inr 7" 0]
    by auto
qed

text \<open>
  Starting the monitors. A tick starts every waiting monitor, each with the receiver of its own router,
  exactly if every one of these routers has a receiver; otherwise it fails and names the first router
  that has none. A router that registered its receiver and its monitor is therefore always started.
\<close>

theorem rate_limit_tick_starts:
  assumes "distinct (map fst (rate_limit_monitors s))"
  shows "rate_limit_tick s = (if \<forall>r \<in> fst ` set (rate_limit_monitors s). r \<in> dom (rate_limit_receivers s)
     then Inr (s\<lparr>rate_limit_monitors := [],
        rate_limit_receivers := (\<lambda>r. if r \<in> fst ` set (rate_limit_monitors s) then None else rate_limit_receivers s r),
        tasks := tasks s @ map (\<lambda>(r, mon). (r, mon, the (rate_limit_receivers s r))) (rate_limit_monitors s)\<rparr>)
     else Inl (RateLimitChannelsNotInitialized
       (fst (the (find (\<lambda>(r, _). r \<notin> dom (rate_limit_receivers s)) (rate_limit_monitors s))))))"
proof -
  have r: "rate_limit_receivers (s\<lparr>rate_limit_monitors := []\<rparr>) = rate_limit_receivers s"
    "tasks (s\<lparr>rate_limit_monitors := []\<rparr>) = tasks s" by simp_all
  show ?thesis unfolding rate_limit_tick_def start_monitors_ok [OF assms] r ..
qed

theorem rate_limit_tick_starts_witness:
  "(rate_limit_tick (add_router_rate_limit_monitor (1::nat) ''m'' (add_rate_limit_rx 1 ''rx''
      \<lparr>rate_limit_monitors = [], rate_limit_receivers = Map.empty, tasks = []\<rparr>)) :: ((nat, unit) run_error, _) result)
   = Inr \<lparr>rate_limit_monitors = [], rate_limit_receivers = Map.empty, tasks = [(1, ''m'', ''rx'')]\<rparr>"
  by (subst rate_limit_tick_starts)
    (auto simp: add_router_rate_limit_monitor_def add_rate_limit_rx_def hm_insert_def fun_eq_iff)

end
