(* ===== verification/Json.thy ===== *)
theory Json
  imports Gateway_Prelude
begin

text \<open>
  JSON values as \<open>serde_json::Value\<close> has them. An object is its list of members with distinct names; \<open>get\<close>
  looks a member up, \<open>insert\<close> replaces it or adds it, \<open>get_mut\<close> changes a member in place. The order of the
  members depends on how the library is built and no statement of this development rests on it.
  Numbers are kept as the library prints them.
\<close>

datatype json =
    JNull
  | JBool bool
  | JNumber string
  | JString string
  | JArray "json list"
  | JObject "(string \<times> json) list"

fun as_str :: "json \<Rightarrow> string option" where
  "as_str (JString s) = Some s"
| "as_str _ = None"

fun as_array :: "json \<Rightarrow> json list option" where
  "as_array (JArray xs) = Some xs"
| "as_array _ = None"

fun as_object :: "json \<Rightarrow> (string \<times> json) list option" where
  "as_object (JObject kvs) = Some kvs"
| "as_object _ = None"

definition obj_get :: "string \<Rightarrow> (string \<times> json) list \<Rightarrow> json option" where
  "obj_get k kvs = map_of kvs k"

fun obj_insert :: "string \<Rightarrow> json \<Rightarrow> (string \<times> json) list \<Rightarrow> (string \<times> json) list" where
  "obj_insert k v [] = [(k, v)]"
| "obj_insert k v ((k', v') # kvs) = (if k' = k then (k, v) # kvs else (k', v') # obj_insert k v kvs)"

text \<open>Changing the member \<open>k\<close> in place, if it exists.\<close>

fun obj_modify :: "string \<Rightarrow> (json \<Rightarrow> json) \<Rightarrow> (string \<times> json) list \<Rightarrow> (string \<times> json) list" where
  "obj_modify k f [] = []"
| "obj_modify k f ((k', v) # kvs) = (if k' = k then (k', f v) # kvs else (k', v) # obj_modify k f kvs)"

lemma as_Some_iff [simp]:
  "as_str j = Some s \<longleftrightarrow> j = JString s" "as_array j = Some xs \<longleftrightarrow> j = JArray xs"
  "as_object j = Some kvs \<longleftrightarrow> j = JObject kvs"
  by (cases j; simp)+

lemma obj_get_insert [simp]: "obj_get k (obj_insert k' v kvs) = (if k = k' then Some v else obj_get k kvs)"
  by (induction kvs) (auto simp: obj_get_def)

lemma obj_get_modify [simp]:
  "obj_get k (obj_modify k' f kvs) = (if k = k' then map_option f (obj_get k kvs) else obj_get k kvs)"
  by (induction kvs) (auto simp: obj_get_def)

lemma fst_obj_modify [simp]: "map fst (obj_modify k f kvs) = map fst kvs"
  by (induction kvs) auto

lemma fst_obj_insert: "fst ` set (obj_insert k v kvs) = insert k (fst ` set kvs)"
  by (induction k v kvs rule: obj_insert.induct) (simp_all add: insert_commute)

lemma distinct_obj_insert: "distinct (map fst kvs) \<Longrightarrow> distinct (map fst (obj_insert k v kvs))"
  by (induction k v kvs rule: obj_insert.induct) (auto simp: fst_obj_insert)

text \<open>A value occurs in another: as itself, as an element or as a member, at any depth.\<close>

inductive subvalue :: "json \<Rightarrow> json \<Rightarrow> bool" where
  here: "subvalue j j"
| element: "subvalue j x \<Longrightarrow> x \<in> set xs \<Longrightarrow> subvalue j (JArray xs)"
| member: "subvalue j x \<Longrightarrow> (k, x) \<in> set kvs \<Longrightarrow> subvalue j (JObject kvs)"

inductive_simps subvalue_simps:
  "subvalue j JNull" "subvalue j (JBool b)" "subvalue j (JNumber n)" "subvalue j (JString s)"
  "subvalue j (JArray xs)" "subvalue j (JObject kvs)"

end
