(* ===== verification/Chat_Normalize.thy ===== *)
theory Chat_Normalize
  imports Gateway_Prelude Json Endpoints
begin

text \<open>
  Repair of upstream answers before they are read into the strict types of the OpenAI client library
  (\<open>middleware/mapper/chat_completion_role_normalize.rs\<close>): unknown roles become \<open>assistant\<close>, and the
  required top-level members are filled in.
\<close>

subsection \<open>Roles\<close>

definition allowed_roles :: "string list" where
  "allowed_roles = [''system'', ''user'', ''assistant'', ''tool'', ''function'']"

record NormalizeRoleStats =
  empty_normalized :: nat
  unknown_normalized :: nat

definition no_stats :: NormalizeRoleStats where
  "no_stats = \<lparr>empty_normalized = 0, unknown_normalized = 0\<rparr>"

text \<open>What happens to one role string: its new value and the counters.\<close>

definition normalize_role :: "string \<Rightarrow> NormalizeRoleStats \<Rightarrow> string \<times> NormalizeRoleStats" where
  "normalize_role s st =
     (let trimmed = str_trim s
      in if trimmed = [] then (''assistant'', st\<lparr>empty_normalized := empty_normalized st + 1\<rparr>)
         else if trimmed \<in> set allowed_roles then (s, st)
         else (''assistant'', st\<lparr>unknown_normalized := unknown_normalized st + 1\<rparr>))"

text \<open>One element of \<open>choices\<close>: anything that has no string role in the container is left alone.\<close>

definition normalize_choice :: "string \<Rightarrow> json \<Rightarrow> NormalizeRoleStats \<Rightarrow> json \<times> NormalizeRoleStats" where
  "normalize_choice container choice st =
     (case choice of
        JObject ckvs \<Rightarrow>
          (case obj_get container ckvs of
             Some (JObject kvs) \<Rightarrow>
               (case obj_get ''role'' kvs of
                  Some (JString s) \<Rightarrow>
                    (let (s', st') = normalize_role s st
                     in (JObject (obj_modify container
                           (\<lambda>_. JObject (obj_modify ''role'' (\<lambda>_. JString s') kvs)) ckvs), st'))
                | _ \<Rightarrow> (choice, st))
           | _ \<Rightarrow> (choice, st))
      | _ \<Rightarrow> (choice, st))"

fun normalize_choices :: "string \<Rightarrow> json list \<Rightarrow> NormalizeRoleStats \<Rightarrow> json list \<times> NormalizeRoleStats" where
  "normalize_choices container [] st = ([], st)"
| "normalize_choices container (c # cs) st =
     (let (c', st1) = normalize_choice container c st; (cs', st2) = normalize_choices container cs st1
      in (c' # cs', st2))"

definition role_container :: "bool \<Rightarrow> string" where
  "role_container stream_chunk = (if stream_chunk then ''delta'' else ''message'')"

definition normalize_chat_completion_roles :: "json \<Rightarrow> bool \<Rightarrow> json \<times> NormalizeRoleStats" where
  "normalize_chat_completion_roles root stream_chunk =
     (case root of
        JObject kvs \<Rightarrow>
          (case obj_get ''choices'' kvs of
             Some (JArray choices) \<Rightarrow>
               (let (choices', st) = normalize_choices (role_container stream_chunk) choices no_stats
                in (JObject (obj_modify ''choices'' (\<lambda>_. JArray choices') kvs), st))
           | _ \<Rightarrow> (root, no_stats))
      | _ \<Rightarrow> (root, no_stats))"

definition original_role_max_chars :: nat where "original_role_max_chars = 64"

text \<open>The text of the log line.\<close>

definition truncate_original :: "string \<Rightarrow> nat \<Rightarrow> string" where
  "truncate_original s max_chars =
     (if length s > max_chars then take max_chars s @ ''...'' else s)"

subsection \<open>Required members\<close>

definition missing_or_empty :: "json option \<Rightarrow> bool" where
  "missing_or_empty v =
     (case v of None \<Rightarrow> True | Some JNull \<Rightarrow> True | Some (JString s) \<Rightarrow> s = [] | _ \<Rightarrow> False)"

definition missing_or_null :: "json option \<Rightarrow> bool" where
  "missing_or_null v = (case v of None \<Rightarrow> True | Some JNull \<Rightarrow> True | _ \<Rightarrow> False)"

definition patch_member :: "(json option \<Rightarrow> bool) \<Rightarrow> string \<Rightarrow> json \<Rightarrow> (string \<times> json) list \<Rightarrow> (string \<times> json) list" where
  "patch_member needs k v kvs = (if needs (obj_get k kvs) then obj_insert k v kvs else kvs)"

text \<open>\<open>uuid\<close> is the text of a fresh identifier and \<open>created\<close> the current second as the library prints it.\<close>

definition ensure_required_fields :: "string \<Rightarrow> string \<Rightarrow> bool \<Rightarrow> json \<Rightarrow> json" where
  "ensure_required_fields uuid created stream_chunk root =
     (case root of
        JObject kvs \<Rightarrow>
          (let kvs1 = patch_member missing_or_empty ''id'' (JString (''chatcmpl-'' @ uuid)) kvs;
               kvs2 = patch_member missing_or_null ''choices'' (JArray []) kvs1;
               kvs3 = patch_member missing_or_null ''created'' (JNumber created) kvs2;
               kvs4 = patch_member missing_or_empty ''model'' (JString []) kvs3;
               kvs5 = patch_member missing_or_empty ''object''
                 (JString (if stream_chunk then ''chat.completion.chunk'' else ''chat.completion'')) kvs4
           in JObject kvs5)
      | _ \<Rightarrow> root)"

definition lenient_openai_chat_roles_for_target_endpoint :: "ApiEndpoint \<Rightarrow> bool" where
  "lenient_openai_chat_roles_for_target_endpoint e =
     (case e of
        ApiOpenAI OaChatCompletions \<Rightarrow> True
      | ApiOpenAICompatible _ OaChatCompletions \<Rightarrow> True
      | _ \<Rightarrow> False)"

subsection \<open>Lemmas\<close>

text \<open>The string role of a choice, if it has one.\<close>

definition choice_role :: "string \<Rightarrow> json \<Rightarrow> string option" where
  "choice_role container c =
     Option.bind (Option.bind (as_object c) (obj_get container)) (\<lambda>m.
       Option.bind (Option.bind (as_object m) (obj_get ''role'')) as_str)"

definition chat_roles :: "bool \<Rightarrow> json \<Rightarrow> string list" where
  "chat_roles stream_chunk root =
     (case Option.bind (Option.bind (as_object root) (obj_get ''choices'')) as_array of
        None \<Rightarrow> []
      | Some cs \<Rightarrow> List.map_filter (choice_role (role_container stream_chunk)) cs)"

text \<open>The role that comes out, whatever the counters.\<close>

definition clean_role :: "string \<Rightarrow> string" where
  "clean_role s = (if str_trim s \<in> set allowed_roles then s else ''assistant'')"

lemma normalize_role_fst [simp]: "fst (normalize_role s st) = clean_role s"
  by (auto simp: normalize_role_def clean_role_def Let_def allowed_roles_def)

lemma str_trim_assistant [simp]: "str_trim ''assistant'' = ''assistant''"
  by code_simp

lemma str_trim_clean_role: "str_trim (clean_role s) \<in> set allowed_roles"
  by (auto simp: clean_role_def allowed_roles_def)

lemma clean_role_idem [simp]: "clean_role (clean_role s) = clean_role s"
  using str_trim_clean_role [of s] by (simp add: clean_role_def [of "clean_role s"])

definition clean_choice :: "string \<Rightarrow> json \<Rightarrow> json" where
  "clean_choice container c = fst (normalize_choice container c no_stats)"

lemma normalize_choice_fst: "fst (normalize_choice container c st) = clean_choice container c"
  by (auto simp: clean_choice_def normalize_choice_def case_prod_unfold Let_def split: json.splits option.splits)

lemma normalize_choices_fst: "fst (normalize_choices container cs st) = map (clean_choice container) cs"
  by (induction cs arbitrary: st) (simp_all add: case_prod_unfold Let_def normalize_choice_fst)

lemma choice_role_clean: "choice_role container (clean_choice container c) = map_option clean_role (choice_role container c)"
  by (auto simp: clean_choice_def normalize_choice_def choice_role_def case_prod_unfold Let_def
      split: json.splits option.splits)

lemma obj_modify_twice: "obj_modify k f (obj_modify k g kvs) = obj_modify k (\<lambda>v. f (g v)) kvs"
  by (induction kvs) auto

lemma obj_modify_id: "(\<And>v. obj_get k kvs = Some v \<Longrightarrow> f v = v) \<Longrightarrow> obj_modify k f kvs = kvs"
  by (induction kvs) (auto simp: obj_get_def split: if_splits)

lemma clean_choice_idem [simp]: "clean_choice container (clean_choice container c) = clean_choice container c"
  by (auto simp: clean_choice_def normalize_choice_def case_prod_unfold Let_def obj_modify_twice
      split: json.splits option.splits)

lemma normalize_roles_object:
  assumes "obj_get ''choices'' kvs = Some (JArray cs)"
  shows "fst (normalize_chat_completion_roles (JObject kvs) sc) =
    JObject (obj_modify ''choices'' (\<lambda>_. JArray (map (clean_choice (role_container sc)) cs)) kvs)"
  using assms by (simp add: normalize_chat_completion_roles_def case_prod_unfold Let_def normalize_choices_fst)

lemma chat_roles_normalized: "chat_roles sc (fst (normalize_chat_completion_roles root sc)) = map clean_role (chat_roles sc root)"
proof (cases "\<exists>kvs cs. root = JObject kvs \<and> obj_get ''choices'' kvs = Some (JArray cs)")
  case True
  then obtain kvs cs where r: "root = JObject kvs" "obj_get ''choices'' kvs = Some (JArray cs)" by blast
  have "List.map_filter (choice_role c) (map (clean_choice c) cs) = map clean_role (List.map_filter (choice_role c) cs)" for c
    by (induction cs) (auto simp: map_filter_simps choice_role_clean split: option.splits)
  then show ?thesis unfolding r(1) normalize_roles_object [OF r(2)] by (simp add: chat_roles_def r(2))
next
  case False
  then have "fst (normalize_chat_completion_roles root sc) = root" "chat_roles sc root = []"
    by (auto simp: normalize_chat_completion_roles_def chat_roles_def bind_eq_Some_conv
        split: json.splits option.splits)
  then show ?thesis by simp
qed

lemma normalize_role_stats:
  "empty_normalized (snd (normalize_role s st)) + unknown_normalized (snd (normalize_role s st)) =
     empty_normalized st + unknown_normalized st + (if str_trim s \<in> set allowed_roles then 0 else 1)"
  by (auto simp: normalize_role_def Let_def allowed_roles_def)

lemma normalize_choice_stats:
  "empty_normalized (snd (normalize_choice container c st)) + unknown_normalized (snd (normalize_choice container c st)) =
     empty_normalized st + unknown_normalized st
     + (case choice_role container c of None \<Rightarrow> 0 | Some s \<Rightarrow> if str_trim s \<in> set allowed_roles then 0 else 1)"
  using normalize_role_stats
  by (auto simp: normalize_choice_def choice_role_def case_prod_unfold Let_def split: json.splits option.splits)

lemma normalize_choices_stats:
  "empty_normalized (snd (normalize_choices container cs st)) + unknown_normalized (snd (normalize_choices container cs st)) =
     empty_normalized st + unknown_normalized st
     + length (filter (\<lambda>s. str_trim s \<notin> set allowed_roles) (List.map_filter (choice_role container) cs))"
proof (induction cs arbitrary: st)
  case (Cons c cs)
  show ?case
    using Cons.IH [of "snd (normalize_choice container c st)"] normalize_choice_stats [of container c st]
    by (auto simp: case_prod_unfold Let_def map_filter_simps split: option.splits)
qed (simp add: map_filter_simps)

lemma obj_get_patch:
  "obj_get k (patch_member needs k' v kvs) =
     (if k = k' \<and> needs (obj_get k' kvs) then Some v else obj_get k kvs)"
  by (simp add: patch_member_def)

text \<open>The members of the result, one by one.\<close>

lemma ensure_get:
  "obj_get k (the (as_object (ensure_required_fields uuid created sc (JObject kvs)))) =
     (if k = ''id'' \<and> missing_or_empty (obj_get ''id'' kvs) then Some (JString (''chatcmpl-'' @ uuid))
      else if k = ''choices'' \<and> missing_or_null (obj_get ''choices'' kvs) then Some (JArray [])
      else if k = ''created'' \<and> missing_or_null (obj_get ''created'' kvs) then Some (JNumber created)
      else if k = ''model'' \<and> missing_or_empty (obj_get ''model'' kvs) then Some (JString [])
      else if k = ''object'' \<and> missing_or_empty (obj_get ''object'' kvs)
        then Some (JString (if sc then ''chat.completion.chunk'' else ''chat.completion''))
      else obj_get k kvs)"
  unfolding ensure_required_fields_def Let_def by (simp add: obj_get_patch)

subsection \<open>Properties\<close>

text \<open>
  Role repair. Of an answer of any shape: the roles in the choices become, one for one, themselves when
  they are allowed up to surrounding blanks and \<open>assistant\<close> otherwise; the counters count the roles that
  were changed; and repairing twice is the same as repairing once. A role with blanks around it is kept
  with its blanks.
\<close>

theorem role_repair:
  "chat_roles sc (fst (normalize_chat_completion_roles root sc)) = map clean_role (chat_roles sc root)
   \<and> empty_normalized (snd (normalize_chat_completion_roles root sc))
       + unknown_normalized (snd (normalize_chat_completion_roles root sc))
     = length (filter (\<lambda>s. str_trim s \<notin> set allowed_roles) (chat_roles sc root))
   \<and> fst (normalize_chat_completion_roles (fst (normalize_chat_completion_roles root sc)) sc)
     = fst (normalize_chat_completion_roles root sc)
   \<and> clean_role '' user'' = '' user''"
proof (intro conjI)
  show "chat_roles sc (fst (normalize_chat_completion_roles root sc)) = map clean_role (chat_roles sc root)"
    by (rule chat_roles_normalized)
  show "empty_normalized (snd (normalize_chat_completion_roles root sc))
      + unknown_normalized (snd (normalize_chat_completion_roles root sc))
    = length (filter (\<lambda>s. str_trim s \<notin> set allowed_roles) (chat_roles sc root))"
    using normalize_choices_stats [of "role_container sc" _ no_stats]
    by (auto simp: normalize_chat_completion_roles_def chat_roles_def case_prod_unfold Let_def no_stats_def
        bind_eq_Some_conv split: json.splits option.splits)
  show "fst (normalize_chat_completion_roles (fst (normalize_chat_completion_roles root sc)) sc)
    = fst (normalize_chat_completion_roles root sc)"
  proof (cases "\<exists>kvs cs. root = JObject kvs \<and> obj_get ''choices'' kvs = Some (JArray cs)")
    case True
    then obtain kvs cs where r: "root = JObject kvs" "obj_get ''choices'' kvs = Some (JArray cs)" by blast
    let ?kvs' = "obj_modify ''choices'' (\<lambda>_. JArray (map (clean_choice (role_container sc)) cs)) kvs"
    have "obj_get ''choices'' ?kvs' = Some (JArray (map (clean_choice (role_container sc)) cs))" using r(2) by simp
    from normalize_roles_object [OF this, of sc] show ?thesis
      unfolding r(1) normalize_roles_object [OF r(2)] by (simp add: obj_modify_twice o_def)
  qed (auto simp: normalize_chat_completion_roles_def split: json.splits option.splits)
  show "clean_role '' user'' = '' user''" by code_simp
qed

text \<open>
  C21. Completion of required members. For an object the result is an object whose \<open>id\<close>, \<open>choices\<close>, \<open>created\<close>
  and \<open>object\<close> are present and neither null nor an empty text, and whose \<open>model\<close> is present and not null;
  every member that was already usable keeps its value, no other member changes, and a second
  completion changes nothing that can be observed.
\<close>

theorem required_members_present:
  assumes "root = JObject kvs"
    and "get = (\<lambda>k. obj_get k (the (as_object (ensure_required_fields uuid created sc root))))"
    and "get2 = (\<lambda>k. obj_get k (the (as_object (ensure_required_fields uuid' created' sc
            (ensure_required_fields uuid created sc root)))))"
  shows "\<not> missing_or_empty (get ''id'') \<and> \<not> missing_or_null (get ''choices'') \<and> \<not> missing_or_null (get ''created'')
    \<and> \<not> missing_or_null (get ''model'') \<and> \<not> missing_or_empty (get ''object'')
    \<and> (\<not> missing_or_empty (obj_get k kvs) \<longrightarrow> get k = obj_get k kvs)
    \<and> (k \<notin> {''id'', ''choices'', ''created'', ''model'', ''object''} \<longrightarrow> get k = obj_get k kvs)
    \<and> get2 k = get k"
proof -
  obtain kvs' where e: "ensure_required_fields uuid created sc root = JObject kvs'"
    by (simp add: assms(1) ensure_required_fields_def Let_def)
  have g: "get k = obj_get k kvs'" for k by (simp add: assms(2) e)
  have g1: "obj_get k kvs' = (if k = ''id'' \<and> missing_or_empty (obj_get ''id'' kvs) then Some (JString (''chatcmpl-'' @ uuid))
      else if k = ''choices'' \<and> missing_or_null (obj_get ''choices'' kvs) then Some (JArray [])
      else if k = ''created'' \<and> missing_or_null (obj_get ''created'' kvs) then Some (JNumber created)
      else if k = ''model'' \<and> missing_or_empty (obj_get ''model'' kvs) then Some (JString [])
      else if k = ''object'' \<and> missing_or_empty (obj_get ''object'' kvs)
        then Some (JString (if sc then ''chat.completion.chunk'' else ''chat.completion''))
      else obj_get k kvs)" for k
    using ensure_get [of k uuid created sc kvs] e by (simp add: assms(1))
  have n: "missing_or_null v \<Longrightarrow> missing_or_empty v" for v
    by (simp add: missing_or_null_def missing_or_empty_def split: option.splits json.splits)
  have k: "\<not> missing_or_empty (get ''id'')" "\<not> missing_or_null (get ''choices'')" "\<not> missing_or_null (get ''created'')"
    "\<not> missing_or_null (get ''model'')" "\<not> missing_or_empty (get ''object'')"
    using n by (auto simp: g g1 missing_or_empty_def missing_or_null_def)
  have "missing_or_empty (get ''model'') \<Longrightarrow> get ''model'' = Some (JString [])"
    using n by (auto simp: g g1 missing_or_empty_def missing_or_null_def split: if_splits)
  then have "get2 k = get k"
    unfolding assms(3) e ensure_get using k by (auto simp: g)
  moreover have "get k = obj_get k kvs" if a: "\<not> missing_or_empty (obj_get k kvs)"
  proof -
    have at: "(k = c \<and> P (obj_get c kvs)) \<longleftrightarrow> k = c \<and> P (obj_get k kvs)" for c P by auto
    have "\<not> missing_or_null (obj_get k kvs)" using n a by blast
    with a show ?thesis
      unfolding g g1 at [of "''id''" missing_or_empty] at [of "''choices''" missing_or_null]
        at [of "''created''" missing_or_null] at [of "''model''" missing_or_empty] at [of "''object''" missing_or_empty]
      by simp
  qed
  moreover have "k \<notin> {''id'', ''choices'', ''created'', ''model'', ''object''} \<Longrightarrow> get k = obj_get k kvs" by (simp add: g g1)
  ultimately show ?thesis using k by blast
qed

theorem required_members_present_witness:
  "\<not> missing_or_null (obj_get ''choices'' (the (as_object
     (ensure_required_fields ''u'' ''0'' False (JObject [(''id'', JNull)])))))"
  by (rule required_members_present [OF refl refl refl, THEN conjunct2, THEN conjunct1])

end
