(* ===== verification/Mapper_Profiles.thy ===== *)
theory Mapper_Profiles
  imports Gateway_Prelude Json Providers Model_Id Endpoints
begin

text \<open>
  How a request is adapted to what a provider can do. A catalogue of profiles in three layers (protocol
  family, provider, model; \<open>config/mapper_profiles.rs\<close> with the embedded
  \<open>config/embedded/mapper-profiles.yaml\<close>) is resolved into capabilities, rules and a profile
  (\<open>middleware/mapper/profile_resolver.rs\<close>), checked (\<open>rule_validator.rs\<close>) and applied to a chat request
  (\<open>request_rule_engine.rs\<close>, \<open>non_stream_request_interpreter.rs\<close>). The types are those of \<open>families.rs\<close>,
  \<open>capabilities.rs\<close>, \<open>rules.rs\<close>, \<open>non_stream_profile.rs\<close>, \<open>envelope.rs\<close> and \<open>params.rs\<close>.

  A missing member of a family baseline is a panic of the code, here \<open>None\<close>.
\<close>

subsection \<open>Modes, rules and profiles\<close>

datatype ProviderProtocolFamily =
  OpenAiCompatible | AnthropicMessages | BedrockConverse | GeminiOpenAiLike | OllamaChat

definition family_for_provider :: "InferenceProvider \<Rightarrow> ProviderProtocolFamily" where
  "family_for_provider p =
     (case p of
        OpenAI \<Rightarrow> OpenAiCompatible | Custom \<Rightarrow> OpenAiCompatible | Named _ \<Rightarrow> OpenAiCompatible
      | Anthropic \<Rightarrow> AnthropicMessages
      | Bedrock \<Rightarrow> BedrockConverse
      | GoogleGemini \<Rightarrow> GeminiOpenAiLike
      | Ollama \<Rightarrow> OllamaChat)"

datatype SystemHandling = Ignore | Merge | FirstClassField
datatype ToolChoiceMode = TcNative | MapToAny | MapToTool | TcUnsupported
datatype ResponseFormatMode = RfPassthrough | RfUnsupported | RfProviderSpecificHelper
datatype ReasoningMode = RmPassthrough | MapToThinking | MapToAdditionalFields | RmUnsupported
datatype MultimodalMode = MmOpenAiStyle | ContentBlocks | ImagesOnly | MmUnsupported
datatype FinishReasonMapping = FrPassthrough | FrProviderSpecific
datatype ToolCallMapping = TmNative | TmProviderSpecific
datatype UsageMapping = UmPassthrough | UmProviderSpecific
datatype StreamMode = OpenAiSse | AnthropicEvents | BedrockEventStream
datatype MessageContentMode = McOpenAiStyle | AnthropicBlocks | BedrockContent
datatype ResponseContentMode = RcPassthrough | AnthropicMessageContent | BedrockOutputMessage
datatype ToolCallMappingMode = TcmNative | TcmProviderSpecificHelper
datatype FinishReasonMappingMode = FrmPassthrough | FrmProviderSpecificHelper
datatype UsageMappingMode = UsmPassthrough | UsmProviderSpecificHelper

record ProviderCapabilities =
  cap_provider :: InferenceProvider
  openai_compatible :: bool
  supports_response_format :: bool
  supports_tool_choice :: bool
  supports_parallel_tool_calls :: bool
  supports_thinking :: bool
  supports_streaming_reasoning :: bool

record ProviderRequestRuleSet =
  rr_system_handling :: SystemHandling
  rr_tool_choice_mode :: ToolChoiceMode
  rr_response_format_mode :: ResponseFormatMode
  rr_reasoning_mode :: ReasoningMode
  rr_multimodal_mode :: MultimodalMode

record ProviderResponseRuleSet =
  finish_reason_mapping :: FinishReasonMapping
  tool_call_mapping :: ToolCallMapping
  usage_mapping :: UsageMapping

record ProviderRuleSet =
  pr_provider :: InferenceProvider
  pr_family :: ProviderProtocolFamily
  pr_request :: ProviderRequestRuleSet
  pr_response :: ProviderResponseRuleSet
  pr_stream_mode :: StreamMode

record RequestProfile =
  rp_system_handling :: SystemHandling
  rp_message_content_mode :: MessageContentMode
  rp_tool_choice_mode :: ToolChoiceMode
  rp_response_format_mode :: ResponseFormatMode
  rp_reasoning_mode :: ReasoningMode
  rp_multimodal_mode :: MultimodalMode

record ResponseProfile =
  sp_content_mode :: ResponseContentMode
  sp_tool_call_mapping_mode :: ToolCallMappingMode
  sp_finish_reason_mapping_mode :: FinishReasonMappingMode
  sp_usage_mapping_mode :: UsageMappingMode

record NonStreamFormatProfile =
  np_provider :: InferenceProvider
  np_family :: ProviderProtocolFamily
  np_request :: RequestProfile
  np_response :: ResponseProfile

record ResolvedMapperMetadata =
  md_capabilities :: ProviderCapabilities
  md_rules :: ProviderRuleSet
  md_profile :: NonStreamFormatProfile

record RequestRuleContext =
  cx_provider :: InferenceProvider
  cx_family :: ProviderProtocolFamily
  cx_system_handling :: SystemHandling
  cx_tool_choice_mode :: ToolChoiceMode
  cx_response_format_mode :: ResponseFormatMode
  cx_reasoning_mode :: ReasoningMode
  cx_multimodal_mode :: MultimodalMode
  cx_supports_parallel_tool_calls :: bool

subsection \<open>The catalogue\<close>

record MapperCapabilitiesPatch =
  cp_openai_compatible :: "bool option"
  cp_supports_response_format :: "bool option"
  cp_supports_tool_choice :: "bool option"
  cp_supports_parallel_tool_calls :: "bool option"
  cp_supports_thinking :: "bool option"
  cp_supports_streaming_reasoning :: "bool option"

record RequestProfilePatch =
  qp_system_handling :: "SystemHandling option"
  qp_message_content_mode :: "MessageContentMode option"
  qp_tool_choice_mode :: "ToolChoiceMode option"
  qp_response_format_mode :: "ResponseFormatMode option"
  qp_reasoning_mode :: "ReasoningMode option"
  qp_multimodal_mode :: "MultimodalMode option"

record ResponseProfilePatch =
  xp_content_mode :: "ResponseContentMode option"
  xp_tool_call_mapping_mode :: "ToolCallMappingMode option"
  xp_finish_reason_mapping_mode :: "FinishReasonMappingMode option"
  xp_usage_mapping_mode :: "UsageMappingMode option"

record MapperProfileCatalogEntry =
  en_family :: "ProviderProtocolFamily option"
  en_capabilities :: "MapperCapabilitiesPatch option"
  en_request :: "RequestProfilePatch option"
  en_response :: "ResponseProfilePatch option"
  en_stream :: "StreamMode option option"

record MapperProfilesConfig =
  family_defaults :: "ProviderProtocolFamily \<rightharpoonup> MapperProfileCatalogEntry"
  provider_defaults :: "InferenceProvider \<rightharpoonup> MapperProfileCatalogEntry"
  model_overrides :: "string \<rightharpoonup> MapperProfileCatalogEntry"

subsection \<open>From a family baseline\<close>

definition finish_reason_mapping_from_mode :: "FinishReasonMappingMode \<Rightarrow> FinishReasonMapping" where
  "finish_reason_mapping_from_mode m =
     (case m of FrmPassthrough \<Rightarrow> FrPassthrough | FrmProviderSpecificHelper \<Rightarrow> FrProviderSpecific)"

definition tool_call_mapping_from_mode :: "ToolCallMappingMode \<Rightarrow> ToolCallMapping" where
  "tool_call_mapping_from_mode m =
     (case m of TcmNative \<Rightarrow> TmNative | TcmProviderSpecificHelper \<Rightarrow> TmProviderSpecific)"

definition usage_mapping_from_mode :: "UsageMappingMode \<Rightarrow> UsageMapping" where
  "usage_mapping_from_mode m =
     (case m of UsmPassthrough \<Rightarrow> UmPassthrough | UsmProviderSpecificHelper \<Rightarrow> UmProviderSpecific)"

definition provider_capabilities_from_patch ::
  "InferenceProvider \<Rightarrow> MapperCapabilitiesPatch \<Rightarrow> ProviderCapabilities option" where
  "provider_capabilities_from_patch p patch =
     Option.bind (cp_openai_compatible patch) (\<lambda>a.
     Option.bind (cp_supports_response_format patch) (\<lambda>b.
     Option.bind (cp_supports_tool_choice patch) (\<lambda>c.
     Option.bind (cp_supports_parallel_tool_calls patch) (\<lambda>d.
     Option.bind (cp_supports_thinking patch) (\<lambda>e.
     Option.bind (cp_supports_streaming_reasoning patch) (\<lambda>f.
       Some \<lparr>cap_provider = p, openai_compatible = a, supports_response_format = b, supports_tool_choice = c,
             supports_parallel_tool_calls = d, supports_thinking = e, supports_streaming_reasoning = f\<rparr>))))))"

definition provider_rules_from_patches ::
  "InferenceProvider \<Rightarrow> ProviderProtocolFamily \<Rightarrow> RequestProfilePatch \<Rightarrow> ResponseProfilePatch \<Rightarrow> StreamMode option
     \<Rightarrow> ProviderRuleSet option" where
  "provider_rules_from_patches p fam rq rs st =
     Option.bind (qp_system_handling rq) (\<lambda>a.
     Option.bind (qp_tool_choice_mode rq) (\<lambda>b.
     Option.bind (qp_response_format_mode rq) (\<lambda>c.
     Option.bind (qp_reasoning_mode rq) (\<lambda>d.
     Option.bind (qp_multimodal_mode rq) (\<lambda>e.
     Option.bind (xp_finish_reason_mapping_mode rs) (\<lambda>f.
     Option.bind (xp_tool_call_mapping_mode rs) (\<lambda>g.
     Option.bind (xp_usage_mapping_mode rs) (\<lambda>h.
     Option.bind st (\<lambda>i.
       Some \<lparr>pr_provider = p, pr_family = fam,
             pr_request = \<lparr>rr_system_handling = a, rr_tool_choice_mode = b, rr_response_format_mode = c,
                           rr_reasoning_mode = d, rr_multimodal_mode = e\<rparr>,
             pr_response = \<lparr>finish_reason_mapping = finish_reason_mapping_from_mode f,
                            tool_call_mapping = tool_call_mapping_from_mode g,
                            usage_mapping = usage_mapping_from_mode h\<rparr>,
             pr_stream_mode = i\<rparr>)))))))))"

definition non_stream_profile_from_patches ::
  "InferenceProvider \<Rightarrow> ProviderProtocolFamily \<Rightarrow> RequestProfilePatch \<Rightarrow> ResponseProfilePatch
     \<Rightarrow> NonStreamFormatProfile option" where
  "non_stream_profile_from_patches p fam rq rs =
     Option.bind (qp_system_handling rq) (\<lambda>a.
     Option.bind (qp_message_content_mode rq) (\<lambda>b.
     Option.bind (qp_tool_choice_mode rq) (\<lambda>c.
     Option.bind (qp_response_format_mode rq) (\<lambda>d.
     Option.bind (qp_reasoning_mode rq) (\<lambda>e.
     Option.bind (qp_multimodal_mode rq) (\<lambda>f.
     Option.bind (xp_content_mode rs) (\<lambda>g.
     Option.bind (xp_tool_call_mapping_mode rs) (\<lambda>h.
     Option.bind (xp_finish_reason_mapping_mode rs) (\<lambda>i.
     Option.bind (xp_usage_mapping_mode rs) (\<lambda>j.
       Some \<lparr>np_provider = p, np_family = fam,
             np_request = \<lparr>rp_system_handling = a, rp_message_content_mode = b, rp_tool_choice_mode = c,
                           rp_response_format_mode = d, rp_reasoning_mode = e, rp_multimodal_mode = f\<rparr>,
             np_response = \<lparr>sp_content_mode = g, sp_tool_call_mapping_mode = h,
                            sp_finish_reason_mapping_mode = i, sp_usage_mapping_mode = j\<rparr>\<rparr>))))))))))"

definition resolved_from_family_entry ::
  "InferenceProvider \<Rightarrow> ProviderProtocolFamily \<Rightarrow> MapperProfileCatalogEntry \<Rightarrow> ResolvedMapperMetadata option" where
  "resolved_from_family_entry p fam entry =
     Option.bind (en_capabilities entry) (\<lambda>cp.
     Option.bind (en_request entry) (\<lambda>rq.
     Option.bind (en_response entry) (\<lambda>rs.
     Option.bind (en_stream entry) (\<lambda>st.
     Option.bind (provider_capabilities_from_patch p cp) (\<lambda>c.
     Option.bind (provider_rules_from_patches p fam rq rs st) (\<lambda>r.
     Option.bind (non_stream_profile_from_patches p fam rq rs) (\<lambda>n.
       Some \<lparr>md_capabilities = c, md_rules = r, md_profile = n\<rparr>)))))))"

subsection \<open>Patches\<close>

text \<open>\<open>if let Some(value) = patch.field\<close>: set when present.\<close>

definition patch_with :: "'a option \<Rightarrow> ('a \<Rightarrow> 'r \<Rightarrow> 'r) \<Rightarrow> 'r \<Rightarrow> 'r" where
  "patch_with v set_it r = (case v of None \<Rightarrow> r | Some x \<Rightarrow> set_it x r)"

lemma patch_with_simps [simp]: "patch_with None f r = r" "patch_with (Some x) f r = f x r"
  by (simp_all add: patch_with_def)

definition apply_capabilities_patch :: "MapperCapabilitiesPatch \<Rightarrow> ProviderCapabilities \<Rightarrow> ProviderCapabilities" where
  "apply_capabilities_patch p c =
     patch_with (cp_supports_streaming_reasoning p) (\<lambda>v. supports_streaming_reasoning_update (\<lambda>_. v))
    (patch_with (cp_supports_thinking p) (\<lambda>v. supports_thinking_update (\<lambda>_. v))
    (patch_with (cp_supports_parallel_tool_calls p) (\<lambda>v. supports_parallel_tool_calls_update (\<lambda>_. v))
    (patch_with (cp_supports_tool_choice p) (\<lambda>v. supports_tool_choice_update (\<lambda>_. v))
    (patch_with (cp_supports_response_format p) (\<lambda>v. supports_response_format_update (\<lambda>_. v))
    (patch_with (cp_openai_compatible p) (\<lambda>v. openai_compatible_update (\<lambda>_. v)) c)))))"

text \<open>Updates of the two copies that the metadata keeps.\<close>

definition set_rule_request :: "(ProviderRequestRuleSet \<Rightarrow> ProviderRequestRuleSet) \<Rightarrow> ResolvedMapperMetadata \<Rightarrow> ResolvedMapperMetadata" where
  "set_rule_request f = md_rules_update (pr_request_update f)"

definition set_profile_request :: "(RequestProfile \<Rightarrow> RequestProfile) \<Rightarrow> ResolvedMapperMetadata \<Rightarrow> ResolvedMapperMetadata" where
  "set_profile_request f = md_profile_update (np_request_update f)"

definition set_rule_response :: "(ProviderResponseRuleSet \<Rightarrow> ProviderResponseRuleSet) \<Rightarrow> ResolvedMapperMetadata \<Rightarrow> ResolvedMapperMetadata" where
  "set_rule_response f = md_rules_update (pr_response_update f)"

definition set_profile_response :: "(ResponseProfile \<Rightarrow> ResponseProfile) \<Rightarrow> ResolvedMapperMetadata \<Rightarrow> ResolvedMapperMetadata" where
  "set_profile_response f = md_profile_update (np_response_update f)"

definition apply_request_patch :: "RequestProfilePatch \<Rightarrow> ResolvedMapperMetadata \<Rightarrow> ResolvedMapperMetadata" where
  "apply_request_patch p md =
     patch_with (qp_multimodal_mode p) (\<lambda>v m. set_profile_request (rp_multimodal_mode_update (\<lambda>_. v))
       (set_rule_request (rr_multimodal_mode_update (\<lambda>_. v)) m))
    (patch_with (qp_reasoning_mode p) (\<lambda>v m. set_profile_request (rp_reasoning_mode_update (\<lambda>_. v))
       (set_rule_request (rr_reasoning_mode_update (\<lambda>_. v)) m))
    (patch_with (qp_response_format_mode p) (\<lambda>v m. set_profile_request (rp_response_format_mode_update (\<lambda>_. v))
       (set_rule_request (rr_response_format_mode_update (\<lambda>_. v)) m))
    (patch_with (qp_tool_choice_mode p) (\<lambda>v m. set_profile_request (rp_tool_choice_mode_update (\<lambda>_. v))
       (set_rule_request (rr_tool_choice_mode_update (\<lambda>_. v)) m))
    (patch_with (qp_message_content_mode p) (\<lambda>v. set_profile_request (rp_message_content_mode_update (\<lambda>_. v)))
    (patch_with (qp_system_handling p) (\<lambda>v m. set_profile_request (rp_system_handling_update (\<lambda>_. v))
       (set_rule_request (rr_system_handling_update (\<lambda>_. v)) m)) md)))))"

definition apply_response_patch :: "ResponseProfilePatch \<Rightarrow> ResolvedMapperMetadata \<Rightarrow> ResolvedMapperMetadata" where
  "apply_response_patch p md =
     patch_with (xp_usage_mapping_mode p) (\<lambda>v m. set_profile_response (sp_usage_mapping_mode_update (\<lambda>_. v))
       (set_rule_response (usage_mapping_update (\<lambda>_. usage_mapping_from_mode v)) m))
    (patch_with (xp_finish_reason_mapping_mode p) (\<lambda>v m. set_profile_response (sp_finish_reason_mapping_mode_update (\<lambda>_. v))
       (set_rule_response (finish_reason_mapping_update (\<lambda>_. finish_reason_mapping_from_mode v)) m))
    (patch_with (xp_tool_call_mapping_mode p) (\<lambda>v m. set_profile_response (sp_tool_call_mapping_mode_update (\<lambda>_. v))
       (set_rule_response (tool_call_mapping_update (\<lambda>_. tool_call_mapping_from_mode v)) m))
    (patch_with (xp_content_mode p) (\<lambda>v. set_profile_response (sp_content_mode_update (\<lambda>_. v))) md)))"

definition apply_stream_patch :: "StreamMode option \<Rightarrow> ProviderRuleSet \<Rightarrow> ProviderRuleSet" where
  "apply_stream_patch p r = patch_with p (\<lambda>v. pr_stream_mode_update (\<lambda>_. v)) r"

definition apply_catalog_entry :: "MapperProfileCatalogEntry option \<Rightarrow> ResolvedMapperMetadata \<Rightarrow> ResolvedMapperMetadata" where
  "apply_catalog_entry entry md =
     (case entry of
        None \<Rightarrow> md
      | Some e \<Rightarrow>
          patch_with (en_stream e) (\<lambda>st. md_rules_update (apply_stream_patch st))
         (patch_with (en_response e) apply_response_patch
         (patch_with (en_request e) apply_request_patch
         (patch_with (en_capabilities e) (\<lambda>cp. md_capabilities_update (apply_capabilities_patch cp)) md))))"

subsection \<open>Validation and resolution\<close>

datatype ProviderRuleValidationError =
    FamilyCapabilityMismatch InferenceProvider ProviderProtocolFamily bool
  | ReasoningCapabilityMismatch InferenceProvider ReasoningMode
  | ResponseFormatCapabilityMismatch InferenceProvider ResponseFormatMode
  | ToolChoiceCapabilityMismatch InferenceProvider ToolChoiceMode

definition validate_provider_rules ::
  "ProviderCapabilities \<Rightarrow> ProviderRuleSet \<Rightarrow> (ProviderRuleValidationError, unit) result" where
  "validate_provider_rules c r =
     (let family_is_openai_compatible = pr_family r \<in> {OpenAiCompatible, GeminiOpenAiLike, OllamaChat};
          reasoning = rr_reasoning_mode (pr_request r)
      in if family_is_openai_compatible \<noteq> openai_compatible c
            \<and> \<not> (pr_family r = GeminiOpenAiLike \<and> cap_provider c = GoogleGemini)
            \<and> \<not> (pr_family r = OllamaChat \<and> cap_provider c = Ollama)
         then Err (FamilyCapabilityMismatch (cap_provider c) (pr_family r) (openai_compatible c))
         else if reasoning \<in> {MapToThinking, MapToAdditionalFields, RmPassthrough}
            \<and> \<not> supports_thinking c \<and> \<not> reasoning \<in> {RmPassthrough}
         then Err (ReasoningCapabilityMismatch (cap_provider c) reasoning)
         else if \<not> supports_response_format c \<and> rr_response_format_mode (pr_request r) \<noteq> RfUnsupported
         then Err (ResponseFormatCapabilityMismatch (cap_provider c) (rr_response_format_mode (pr_request r)))
         else if \<not> supports_tool_choice c \<and> rr_tool_choice_mode (pr_request r) \<noteq> TcUnsupported
         then Err (ToolChoiceCapabilityMismatch (cap_provider c) (rr_tool_choice_mode (pr_request r)))
         else Ok ())"

text \<open>The family, and the metadata; \<open>None\<close> is a panic.\<close>

definition resolve_family ::
  "MapperProfilesConfig \<Rightarrow> InferenceProvider \<Rightarrow> string option \<Rightarrow> ProviderProtocolFamily" where
  "resolve_family cfg p model =
     (case Option.bind (Option.bind model (model_overrides cfg)) en_family of
        Some f \<Rightarrow> f
      | None \<Rightarrow> (case Option.bind (provider_defaults cfg p) en_family of
                  Some f \<Rightarrow> f | None \<Rightarrow> family_for_provider p))"

definition resolve_mapper_metadata_from_config ::
  "MapperProfilesConfig \<Rightarrow> InferenceProvider \<Rightarrow> string option
     \<Rightarrow> (ProviderRuleValidationError, ResolvedMapperMetadata) result option" where
  "resolve_mapper_metadata_from_config cfg p model =
     (let provider_entry = provider_defaults cfg p;
          model_entry = Option.bind model (model_overrides cfg);
          fam = resolve_family cfg p model
      in Option.bind (family_defaults cfg fam) (\<lambda>family_entry.
         Option.bind (resolved_from_family_entry p fam family_entry) (\<lambda>md0.
           let md = apply_catalog_entry model_entry (apply_catalog_entry provider_entry md0)
           in Some (try_bind (validate_provider_rules (md_capabilities md) (md_rules md)) (\<lambda>_. Ok md)))))"

subsection \<open>The embedded catalogue\<close>

definition full_capabilities :: "bool \<Rightarrow> bool \<Rightarrow> bool \<Rightarrow> bool \<Rightarrow> bool \<Rightarrow> bool \<Rightarrow> MapperCapabilitiesPatch" where
  "full_capabilities a b c d e f =
     \<lparr>cp_openai_compatible = Some a, cp_supports_response_format = Some b, cp_supports_tool_choice = Some c,
      cp_supports_parallel_tool_calls = Some d, cp_supports_thinking = Some e, cp_supports_streaming_reasoning = Some f\<rparr>"

definition full_request ::
  "SystemHandling \<Rightarrow> MessageContentMode \<Rightarrow> ToolChoiceMode \<Rightarrow> ResponseFormatMode \<Rightarrow> ReasoningMode \<Rightarrow> MultimodalMode
     \<Rightarrow> RequestProfilePatch" where
  "full_request a b c d e f =
     \<lparr>qp_system_handling = Some a, qp_message_content_mode = Some b, qp_tool_choice_mode = Some c,
      qp_response_format_mode = Some d, qp_reasoning_mode = Some e, qp_multimodal_mode = Some f\<rparr>"

definition passthrough_response :: ResponseProfilePatch where
  "passthrough_response =
     \<lparr>xp_content_mode = Some RcPassthrough, xp_tool_call_mapping_mode = Some TcmNative,
      xp_finish_reason_mapping_mode = Some FrmPassthrough, xp_usage_mapping_mode = Some UsmPassthrough\<rparr>"

definition helper_response :: "ResponseContentMode \<Rightarrow> ResponseProfilePatch" where
  "helper_response c =
     \<lparr>xp_content_mode = Some c, xp_tool_call_mapping_mode = Some TcmProviderSpecificHelper,
      xp_finish_reason_mapping_mode = Some FrmProviderSpecificHelper,
      xp_usage_mapping_mode = Some UsmProviderSpecificHelper\<rparr>"

definition no_capabilities :: MapperCapabilitiesPatch where
  "no_capabilities =
     \<lparr>cp_openai_compatible = None, cp_supports_response_format = None, cp_supports_tool_choice = None,
      cp_supports_parallel_tool_calls = None, cp_supports_thinking = None, cp_supports_streaming_reasoning = None\<rparr>"

definition no_request :: RequestProfilePatch where
  "no_request =
     \<lparr>qp_system_handling = None, qp_message_content_mode = None, qp_tool_choice_mode = None,
      qp_response_format_mode = None, qp_reasoning_mode = None, qp_multimodal_mode = None\<rparr>"

definition baseline ::
  "ProviderProtocolFamily \<Rightarrow> MapperCapabilitiesPatch \<Rightarrow> RequestProfilePatch \<Rightarrow> ResponseProfilePatch \<Rightarrow> StreamMode
     \<Rightarrow> MapperProfileCatalogEntry" where
  "baseline fam c rq rs st =
     \<lparr>en_family = Some fam, en_capabilities = Some c, en_request = Some rq, en_response = Some rs,
      en_stream = Some (Some st)\<rparr>"

definition embedded_family_defaults :: "ProviderProtocolFamily \<rightharpoonup> MapperProfileCatalogEntry" where
  "embedded_family_defaults = map_of
     [(OpenAiCompatible, baseline OpenAiCompatible (full_capabilities True True True True False False)
         (full_request FirstClassField McOpenAiStyle TcNative RfPassthrough RmUnsupported MmOpenAiStyle)
         passthrough_response OpenAiSse),
      (AnthropicMessages, baseline AnthropicMessages (full_capabilities False False True True True True)
         (full_request FirstClassField AnthropicBlocks TcNative RfUnsupported MapToThinking ContentBlocks)
         (helper_response AnthropicMessageContent) AnthropicEvents),
      (BedrockConverse, baseline BedrockConverse (full_capabilities False False True True True False)
         (full_request Ignore BedrockContent TcNative RfUnsupported MapToAdditionalFields ContentBlocks)
         (helper_response BedrockOutputMessage) BedrockEventStream),
      (GeminiOpenAiLike, baseline GeminiOpenAiLike (full_capabilities False False True True True False)
         (full_request FirstClassField McOpenAiStyle TcNative RfUnsupported RmUnsupported MmOpenAiStyle)
         passthrough_response OpenAiSse),
      (OllamaChat, baseline OllamaChat (full_capabilities False False True False False False)
         (full_request Merge McOpenAiStyle TcNative RfUnsupported RmUnsupported MmOpenAiStyle)
         passthrough_response OpenAiSse)]"

definition embedded_provider_defaults :: "InferenceProvider \<rightharpoonup> MapperProfileCatalogEntry" where
  "embedded_provider_defaults = map_of
     [(OpenAI, \<lparr>en_family = Some OpenAiCompatible,
         en_capabilities = Some (no_capabilities\<lparr>cp_supports_thinking := Some True, cp_supports_streaming_reasoning := Some True\<rparr>),
         en_request = Some (no_request\<lparr>qp_reasoning_mode := Some RmPassthrough\<rparr>),
         en_response = None, en_stream = None\<rparr>),
      (Anthropic, \<lparr>en_family = Some AnthropicMessages,
         en_capabilities = Some (no_capabilities\<lparr>cp_supports_thinking := Some True, cp_supports_streaming_reasoning := Some True\<rparr>),
         en_request = Some (no_request\<lparr>qp_reasoning_mode := Some MapToThinking, qp_multimodal_mode := Some ContentBlocks\<rparr>),
         en_response = Some (helper_response AnthropicMessageContent),
         en_stream = Some (Some AnthropicEvents)\<rparr>)]"

definition embedded_model_overrides :: "string \<rightharpoonup> MapperProfileCatalogEntry" where
  "embedded_model_overrides = map_of
     [(''deepseek/deepseek-reasoner'', \<lparr>en_family = None,
         en_capabilities = Some (no_capabilities\<lparr>cp_supports_thinking := Some True\<rparr>),
         en_request = Some (no_request\<lparr>qp_reasoning_mode := Some RmPassthrough\<rparr>),
         en_response = None, en_stream = None\<rparr>)]"

definition embedded_profiles :: MapperProfilesConfig where
  "embedded_profiles = \<lparr>family_defaults = embedded_family_defaults, provider_defaults = embedded_provider_defaults,
     model_overrides = embedded_model_overrides\<rparr>"

definition resolve_mapper_metadata ::
  "InferenceProvider \<Rightarrow> string option \<Rightarrow> (ProviderRuleValidationError, ResolvedMapperMetadata) result option" where
  "resolve_mapper_metadata = resolve_mapper_metadata_from_config embedded_profiles"

text \<open>The three wrappers for a provider without a model; \<open>expect\<close> makes both failures a panic.\<close>

definition expect_metadata ::
  "(ProviderRuleValidationError, ResolvedMapperMetadata) result option \<Rightarrow> ResolvedMapperMetadata option" where
  "expect_metadata r = (case r of Some (Inr md) \<Rightarrow> Some md | _ \<Rightarrow> None)"

definition default_provider_capabilities :: "InferenceProvider \<Rightarrow> ProviderCapabilities option" where
  "default_provider_capabilities p = map_option md_capabilities (expect_metadata (resolve_mapper_metadata p None))"

definition default_provider_rules :: "InferenceProvider \<Rightarrow> ProviderRuleSet option" where
  "default_provider_rules p = map_option md_rules (expect_metadata (resolve_mapper_metadata p None))"

definition default_non_stream_profile :: "InferenceProvider \<Rightarrow> NonStreamFormatProfile option" where
  "default_non_stream_profile p = map_option md_profile (expect_metadata (resolve_mapper_metadata p None))"

subsection \<open>Requests\<close>

text \<open>
  The members of a chat request that the gateway reads or clears; tools, tool choice and response format are
  kept as JSON, the other members as \<open>'r\<close>. Messages are of the client library's type \<open>'m\<close>.
\<close>

record ('m, 'r) chat_request =
  cr_model :: string
  messages :: "'m list"
  cr_stream :: "bool option"
  response_format :: "json option"
  tools :: "json list option"
  tool_choice :: "json option"
  parallel_tool_calls :: "bool option"
  reasoning_effort :: "string option"
  cr_rest :: 'r

datatype mapper_error = ImageMappingInvalid string | SerdeError string

function contains_image_url_part :: "json \<Rightarrow> bool" where
  "contains_image_url_part (JObject kvs) \<longleftrightarrow>
     (if Option.bind (obj_get ''type'' kvs) as_str = Some ''image_url'' then True
      else (\<exists>kv \<in> set kvs. contains_image_url_part (snd kv)))"
| "contains_image_url_part (JArray xs) \<longleftrightarrow> (\<exists>x \<in> set xs. contains_image_url_part x)"
| "contains_image_url_part JNull \<longleftrightarrow> False"
| "contains_image_url_part (JBool b) \<longleftrightarrow> False"
| "contains_image_url_part (JNumber n) \<longleftrightarrow> False"
| "contains_image_url_part (JString s) \<longleftrightarrow> False"
  by pat_completeness auto

termination contains_image_url_part
proof (relation "measure size", goal_cases)
  case (2 kvs kv)
  then show ?case
    using size_list_estimation' [of kv kvs "size (snd kv)" "size_prod (\<lambda>_. 0) size"] by (cases kv) simp
next
  case (3 xs x)
  then show ?case by (auto intro: le_imp_less_Suc size_list_estimation')
qed simp

definition request_contains_multimodal_content ::
  "('m list \<Rightarrow> (string, json) result) \<Rightarrow> ('m, 'r) chat_request \<Rightarrow> (mapper_error, bool) result" where
  "request_contains_multimodal_content to_value req =
     (case to_value (messages req) of Inl e \<Rightarrow> Err (SerdeError e) | Inr v \<Rightarrow> Ok (contains_image_url_part v))"

definition apply_non_stream_request_profile ::
  "('m list \<Rightarrow> (string, json) result) \<Rightarrow> NonStreamFormatProfile \<Rightarrow> ('m, 'r) chat_request
     \<Rightarrow> (mapper_error, ('m, 'r) chat_request) result" where
  "apply_non_stream_request_profile to_value profile req0 =
     (let rq = np_request profile;
          req1 = (if rp_response_format_mode rq = RfUnsupported then req0\<lparr>response_format := None\<rparr> else req0);
          req2 = (if rp_tool_choice_mode rq = TcUnsupported
                  then req1\<lparr>tools := None, tool_choice := None, parallel_tool_calls := None\<rparr> else req1);
          req3 = (if rp_reasoning_mode rq = RmUnsupported then req2\<lparr>reasoning_effort := None\<rparr> else req2)
      in if rp_multimodal_mode rq = MmUnsupported then
           try_bind (request_contains_multimodal_content to_value req3) (\<lambda>found.
             if found then Err (ImageMappingInvalid (''provider '' @ provider_as_ref (np_provider profile)
                 @ '' does not support multimodal requests''))
             else Ok req3)
         else Ok req3)"

record ('d, 'm, 'r) RequestEnvelope =
  source_endpoint :: ApiEndpoint
  target_provider :: InferenceProvider
  target_capabilities :: "ProviderCapabilities option"
  target_rules :: "ProviderRuleSet option"
  request_rule_context :: "RequestRuleContext option"
  resolved_metadata :: "ResolvedMapperMetadata option"
  raw_model :: string
  source_model :: "'d ModelId option"
  is_stream :: bool
  openai_request :: "('m, 'r) chat_request"

text \<open>\<open>parse_model\<close> is \<open>ModelId::from_str\<close>.\<close>

definition from_openai_chat_request ::
  "(string \<Rightarrow> 'd ModelId option) \<Rightarrow> ApiEndpoint \<Rightarrow> InferenceProvider \<Rightarrow> ('m, 'r) chat_request \<Rightarrow> ('d, 'm, 'r) RequestEnvelope" where
  "from_openai_chat_request parse_model ep p req =
     \<lparr>source_endpoint = ep, target_provider = p, target_capabilities = None, target_rules = None,
      request_rule_context = None, resolved_metadata = None, raw_model = cr_model req,
      source_model = parse_model (cr_model req), is_stream = (case cr_stream req of None \<Rightarrow> False | Some b \<Rightarrow> b),
      openai_request = req\<rparr>"

definition build_request_rule_context :: "ProviderCapabilities \<Rightarrow> ProviderRuleSet \<Rightarrow> RequestRuleContext" where
  "build_request_rule_context c r =
     \<lparr>cx_provider = pr_provider r, cx_family = pr_family r,
      cx_system_handling = rr_system_handling (pr_request r),
      cx_tool_choice_mode = (if supports_tool_choice c then rr_tool_choice_mode (pr_request r) else TcUnsupported),
      cx_response_format_mode =
        (if supports_response_format c then rr_response_format_mode (pr_request r) else RfUnsupported),
      cx_reasoning_mode = rr_reasoning_mode (pr_request r),
      cx_multimodal_mode = rr_multimodal_mode (pr_request r),
      cx_supports_parallel_tool_calls = supports_parallel_tool_calls c\<rparr>"

definition prepare_request_envelope ::
  "('m list \<Rightarrow> (string, json) result) \<Rightarrow> ('d, 'm, 'r) RequestEnvelope \<Rightarrow> (mapper_error, ('d, 'm, 'r) RequestEnvelope) result" where
  "prepare_request_envelope to_value env =
     (case resolved_metadata env of
        None \<Rightarrow> Ok env
      | Some md \<Rightarrow>
          (let context = build_request_rule_context (md_capabilities md) (md_rules md)
           in if \<not> is_stream env then
                try_bind (apply_non_stream_request_profile to_value (md_profile md) (openai_request env)) (\<lambda>req.
                  Ok (env\<lparr>openai_request := (if \<not> cx_supports_parallel_tool_calls context
                             then req\<lparr>parallel_tool_calls := None\<rparr> else req),
                          request_rule_context := Some context\<rparr>))
              else Ok (env\<lparr>request_rule_context := Some context\<rparr>)))"

text \<open>
  The part of \<open>map_request\<close> that makes the envelope of a chat request: resolve for the target provider and the
  raw model text (a failure is a panic), attach, prepare.
\<close>

definition envelope_for_chat ::
  "(string \<Rightarrow> 'd ModelId option) \<Rightarrow> ('m list \<Rightarrow> (string, json) result) \<Rightarrow> ApiEndpoint \<Rightarrow> InferenceProvider \<Rightarrow> ('m, 'r) chat_request
     \<Rightarrow> (mapper_error, ('d, 'm, 'r) RequestEnvelope) result option" where
  "envelope_for_chat parse_model to_value ep p req =
     (let env = from_openai_chat_request parse_model ep p req
      in map_option (\<lambda>md. prepare_request_envelope to_value
           (env\<lparr>target_capabilities := Some (md_capabilities md), target_rules := Some (md_rules md),
                resolved_metadata := Some md\<rparr>))
         (expect_metadata (resolve_mapper_metadata (target_provider env) (Some (raw_model env)))))"

subsection \<open>The reference: merge the layers first\<close>

text \<open>
  The catalogue could also be read the other way round: merge the entries member by member, the more
  specific one first, and resolve the merged entry. This is the reference for \<open>apply_catalog_entry\<close>.
\<close>

definition over :: "'a option \<Rightarrow> 'a option \<Rightarrow> 'a option" where
  "over x y = (case x of None \<Rightarrow> y | Some _ \<Rightarrow> x)"

lemma over_simps [simp]: "over None y = y" "over (Some a) y = Some a"
  by (simp_all add: over_def)

lemma over_Some [simp]: "over x (Some b) = Some (case x of None \<Rightarrow> b | Some a \<Rightarrow> a)"
  by (cases x) simp_all

definition merge_capabilities :: "MapperCapabilitiesPatch \<Rightarrow> MapperCapabilitiesPatch \<Rightarrow> MapperCapabilitiesPatch" where
  "merge_capabilities e b =
     \<lparr>cp_openai_compatible = over (cp_openai_compatible e) (cp_openai_compatible b),
      cp_supports_response_format = over (cp_supports_response_format e) (cp_supports_response_format b),
      cp_supports_tool_choice = over (cp_supports_tool_choice e) (cp_supports_tool_choice b),
      cp_supports_parallel_tool_calls = over (cp_supports_parallel_tool_calls e) (cp_supports_parallel_tool_calls b),
      cp_supports_thinking = over (cp_supports_thinking e) (cp_supports_thinking b),
      cp_supports_streaming_reasoning = over (cp_supports_streaming_reasoning e) (cp_supports_streaming_reasoning b)\<rparr>"

definition merge_request :: "RequestProfilePatch \<Rightarrow> RequestProfilePatch \<Rightarrow> RequestProfilePatch" where
  "merge_request e b =
     \<lparr>qp_system_handling = over (qp_system_handling e) (qp_system_handling b),
      qp_message_content_mode = over (qp_message_content_mode e) (qp_message_content_mode b),
      qp_tool_choice_mode = over (qp_tool_choice_mode e) (qp_tool_choice_mode b),
      qp_response_format_mode = over (qp_response_format_mode e) (qp_response_format_mode b),
      qp_reasoning_mode = over (qp_reasoning_mode e) (qp_reasoning_mode b),
      qp_multimodal_mode = over (qp_multimodal_mode e) (qp_multimodal_mode b)\<rparr>"

definition merge_response :: "ResponseProfilePatch \<Rightarrow> ResponseProfilePatch \<Rightarrow> ResponseProfilePatch" where
  "merge_response e b =
     \<lparr>xp_content_mode = over (xp_content_mode e) (xp_content_mode b),
      xp_tool_call_mapping_mode = over (xp_tool_call_mapping_mode e) (xp_tool_call_mapping_mode b),
      xp_finish_reason_mapping_mode = over (xp_finish_reason_mapping_mode e) (xp_finish_reason_mapping_mode b),
      xp_usage_mapping_mode = over (xp_usage_mapping_mode e) (xp_usage_mapping_mode b)\<rparr>"

definition merge_block :: "('p \<Rightarrow> 'p \<Rightarrow> 'p) \<Rightarrow> 'p option \<Rightarrow> 'p option \<Rightarrow> 'p option" where
  "merge_block f e b = (case (e, b) of (Some x, Some y) \<Rightarrow> Some (f x y) | (None, _) \<Rightarrow> b | (Some _, None) \<Rightarrow> e)"

lemma merge_block_simps [simp]: "merge_block f None b = b" "merge_block f (Some x) (Some y) = Some (f x y)"
  by (cases b) (simp_all add: merge_block_def)

definition merge_entry :: "MapperProfileCatalogEntry option \<Rightarrow> MapperProfileCatalogEntry \<Rightarrow> MapperProfileCatalogEntry" where
  "merge_entry e b =
     (case e of None \<Rightarrow> b
      | Some e \<Rightarrow> b\<lparr>en_capabilities := merge_block merge_capabilities (en_capabilities e) (en_capabilities b),
                   en_request := merge_block merge_request (en_request e) (en_request b),
                   en_response := merge_block merge_response (en_response e) (en_response b),
                   en_stream := merge_block over (en_stream e) (en_stream b)\<rparr>)"

lemma capabilities_merge:
  assumes "provider_capabilities_from_patch p b = Some c"
  shows "provider_capabilities_from_patch p (merge_capabilities e b) = Some (apply_capabilities_patch e c)"
  using assms
  by (cases e) (auto simp: provider_capabilities_from_patch_def merge_capabilities_def apply_capabilities_patch_def
      bind_eq_Some_conv patch_with_def split: option.splits)

lemmas set_defs = set_rule_request_def set_profile_request_def set_rule_response_def set_profile_response_def

lemma request_merge:
  assumes "provider_rules_from_patches p fam b rs st = Some r"
    and "non_stream_profile_from_patches p fam b rs = Some n"
    and "md = \<lparr>md_capabilities = c, md_rules = r, md_profile = n\<rparr>"
  shows "provider_rules_from_patches p fam (merge_request e b) rs st = Some (md_rules (apply_request_patch e md))"
    and "non_stream_profile_from_patches p fam (merge_request e b) rs = Some (md_profile (apply_request_patch e md))"
    and "md_capabilities (apply_request_patch e md) = md_capabilities md"
proof -
  have rq: "md_rules (apply_request_patch e md) = (md_rules md)\<lparr>pr_request :=
     \<lparr>rr_system_handling = (case qp_system_handling e of None \<Rightarrow> rr_system_handling (pr_request (md_rules md)) | Some a \<Rightarrow> a),
      rr_tool_choice_mode = (case qp_tool_choice_mode e of None \<Rightarrow> rr_tool_choice_mode (pr_request (md_rules md)) | Some a \<Rightarrow> a),
      rr_response_format_mode = (case qp_response_format_mode e of None \<Rightarrow> rr_response_format_mode (pr_request (md_rules md)) | Some a \<Rightarrow> a),
      rr_reasoning_mode = (case qp_reasoning_mode e of None \<Rightarrow> rr_reasoning_mode (pr_request (md_rules md)) | Some a \<Rightarrow> a),
      rr_multimodal_mode = (case qp_multimodal_mode e of None \<Rightarrow> rr_multimodal_mode (pr_request (md_rules md)) | Some a \<Rightarrow> a)\<rparr>\<rparr>"
    by (simp add: apply_request_patch_def set_defs patch_with_def split: option.split)
  have nq: "md_profile (apply_request_patch e md) = (md_profile md)\<lparr>np_request :=
     \<lparr>rp_system_handling = (case qp_system_handling e of None \<Rightarrow> rp_system_handling (np_request (md_profile md)) | Some a \<Rightarrow> a),
      rp_message_content_mode = (case qp_message_content_mode e of None \<Rightarrow> rp_message_content_mode (np_request (md_profile md)) | Some a \<Rightarrow> a),
      rp_tool_choice_mode = (case qp_tool_choice_mode e of None \<Rightarrow> rp_tool_choice_mode (np_request (md_profile md)) | Some a \<Rightarrow> a),
      rp_response_format_mode = (case qp_response_format_mode e of None \<Rightarrow> rp_response_format_mode (np_request (md_profile md)) | Some a \<Rightarrow> a),
      rp_reasoning_mode = (case qp_reasoning_mode e of None \<Rightarrow> rp_reasoning_mode (np_request (md_profile md)) | Some a \<Rightarrow> a),
      rp_multimodal_mode = (case qp_multimodal_mode e of None \<Rightarrow> rp_multimodal_mode (np_request (md_profile md)) | Some a \<Rightarrow> a)\<rparr>\<rparr>"
    by (simp add: apply_request_patch_def set_defs patch_with_def split: option.split)
  show "provider_rules_from_patches p fam (merge_request e b) rs st = Some (md_rules (apply_request_patch e md))"
    unfolding rq using assms(1,3)
    by (auto simp: provider_rules_from_patches_def merge_request_def bind_eq_Some_conv cong: option.case_cong)
  show "non_stream_profile_from_patches p fam (merge_request e b) rs = Some (md_profile (apply_request_patch e md))"
    unfolding nq using assms(2,3)
    by (auto simp: non_stream_profile_from_patches_def merge_request_def bind_eq_Some_conv cong: option.case_cong)
  show "md_capabilities (apply_request_patch e md) = md_capabilities md"
    by (simp add: apply_request_patch_def set_defs patch_with_def split: option.split)
qed

lemma response_merge:
  assumes "provider_rules_from_patches p fam rq b st = Some r"
    and "non_stream_profile_from_patches p fam rq b = Some n"
    and "md = \<lparr>md_capabilities = c, md_rules = r, md_profile = n\<rparr>"
  shows "provider_rules_from_patches p fam rq (merge_response e b) st = Some (md_rules (apply_response_patch e md))"
    and "non_stream_profile_from_patches p fam rq (merge_response e b) = Some (md_profile (apply_response_patch e md))"
    and "md_capabilities (apply_response_patch e md) = md_capabilities md"
proof -
  show "provider_rules_from_patches p fam rq (merge_response e b) st = Some (md_rules (apply_response_patch e md))"
    using assms(1,3)
    by (auto simp: provider_rules_from_patches_def merge_response_def bind_eq_Some_conv apply_response_patch_def
        set_defs patch_with_def split: option.split)
  show "non_stream_profile_from_patches p fam rq (merge_response e b) = Some (md_profile (apply_response_patch e md))"
    using assms(2,3)
    by (auto simp: non_stream_profile_from_patches_def merge_response_def bind_eq_Some_conv apply_response_patch_def
        set_defs patch_with_def split: option.split)
  show "md_capabilities (apply_response_patch e md) = md_capabilities md"
    by (simp add: apply_response_patch_def set_defs patch_with_def split: option.split)
qed

lemma stream_merge:
  "provider_rules_from_patches p fam rq rs b = Some r \<Longrightarrow>
   provider_rules_from_patches p fam rq rs (over e b) = Some (apply_stream_patch e r)"
  by (cases e) (auto simp: provider_rules_from_patches_def bind_eq_Some_conv apply_stream_patch_def)

text \<open>Patching the resolved metadata is resolving the merged entry.\<close>

lemma apply_catalog_entry_merge:
  assumes "resolved_from_family_entry p fam b = Some md"
  shows "resolved_from_family_entry p fam (merge_entry e b) = Some (apply_catalog_entry e md)"
proof (cases e)
  case None
  with assms show ?thesis by (simp add: merge_entry_def apply_catalog_entry_def)
next
  case (Some x)
  from assms obtain cp rq rs st c r n where b: "en_capabilities b = Some cp" "en_request b = Some rq" "en_response b = Some rs"
      "en_stream b = Some st"
    and c: "provider_capabilities_from_patch p cp = Some c" and r: "provider_rules_from_patches p fam rq rs st = Some r"
    and n: "non_stream_profile_from_patches p fam rq rs = Some n"
    and md: "md = \<lparr>md_capabilities = c, md_rules = r, md_profile = n\<rparr>"
    by (auto simp: resolved_from_family_entry_def bind_eq_Some_conv)
  define c1 where "c1 = patch_with (en_capabilities x) apply_capabilities_patch c"
  define md1 where "md1 = \<lparr>md_capabilities = c1, md_rules = r, md_profile = n\<rparr>"
  define md2 where "md2 = patch_with (en_request x) apply_request_patch md1"
  define md3 where "md3 = patch_with (en_response x) apply_response_patch md2"
  have a: "apply_catalog_entry e md = patch_with (en_stream x) (\<lambda>st. md_rules_update (apply_stream_patch st)) md3"
    unfolding apply_catalog_entry_def Some option.case md3_def md2_def md1_def c1_def md
    by (cases "en_capabilities x") simp_all
  have total: "\<exists>w. merge_block f y (Some z) = Some w" for f :: "'p \<Rightarrow> 'p \<Rightarrow> 'p" and y z by (cases y) simp_all
  obtain cp' rq' rs' st' where m: "merge_block merge_capabilities (en_capabilities x) (Some cp) = Some cp'"
      "merge_block merge_request (en_request x) (Some rq) = Some rq'"
      "merge_block merge_response (en_response x) (Some rs) = Some rs'" "merge_block over (en_stream x) (Some st) = Some st'"
    using total by metis
  have s1: "provider_capabilities_from_patch p cp' = Some c1"
    using capabilities_merge [OF c] c m(1) by (cases "en_capabilities x") (auto simp: c1_def)
  have s2: "provider_rules_from_patches p fam rq' rs st = Some (md_rules md2)"
      "non_stream_profile_from_patches p fam rq' rs = Some (md_profile md2)" "md_capabilities md2 = c1"
    using request_merge [OF r n md1_def] r n m(2)
    by (cases "en_request x"; auto simp: md2_def md1_def)+
  have s3: "provider_rules_from_patches p fam rq' rs' st = Some (md_rules md3)"
      "non_stream_profile_from_patches p fam rq' rs' = Some (md_profile md3)" "md_capabilities md3 = c1"
    using response_merge [OF s2(1,2), of md2 c1] s2 m(3)
    by (cases "en_response x"; auto simp: md3_def)+
  have s4: "provider_rules_from_patches p fam rq' rs' st' = Some (md_rules (apply_catalog_entry e md))"
    using stream_merge [OF s3(1)] s3(1) m(4) by (cases "en_stream x") (auto simp: a)
  have s5: "md_profile (apply_catalog_entry e md) = md_profile md3" "md_capabilities (apply_catalog_entry e md) = c1"
    using s3(3) by (cases "en_stream x"; simp add: a)+
  have "resolved_from_family_entry p fam (merge_entry e b) =
      Some \<lparr>md_capabilities = c1, md_rules = md_rules (apply_catalog_entry e md), md_profile = md_profile md3\<rparr>"
    using s1 s3 s4 by (simp add: resolved_from_family_entry_def merge_entry_def Some b m)
  with s5 show ?thesis by (metis (full_types) ResolvedMapperMetadata.surjective old.unit.exhaust)
qed

subsection \<open>Lemmas on requests\<close>

lemma contains_image_subvalue:
  "contains_image_url_part j \<longleftrightarrow>
     (\<exists>kvs. subvalue (JObject kvs) j \<and> obj_get ''type'' kvs = Some (JString ''image_url''))"
  by (induction j rule: contains_image_url_part.induct; auto simp: subvalue_simps bind_eq_Some_conv;
      (blast | force))

text \<open>What the profile leaves of a request.\<close>

definition stripped :: "RequestProfile \<Rightarrow> ('m, 'r) chat_request \<Rightarrow> ('m, 'r) chat_request" where
  "stripped rq req =
     req\<lparr>response_format := (if rp_response_format_mode rq = RfUnsupported then None else response_format req),
         tools := (if rp_tool_choice_mode rq = TcUnsupported then None else tools req),
         tool_choice := (if rp_tool_choice_mode rq = TcUnsupported then None else tool_choice req),
         parallel_tool_calls := (if rp_tool_choice_mode rq = TcUnsupported then None else parallel_tool_calls req),
         reasoning_effort := (if rp_reasoning_mode rq = RmUnsupported then None else reasoning_effort req)\<rparr>"

lemma apply_profile_cases:
  "apply_non_stream_request_profile to_value profile req =
     (if rp_multimodal_mode (np_request profile) \<noteq> MmUnsupported then Inr (stripped (np_request profile) req)
      else case to_value (messages req) of
             Inl e \<Rightarrow> Inl (SerdeError e)
           | Inr v \<Rightarrow> if contains_image_url_part v
               then Inl (ImageMappingInvalid (''provider '' @ provider_as_ref (np_provider profile)
                      @ '' does not support multimodal requests''))
               else Inr (stripped (np_request profile) req))"
proof -
  let ?rq = "np_request profile"
  let ?req3 = "let req1 = (if rp_response_format_mode ?rq = RfUnsupported then req\<lparr>response_format := None\<rparr> else req);
          req2 = (if rp_tool_choice_mode ?rq = TcUnsupported
                  then req1\<lparr>tools := None, tool_choice := None, parallel_tool_calls := None\<rparr> else req1)
      in (if rp_reasoning_mode ?rq = RmUnsupported then req2\<lparr>reasoning_effort := None\<rparr> else req2)"
  have r: "?req3 = stripped ?rq req" by (cases req) (simp add: stripped_def Let_def)
  have m: "messages (stripped ?rq req) = messages req" by (simp add: stripped_def)
  show ?thesis
    unfolding apply_non_stream_request_profile_def r [symmetric, unfolded Let_def] Let_def
    unfolding r [unfolded Let_def] request_contains_multimodal_content_def m
    by (simp split: sum.split)
qed

lemma stripped_idem [simp]: "stripped rq (stripped rq req) = stripped rq req"
  by (simp add: stripped_def)

text \<open>The two copies of a mode agree.\<close>

definition md_agree :: "ResolvedMapperMetadata \<Rightarrow> bool" where
  "md_agree md \<longleftrightarrow>
     rr_system_handling (pr_request (md_rules md)) = rp_system_handling (np_request (md_profile md))
     \<and> rr_tool_choice_mode (pr_request (md_rules md)) = rp_tool_choice_mode (np_request (md_profile md))
     \<and> rr_response_format_mode (pr_request (md_rules md)) = rp_response_format_mode (np_request (md_profile md))
     \<and> rr_reasoning_mode (pr_request (md_rules md)) = rp_reasoning_mode (np_request (md_profile md))
     \<and> rr_multimodal_mode (pr_request (md_rules md)) = rp_multimodal_mode (np_request (md_profile md))
     \<and> finish_reason_mapping (pr_response (md_rules md))
         = finish_reason_mapping_from_mode (sp_finish_reason_mapping_mode (np_response (md_profile md)))
     \<and> tool_call_mapping (pr_response (md_rules md))
         = tool_call_mapping_from_mode (sp_tool_call_mapping_mode (np_response (md_profile md)))
     \<and> usage_mapping (pr_response (md_rules md))
         = usage_mapping_from_mode (sp_usage_mapping_mode (np_response (md_profile md)))
     \<and> cap_provider (md_capabilities md) = pr_provider (md_rules md)
     \<and> np_provider (md_profile md) = pr_provider (md_rules md) \<and> np_family (md_profile md) = pr_family (md_rules md)"

lemma resolved_agree:
  assumes "resolved_from_family_entry p fam b = Some md"
  shows "md_agree md \<and> pr_provider (md_rules md) = p \<and> pr_family (md_rules md) = fam"
  using assms
  by (auto simp: resolved_from_family_entry_def provider_capabilities_from_patch_def provider_rules_from_patches_def
      non_stream_profile_from_patches_def bind_eq_Some_conv md_agree_def)

text \<open>The whole resolution, with the layers merged first.\<close>

definition merged_entry :: "MapperProfilesConfig \<Rightarrow> InferenceProvider \<Rightarrow> string option \<Rightarrow> MapperProfileCatalogEntry \<Rightarrow> MapperProfileCatalogEntry" where
  "merged_entry cfg p model b =
     merge_entry (Option.bind model (model_overrides cfg)) (merge_entry (provider_defaults cfg p) b)"

lemma resolve_via_merge:
  assumes "family_defaults cfg (resolve_family cfg p model) = Some b"
    and "resolved_from_family_entry p (resolve_family cfg p model) b = Some md0"
  shows "resolve_mapper_metadata_from_config cfg p model =
    map_option (\<lambda>md. try_bind (validate_provider_rules (md_capabilities md) (md_rules md)) (\<lambda>_. Inr md))
      (resolved_from_family_entry p (resolve_family cfg p model) (merged_entry cfg p model b))"
  using assms apply_catalog_entry_merge [OF apply_catalog_entry_merge [OF assms(2)],
      of "Option.bind model (model_overrides cfg)" "provider_defaults cfg p"]
  by (simp add: resolve_mapper_metadata_from_config_def merged_entry_def Let_def)

lemma resolve_baseline_missing:
  "resolve_mapper_metadata_from_config cfg p model = None \<longleftrightarrow>
     Option.bind (family_defaults cfg (resolve_family cfg p model)) (resolved_from_family_entry p (resolve_family cfg p model)) = None"
  by (cases "family_defaults cfg (resolve_family cfg p model)")
    (simp_all add: resolve_mapper_metadata_from_config_def Let_def bind_eq_None_conv)

lemma resolve_ok:
  assumes "resolve_mapper_metadata_from_config cfg p model = Some (Inr md)"
  shows "md_agree md" "pr_provider (md_rules md) = p" "pr_family (md_rules md) = resolve_family cfg p model"
    "validate_provider_rules (md_capabilities md) (md_rules md) = Inr ()"
proof -
  from assms obtain b md0 where b: "family_defaults cfg (resolve_family cfg p model) = Some b"
      "resolved_from_family_entry p (resolve_family cfg p model) b = Some md0"
    by (auto simp: resolve_mapper_metadata_from_config_def Let_def bind_eq_Some_conv)
  from assms [unfolded resolve_via_merge [OF b]] obtain md' where
      md': "resolved_from_family_entry p (resolve_family cfg p model) (merged_entry cfg p model b) = Some md'"
      "try_bind (validate_provider_rules (md_capabilities md') (md_rules md')) (\<lambda>_. Inr md') = Inr md"
    by blast
  then have v: "md' = md" "validate_provider_rules (md_capabilities md) (md_rules md) = Inr ()"
    by (cases "validate_provider_rules (md_capabilities md') (md_rules md')"; auto)+
  from v(2) show "validate_provider_rules (md_capabilities md) (md_rules md) = Inr ()" .
  from resolved_agree [OF md'(1)] v(1) show "md_agree md" "pr_provider (md_rules md) = p"
    "pr_family (md_rules md) = resolve_family cfg p model" by simp_all
qed

lemma validated_context:
  assumes "validate_provider_rules c r = Inr ()"
  shows "cx_tool_choice_mode (build_request_rule_context c r) = rr_tool_choice_mode (pr_request r)"
    and "cx_response_format_mode (build_request_rule_context c r) = rr_response_format_mode (pr_request r)"
  using assms by (auto simp: validate_provider_rules_def build_request_rule_context_def Let_def split: if_splits)

lemma embedded_override_cases:
  obtains "Option.bind model embedded_model_overrides = None"
  | "Option.bind model embedded_model_overrides = Some \<lparr>en_family = None,
         en_capabilities = Some (no_capabilities\<lparr>cp_supports_thinking := Some True\<rparr>),
         en_request = Some (no_request\<lparr>qp_reasoning_mode := Some RmPassthrough\<rparr>),
         en_response = None, en_stream = None\<rparr>"
  by (cases "model = Some ''deepseek/deepseek-reasoner''"; cases model) (auto simp: embedded_model_overrides_def)

lemmas embedded_defs =
  embedded_family_defaults_def embedded_provider_defaults_def baseline_def full_capabilities_def full_request_def
  passthrough_response_def helper_response_def no_capabilities_def no_request_def

lemmas resolve_defs =
  resolved_from_family_entry_def provider_capabilities_from_patch_def provider_rules_from_patches_def
  non_stream_profile_from_patches_def apply_catalog_entry_def apply_capabilities_patch_def apply_request_patch_def
  apply_response_patch_def apply_stream_patch_def set_defs validate_provider_rules_def Let_def

lemma embedded_resolves: "\<exists>md. resolve_mapper_metadata p model = Some (Inr md)"
proof -
  have f: "resolve_family embedded_profiles p model =
      (case Option.bind (embedded_provider_defaults p) en_family of Some f \<Rightarrow> f | None \<Rightarrow> family_for_provider p)"
    by (cases model rule: embedded_override_cases) (simp_all add: resolve_family_def embedded_profiles_def)
  show ?thesis
    unfolding resolve_mapper_metadata_def resolve_mapper_metadata_from_config_def f
    by (cases model rule: embedded_override_cases; cases p)
      (simp_all add: embedded_profiles_def embedded_defs resolve_defs family_for_provider_def)
qed

subsection \<open>Properties\<close>

text \<open>
  C3. Layering. Resolving a family baseline and patching the result with the provider's and then the model's
  entry is the same as merging the three entries member by member, the model's first, then the
  provider's, then the family's, and resolving the merged entry once. It panics exactly if the family has
  no complete baseline, whatever the other layers say.
\<close>

theorem mapper_layers_equiv:
  "resolve_mapper_metadata_from_config cfg p model =
     (case Option.bind (family_defaults cfg (resolve_family cfg p model))
             (\<lambda>b. map_option (\<lambda>_. b) (resolved_from_family_entry p (resolve_family cfg p model) b)) of
        None \<Rightarrow> None
      | Some b \<Rightarrow>
          map_option (\<lambda>md. try_bind (validate_provider_rules (md_capabilities md) (md_rules md)) (\<lambda>_. Inr md))
            (resolved_from_family_entry p (resolve_family cfg p model) (merged_entry cfg p model b)))"
proof (cases "family_defaults cfg (resolve_family cfg p model)")
  case None
  then show ?thesis using resolve_baseline_missing [of cfg p model] by simp
next
  case (Some b)
  show ?thesis
  proof (cases "resolved_from_family_entry p (resolve_family cfg p model) b")
    case None
    with Some show ?thesis using resolve_baseline_missing [of cfg p model] by simp
  next
    case md0: (Some md0)
    from resolve_via_merge [OF Some md0] show ?thesis by (simp add: Some md0)
  qed
qed

text \<open>
  The embedded catalogue is complete and sound: for every provider, named and custom ones included, and
  every model text, resolution neither panics nor is rejected, and its result is of the right kind: it
  belongs to the provider and its family, the rules and the profile agree on every mode they share, and
  the three default wrappers return its parts.
\<close>

theorem embedded_metadata_total:
  "\<exists>md. resolve_mapper_metadata p model = Some (Inr md) \<and> md_agree md
     \<and> pr_provider (md_rules md) = p \<and> pr_family (md_rules md) = family_for_provider p
     \<and> default_provider_rules p \<noteq> None \<and> default_provider_capabilities p \<noteq> None \<and> default_non_stream_profile p \<noteq> None"
proof -
  from embedded_resolves obtain md where md: "resolve_mapper_metadata p model = Some (Inr md)" by blast
  from embedded_resolves obtain md0 where "resolve_mapper_metadata p None = Some (Inr md0)" by blast
  then have d: "default_provider_rules p \<noteq> None" "default_provider_capabilities p \<noteq> None" "default_non_stream_profile p \<noteq> None"
    by (simp_all add: default_provider_rules_def default_provider_capabilities_def default_non_stream_profile_def
        expect_metadata_def)
  have f: "resolve_family embedded_profiles p model = family_for_provider p"
    by (cases model rule: embedded_override_cases; cases p)
      (simp_all add: resolve_family_def embedded_profiles_def embedded_provider_defaults_def family_for_provider_def)
  from resolve_ok [OF md [unfolded resolve_mapper_metadata_def]] md d show ?thesis by (auto simp: f)
qed

text \<open>
  What reaches a provider. A non-streamed chat request is refused exactly when the profile forbids images
  and its messages contain one at any depth (or cannot be serialised); otherwise precisely the members the
  profile marks as unsupported are cleared, parallel tool calls also when the provider lacks them, and
  everything else is kept. A streamed request is not changed at all. Preparing twice is preparing once.
\<close>

theorem prepare_request_exact:
  assumes "resolved_metadata env = Some md"
  shows "(is_stream env \<longrightarrow> prepare_request_envelope to_value env =
        Inr (env\<lparr>request_rule_context := Some (build_request_rule_context (md_capabilities md) (md_rules md))\<rparr>))
    \<and> (\<not> is_stream env \<and> to_value (messages (openai_request env)) = Inr v \<longrightarrow>
        (is_ok (prepare_request_envelope to_value env) \<longleftrightarrow>
           \<not> (rp_multimodal_mode (np_request (md_profile md)) = MmUnsupported
              \<and> (\<exists>kvs. subvalue (JObject kvs) v \<and> obj_get ''type'' kvs = Some (JString ''image_url'')))))
    \<and> (\<not> is_stream env \<and> prepare_request_envelope to_value env = Inr env' \<longrightarrow>
        openai_request env' = (let r = stripped (np_request (md_profile md)) (openai_request env)
          in if supports_parallel_tool_calls (md_capabilities md) then r else r\<lparr>parallel_tool_calls := None\<rparr>)
        \<and> prepare_request_envelope to_value env' = Inr env')"
proof (intro conjI impI)
  assume "is_stream env"
  then show "prepare_request_envelope to_value env =
      Inr (env\<lparr>request_rule_context := Some (build_request_rule_context (md_capabilities md) (md_rules md))\<rparr>)"
    using assms by (simp add: prepare_request_envelope_def)
next
  assume "\<not> is_stream env \<and> to_value (messages (openai_request env)) = Inr v"
  then show "is_ok (prepare_request_envelope to_value env) \<longleftrightarrow>
     \<not> (rp_multimodal_mode (np_request (md_profile md)) = MmUnsupported
        \<and> (\<exists>kvs. subvalue (JObject kvs) v \<and> obj_get ''type'' kvs = Some (JString ''image_url'')))"
    using assms
    by (simp add: prepare_request_envelope_def apply_profile_cases contains_image_subvalue [symmetric] Let_def)
next
  assume a: "\<not> is_stream env \<and> prepare_request_envelope to_value env = Inr env'"
  let ?cx = "build_request_rule_context (md_capabilities md) (md_rules md)"
  let ?r = "stripped (np_request (md_profile md)) (openai_request env)"
  let ?r' = "if supports_parallel_tool_calls (md_capabilities md) then ?r else ?r\<lparr>parallel_tool_calls := None\<rparr>"
  have cx: "cx_supports_parallel_tool_calls ?cx = supports_parallel_tool_calls (md_capabilities md)"
    by (simp add: build_request_rule_context_def)
  have ap: "apply_non_stream_request_profile to_value (md_profile md) (openai_request env) = Inr ?r"
    using a assms by (auto simp: prepare_request_envelope_def apply_profile_cases split: if_splits sum.splits)
  have env': "env' = env\<lparr>openai_request := ?r', request_rule_context := Some ?cx\<rparr>"
    using a assms ap by (simp add: prepare_request_envelope_def Let_def cx split: if_splits)
  then show "openai_request env' = (let r = stripped (np_request (md_profile md)) (openai_request env)
      in if supports_parallel_tool_calls (md_capabilities md) then r else r\<lparr>parallel_tool_calls := None\<rparr>)"
    by (simp add: Let_def)
  have m: "messages ?r' = messages (openai_request env)" by (simp add: stripped_def)
  have s: "stripped (np_request (md_profile md)) ?r' = ?r'" by (simp add: stripped_def)
  have ap': "apply_non_stream_request_profile to_value (md_profile md) ?r' = Inr ?r'"
    using ap unfolding apply_profile_cases m s by (auto split: if_splits sum.splits)
  have f: "resolved_metadata env' = Some md" "\<not> is_stream env'" "openai_request env' = ?r'"
    using a assms by (simp_all add: env')
  have "(if \<not> supports_parallel_tool_calls (md_capabilities md) then ?r'\<lparr>parallel_tool_calls := None\<rparr> else ?r') = ?r'"
    by simp
  then show "prepare_request_envelope to_value env' = Inr env'"
    unfolding prepare_request_envelope_def f option.case Let_def cx ap' using f(2) by (simp add: env')
qed

text \<open>
  The capability check and the rules. For resolved metadata the downgrade of the rule context never
  changes anything: validation already forces the rules to mark as unsupported what the provider cannot
  do. The context is the rules, and it agrees with the profile that strips the request.
\<close>

theorem context_downgrade_redundant:
  assumes "resolve_mapper_metadata_from_config cfg p model = Some (Inr md)"
  shows "cx_tool_choice_mode (build_request_rule_context (md_capabilities md) (md_rules md))
      = rp_tool_choice_mode (np_request (md_profile md))
    \<and> cx_response_format_mode (build_request_rule_context (md_capabilities md) (md_rules md))
      = rp_response_format_mode (np_request (md_profile md))
    \<and> (\<not> supports_tool_choice (md_capabilities md) \<longrightarrow> tools (stripped (np_request (md_profile md)) req) = None)
    \<and> (\<not> supports_response_format (md_capabilities md) \<longrightarrow> response_format (stripped (np_request (md_profile md)) req) = None)"
proof -
  note ok = resolve_ok [OF assms]
  have "supports_tool_choice (md_capabilities md) \<or> rr_tool_choice_mode (pr_request (md_rules md)) = TcUnsupported"
    "supports_response_format (md_capabilities md) \<or> rr_response_format_mode (pr_request (md_rules md)) = RfUnsupported"
    using ok(4) by (auto simp: validate_provider_rules_def Let_def split: if_splits)
  then show ?thesis using ok(1) validated_context [OF ok(4)] by (auto simp: md_agree_def stripped_def)
qed

theorem context_downgrade_redundant_witness:
  "\<exists>md. resolve_mapper_metadata_from_config embedded_profiles Ollama None = Some (Inr md)
     \<and> response_format (stripped (np_request (md_profile md))
         \<lparr>cr_model = ''m'', messages = ([] :: nat list), cr_stream = None, response_format = Some JNull, tools = None,
          tool_choice = None, parallel_tool_calls = None, reasoning_effort = None, cr_rest = ()\<rparr>) = None"
proof -
  let ?req = "\<lparr>cr_model = ''m'', messages = ([] :: nat list), cr_stream = None, response_format = Some JNull, tools = None,
          tool_choice = None, parallel_tool_calls = None, reasoning_effort = None, cr_rest = ()\<rparr>"
  from embedded_resolves [of Ollama None] obtain md where
    md: "resolve_mapper_metadata_from_config embedded_profiles Ollama None = Some (Inr md)"
    by (auto simp: resolve_mapper_metadata_def)
  have "\<not> supports_response_format (md_capabilities md)"
    using md
    by (auto simp: resolve_mapper_metadata_from_config_def resolve_family_def embedded_profiles_def embedded_defs resolve_defs
        family_for_provider_def)
  with context_downgrade_redundant [OF md, of ?req] md show ?thesis by blast
qed

theorem prepare_request_exact_witness:
  "\<exists>md. resolve_mapper_metadata Ollama (Some ''m'') = Some (Inr md)
     \<and> prepare_request_envelope (\<lambda>_. Inr JNull)
        (from_openai_chat_request (\<lambda>_. None :: nat ModelId option) (ApiOpenAI OaChatCompletions) Ollama
          \<lparr>cr_model = ''m'', messages = ([] :: nat list), cr_stream = Some True, response_format = Some JNull, tools = None,
           tool_choice = None, parallel_tool_calls = None, reasoning_effort = None, cr_rest = ()\<rparr>\<lparr>resolved_metadata := Some md\<rparr>)
      = Inr (from_openai_chat_request (\<lambda>_. None) (ApiOpenAI OaChatCompletions) Ollama
          \<lparr>cr_model = ''m'', messages = [], cr_stream = Some True, response_format = Some JNull, tools = None,
           tool_choice = None, parallel_tool_calls = None, reasoning_effort = None, cr_rest = ()\<rparr>\<lparr>resolved_metadata := Some md,
           request_rule_context := Some (build_request_rule_context (md_capabilities md) (md_rules md))\<rparr>)"
proof -
  from embedded_resolves [of Ollama "Some ''m''"] obtain md where md: "resolve_mapper_metadata Ollama (Some ''m'') = Some (Inr md)" by blast
  let ?req = "\<lparr>cr_model = ''m'', messages = ([] :: nat list), cr_stream = Some True, response_format = Some JNull, tools = None,
           tool_choice = None, parallel_tool_calls = None, reasoning_effort = None, cr_rest = ()\<rparr>"
  let ?env = "from_openai_chat_request (\<lambda>_. None :: nat ModelId option) (ApiOpenAI OaChatCompletions) Ollama ?req\<lparr>resolved_metadata := Some md\<rparr>"
  have r: "resolved_metadata ?env = Some md" by simp
  have "is_stream ?env" by (simp add: from_openai_chat_request_def)
  with prepare_request_exact [OF r, THEN conjunct1] md show ?thesis by (intro exI [of _ md]) simp
qed

end
