(* ===== verification/Kv_Cache.thy ===== *)
theory Kv_Cache
  imports Gateway_Prelude Json Retry
begin

text \<open>
  The response cache of the crate \<open>alephant-llm-kv-cache\<close>: its settings from request headers
  (\<open>settings.rs\<close>), the key of a request (\<open>key.rs\<close>), buckets of slots (\<open>bucket.rs\<close>), and the Cloudflare
  backend with its retries and its backoff gate (\<open>cloudflare.rs\<close>, \<open>put_retry.rs\<close>, \<open>lazy_cloudflare.rs\<close>,
  \<open>backoff.rs\<close>), with the helpers of \<open>response.rs\<close> and \<open>tikv_util.rs\<close>.

  The HTTP exchange with the store, the hash function and the JSON library are parameters.
\<close>

subsection \<open>Decimal text\<close>

fun dec_str :: "nat \<Rightarrow> string" where
  "dec_str n = (if n < 10 then [char_of (48 + n)] else dec_str (n div 10) @ [char_of (48 + n mod 10)])"

declare dec_str.simps [simp del]

lemma parse_digits_append:
  "parse_digits acc (xs @ ys) = Option.bind (parse_digits acc xs) (\<lambda>a. parse_digits a ys)"
  by (induction xs arbitrary: acc) (auto split: option.splits)

lemma digit_value_char [simp]: "d < 10 \<Longrightarrow> digit_value (char_of (48 + d)) = Some d"
  by (simp add: digit_value_def Let_def)

lemma parse_digits_dec_str [simp]: "parse_digits 0 (dec_str n) = Some n"
proof (induction n rule: dec_str.induct)
  case (1 n)
  show ?case
  proof (cases "n < 10")
    case True
    then show ?thesis by (subst dec_str.simps) simp
  next
    case False
    with 1 show ?thesis by (subst dec_str.simps) (simp add: parse_digits_append)
  qed
qed

lemma dec_str_inj: "dec_str a = dec_str b \<longleftrightarrow> a = b"
  by (metis option.inject parse_digits_dec_str)

lemma dec_str_ne [simp]: "dec_str n \<noteq> []"
  by (subst dec_str.simps) simp

lemma dec_str_digits: "c \<in> set (dec_str n) \<Longrightarrow> digit_value c \<noteq> None"
  by (induction n rule: dec_str.induct) (subst (asm) (2) dec_str.simps, auto split: if_splits)

subsection \<open>Settings\<close>

record CacheSettings =
  should_read :: bool
  should_write :: bool
  cache_control_value :: string
  bucket_size :: u8
  cache_seed :: "string option"

definition max_cache_age :: nat where "max_cache_age = 60 * 60 * 24 * 365"
definition default_cache_age :: nat where "default_cache_age = 60 * 60 * 24 * 7"

text \<open>The leftmost match of the literal followed by digits: the digits, all that follow.\<close>

fun regex_digits :: "string \<Rightarrow> string \<Rightarrow> string option" where
  "regex_digits lit [] = None"
| "regex_digits lit (c # cs) =
     (case strip_prefix lit (c # cs) of
        Some (d # r) \<Rightarrow> if digit_value d \<noteq> None then Some (takeWhile (\<lambda>x. digit_value x \<noteq> None) (d # r))
                       else regex_digits lit cs
      | _ \<Rightarrow> regex_digits lit cs)"

definition regex_once :: "string \<Rightarrow> string \<Rightarrow> nat option" where
  "regex_once lit hay = Option.bind (regex_digits lit hay) (parse_uint (2 ^ 64 - 1))"

definition build_cache_control :: "string \<Rightarrow> string" where
  "build_cache_control cc =
     (let s_max = regex_once ''s-maxage='' cc; mx = regex_once ''max-age='' cc;
          sec = (case s_max of Some n \<Rightarrow> n | None \<Rightarrow> (case mx of Some n \<Rightarrow> n | None \<Rightarrow> default_cache_age))
      in ''public, max-age='' @ dec_str (min sec max_cache_age))"

definition header_true :: "headers \<Rightarrow> string \<Rightarrow> bool" where
  "header_true hs n = (case header_str hs n of None \<Rightarrow> False | Some s \<Rightarrow> eq_ignore_ascii_case s ''true'')"

definition bucket_header :: "headers \<Rightarrow> u8" where
  "bucket_header hs =
     (case Option.bind (header_str hs ''Alephant-Cache-Bucket-Max-Size'') (parse_uint 255) of
        Some n \<Rightarrow> of_nat n | None \<Rightarrow> 1)"

definition cache_settings_parse :: "headers \<Rightarrow> (string, CacheSettings) result" where
  "cache_settings_parse hs =
     (let on = header_true hs ''Alephant-Cache-Enabled'';
          sv = header_true hs ''Alephant-Cache-Save'';
          rd = header_true hs ''Alephant-Cache-Read'';
          bucket = bucket_header hs
      in if bucket = 0 \<or> 20 < bucket
         then Err (''Cache bucket size must be 1..=20, got '' @ dec_str (unat bucket))
         else Ok \<lparr>should_read = (on \<or> rd), should_write = (on \<or> sv),
                  cache_control_value = build_cache_control
                    (case header_str hs ''Alephant-Cache-Control'' of Some s \<Rightarrow> s | None \<Rightarrow> []),
                  bucket_size = bucket, cache_seed = header_str hs ''Alephant-Cache-Seed''\<rparr>)"

definition expiration_ttl_secs :: "CacheSettings \<Rightarrow> nat" where
  "expiration_ttl_secs st =
     (case regex_once ''max-age='' (cache_control_value st) of Some n \<Rightarrow> n | None \<Rightarrow> 60)"

subsection \<open>Keys\<close>

text \<open>\<open>parse_json\<close> and \<open>print_json\<close> are the JSON library's; members are removed by name.\<close>

definition obj_remove :: "string \<Rightarrow> (string \<times> json) list \<Rightarrow> (string \<times> json) list" where
  "obj_remove k kvs = filter (\<lambda>(k', _). k' \<noteq> k) kvs"

definition body_for_cache :: "(string \<Rightarrow> json option) \<Rightarrow> (json \<Rightarrow> string) \<Rightarrow> string \<Rightarrow> string list \<Rightarrow> string" where
  "body_for_cache parse_json print_json body ignore_keys =
     (case parse_json body of
        None \<Rightarrow> body
      | Some v \<Rightarrow>
          print_json (case v of JObject kvs \<Rightarrow> JObject (fold obj_remove ignore_keys kvs) | _ \<Rightarrow> v))"

definition kv_key_material ::
  "(string \<Rightarrow> json option) \<Rightarrow> (json \<Rightarrow> string) \<Rightarrow> string \<Rightarrow> string \<Rightarrow> string \<Rightarrow> string list \<Rightarrow> u8 \<Rightarrow> string" where
  "kv_key_material parse_json print_json seed url body ignore_keys bucket_index =
     seed @ url @ body_for_cache parse_json print_json body ignore_keys
       @ (if 1 \<le> bucket_index then dec_str (unat bucket_index) else [])"

definition kv_key_sha256_hex ::
  "(string \<Rightarrow> string) \<Rightarrow> (string \<Rightarrow> json option) \<Rightarrow> (json \<Rightarrow> string) \<Rightarrow> string \<Rightarrow> string \<Rightarrow> string \<Rightarrow> string list \<Rightarrow> u8 \<Rightarrow> string" where
  "kv_key_sha256_hex sha256_hex parse_json print_json seed url body ignore_keys bucket_index =
     sha256_hex (kv_key_material parse_json print_json seed url body ignore_keys bucket_index)"

subsection \<open>Buckets\<close>

record LlmCacheEntry =
  entry_headers :: "(string \<times> string) list"
  latency :: u64
  body :: "string list"

datatype LlmKvCacheError = Http string | Serde string | Config string | Tikv string

text \<open>
  \<open>read_bucket\<close>: \<open>gets\<close> answers a key, \<open>pick n\<close> is the random index below \<open>n\<close>, \<open>timed_out\<close> tells whether
  the two seconds passed first.
\<close>

definition read_bucket ::
  "(string \<Rightarrow> (LlmKvCacheError, string option) result) \<Rightarrow> (string \<Rightarrow> LlmCacheEntry option) \<Rightarrow> (nat \<Rightarrow> nat) \<Rightarrow> bool
     \<Rightarrow> string list \<Rightarrow> (LlmCacheEntry \<times> nat) option" where
  "read_bucket gets decode pick timed_out keys =
     (if timed_out \<or> list_ex (\<lambda>k. \<not> is_ok (gets k)) keys then None
      else (let slots = map (\<lambda>k. case gets k of Inr (Some s) \<Rightarrow> decode s | _ \<Rightarrow> None) keys
            in if list_ex (\<lambda>s. s = None) slots then None
               else (let entries = map the slots; n = length entries
                     in if n = 0 then None else Some (entries ! pick n, pick n))))"

definition try_save_to_first_free_slot ::
  "('s \<Rightarrow> string \<Rightarrow> (LlmKvCacheError, string option) result)
     \<Rightarrow> (string \<Rightarrow> string \<Rightarrow> nat \<Rightarrow> 's \<Rightarrow> (LlmKvCacheError, unit) result \<times> 's)
     \<Rightarrow> (LlmCacheEntry \<Rightarrow> (string, string) result) \<Rightarrow> string list \<Rightarrow> LlmCacheEntry \<Rightarrow> nat \<Rightarrow> 's
     \<Rightarrow> (LlmKvCacheError, bool) result \<times> 's" where
  "try_save_to_first_free_slot gets puts encode keys entry ttl s =
     (if list_ex (\<lambda>k. \<not> is_ok (gets s k)) keys then (Ok False, s)
      else (case find (\<lambda>k. gets s k = Inr None) keys of
              None \<Rightarrow> (Ok False, s)
            | Some k \<Rightarrow>
                (case encode entry of
                   Inl e \<Rightarrow> (Err (Serde e), s)
                 | Inr json_text \<Rightarrow>
                     (case puts k json_text ttl s of
                        (Inl e, s') \<Rightarrow> (Err e, s')
                      | (Inr _, s') \<Rightarrow> (Ok True, s')))))"

subsection \<open>Writing with retries\<close>

text \<open>One HTTP exchange: it fails to be sent, or it has a status and a body that may fail to be read.\<close>

datatype kv_http = SendFailed string | Answer nat "(string, string) result"

datatype PutClassifiedError = TransientExhausted string | PutTerminal string

definition is_success :: "nat \<Rightarrow> bool" where "is_success st \<longleftrightarrow> 200 \<le> st \<and> st < 300"

definition max_put_attempts :: nat where "max_put_attempts = 4"

text \<open>
  \<open>answer i\<close> is the exchange of attempt \<open>i\<close> and \<open>status_text\<close> prints a status. The result comes with the delays
  slept, in milliseconds.
\<close>

function put_loop :: "(nat \<Rightarrow> string) \<Rightarrow> (nat \<Rightarrow> kv_http) \<Rightarrow> nat \<Rightarrow> (PutClassifiedError, unit) result \<times> nat list" where
  "put_loop status_text answer attempt =
     (case answer attempt of
        SendFailed e \<Rightarrow> (Err (TransientExhausted e), [])
      | Answer st _ \<Rightarrow>
          if is_success st then (Ok (), [])
          else if st = 429 \<or> is_server_error st then
            (if max_put_attempts \<le> attempt + 1
             then (Err (TransientExhausted (''put failed after retries: '' @ status_text st)), [])
             else (let (r, ds) = put_loop status_text answer (attempt + 1)
                   in (r, (2 ^ (attempt + 1) * 500) # ds)))
          else (Err (PutTerminal (''put failed: '' @ status_text st)), []))"
  by pat_completeness auto

termination put_loop
  by (relation "measure (\<lambda>(_, _, attempt). max_put_attempts - attempt)") auto

declare put_loop.simps [simp del]

definition put_with_backoff_classified ::
  "(nat \<Rightarrow> string) \<Rightarrow> (nat \<Rightarrow> nat \<Rightarrow> kv_http) \<Rightarrow> nat \<Rightarrow> (PutClassifiedError, unit) result \<times> nat list" where
  "put_with_backoff_classified status_text answer ttl = put_loop status_text (answer (max ttl 1)) 0"

definition put_with_backoff ::
  "(nat \<Rightarrow> string) \<Rightarrow> (nat \<Rightarrow> nat \<Rightarrow> kv_http) \<Rightarrow> nat \<Rightarrow> (LlmKvCacheError, unit) result" where
  "put_with_backoff status_text answer ttl =
     (case fst (put_with_backoff_classified status_text answer ttl) of
        Inl (TransientExhausted m) \<Rightarrow> Err (Http m) | Inl (PutTerminal m) \<Rightarrow> Err (Http m) | Inr _ \<Rightarrow> Ok ())"

subsection \<open>The Cloudflare client\<close>

datatype CfKvErrorKind = CfTransient "nat option" string | CfTerminal nat string

definition max_kv_value_bytes :: nat where "max_kv_value_bytes = 25 * 1024 * 1024"
definition min_cf_ttl_secs :: nat where "min_cf_ttl_secs = 60"

definition get_key_classified :: "(nat \<Rightarrow> string) \<Rightarrow> kv_http \<Rightarrow> (CfKvErrorKind, string option) result" where
  "get_key_classified status_text x =
     (case x of
        SendFailed e \<Rightarrow> Err (CfTransient None e)
      | Answer st enct \<Rightarrow>
          if st = 404 then Ok None
          else if is_success st then (case enct of Inl e \<Rightarrow> Err (CfTransient (Some st) e) | Inr b \<Rightarrow> Ok (Some b))
          else (let msg = ''kv get: '' @ status_text st
                in if is_server_error st \<or> st = 429 then Err (CfTransient (Some st) msg)
                   else if 400 \<le> st then Err (CfTerminal st msg)
                   else Err (CfTransient (Some st) msg)))"

definition get_raw :: "(nat \<Rightarrow> string) \<Rightarrow> kv_http \<Rightarrow> (LlmKvCacheError, string option) result" where
  "get_raw status_text x =
     (case get_key_classified status_text x of
        Inl (CfTransient _ m) \<Rightarrow> Err (Http m) | Inl (CfTerminal _ m) \<Rightarrow> Err (Http m) | Inr v \<Rightarrow> Ok v)"

definition cf_clamp_ttl :: "nat \<Rightarrow> nat" where "cf_clamp_ttl ttl = max ttl min_cf_ttl_secs"

text \<open>A value over the limit is not sent, and the write succeeds. Lengths are in bytes of the text.\<close>

definition put_raw_classified ::
  "(nat \<Rightarrow> string) \<Rightarrow> (nat \<Rightarrow> nat \<Rightarrow> kv_http) \<Rightarrow> string \<Rightarrow> nat \<Rightarrow> (PutClassifiedError, unit) result" where
  "put_raw_classified status_text answer val ttl =
     (if max_kv_value_bytes < length val then Ok ()
      else fst (put_with_backoff_classified status_text answer (cf_clamp_ttl ttl)))"

definition put_raw ::
  "(nat \<Rightarrow> string) \<Rightarrow> (nat \<Rightarrow> nat \<Rightarrow> kv_http) \<Rightarrow> string \<Rightarrow> nat \<Rightarrow> (LlmKvCacheError, unit) result" where
  "put_raw status_text answer val ttl =
     (if max_kv_value_bytes < length val then Ok ()
      else put_with_backoff status_text answer (cf_clamp_ttl ttl))"

subsection \<open>The backoff gate\<close>

definition next_delay_ms :: "u32 \<Rightarrow> u64 \<Rightarrow> u64 \<Rightarrow> u32 \<Rightarrow> u64" where
  "next_delay_ms failures base_ms cap_ms max_shift =
     (let shift = unat (min failures max_shift);
          mult = (if shift < 64 then push_bit shift 1 else - 1 :: u64)
      in min (saturating_mul base_ms mult) cap_ms)"

definition backoff_base_ms :: u64 where "backoff_base_ms = 200"
definition backoff_cap_ms :: u64 where "backoff_cap_ms = 30000"
definition backoff_max_shift :: u32 where "backoff_max_shift = 16"
definition terminal_cf_cooldown :: duration where "terminal_cf_cooldown = from_secs 60"

record gate =
  open_at :: duration
  gate_failures :: u32

definition gate_new :: "duration \<Rightarrow> gate" where
  "gate_new t = \<lparr>open_at = t, gate_failures = 0\<rparr>"

definition saturating_inc :: "u32 \<Rightarrow> u32" where
  "saturating_inc x = (if x = - 1 then - 1 else x + 1)"

definition register_transient_failure :: "duration \<Rightarrow> gate \<Rightarrow> gate" where
  "register_transient_failure t g =
     (let f = saturating_inc (gate_failures g)
      in \<lparr>open_at = t + from_millis (next_delay_ms f backoff_base_ms backoff_cap_ms backoff_max_shift),
          gate_failures = f\<rparr>)"

definition register_terminal_failure :: "duration \<Rightarrow> gate \<Rightarrow> gate" where
  "register_terminal_failure t g =
     \<lparr>open_at = t + terminal_cf_cooldown, gate_failures = saturating_inc (gate_failures g)\<rparr>"

definition register_success :: "duration \<Rightarrow> gate \<Rightarrow> gate" where
  "register_success t g = \<lparr>open_at = t, gate_failures = 0\<rparr>"

text \<open>
  \<open>get\<close> and \<open>put\<close> of the lazy backend: called at \<open>t\<close>, answered at \<open>t'\<close>. The flag tells whether the store was
  contacted. Neither ever fails.
\<close>

definition lazy_get :: "(nat \<Rightarrow> string) \<Rightarrow> duration \<Rightarrow> duration \<Rightarrow> kv_http \<Rightarrow> gate \<Rightarrow> string option \<times> gate \<times> bool" where
  "lazy_get status_text t t' x g =
     (if t < open_at g then (None, g, False)
      else (case get_key_classified status_text x of
              Inr v \<Rightarrow> (v, register_success t' g, True)
            | Inl (CfTransient _ _) \<Rightarrow> (None, register_transient_failure t' g, True)
            | Inl (CfTerminal _ _) \<Rightarrow> (None, register_terminal_failure t' g, True)))"

definition lazy_put ::
  "(nat \<Rightarrow> string) \<Rightarrow> duration \<Rightarrow> duration \<Rightarrow> (nat \<Rightarrow> nat \<Rightarrow> kv_http) \<Rightarrow> string \<Rightarrow> nat \<Rightarrow> gate \<Rightarrow> gate \<times> bool" where
  "lazy_put status_text t t' answer val ttl g =
     (if t < open_at g then (g, False)
      else (case put_raw_classified status_text answer val ttl of
              Inr _ \<Rightarrow> (register_success t' g, True)
            | Inl (TransientExhausted _) \<Rightarrow> (register_transient_failure t' g, True)
            | Inl (PutTerminal _) \<Rightarrow> (register_terminal_failure t' g, True)))"

subsection \<open>Responses and limits\<close>

text \<open>\<open>header_insert\<close> replaces a header; \<open>valid_name\<close> and \<open>valid_value\<close> are the checks of the header types.\<close>

definition header_insert :: "string \<Rightarrow> string \<Rightarrow> headers \<Rightarrow> headers" where
  "header_insert n v hs = (n, v) # filter (\<lambda>(n', _). n' \<noteq> n) hs"

definition merge_cached_headers :: "(string \<Rightarrow> string option) \<Rightarrow> (string \<Rightarrow> bool) \<Rightarrow> (string \<times> string) list \<Rightarrow> headers \<Rightarrow> headers" where
  "merge_cached_headers header_name valid_value src dst =
     fold (\<lambda>(k, v) hs. case header_name k of
             Some n \<Rightarrow> if valid_value v then header_insert n v hs else hs | None \<Rightarrow> hs) src dst"

definition apply_alephant_cache_hit_headers :: "nat \<Rightarrow> u64 \<Rightarrow> headers \<Rightarrow> headers" where
  "apply_alephant_cache_hit_headers bucket_idx latency_ms hs =
     header_insert ''alephant-cache-latency'' (dec_str (unat latency_ms))
       (header_insert ''alephant-cache-bucket-idx'' (dec_str bucket_idx)
         (header_insert ''alephant-cache'' ''HIT'' hs))"

definition normalized_ttl_secs :: "nat \<Rightarrow> nat" where
  "normalized_ttl_secs ttl = (if ttl = 0 then 60 else ttl)"

definition value_exceeds_limit :: "nat \<Rightarrow> nat \<Rightarrow> bool" where
  "value_exceeds_limit len mx \<longleftrightarrow> mx < len"

subsection \<open>The contract of a store, and filling a bucket\<close>

text \<open>Saving one entry after the other into the same bucket.\<close>

fun save_all where
  "save_all gets puts encode keys ttl [] s = ([], s)"
| "save_all gets puts encode keys ttl (e # es) s =
     (let (r, s1) = try_save_to_first_free_slot gets puts encode keys e ttl s;
          (rs, s2) = save_all gets puts encode keys ttl es s1
      in (r # rs, s2))"

lemma save_all_snoc:
  "save_all gets puts encode keys ttl (es @ [e]) s =
     (let (rs, s1) = save_all gets puts encode keys ttl es s;
          (r, s2) = try_save_to_first_free_slot gets puts encode keys e ttl s1
      in (rs @ [r], s2))"
  by (induction es arbitrary: s) (auto simp: Let_def case_prod_unfold)

lemma find_first:
  assumes "i < length xs" and "P (xs ! i)" and "\<And>j. j < i \<Longrightarrow> \<not> P (xs ! j)"
  shows "find P xs = Some (xs ! i)"
  using assms by (auto simp: find_Some_iff)

locale kv_store =
  fixes gets :: "'s \<Rightarrow> string \<Rightarrow> (LlmKvCacheError, string option) result"
    and puts :: "string \<Rightarrow> string \<Rightarrow> nat \<Rightarrow> 's \<Rightarrow> (LlmKvCacheError, unit) result \<times> 's"
    and fits :: "string \<Rightarrow> bool"
  assumes gets_ok: "is_ok (gets s k)"
    and puts_ok: "fst (puts k v ttl s) = Inr ()"
    and gets_puts: "fits v \<Longrightarrow> gets (snd (puts k v ttl s)) k' = (if k' = k then Inr (Some v) else gets s k')"
begin

lemma save_step:
  assumes "distinct keys" and "n < length keys" and "encode e = Inr t" and "fits t"
    and "\<And>i. i < length keys \<Longrightarrow> gets s (keys ! i) = Inr (if i < n then Some (ts ! i) else None)"
  shows "fst (try_save_to_first_free_slot gets puts encode keys e ttl s) = Inr True"
    and "i < length keys \<Longrightarrow> gets (snd (try_save_to_first_free_slot gets puts encode keys e ttl s)) (keys ! i) =
      Inr (if i < n then Some (ts ! i) else if i = n then Some t else None)"
proof -
  have f: "find (\<lambda>k. gets s k = Inr None) keys = Some (keys ! n)"
    using assms(2,5) by (intro find_first) auto
  have p: "puts (keys ! n) t ttl s = (Inr (), snd (puts (keys ! n) t ttl s))"
    using puts_ok [of "keys ! n" t ttl s] by (metis prod.collapse)
  have r: "try_save_to_first_free_slot gets puts encode keys e ttl s = (Inr True, snd (puts (keys ! n) t ttl s))"
    unfolding try_save_to_first_free_slot_def f option.case assms(3) sum.case
    by (subst p) (simp add: gets_ok list_ex_iff)
  show "fst (try_save_to_first_free_slot gets puts encode keys e ttl s) = Inr True" by (simp add: r)
  show "i < length keys \<Longrightarrow> gets (snd (try_save_to_first_free_slot gets puts encode keys e ttl s)) (keys ! i) =
      Inr (if i < n then Some (ts ! i) else if i = n then Some t else None)"
    using assms(1,2,5) by (auto simp: r gets_puts [OF assms(4)] nth_eq_iff_index_eq)
qed

lemma save_all_fills:
  assumes "distinct keys" and "\<And>k. k \<in> set keys \<Longrightarrow> gets s k = Inr None"
    and "length es \<le> length keys" and "\<And>e. e \<in> set es \<Longrightarrow> encode e = Inr (enct e) \<and> fits (enct e)"
  shows "fst (save_all gets puts encode keys ttl es s) = replicate (length es) (Inr True)
    \<and> (\<forall>i < length keys. gets (snd (save_all gets puts encode keys ttl es s)) (keys ! i) =
         Inr (if i < length es then Some (map enct es ! i) else None))"
  using assms(3,4)
proof (induction es rule: rev_induct)
  case (snoc e es)
  let ?s1 = "snd (save_all gets puts encode keys ttl es s)"
  have ih: "fst (save_all gets puts encode keys ttl es s) = replicate (length es) (Inr True)"
    "i < length keys \<Longrightarrow> gets ?s1 (keys ! i) = Inr (if i < length es then Some (map enct es ! i) else None)" for i
    using snoc by auto
  have n: "length es < length keys" and t: "encode e = Inr (enct e)" "fits (enct e)" using snoc.prems by auto
  note st = save_step [where s = ?s1 and ts = "map enct es" and ttl = ttl
      and encode = encode and e = e and t = "enct e", OF assms(1) n t ih(2)]
  show ?case using ih(1) st
    by (auto simp: save_all_snoc Let_def case_prod_unfold nth_append replicate_append_same less_Suc_eq)
qed (use assms(2) in simp)

lemma save_when_full:
  assumes "\<And>k. k \<in> set keys \<Longrightarrow> gets s k \<noteq> Inr None"
  shows "try_save_to_first_free_slot gets puts encode keys e ttl s = (Inr False, s)"
proof -
  have "find (\<lambda>k. gets s k = Inr None) keys = None" using assms by (auto simp: find_None_iff)
  then show ?thesis by (simp add: try_save_to_first_free_slot_def)
qed

lemma read_saved:
  assumes "distinct keys" and "\<And>k. k \<in> set keys \<Longrightarrow> gets s k = Inr None" and "keys \<noteq> []"
    and "length es \<le> length keys" and "\<And>e. e \<in> set es \<Longrightarrow> encode e = Inr (enct e) \<and> fits (enct e) \<and> decode (enct e) = Some e"
    and "pick (length keys) < length keys" and "s' = snd (save_all gets puts encode keys ttl es s)"
  shows "read_bucket (gets s') decode pick False keys =
    (if length es = length keys then Some (es ! pick (length keys), pick (length keys)) else None)"
proof -
  from save_all_fills [OF assms(1,2,4)] assms(5,7) have g:
    "gets s' (keys ! i) = Inr (if i < length es then Some (map enct es ! i) else None)" if "i < length keys" for i
    using that by blast
  let ?slots = "map (\<lambda>k. case gets s' k of Inr (Some t) \<Rightarrow> decode t | _ \<Rightarrow> None) keys"
  have sl: "?slots ! i = (if i < length es then Some (es ! i) else None)" if "i < length keys" for i
    using g [OF that] assms(5) that by simp
  show ?thesis
  proof (cases "length es = length keys")
    case True
    then have "?slots = map Some es" by (intro nth_equalityI) (simp, use sl True in auto)
    moreover have "es \<noteq> []" using True assms(3) by auto
    ultimately show ?thesis using True assms(6)
      by (simp add: read_bucket_def gets_ok list_ex_iff Let_def)
  next
    case False
    then have i: "length es < length keys" using assms(4) by simp
    then have "?slots ! length es = None" "length es < length ?slots" using sl [OF i] by simp_all
    then have "None \<in> set ?slots" by (metis nth_mem)
    then have "list_ex (\<lambda>s. s = None) ?slots" by (simp only: list_ex_iff) blast
    then show ?thesis using False unfolding read_bucket_def Let_def by simp
  qed
qed

end

text \<open>
  The client against a store that answers as the service documents: the value with 200 or 404 when there is
  none, and 200 for a write. The store itself, a map, is the side of the service: it takes a value when the client
  sends one, which it does for values within the limit; what the client makes of the answers is \<open>get_raw\<close> and \<open>put_raw\<close>.
\<close>

definition cf_store_get :: "(nat \<Rightarrow> string) \<Rightarrow> (string \<rightharpoonup> string) \<Rightarrow> string \<Rightarrow> (LlmKvCacheError, string option) result" where
  "cf_store_get status_text s k =
     get_raw status_text (case s k of None \<Rightarrow> Answer 404 (Inr []) | Some v \<Rightarrow> Answer 200 (Inr v))"

definition cf_store_put ::
  "(nat \<Rightarrow> string) \<Rightarrow> string \<Rightarrow> string \<Rightarrow> nat \<Rightarrow> (string \<rightharpoonup> string) \<Rightarrow> (LlmKvCacheError, unit) result \<times> (string \<rightharpoonup> string)" where
  "cf_store_put status_text k v ttl s =
     (put_raw status_text (\<lambda>_ _. Answer 200 (Inr [])) v ttl, if length v \<le> max_kv_value_bytes then s(k \<mapsto> v) else s)"

interpretation cf_store: kv_store "cf_store_get st" "cf_store_put st" "\<lambda>v. length v \<le> max_kv_value_bytes"
proof unfold_locales
  fix s :: "string \<rightharpoonup> string" and k k' v :: string and ttl :: nat
  have g: "cf_store_get st s k = Inr (s k)" for s k
    by (simp add: cf_store_get_def get_raw_def get_key_classified_def is_success_def split: option.split)
  show "is_ok (cf_store_get st s k)" by (simp add: g)
  show "fst (cf_store_put st k v ttl s) = Inr ()"
    by (simp add: cf_store_put_def put_raw_def put_with_backoff_def put_with_backoff_classified_def is_success_def
        put_loop.simps)
  show "length v \<le> max_kv_value_bytes \<Longrightarrow>
      cf_store_get st (snd (cf_store_put st k v ttl s)) k' = (if k' = k then Inr (Some v) else cf_store_get st s k')"
    by (simp add: g cf_store_put_def)
qed

subsection \<open>Lemmas on settings, retries and the gate\<close>

lemma takeWhile_dec_str: "takeWhile (\<lambda>x. digit_value x \<noteq> None) (dec_str n) = dec_str n"
  using dec_str_digits [of _ n] by (simp add: takeWhile_eq_all_conv)

lemma parse_uint_dec_str: "n \<le> m \<Longrightarrow> parse_uint m (dec_str n) = Some n"
proof -
  assume n: "n \<le> m"
  obtain c cs where d: "dec_str n = c # cs" using dec_str_ne [of n] by (cases "dec_str n") auto
  have "digit_value c \<noteq> None" using dec_str_digits [of c n] d by simp
  then have "c \<noteq> CHR ''+''" by (auto simp: digit_value_def)
  moreover have "parse_digits 0 (c # cs) = Some n" using parse_digits_dec_str [of n] d by simp
  ultimately show ?thesis using n by (simp add: parse_uint_def d del: parse_digits.simps)
qed

lemma regex_digits_control: "regex_digits ''max-age='' (''public, max-age='' @ dec_str n) = Some (dec_str n)"
proof -
  obtain c cs where d: "dec_str n = c # cs" using dec_str_ne [of n] by (cases "dec_str n") auto
  have "digit_value c \<noteq> None" using dec_str_digits [of c n] d by simp
  with takeWhile_dec_str [of n] show ?thesis by (simp add: d strip_prefix_def)
qed

lemma regex_once_control: "n < 2 ^ 64 \<Longrightarrow> regex_once ''max-age='' (''public, max-age='' @ dec_str n) = Some n"
  unfolding regex_once_def regex_digits_control by (simp add: parse_uint_dec_str)

lemma put_loop_bounds:
  assumes "put_loop status_text answer attempt = (r, ds)"
  shows "attempt < 4 \<Longrightarrow> ds = map (\<lambda>i. 2 ^ i * 500) [attempt + 1 ..< attempt + 1 + length ds] \<and> length ds \<le> 3 - attempt
    \<and> (\<forall>i < length ds. \<exists>st b. answer (attempt + i) = Answer st b \<and> (st = 429 \<or> is_server_error st) \<and> \<not> is_success st)
    \<and> (r = Inr () \<longleftrightarrow> (\<exists>st b. answer (attempt + length ds) = Answer st b \<and> is_success st))"
  using assms
proof (induction status_text answer attempt arbitrary: r ds rule: put_loop.induct)
  case (1 status_text answer attempt)
  note e = "1.prems"(2) [unfolded put_loop.simps [of status_text answer attempt]]
  show ?case
  proof (cases "answer attempt")
    case (SendFailed x)
    with e show ?thesis by auto
  next
    case (Answer st b)
    show ?thesis
    proof (cases "is_success st \<or> \<not> (st = 429 \<or> is_server_error st) \<or> max_put_attempts \<le> attempt + 1")
      case True
      with e Answer show ?thesis by (auto split: if_splits)
    next
      case False
      obtain r' ds' where rec: "put_loop status_text answer (attempt + 1) = (r', ds')" by (cases "put_loop status_text answer (attempt + 1)")
      with e Answer False have rds: "r = r'" "ds = (2 ^ (attempt + 1) * 500) # ds'" by (auto split: if_splits)
      have lt: "attempt + 1 < 4" using False by (simp add: max_put_attempts_def)
      have ih: "ds' = map (\<lambda>i. 2 ^ i * 500) [attempt + 2 ..< attempt + 2 + length ds']" "length ds' \<le> 2 - attempt"
        "\<forall>i < length ds'. \<exists>st b. answer (attempt + 1 + i) = Answer st b \<and> (st = 429 \<or> is_server_error st) \<and> \<not> is_success st"
        "r' = Inr () \<longleftrightarrow> (\<exists>st b. answer (attempt + 1 + length ds') = Answer st b \<and> is_success st)"
        using "1.IH" [OF Answer _ _ _ lt rec] False by auto
      have "[attempt + 1 ..< attempt + 1 + length ds] = (attempt + 1) # [attempt + 2 ..< attempt + 2 + length ds']"
        by (simp add: rds(2) upt_conv_Cons del: upt_Suc)
      then have "map (\<lambda>i. 2 ^ i * 500) [attempt + 1 ..< attempt + 1 + length ds] = (2 ^ (attempt + 1) * 500) # ds'"
        by (simp only: list.map ih(1) [symmetric])
      then have "ds = map (\<lambda>i. 2 ^ i * 500) [attempt + 1 ..< attempt + 1 + length ds]" unfolding rds(2) by simp
      moreover have "\<forall>i < length ds. \<exists>st b. answer (attempt + i) = Answer st b \<and> (st = 429 \<or> is_server_error st) \<and> \<not> is_success st"
        using ih(3) False Answer rds(2) by (auto simp: less_Suc_eq_0_disj)
      moreover have "length ds \<le> 3 - attempt" using ih(2) rds(2) lt by simp
      moreover have "r = Inr () \<longleftrightarrow> (\<exists>st b. answer (attempt + length ds) = Answer st b \<and> is_success st)"
        using ih(4) rds by simp
      ultimately show ?thesis by blast
    qed
  qed
qed

lemma next_delay_default:
  "unat (next_delay_ms f backoff_base_ms backoff_cap_ms backoff_max_shift) = min (200 * 2 ^ min (unat f) 16) 30000"
proof -
  let ?k = "unat (min f (16 :: u32))"
  have k: "?k = min (unat f) 16"
    by (simp add: min_def word_le_nat_alt)
  have p: "unat (push_bit ?k 1 :: u64) = 2 ^ ?k"
  proof -
    have "(2::nat) ^ ?k \<le> 2 ^ 16" unfolding k by (intro power_increasing) simp_all
    then have "2 ^ ?k < (2::nat) ^ LENGTH(64)" by (rule le_less_trans) simp
    then have "unat (of_nat (2 ^ ?k) :: u64) = 2 ^ ?k" by (simp only: unsigned_of_nat take_bit_nat_eq_self of_nat_id)
    then show ?thesis by (simp add: push_bit_eq_mult)
  qed
  have lt: "?k < 64" unfolding k by simp
  have bound: "200 * 2 ^ ?k \<le> (200 * 2 ^ 16 :: nat)"
    unfolding k by (intro mult_le_mono2 power_increasing) simp_all
  have "unat (saturating_mul 200 (push_bit ?k 1) :: u64) = 200 * 2 ^ ?k"
    unfolding unat_saturating_mul p using bound by (simp add: min_def)
  then have "unat (min (saturating_mul 200 (push_bit ?k 1)) 30000 :: u64) = min (200 * 2 ^ ?k) 30000"
    by (simp add: min_def word_le_nat_alt)
  then show ?thesis using lt
    by (simp add: next_delay_ms_def backoff_base_ms_def backoff_cap_ms_def backoff_max_shift_def k [symmetric] Let_def)
qed

subsection \<open>Properties\<close>

text \<open>
  Cache settings. Whatever the headers are, accepted settings have between 1 and 20 slots per bucket; the
  cache is read when it is enabled or reading is asked for, and written likewise; and the time to live that is
  read back from the printed cache control is exactly the one that was asked for (\<open>s-maxage\<close>, then
  \<open>max-age\<close>, then a week), cut to a year.
\<close>

theorem cache_settings_exact:
  assumes "cache_settings_parse hs = Inr st"
    and "cc = (case header_str hs ''Alephant-Cache-Control'' of Some s \<Rightarrow> s | None \<Rightarrow> [])"
  shows "1 \<le> unat (bucket_size st) \<and> unat (bucket_size st) \<le> 20
    \<and> (should_read st \<longleftrightarrow> header_true hs ''Alephant-Cache-Enabled'' \<or> header_true hs ''Alephant-Cache-Read'')
    \<and> (should_write st \<longleftrightarrow> header_true hs ''Alephant-Cache-Enabled'' \<or> header_true hs ''Alephant-Cache-Save'')
    \<and> expiration_ttl_secs st = min max_cache_age
        (case regex_once ''s-maxage='' cc of Some n \<Rightarrow> n
         | None \<Rightarrow> (case regex_once ''max-age='' cc of Some n \<Rightarrow> n | None \<Rightarrow> default_cache_age))"
proof -
  have st: "bucket_size st \<noteq> 0" "\<not> 20 < bucket_size st" "cache_control_value st = build_cache_control cc"
    "should_read st \<longleftrightarrow> header_true hs ''Alephant-Cache-Enabled'' \<or> header_true hs ''Alephant-Cache-Read''"
    "should_write st \<longleftrightarrow> header_true hs ''Alephant-Cache-Enabled'' \<or> header_true hs ''Alephant-Cache-Save''"
    using assms by (auto simp: cache_settings_parse_def Let_def split: if_splits)
  have "1 \<le> unat (bucket_size st)" using st(1) by (simp add: Suc_le_eq unat_gt_0)
  moreover have "unat (bucket_size st) \<le> 20" using st(2) by (simp add: word_less_nat_alt)
  moreover let ?sec = "case regex_once ''s-maxage='' cc of Some n \<Rightarrow> n
         | None \<Rightarrow> (case regex_once ''max-age='' cc of Some n \<Rightarrow> n | None \<Rightarrow> default_cache_age)"
  have "min ?sec max_cache_age < 2 ^ 64"
    by (rule le_less_trans [OF min.cobounded2]) (simp add: max_cache_age_def)
  then have "expiration_ttl_secs st = min max_cache_age ?sec"
    unfolding expiration_ttl_secs_def st(3) build_cache_control_def Let_def
    by (subst regex_once_control) (simp_all add: min.commute)
  ultimately show ?thesis using st by blast
qed

theorem cache_settings_exact_witness:
  "map_sum id expiration_ttl_secs (cache_settings_parse [(''alephant-cache-control'', ''max-age=120'')]) = Inr 120"
proof -
  let ?hs = "[(''alephant-cache-control'', ''max-age=120'')] :: headers"
  have h: "header_str ?hs ''Alephant-Cache-Control'' = Some ''max-age=120''" by code_simp
  have b: "bucket_header ?hs = 1" unfolding bucket_header_def by code_simp
  obtain st where st: "cache_settings_parse ?hs = Inr st"
    by (simp add: cache_settings_parse_def Let_def b)
  have r: "regex_once ''s-maxage='' ''max-age=120'' = None" "regex_once ''max-age='' ''max-age=120'' = Some 120"
    by (simp_all add: regex_once_def strip_prefix_def parse_uint_def digit_value_def)
  from cache_settings_exact [OF st refl] have "expiration_ttl_secs st = 120"
    by (simp add: h r max_cache_age_def)
  with st show ?thesis by simp
qed

text \<open>
  A write is tried at most four times. It always returns; it sleeps 1, 2 and 4 seconds between attempts, as
  many of them as it retries, so at most seven seconds in all; every attempt before the last was answered with
  429 or a server error; and it succeeds exactly if the last attempt did.
\<close>

theorem put_retry_bounded:
  "\<exists>r n. put_with_backoff_classified status_text answer ttl = (r, take n [1000, 2000, 4000]) \<and> n \<le> 3
     \<and> sum_list (take n [1000, 2000, 4000 :: nat]) \<le> 7000
     \<and> (\<forall>i < n. \<exists>st b. answer (max ttl 1) i = Answer st b \<and> (st = 429 \<or> is_server_error st))
     \<and> (r = Inr () \<longleftrightarrow> (\<exists>st b. answer (max ttl 1) n = Answer st b \<and> is_success st))"
proof -
  obtain r ds where l: "put_loop status_text (answer (max ttl 1)) 0 = (r, ds)"
    by (cases "put_loop status_text (answer (max ttl 1)) 0")
  note b = put_loop_bounds [OF l, simplified]
  have n: "length ds \<le> 3" using b by simp
  then have len: "length ds = 0 \<or> length ds = 1 \<or> length ds = 2 \<or> length ds = 3" by linarith
  have "ds = map (\<lambda>i. 2 ^ i * 500) [1 ..< 1 + length ds]" using b by simp
  also have "\<dots> = take (length ds) [1000, 2000, 4000]" using len by (elim disjE) (simp_all add: upt_rec)
  finally have ds: "ds = take (length ds) [1000, 2000, 4000]" .
  have "sum_list (take (length ds) [1000, 2000, 4000 :: nat]) \<le> 7000" using len by (elim disjE) simp_all
  with l ds n b show ?thesis
    by (intro exI [of _ r] exI [of _ "length ds"]) (auto simp: put_with_backoff_classified_def)
qed

theorem put_retry_bounded_witness:
  "\<exists>r n. put_with_backoff_classified (\<lambda>_. []) (\<lambda>_ _. Answer 503 (Inr [])) 60 = (r, take n [1000, 2000, 4000]) \<and> r \<noteq> Inr ()"
  using put_retry_bounded [of "\<lambda>_. []" "\<lambda>_ _. Answer 503 (Inr [])" 60] by (auto simp: is_success_def)

text \<open>
  The backoff gate. While it is closed neither operation contacts the store; a transient failure closes it
  for 200 ms doubled with every consecutive failure, never longer than 30 seconds, and a refusal for a minute;
  a success opens it and forgets the failures. Both operations hide every failure.
\<close>

theorem backoff_gate_exact:
  "(t < open_at g \<longrightarrow> lazy_get status_text t t' x g = (None, g, False) \<and> lazy_put status_text t t' answer val ttl g = (g, False))
   \<and> open_at (register_transient_failure t g) = t + min (200 * 2 ^ min (unat (saturating_inc (gate_failures g))) 16) 30000 * 1000000
   \<and> open_at (register_terminal_failure t g) = t + 60 * nanos_per_sec
   \<and> (\<not> t < open_at g \<longrightarrow>
        snd (snd (lazy_get status_text t t' x g))
        \<and> t' \<le> open_at (fst (snd (lazy_get status_text t t' x g)))
        \<and> open_at (fst (snd (lazy_get status_text t t' x g))) \<le> t' + 60 * nanos_per_sec
        \<and> (is_ok (get_key_classified status_text x) \<longrightarrow> fst (snd (lazy_get status_text t t' x g)) = gate_new t'))"
proof (intro conjI impI)
  have tr: "open_at (register_transient_failure t g) = t + min (200 * 2 ^ min (unat (saturating_inc (gate_failures g))) 16) 30000 * 1000000"
    for t by (simp add: register_transient_failure_def Let_def from_millis_def next_delay_default)
  have te: "open_at (register_terminal_failure t g) = t + 60 * nanos_per_sec" for t
    by (simp add: register_terminal_failure_def terminal_cf_cooldown_def from_secs_def)
  show "open_at (register_transient_failure t g) = t + min (200 * 2 ^ min (unat (saturating_inc (gate_failures g))) 16) 30000 * 1000000"
    "open_at (register_terminal_failure t g) = t + 60 * nanos_per_sec" by (rule tr te)+
  have small: "min m 30000 * 1000000 \<le> 60 * nanos_per_sec" for m by (simp add: nanos_per_sec_def min_def)
  {
    assume "t < open_at g"
    then show "lazy_get status_text t t' x g = (None, g, False)" "lazy_put status_text t t' answer val ttl g = (g, False)"
      by (simp_all add: lazy_get_def lazy_put_def)
  next
    assume o: "\<not> t < open_at g"
    then have "fst (snd (lazy_get status_text t t' x g)) = register_success t' g
        \<or> fst (snd (lazy_get status_text t t' x g)) = register_transient_failure t' g
        \<or> fst (snd (lazy_get status_text t t' x g)) = register_terminal_failure t' g"
      by (auto simp: lazy_get_def split: sum.splits CfKvErrorKind.splits)
    then show "t' \<le> open_at (fst (snd (lazy_get status_text t t' x g)))"
      "open_at (fst (snd (lazy_get status_text t t' x g))) \<le> t' + 60 * nanos_per_sec"
      using small tr [of t'] te [of t'] by (auto simp: register_success_def)
    show "snd (snd (lazy_get status_text t t' x g))"
      using o by (auto simp: lazy_get_def split: sum.splits CfKvErrorKind.splits)
    assume "is_ok (get_key_classified status_text x)"
    with o show "fst (snd (lazy_get status_text t t' x g)) = gate_new t'"
      by (auto simp: lazy_get_def register_success_def gate_new_def split: sum.splits)
  }
qed

theorem backoff_gate_exact_witness:
  "lazy_get (\<lambda>_. []) 5 6 (SendFailed ''timeout'') \<lparr>open_at = 7, gate_failures = 1\<rparr> = (None, \<lparr>open_at = 7, gate_failures = 1\<rparr>, False)"
  using backoff_gate_exact [of 5 "\<lparr>open_at = 7, gate_failures = 1\<rparr>" "\<lambda>_. []" 6 "SendFailed ''timeout''"] by simp

text \<open>
  C7. Filling a bucket and reading it back, on the Cloudflare client against a store that works. Starting with
  free slots, every save up to the size of the bucket reports success; reading is a miss until the last
  slot is filled, and from then on a hit on the entry of a randomly chosen slot, exactly as saved; a further
  save reports false and changes nothing.
\<close>

theorem bucket_fill_and_read:
  assumes "distinct keys" and "keys \<noteq> []" and "\<forall>k \<in> set keys. s k = None" and "length es \<le> length keys"
    and "\<forall>e \<in> set es. encode e = Inr (enct e) \<and> decode (enct e) = Some e \<and> length (enct e) \<le> max_kv_value_bytes"
    and "pick (length keys) < length keys"
    and "save_all (cf_store_get st) (cf_store_put st) encode keys ttl es s = (rs, s')"
  shows "rs = replicate (length es) (Inr True)
    \<and> read_bucket (cf_store_get st s') decode pick False keys =
        (if length es = length keys then Some (es ! pick (length keys), pick (length keys)) else None)
    \<and> (length es = length keys \<longrightarrow>
        try_save_to_first_free_slot (cf_store_get st) (cf_store_put st) encode keys e ttl s' = (Inr False, s'))"
proof -
  have free: "cf_store_get st s k = Inr None" if "k \<in> set keys" for k
    using assms(3) that by (simp add: cf_store_get_def get_raw_def get_key_classified_def)
  have f: "encode e = Inr (enct e) \<and> length (enct e) \<le> max_kv_value_bytes" if "e \<in> set es" for e using assms(5) that by blast
  have d: "encode e = Inr (enct e) \<and> length (enct e) \<le> max_kv_value_bytes \<and> decode (enct e) = Some e" if "e \<in> set es" for e
    using assms(5) that by blast
  note fill = cf_store.save_all_fills [where es = es and enct = enct and ttl = ttl, OF assms(1) free assms(4) f]
  have "s' = snd (save_all (cf_store_get st) (cf_store_put st) encode keys ttl es s)" using assms(7) by simp
  from cf_store.read_saved [where es = es and enct = enct and decode = decode and pick = pick, OF assms(1) free assms(2,4) d assms(6) this]
  have rd: "read_bucket (cf_store_get st s') decode pick False keys =
        (if length es = length keys then Some (es ! pick (length keys), pick (length keys)) else None)" .
  have "try_save_to_first_free_slot (cf_store_get st) (cf_store_put st) encode keys e ttl s' = (Inr False, s')"
    if "length es = length keys"
  proof (rule cf_store.save_when_full)
    fix k assume "k \<in> set keys"
    then obtain i where "i < length keys" "k = keys ! i" by (metis in_set_conv_nth)
    then show "cf_store_get st s' k \<noteq> Inr None" using fill assms(7) that by auto
  qed
  with fill rd assms(7) show ?thesis by simp
qed

theorem bucket_fill_and_read_witness:
  "read_bucket (cf_store_get (\<lambda>_. []) (snd (save_all (cf_store_get (\<lambda>_. [])) (cf_store_put (\<lambda>_. []))
      (\<lambda>e. Inr (concat (body e))) [''k''] 60 [\<lparr>entry_headers = [], latency = 0, body = [''x'']\<rparr>] Map.empty)))
      (\<lambda>t. Some \<lparr>entry_headers = [], latency = 0, body = [t]\<rparr>) (\<lambda>_. 0) False [''k'']
   = Some (\<lparr>entry_headers = [], latency = 0, body = [''x'']\<rparr>, 0)"
proof -
  let ?e = "\<lparr>entry_headers = [], latency = 0, body = [''x'']\<rparr>"
  obtain rs s' where sv: "save_all (cf_store_get (\<lambda>_. [])) (cf_store_put (\<lambda>_. [])) (\<lambda>e. Inr (concat (body e))) [''k''] 60 [?e] Map.empty
      = (rs, s')" by fastforce
  have "rs = replicate (length [?e]) (Inr True)
    \<and> read_bucket (cf_store_get (\<lambda>_. []) s') (\<lambda>t. Some \<lparr>entry_headers = [], latency = 0, body = [t]\<rparr>) (\<lambda>_. 0) False [''k''] =
        (if length [?e] = length [''k''] then Some ([?e] ! 0, 0) else None)
    \<and> (length [?e] = length [''k''] \<longrightarrow>
        try_save_to_first_free_slot (cf_store_get (\<lambda>_. [])) (cf_store_put (\<lambda>_. [])) (\<lambda>e. Inr (concat (body e))) [''k''] ?e 60 s' = (Inr False, s'))"
    by (rule bucket_fill_and_read [where enct = "\<lambda>e. concat (body e)", OF _ _ _ _ _ _ sv])
      (simp_all add: max_kv_value_bytes_def)
  with sv show ?thesis by simp
qed

text \<open>
  Keys. The slots of one request have different keys, as far as the hash keeps its inputs apart; a member
  that is ignored does not influence the key; and the parts are joined without a separator, so seed and
  URL can be cut anywhere, and a request with bucket index 2 can have the key of another with index 0.
\<close>

theorem kv_key_parts:
  "(inj sha \<and> i \<noteq> j \<longrightarrow> kv_key_sha256_hex sha pj pr seed url b ign i \<noteq> kv_key_sha256_hex sha pj pr seed url b ign j)
   \<and> (pj b = Some (JObject kvs) \<and> pj b' = Some (JObject (obj_remove k kvs)) \<longrightarrow>
        kv_key_sha256_hex sha pj pr seed url b [k] i = kv_key_sha256_hex sha pj pr seed url b' [k] i)
   \<and> kv_key_sha256_hex sha pj pr (seed @ x) url b ign i = kv_key_sha256_hex sha pj pr seed (x @ url) b ign i
   \<and> kv_key_sha256_hex sha (\<lambda>_. None) pr seed url ''1'' ign 2 = kv_key_sha256_hex sha (\<lambda>_. None) pr seed url ''12'' ign 0"
proof (intro conjI impI)
  assume a: "inj sha \<and> i \<noteq> j"
  have z: "\<not> 1 \<le> w \<longleftrightarrow> w = 0" for w :: u8 by (metis not_less word_gt_0 word_less_1)
  have "kv_key_material pj pr seed url b ign i \<noteq> kv_key_material pj pr seed url b ign j"
    using a by (auto simp: kv_key_material_def dec_str_inj dec_str_ne [symmetric] z word_unat_eq_iff [symmetric] split: if_splits)
  with a show "kv_key_sha256_hex sha pj pr seed url b ign i \<noteq> kv_key_sha256_hex sha pj pr seed url b ign j"
    by (auto simp: kv_key_sha256_hex_def inj_def)
next
  assume "pj b = Some (JObject kvs) \<and> pj b' = Some (JObject (obj_remove k kvs))"
  then show "kv_key_sha256_hex sha pj pr seed url b [k] i = kv_key_sha256_hex sha pj pr seed url b' [k] i"
    by (simp add: kv_key_sha256_hex_def kv_key_material_def body_for_cache_def obj_remove_def)
next
  show "kv_key_sha256_hex sha pj pr (seed @ x) url b ign i = kv_key_sha256_hex sha pj pr seed (x @ url) b ign i"
    by (simp add: kv_key_sha256_hex_def kv_key_material_def)
next
  have "dec_str 2 = ''2''" by (subst dec_str.simps) code_simp
  then show "kv_key_sha256_hex sha (\<lambda>_. None) pr seed url ''1'' ign 2 = kv_key_sha256_hex sha (\<lambda>_. None) pr seed url ''12'' ign 0"
    by (simp add: kv_key_sha256_hex_def kv_key_material_def body_for_cache_def)
qed

theorem kv_key_parts_witness:
  "kv_key_sha256_hex id (\<lambda>_. None) (\<lambda>_. []) ''s'' ''u'' ''b'' [] 0 \<noteq> kv_key_sha256_hex id (\<lambda>_. None) (\<lambda>_. []) ''s'' ''u'' ''b'' [] 1"
proof -
  have "inj id \<and> (0::u8) \<noteq> 1" by simp
  from kv_key_parts [THEN conjunct1, THEN mp, OF this] show ?thesis .
qed

end
