(* ===== verification/Unicode_Text.thy ===== *)
theory Unicode_Text
  imports Gateway_Prelude
begin

text \<open>
  Text of requests beyond ASCII. A Rust \<open>str\<close> is a sequence of bytes that encodes Unicode scalar values in
  UTF-8; here the bytes are a \<open>string\<close>, \<open>str_chars\<close> decodes them (\<open>str::chars\<close>) and \<open>str_of_chars\<close> encodes
  them (\<open>collect::<String>()\<close>), each the inverse of the other. \<open>char::is_whitespace\<close> is the list of the Unicode
  property \<open>White_Space\<close>.
\<close>

type_synonym scalar = nat

definition is_scalar :: "scalar \<Rightarrow> bool" where
  "is_scalar n \<longleftrightarrow> n < 0xD800 \<or> (0xE000 \<le> n \<and> n < 0x110000)"

definition cont_byte :: "nat \<Rightarrow> char" where
  "cont_byte n = char_of (128 + n mod 64)"

definition encode_char :: "scalar \<Rightarrow> string" where
  "encode_char n =
     (if n < 0x80 then [char_of n]
      else if n < 0x800 then [char_of (192 + n div 64), cont_byte n]
      else if n < 0x10000 then [char_of (224 + n div 4096), cont_byte (n div 64), cont_byte n]
      else [char_of (240 + n div 262144), cont_byte (n div 4096), cont_byte (n div 64), cont_byte n])"

definition str_of_chars :: "scalar list \<Rightarrow> string" where
  "str_of_chars us = concat (map encode_char us)"

text \<open>\<open>char::len_utf8\<close>.\<close>

definition len_utf8 :: "scalar \<Rightarrow> nat" where
  "len_utf8 n = (if n < 0x80 then 1 else if n < 0x800 then 2 else if n < 0x10000 then 3 else 4)"

text \<open>The payload of the \<open>i\<close>-th byte as a continuation byte.\<close>

definition cont_bits :: "string \<Rightarrow> nat \<Rightarrow> nat" where
  "cont_bits bs i = (if i < length bs then of_char (bs ! i) mod 64 else 0)"

fun str_chars :: "string \<Rightarrow> scalar list" where
  "str_chars [] = []"
| "str_chars (b # bs) =
     (let n = (of_char b :: nat)
      in if n < 128 then n # str_chars bs
         else if n < 224 then (n mod 32 * 64 + cont_bits bs 0) # str_chars (drop 1 bs)
         else if n < 240 then (n mod 16 * 4096 + cont_bits bs 0 * 64 + cont_bits bs 1) # str_chars (drop 2 bs)
         else (n mod 8 * 262144 + cont_bits bs 0 * 4096 + cont_bits bs 1 * 64 + cont_bits bs 2)
              # str_chars (drop 3 bs))"

definition valid_utf8 :: "string \<Rightarrow> bool" where
  "valid_utf8 s \<longleftrightarrow> list_all is_scalar (str_chars s) \<and> str_of_chars (str_chars s) = s"

definition is_whitespace :: "scalar \<Rightarrow> bool" where
  "is_whitespace n \<longleftrightarrow> (9 \<le> n \<and> n \<le> 13) \<or> n = 0x20 \<or> n = 0x85 \<or> n = 0xA0 \<or> n = 0x1680
     \<or> (0x2000 \<le> n \<and> n \<le> 0x200A) \<or> n = 0x2028 \<or> n = 0x2029 \<or> n = 0x202F \<or> n = 0x205F \<or> n = 0x3000"

text \<open>\<open>split_whitespace\<close> and \<open>trim_end\<close>.\<close>

function split_whitespace :: "scalar list \<Rightarrow> scalar list list" where
  "split_whitespace s =
     (let t = dropWhile is_whitespace s
      in if t = [] then []
         else takeWhile (\<lambda>c. \<not> is_whitespace c) t # split_whitespace (dropWhile (\<lambda>c. \<not> is_whitespace c) t))"
  by pat_completeness auto

lemma dropWhile_word_shorter:
  assumes "dropWhile is_whitespace s \<noteq> []"
  shows "length (dropWhile (\<lambda>c. \<not> is_whitespace c) (dropWhile is_whitespace s)) < length s"
proof -
  from assms hd_dropWhile [OF assms] obtain x xs where x: "dropWhile is_whitespace s = x # xs" "\<not> is_whitespace x"
    by (cases "dropWhile is_whitespace s") auto
  then have "length (x # xs) \<le> length s" using length_dropWhile_le [of is_whitespace s] by simp
  then show ?thesis using x length_dropWhile_le [of "\<lambda>c. \<not> is_whitespace c" xs] by simp
qed

termination split_whitespace
  by (relation "measure length") (auto intro: dropWhile_word_shorter)

declare split_whitespace.simps [simp del]

fun join_space :: "scalar list list \<Rightarrow> scalar list" where
  "join_space [] = []"
| "join_space [w] = w"
| "join_space (w # ws) = w @ 0x20 # join_space ws"

definition uni_trim_end :: "scalar list \<Rightarrow> scalar list" where
  "uni_trim_end s = rev (dropWhile is_whitespace (rev s))"

subsection \<open>Decoding inverts encoding\<close>

lemma byte_mods:
  "x < 64 \<Longrightarrow> (128 + x) mod 64 = (x :: nat)" "x < 32 \<Longrightarrow> (192 + x) mod 32 = (x :: nat)"
  "x < 16 \<Longrightarrow> (224 + x) mod 16 = (x :: nat)" "x < 8 \<Longrightarrow> (240 + x) mod 8 = (x :: nat)"
  using mod_mult_self2 [of x 64 2] mod_mult_self2 [of x 32 6] mod_mult_self2 [of x 16 14] mod_mult_self2 [of x 8 30]
  by (simp_all add: add.commute)

lemma of_char_byte: "n < 256 \<Longrightarrow> of_char (char_of n :: char) = (n :: nat)"
  by simp

lemma cont_byte_bits: "of_char (cont_byte n) mod 64 = n mod (64 :: nat)"
proof -
  have "n mod 64 < 64" by simp
  then have "of_char (cont_byte n) = 128 + n mod 64"
    unfolding cont_byte_def by (intro of_char_byte) linarith
  then show ?thesis using byte_mods(1) [of "n mod 64"] by simp
qed

lemma encode_char_ne [simp]: "encode_char n \<noteq> []"
  by (simp add: encode_char_def)

lemma length_encode_char: "length (encode_char n) = len_utf8 n"
  by (simp add: encode_char_def len_utf8_def)

lemma base64_digits:
  "n = n div 4096 * 4096 + n div 64 mod 64 * 64 + n mod (64 :: nat)"
  "n = n div 262144 * 262144 + n div 4096 mod 64 * 4096 + n div 64 mod 64 * 64 + n mod (64 :: nat)"
proof -
  have d: "n div 64 div 64 = n div 4096" "n div 4096 div 64 = n div 262144" by (simp_all add: div_mult2_eq [symmetric])
  show a: "n = n div 4096 * 4096 + n div 64 mod 64 * 64 + n mod 64"
    using div_mult_mod_eq [of n 64] div_mult_mod_eq [of "n div 64" 64] unfolding d by linarith
  show "n = n div 262144 * 262144 + n div 4096 mod 64 * 4096 + n div 64 mod 64 * 64 + n mod 64"
    using a div_mult_mod_eq [of "n div 4096" 64] unfolding d by linarith
qed

lemma cont_bits_Cons [simp]:
  "cont_bits (cont_byte n # bs) 0 = n mod 64" "cont_bits (b # bs) (Suc i) = cont_bits bs i"
  by (simp_all add: cont_bits_def cont_byte_bits)

lemma str_chars_encode:
  assumes "is_scalar n"
  shows "str_chars (encode_char n @ bs) = n # str_chars bs"
proof -
  from assms have n: "n < 0x110000" by (auto simp: is_scalar_def)
  consider "n < 0x80" | "0x80 \<le> n" "n < 0x800" | "0x800 \<le> n" "n < 0x10000" | "0x10000 \<le> n" by linarith
  then show ?thesis
  proof cases
    case 1
    then have "of_char (char_of n :: char) = n" by (intro of_char_byte) simp
    with 1 show ?thesis by (simp add: encode_char_def del: of_char_of)
  next
    case 2
    define h where "h = n div 64"
    have h: "2 \<le> h" "h < 32" using 2 by (simp_all add: h_def div_less_iff_less_mult less_eq_div_iff_mult_less_eq)
    then have "of_char (char_of (192 + h) :: char) = 192 + h" by (intro of_char_byte) simp
    moreover have "n = h * 64 + n mod 64" by (simp add: h_def)
    ultimately show ?thesis using 2 h byte_mods(2) [of h]
      by (simp add: encode_char_def h_def [symmetric] del: of_char_of)
  next
    case 3
    define h where "h = n div 4096"
    have h: "h < 16" using 3 by (simp add: h_def div_less_iff_less_mult)
    then have "of_char (char_of (224 + h) :: char) = 224 + h" by (intro of_char_byte) simp
    moreover have "n = h * 4096 + n div 64 mod 64 * 64 + n mod 64" unfolding h_def by (rule base64_digits)
    ultimately show ?thesis using 3 h byte_mods(3) [of h]
      by (simp add: encode_char_def h_def [symmetric] del: of_char_of)
  next
    case 4
    define h where "h = n div 262144"
    have h: "h < 5" using n by (simp add: h_def div_less_iff_less_mult)
    then have "of_char (char_of (240 + h) :: char) = 240 + h" by (intro of_char_byte) simp
    moreover have "n = h * 262144 + n div 4096 mod 64 * 4096 + n div 64 mod 64 * 64 + n mod 64"
      unfolding h_def by (rule base64_digits)
    ultimately show ?thesis using 4 h byte_mods(4) [of h]
      by (simp add: encode_char_def h_def [symmetric] numeral_2_eq_2 numeral_3_eq_3 del: of_char_of)
  qed
qed

lemma str_chars_of_chars [simp]:
  "list_all is_scalar us \<Longrightarrow> str_chars (str_of_chars us) = us"
  by (induction us) (simp_all add: str_of_chars_def str_chars_encode)

lemma str_of_chars_valid: "list_all is_scalar us \<Longrightarrow> valid_utf8 (str_of_chars us)"
  by (simp add: valid_utf8_def)

lemma valid_utf8_iff: "valid_utf8 s \<longleftrightarrow> (\<exists>us. list_all is_scalar us \<and> s = str_of_chars us)"
  by (metis str_of_chars_valid valid_utf8_def)

subsection \<open>Whitespace\<close>

lemma split_whitespace_words:
  "w \<in> set (split_whitespace s) \<Longrightarrow> w \<noteq> [] \<and> (\<forall>c \<in> set w. \<not> is_whitespace c \<and> c \<in> set s)"
proof (induction s rule: split_whitespace.induct)
  case (1 s)
  let ?t = "dropWhile is_whitespace s"
  from 1(2) have t: "?t \<noteq> []" by (auto simp: split_whitespace.simps [of s] Let_def split: if_splits)
  then have "\<not> is_whitespace (hd ?t)" by (rule hd_dropWhile)
  then have ne: "takeWhile (\<lambda>c. \<not> is_whitespace c) ?t \<noteq> []" using t by (cases ?t) auto
  have sub: "set ?t \<subseteq> set s" by (auto dest: set_dropWhileD)
  show ?case
  proof (cases "w = takeWhile (\<lambda>c. \<not> is_whitespace c) ?t")
    case True
    with ne sub show ?thesis by (auto dest: set_takeWhileD)
  next
    case False
    with 1(2) t have "w \<in> set (split_whitespace (dropWhile (\<lambda>c. \<not> is_whitespace c) ?t))"
      unfolding split_whitespace.simps [of s] Let_def by (simp split: if_splits)
    from 1(1) [OF refl t this] sub show ?thesis by (auto dest: set_dropWhileD)
  qed
qed

lemma split_whitespace_word:
  assumes "w \<noteq> []" and "\<forall>c \<in> set w. \<not> is_whitespace c" and "ys = [] \<or> is_whitespace (hd ys)"
  shows "split_whitespace (w @ ys) = w # split_whitespace ys"
proof -
  have d: "dropWhile is_whitespace (w @ ys) = w @ ys" using assms(1,2) by (cases w) auto
  have "takeWhile (\<lambda>c. \<not> is_whitespace c) (w @ ys) = w" "dropWhile (\<lambda>c. \<not> is_whitespace c) (w @ ys) = ys"
    using assms(2,3) by (induction w) (cases ys; auto)+
  then show ?thesis using assms(1) d by (simp add: split_whitespace.simps [of "w @ ys"])
qed

lemma split_whitespace_space: "is_whitespace c \<Longrightarrow> split_whitespace (c # s) = split_whitespace s"
  by (simp add: split_whitespace.simps [of "c # s"] split_whitespace.simps [of s])

lemma split_join_space:
  assumes "\<forall>w \<in> set ws. w \<noteq> [] \<and> (\<forall>c \<in> set w. \<not> is_whitespace c)"
  shows "split_whitespace (join_space ws) = ws"
  using assms
proof (induction ws rule: join_space.induct)
  case 1
  then show ?case by (simp add: split_whitespace.simps)
next
  case (2 w)
  then show ?case using split_whitespace_word [of w "[]"] by (simp add: split_whitespace.simps [of "[]"])
next
  case (3 w v ws)
  have sp: "is_whitespace 0x20" by (simp add: is_whitespace_def)
  have "split_whitespace (w @ 0x20 # join_space (v # ws)) = w # split_whitespace (0x20 # join_space (v # ws))"
    using 3(2) sp by (intro split_whitespace_word) auto
  then show ?case using 3 by (simp add: split_whitespace_space [OF sp])
qed

text \<open>Splitting and joining again does not lengthen a text.\<close>

lemma length_join_space: "length (join_space ws) = sum_list (map length ws) + (length ws - 1)"
  by (induction ws rule: join_space.induct) auto

lemma length_join_split: "length (join_space (split_whitespace s)) \<le> length s"
proof (induction "length s" arbitrary: s rule: less_induct)
  case less
  let ?t = "dropWhile is_whitespace s"
  let ?w = "takeWhile (\<lambda>c. \<not> is_whitespace c) ?t" and ?r = "dropWhile (\<lambda>c. \<not> is_whitespace c) ?t"
  show ?case
  proof (cases "?t = []")
    case True
    then show ?thesis unfolding split_whitespace.simps [of s] by simp
  next
    case False
    have len: "length ?w + length ?r \<le> length s"
      using length_dropWhile_le [of is_whitespace s] takeWhile_dropWhile_id [of "\<lambda>c. \<not> is_whitespace c" ?t]
      by (metis length_append)
    have sp: "split_whitespace s = ?w # split_whitespace ?r"
      using False unfolding split_whitespace.simps [of s] Let_def by simp
    show ?thesis
    proof (cases ?r)
      case Nil
      with len sp show ?thesis by (simp add: split_whitespace.simps [of "[]"])
    next
      case (Cons c r)
      then have ws: "is_whitespace c" using hd_dropWhile [of "\<lambda>c. \<not> is_whitespace c" ?t] by (metis list.distinct(1) list.sel(1))
      have "length (join_space (split_whitespace r)) \<le> length r" using len Cons by (intro less) simp
      then show ?thesis using len
        by (simp add: sp Cons split_whitespace_space [OF ws] length_join_space)
    qed
  qed
qed

lemma set_join_space: "set (join_space ws) \<subseteq> insert 0x20 (\<Union>(set ` set ws))"
  by (induction ws rule: join_space.induct) auto

end
