(* ===== verification/Float32.thy ===== *)
theory Float32
  imports Float64
begin

text \<open>
  The part of \<open>f32\<close> the context heuristics compute with. The values are those of \<open>Float64\<close> (a rational, an infinity or
  NaN); every operation rounds to binary32, to nearest with ties to even.
\<close>

type_synonym f32 = f64

definition f32_exponent :: "rat \<Rightarrow> int" where
  "f32_exponent q = max (ilog2 q - 23) (- 149)"

definition f32_round_pos :: "rat \<Rightarrow> rat" where
  "f32_round_pos q = of_int (round_half_even (q / 2 powi f32_exponent q)) * 2 powi f32_exponent q"

definition f32_round :: "rat \<Rightarrow> f32" where
  "f32_round q =
     (if q = 0 then Fin 0
      else if q > 0 then (if f32_round_pos q \<ge> 2 ^ 128 then PosInf else Fin (f32_round_pos q))
      else (if f32_round_pos (- q) \<ge> 2 ^ 128 then NegInf else Fin (- f32_round_pos (- q))))"

text \<open>Division by a positive finite value and multiplication with one, which is all the code has.\<close>

definition f32_div :: "f32 \<Rightarrow> rat \<Rightarrow> f32" where
  "f32_div x b = (case x of Fin a \<Rightarrow> f32_round (a / b) | y \<Rightarrow> y)"

definition f32_mul :: "f32 \<Rightarrow> rat \<Rightarrow> f32" where
  "f32_mul x b = (case x of Fin a \<Rightarrow> f32_round (a * b) | y \<Rightarrow> y)"

text \<open>Below \<open>2^24\<close> rounding does not cross an integer.\<close>

lemma f32_exponent_small:
  assumes "0 < q" and "q < 2 ^ 24"
  shows "f32_exponent q \<le> 0"
proof -
  have "(2::rat) powi ilog2 q < 2 powi 24" using ilog2_bounds(1) [OF assms(1)] assms(2) by (simp add: power_int_def)
  from powi_two_less [OF this] show ?thesis by (simp add: f32_exponent_def)
qed

lemma f32_grid:
  assumes "e \<le> 0"
  shows "of_int (int m * 2 ^ nat (- e)) * 2 powi e = (of_nat m :: rat)"
proof -
  have "(2::rat) ^ nat (- e) * 2 powi e = 1"
    using assms powi_two_add [of "- e" e] powi_two_ge1 [of "- e"] by simp
  then show ?thesis by simp
qed

lemma f32_round_pos_le_nat:
  assumes "0 < q" and "q \<le> of_nat m" and "m < 2 ^ 24"
  shows "f32_round_pos q \<le> of_nat m"
proof -
  have "(of_nat m :: rat) < of_nat (2 ^ 24)" using assms(3) by (simp only: of_nat_less_iff)
  then have e: "f32_exponent q \<le> 0" using assms by (intro f32_exponent_small) auto
  let ?e = "f32_exponent q"
  let ?z = "int m * 2 ^ nat (- ?e)"
  have z: "of_int ?z * 2 powi ?e = (of_nat m :: rat)" by (rule f32_grid [OF e])
  have "q \<le> of_int ?z * 2 powi ?e" unfolding z by (rule assms(2))
  then have "q / 2 powi ?e \<le> of_int ?z" by (simp only: pos_divide_le_eq powi_two_pos)
  then have "round_half_even (q / 2 powi ?e) \<le> ?z" by (rule round_half_even_le_int)
  then have "of_int (round_half_even (q / 2 powi ?e)) \<le> (of_int ?z :: rat)" by (simp only: of_int_le_iff)
  then have "f32_round_pos q \<le> of_int ?z * 2 powi ?e"
    unfolding f32_round_pos_def by (intro mult_right_mono) (simp_all add: less_imp_le)
  then show ?thesis unfolding z .
qed

lemma f32_round_pos_nat:
  assumes "0 < m" and "m < 2 ^ 24"
  shows "f32_round_pos (of_nat m) = of_nat m"
proof -
  have "(of_nat m :: rat) < of_nat (2 ^ 24)" using assms(2) by (simp only: of_nat_less_iff)
  then have e: "f32_exponent (of_nat m) \<le> 0" using assms by (intro f32_exponent_small) auto
  from f32_grid [OF this, of m] have "of_nat m / 2 powi f32_exponent (of_nat m)
      = (of_int (int m * 2 ^ nat (- f32_exponent (of_nat m))) :: rat)"
    by (simp only: nonzero_divide_eq_eq powi_two_pos [THEN less_imp_neq, symmetric] not_False_eq_True)
  then show ?thesis unfolding f32_round_pos_def by (simp only: round_half_even_int f32_grid [OF e])
qed

lemma f32_round_pos_nonneg: "0 < q \<Longrightarrow> 0 \<le> f32_round_pos q"
  unfolding f32_round_pos_def by (auto intro!: mult_nonneg_nonneg round_half_even_ge_int [of 0, simplified])

lemma f32_round_nat:
  assumes "m < 2 ^ 24"
  shows "f32_round (of_nat m) = Fin (of_nat m)"
proof (cases "m = 0")
  case False
  have "(of_nat m :: rat) < of_nat (2 ^ 24)" using assms by (simp only: of_nat_less_iff)
  also have "\<dots> \<le> 2 ^ 128" by simp
  finally show ?thesis using False assms by (simp add: f32_round_def f32_round_pos_nat not_le)
qed (simp add: f32_round_def)

text \<open>A value between 0 and a small integer rounds to a finite value between them.\<close>

lemma f32_round_between:
  assumes "0 \<le> q" and "q \<le> of_nat m" and "m < 2 ^ 24"
  obtains r where "f32_round q = Fin r" and "0 \<le> r" and "r \<le> of_nat m"
proof (cases "q = 0")
  case True
  with that [of 0] show ?thesis by (simp add: f32_round_def)
next
  case False
  have "(of_nat m :: rat) < of_nat (2 ^ 24)" using assms(3) by (simp only: of_nat_less_iff)
  also have "\<dots> \<le> 2 ^ 128" by simp
  finally have m: "(of_nat m :: rat) < 2 ^ 128" .
  have le: "f32_round_pos q \<le> of_nat m" using False assms by (intro f32_round_pos_le_nat) auto
  with m have "\<not> 2 ^ 128 \<le> f32_round_pos q" by linarith
  with False assms(1) le that [of "f32_round_pos q"] f32_round_pos_nonneg [of q] show ?thesis
    by (simp add: f32_round_def)
qed

end
