(* ===== verification/Large_Context.thy ===== *)
theory Large_Context
  imports Model_Id Json Float32 Unicode_Text
begin

text \<open>
  Requests that exceed the context of their model (\<open>middleware/large_context\<close>). A header of the request names a
  handler: \<open>truncate\<close> and \<open>middle-out\<close> shorten the texts of the messages to the budget of the model, \<open>fallback\<close> goes to
  the second model of a list. The theory follows the modules: headers (\<open>headers.rs\<close>), the parsed request
  (\<open>parse.rs\<close>), context limits (\<open>model_limits.rs\<close>), the estimate of input tokens (\<open>input_token_estimate\<close>), the shortening
  (\<open>heuristics.rs\<close>) and the whole transformation (\<open>mod.rs\<close>).

  The tokeniser and the JSON parser and printer are libraries: \<open>lc_env\<close> holds what the code calls of them. Message
  texts are Unicode; model names and headers are ASCII. An outer \<open>None\<close> is a panic.
\<close>

subsection \<open>Headers\<close>

datatype TokenLimitExceptionHandler = Truncate | MiddleOut | Fallback

datatype lc_error = InvalidRequestHeader | InvalidLargeContextHandler string | InvalidRequestBody

record LargeContextHeaders =
  lc_handler :: "TokenLimitExceptionHandler option"
  lc_model_override :: "string option"

definition handler_as_str :: "TokenLimitExceptionHandler \<Rightarrow> string" where
  "handler_as_str h = (case h of Truncate \<Rightarrow> ''truncate'' | MiddleOut \<Rightarrow> ''middle-out'' | Fallback \<Rightarrow> ''fallback'')"

definition parse_header_string :: "headers \<Rightarrow> string \<Rightarrow> (lc_error, string option) result" where
  "parse_header_string hs key =
     (case header_get hs key of
        None \<Rightarrow> Ok None
      | Some v \<Rightarrow> (case header_to_str v of
          None \<Rightarrow> Err InvalidRequestHeader
        | Some t \<Rightarrow> Ok (if str_trim t = [] then None else Some (str_trim t))))"

definition parse_handler_value :: "string \<Rightarrow> (lc_error, TokenLimitExceptionHandler) result" where
  "parse_handler_value value =
     (let v = to_ascii_lowercase (str_trim value)
      in if v = ''truncate'' then Ok Truncate
         else if v = ''middle-out'' then Ok MiddleOut
         else if v = ''fallback'' then Ok Fallback
         else Err (InvalidLargeContextHandler value))"

definition parse_large_context_headers :: "headers \<Rightarrow> (lc_error, LargeContextHeaders) result" where
  "parse_large_context_headers hs =
     try_bind (parse_header_string hs ''Alephant-Token-Limit-Exception-Handler'') (\<lambda>value.
     try_bind (case value of None \<Rightarrow> Ok None
               | Some v \<Rightarrow> try_bind (parse_handler_value v) (\<lambda>h. Ok (Some h))) (\<lambda>handler.
     try_bind (parse_header_string hs ''Alephant-Model-Override'') (\<lambda>model.
     Ok \<lparr>lc_handler = handler, lc_model_override = model\<rparr>)))"

subsection \<open>The parsed request\<close>

record ChatMessageTextRef =
  tr_index :: nat
  tr_role :: "string option"
  tr_content :: string

record ChatCompletionsPayload =
  pl_raw :: json
  pl_model :: "string option"
  pl_messages :: "ChatMessageTextRef list"
  has_non_text_message_content :: bool
  pl_tools :: "json option"
  requested_completion_tokens :: "u32 option"

definition trimmed_string :: "json \<Rightarrow> string option" where
  "trimmed_string v =
     (case as_str v of None \<Rightarrow> None | Some s \<Rightarrow> if str_trim s = [] then None else Some (str_trim s))"

text \<open>\<open>Value::as_u64\<close>: an unsigned integer prints as its digits.\<close>

definition as_u64 :: "json \<Rightarrow> nat option" where
  "as_u64 v = (case v of JNumber s \<Rightarrow>
      if s \<noteq> [] \<and> hd s \<noteq> CHR ''+'' then parse_uint (2 ^ 64 - 1) s else None | _ \<Rightarrow> None)"

definition u32_try_from :: "nat \<Rightarrow> u32 option" where
  "u32_try_from n = (if n < 2 ^ 32 then Some (of_nat n) else None)"

definition member_u32 :: "(string \<times> json) list \<Rightarrow> string \<Rightarrow> u32 option" where
  "member_u32 kvs key = Option.bind (Option.bind (obj_get key kvs) as_u64) u32_try_from"

definition completion_budget_from_object :: "(string \<times> json) list \<Rightarrow> u32 option" where
  "completion_budget_from_object kvs =
     (case member_u32 kvs ''max_completion_tokens'' of Some n \<Rightarrow> Some n | None \<Rightarrow>
      (case member_u32 kvs ''max_tokens'' of Some n \<Rightarrow> Some n | None \<Rightarrow>
       member_u32 kvs ''max_output_tokens''))"

text \<open>The loop over the messages: the text messages from position \<open>i\<close> on, and whether another kind was met.\<close>

fun collect_messages :: "nat \<Rightarrow> json list \<Rightarrow> ChatMessageTextRef list \<times> bool" where
  "collect_messages i [] = ([], False)"
| "collect_messages i (m # ms) =
     (let (rest, other) = collect_messages (Suc i) ms
      in case as_object m of
           None \<Rightarrow> (rest, True)
         | Some kvs \<Rightarrow>
             (case obj_get ''content'' kvs of
                Some (JString content) \<Rightarrow>
                  (\<lparr>tr_index = i, tr_role = Option.bind (obj_get ''role'' kvs) trimmed_string,
                    tr_content = content\<rparr> # rest, other)
              | Some JNull \<Rightarrow> (rest, other)
              | None \<Rightarrow> (rest, other)
              | Some _ \<Rightarrow> (rest, True)))"

definition payload_of_json :: "json \<Rightarrow> ChatCompletionsPayload option" where
  "payload_of_json raw =
     (case as_object raw of None \<Rightarrow> None | Some kvs \<Rightarrow>
      (case Option.bind (obj_get ''messages'' kvs) as_array of None \<Rightarrow> None | Some arr \<Rightarrow>
       Some \<lparr>pl_raw = raw,
             pl_model = Option.bind (obj_get ''model'' kvs) trimmed_string,
             pl_messages = fst (collect_messages 0 arr),
             has_non_text_message_content = snd (collect_messages 0 arr),
             pl_tools = obj_get ''tools'' kvs,
             requested_completion_tokens = completion_budget_from_object kvs\<rparr>))"

record tiktoken_message =
  cm_role :: string
  cm_content :: "string option"
  cm_name :: "string option"

record 'd lc_env =
  from_slice :: "string \<Rightarrow> json option"
  to_vec :: "json \<Rightarrow> string option"
  json_to_string :: "json \<Rightarrow> string"
  get_tokenizer :: "string \<Rightarrow> bool"
  num_tokens_from_messages :: "string \<Rightarrow> tiktoken_message list \<Rightarrow> nat option"
  bpe_for_model :: "string \<Rightarrow> (string \<Rightarrow> nat) option"
  lc_calendar :: "'d calendar"

text \<open>The outer \<open>None\<close> is a JSON error, the inner one a request of another shape.\<close>

definition parse_chat_completions_payload :: "'d lc_env \<Rightarrow> string \<Rightarrow> ChatCompletionsPayload option option" where
  "parse_chat_completions_payload env body = map_option payload_of_json (from_slice env body)"

subsection \<open>Context limits\<close>

definition starts_with :: "string \<Rightarrow> string \<Rightarrow> bool" where
  "starts_with p s \<longleftrightarrow> strip_prefix p s \<noteq> None"

definition model_suffix :: "string \<Rightarrow> string" where
  "model_suffix model = (case split_once (CHR ''/'') model of None \<Rightarrow> model | Some (_, suffix) \<Rightarrow> suffix)"

definition resolve_context_limit :: "string \<Rightarrow> u32 option" where
  "resolve_context_limit model =
     (let suffix = model_suffix (to_ascii_lowercase (str_trim model))
      in if starts_with ''gpt-4o-mini'' suffix then Some 128000
         else if starts_with ''gpt-4o'' suffix then Some 128000
         else None)"

subsection \<open>Estimating the input tokens\<close>

datatype EstimateProfile =
  EpOpenAiCompatible | EpGeminiText | EpAnthropicMessages | EpBedrockMultiFoundation | EpHeuristicDefault

definition openai_compatible_codes :: "string list" where
  "openai_compatible_codes = [''openai'', ''azure'', ''deepseek'', ''mistral'', ''groq'', ''moonshotai'', ''qwen'',
     ''minimax'', ''xai'', ''openrouter'', ''nvidia'', ''hyperbolic'']"

definition is_openai_compatible_code :: "string \<Rightarrow> bool" where
  "is_openai_compatible_code code = list_ex (eq_ignore_ascii_case (str_trim code)) openai_compatible_codes"

definition profile_for_inference_provider :: "InferenceProvider \<Rightarrow> EstimateProfile" where
  "profile_for_inference_provider p =
     (case p of
        OpenAI \<Rightarrow> EpOpenAiCompatible | Anthropic \<Rightarrow> EpAnthropicMessages | GoogleGemini \<Rightarrow> EpGeminiText
      | Bedrock \<Rightarrow> EpBedrockMultiFoundation | Ollama \<Rightarrow> EpHeuristicDefault | Custom \<Rightarrow> EpOpenAiCompatible
      | Named name \<Rightarrow> if is_openai_compatible_code name then EpOpenAiCompatible else EpHeuristicDefault)"

definition profile_from_model_id :: "'d ModelId \<Rightarrow> EstimateProfile" where
  "profile_from_model_id mid =
     (case mid of
        ModelIdWithVersion p _ \<Rightarrow> profile_for_inference_provider p
      | BedrockModel _ \<Rightarrow> EpBedrockMultiFoundation
      | OllamaModel _ \<Rightarrow> EpHeuristicDefault | UnknownModel _ \<Rightarrow> EpHeuristicDefault)"

definition resolve_profile :: "'d calendar \<Rightarrow> InferenceProvider option \<Rightarrow> string \<Rightarrow> EstimateProfile" where
  "resolve_profile cal hint primary_model =
     (case hint of Some p \<Rightarrow> profile_for_inference_provider p
      | None \<Rightarrow> (case model_id_from_str cal primary_model of
          Inr mid \<Rightarrow> profile_from_model_id mid | Inl _ \<Rightarrow> EpHeuristicDefault))"

definition refine_bedrock_profile :: "'d calendar \<Rightarrow> string \<Rightarrow> EstimateProfile" where
  "refine_bedrock_profile cal primary_model =
     (case bedrock_from_str cal (model_suffix primary_model) of
        Inl _ \<Rightarrow> EpHeuristicDefault
      | Inr b \<Rightarrow>
          if eq_ignore_ascii_case (br_provider b) ''anthropic'' then EpAnthropicMessages
          else if to_ascii_lowercase (br_provider b) \<in> set [''meta'', ''mistral'', ''ai21'', ''amazon'']
          then EpOpenAiCompatible
          else EpHeuristicDefault)"

definition openai_model_suffix :: "string \<Rightarrow> string" where
  "openai_model_suffix primary_model = str_trim (hd (split_on (CHR '','') (model_suffix primary_model)))"

text \<open>Counting in an \<open>i32\<close>, as the tokeniser's cookbook does.\<close>

definition message_tokens :: "u32 \<Rightarrow> u32 \<Rightarrow> (string \<Rightarrow> nat) \<Rightarrow> tiktoken_message \<Rightarrow> u32" where
  "message_tokens per_message per_name bpe m =
     per_message + of_nat (bpe (cm_role m))
       + (case cm_content m of None \<Rightarrow> 0 | Some c \<Rightarrow> of_nat (bpe c))
       + (case cm_name m of None \<Rightarrow> 0 | Some n \<Rightarrow> of_nat (bpe n) + per_name)"

definition chat_tokens_cookbook_fallback :: "'d lc_env \<Rightarrow> string \<Rightarrow> tiktoken_message list \<Rightarrow> nat option" where
  "chat_tokens_cookbook_fallback env model messages =
     (case bpe_for_model env model of None \<Rightarrow> None
      | Some bpe \<Rightarrow>
          let (per_message, per_name) = (if model = ''gpt-3.5-turbo-0301'' then (4, - 1) else (3, 1));
              n = fold (\<lambda>m acc. acc + message_tokens per_message per_name bpe m) messages 0 + 3
          in Some (if sint n < 0 then 0 else unat n))"

definition count_tokens_openai_profile :: "'d lc_env \<Rightarrow> ChatCompletionsPayload \<Rightarrow> string \<Rightarrow> u32 option" where
  "count_tokens_openai_profile env p primary_model =
     (let model = openai_model_suffix primary_model;
          messages = map (\<lambda>m. \<lparr>cm_role = (case tr_role m of Some r \<Rightarrow> r | None \<Rightarrow> ''user''),
                                cm_content = Some (tr_content m), cm_name = None\<rparr>) (pl_messages p)
      in if \<not> get_tokenizer env model then None
         else case (case num_tokens_from_messages env model messages of
                      Some v \<Rightarrow> Some v | None \<Rightarrow> chat_tokens_cookbook_fallback env model messages) of
             None \<Rightarrow> None
           | Some n \<Rightarrow> (case pl_tools p of
               None \<Rightarrow> u32_try_from n
             | Some tools \<Rightarrow> (case bpe_for_model env model of
                 None \<Rightarrow> None
               | Some bpe \<Rightarrow> u32_try_from (min (n + bpe (json_to_string env tools)) (2 ^ 64 - 1)))))"

definition normalize_text :: "scalar list \<Rightarrow> scalar list" where
  "normalize_text t = join_space (split_whitespace t)"

definition char_is_cjk_related_dense :: "scalar \<Rightarrow> bool" where
  "char_is_cjk_related_dense c \<longleftrightarrow>
     (0x4E00 \<le> c \<and> c \<le> 0x9FFF) \<or> (0x3400 \<le> c \<and> c \<le> 0x4DBF) \<or> (0x3000 \<le> c \<and> c \<le> 0x303F)
     \<or> (0xFF00 \<le> c \<and> c \<le> 0xFFEF) \<or> (0x3040 \<le> c \<and> c \<le> 0x309F) \<or> (0x30A0 \<le> c \<and> c \<le> 0x30FF)"

definition f64_ceil :: "f64 \<Rightarrow> f64" where
  "f64_ceil x = (case x of Fin q \<Rightarrow> Fin (of_int (ceiling q)) | y \<Rightarrow> y)"

definition usize_max :: nat where "usize_max = 2 ^ 64 - 1"

definition estimate_heuristic_layer_d :: "'d lc_env \<Rightarrow> ChatCompletionsPayload \<Rightarrow> u32 option" where
  "estimate_heuristic_layer_d env p =
     (if has_non_text_message_content p then None
      else
        let cs = concat (map (\<lambda>m. normalize_text (str_chars (tr_content m))) (pl_messages p))
                 @ (case pl_tools p of None \<Rightarrow> [] | Some tools \<Rightarrow> str_chars (json_to_string env tools));
            total_chars = min (length cs) usize_max;
            cjk_chars = min (length (filter char_is_cjk_related_dense cs)) usize_max;
            cjk_ratio = (if total_chars = 0 then Fin 0
                         else f64_div_f64 (f64_round (of_nat cjk_chars)) (f64_round (of_nat total_chars)));
            effective = (case f64_mul_f64 (f64_round (55 / 100)) cjk_ratio of
                           Fin x \<Rightarrow> f64_add (1 / 4) x | y \<Rightarrow> y);
            base_tokens = f64_to_u32 (f64_ceil (f64_mul_f64 (f64_round (of_nat total_chars)) effective));
            structure = of_nat (length (pl_messages p)) * 4
        in Some (saturating_add base_tokens structure))"

definition estimate_chat_completion_input_tokens ::
  "'d lc_env \<Rightarrow> ChatCompletionsPayload \<Rightarrow> string \<Rightarrow> InferenceProvider option \<Rightarrow> u32 option" where
  "estimate_chat_completion_input_tokens env p primary_model hint =
     (if has_non_text_message_content p then None
      else
        let profile = (case resolve_profile (lc_calendar env) hint primary_model of
                         EpBedrockMultiFoundation \<Rightarrow> refine_bedrock_profile (lc_calendar env) primary_model
                       | q \<Rightarrow> q)
        in case profile of
             EpOpenAiCompatible \<Rightarrow>
               (case (count_tokens_openai_profile env p primary_model, estimate_heuristic_layer_d env p) of
                  (Some t, Some h) \<Rightarrow> Some (max t h) | (Some t, None) \<Rightarrow> Some t
                | (None, Some h) \<Rightarrow> Some h | (None, None) \<Rightarrow> None)
           | _ \<Rightarrow> estimate_heuristic_layer_d env p)"

subsection \<open>Shortening the messages\<close>

definition tokens_per_char :: "string \<Rightarrow> rat" where
  "tokens_per_char model =
     (let suffix = model_suffix (to_ascii_lowercase (str_trim model))
      in case f32_round (if starts_with ''gpt-3.5-turbo'' suffix then 1 / 5 else 1 / 4) of
           Fin q \<Rightarrow> q | _ \<Rightarrow> 0)"

definition truncate_char_ratio :: rat where
  "truncate_char_ratio = (case f32_round (9 / 10) of Fin q \<Rightarrow> q | _ \<Rightarrow> 0)"

definition budget_chars :: "u32 \<Rightarrow> string \<Rightarrow> nat" where
  "budget_chars input_budget_tokens primary_model =
     unat (f64_to_u64 (f64_floor
       (f32_mul (f32_div (f32_round (of_nat (unat input_budget_tokens))) (tokens_per_char primary_model))
          truncate_char_ratio)))"

definition message_chars :: "ChatMessageTextRef \<Rightarrow> nat" where
  "message_chars m = length (normalize_text (str_chars (tr_content m)))"

definition total_message_chars :: "ChatCompletionsPayload \<Rightarrow> nat" where
  "total_message_chars p = sum_list (map message_chars (pl_messages p))"

text \<open>The loop of \<open>proportional_char_budgets\<close> with what remains to be given and to be served.\<close>

fun share_budget :: "nat \<Rightarrow> nat \<Rightarrow> nat list \<Rightarrow> nat list" where
  "share_budget remaining source [] = []"
| "share_budget remaining source (c # cs) =
     (let b = (if cs = [] then remaining
               else if source = 0 then 0
               else min (c * remaining) usize_max div source)
      in b # share_budget (remaining - b) (source - c) cs)"

definition proportional_char_budgets :: "ChatCompletionsPayload \<Rightarrow> nat \<Rightarrow> nat list" where
  "proportional_char_budgets p total_budget =
     (let total_chars = total_message_chars p
      in if total_chars = 0 \<or> total_budget = 0 then replicate (length (pl_messages p)) 0
         else share_budget total_budget total_chars (map message_chars (pl_messages p)))"

definition ellipsis :: "scalar list" where "ellipsis = [0x2E, 0x2E, 0x2E]"

text \<open>The position of the last whitespace character, counted in characters.\<close>

definition last_whitespace :: "scalar list \<Rightarrow> nat option" where
  "last_whitespace s = find (\<lambda>i. is_whitespace (s ! i)) (rev [0..<length s])"

definition byte_index :: "scalar list \<Rightarrow> nat \<Rightarrow> nat" where
  "byte_index s i = sum_list (map len_utf8 (take i s))"

definition truncate_text_to_limit :: "scalar list \<Rightarrow> nat \<Rightarrow> scalar list" where
  "truncate_text_to_limit t max_chars =
     (let normalized = normalize_text t
      in if max_chars = 0 then []
         else if length normalized \<le> max_chars then normalized
         else if max_chars \<le> 3 then take max_chars normalized
         else
           let raw_limit = max_chars - 3;
               candidate = take raw_limit normalized;
               cut = (case last_whitespace candidate of
                        Some i \<Rightarrow> if raw_limit - 32 \<le> byte_index candidate i then take i candidate else candidate
                      | None \<Rightarrow> candidate);
               trimmed = uni_trim_end cut
           in (if trimmed = [] then candidate else trimmed) @ ellipsis)"

definition middle_out_text_to_limit :: "scalar list \<Rightarrow> nat \<Rightarrow> scalar list" where
  "middle_out_text_to_limit t max_chars =
     (let normalized = normalize_text t
      in if max_chars = 0 then []
         else if length normalized \<le> max_chars then normalized
         else if max_chars \<le> 5 then take max_chars normalized
         else
           let visible = max_chars - 3;
               head_chars = (visible + 1) div 2;
               tail_chars = visible div 2
           in take head_chars normalized @ ellipsis @ drop (length normalized - tail_chars) normalized)"

definition value_with_model :: "json \<Rightarrow> string \<Rightarrow> json" where
  "value_with_model raw model =
     (case as_object raw of Some kvs \<Rightarrow> JObject (obj_insert ''model'' (JString model) kvs) | None \<Rightarrow> raw)"

text \<open>\<open>messages_array[i]["content"] = v\<close>: \<open>None\<close> is a panic of the indexing.\<close>

definition set_content :: "nat \<Rightarrow> json \<Rightarrow> json list \<Rightarrow> json list option" where
  "set_content i v arr =
     (if i < length arr then
        (case arr ! i of
           JObject kvs \<Rightarrow> Some (arr[i := JObject (obj_insert ''content'' v kvs)])
         | JNull \<Rightarrow> Some (arr[i := JObject [(''content'', v)]])
         | _ \<Rightarrow> None)
      else None)"

fun set_contents :: "(nat \<times> json) list \<Rightarrow> json list \<Rightarrow> json list option" where
  "set_contents [] arr = Some arr"
| "set_contents ((i, v) # rest) arr = Option.bind (set_content i v arr) (set_contents rest)"

text \<open>What \<open>apply_truncate\<close> and \<open>apply_middle_out\<close> share: all but the function that shortens a text.\<close>

definition apply_shorten ::
  "(scalar list \<Rightarrow> nat \<Rightarrow> scalar list) \<Rightarrow> ChatCompletionsPayload \<Rightarrow> string \<Rightarrow> u32 \<Rightarrow> json option option" where
  "apply_shorten shorten p primary_model input_budget_tokens =
     (if has_non_text_message_content p \<or> pl_messages p = [] then Some None
      else
        let total_budget = budget_chars input_budget_tokens primary_model
        in if total_budget = 0 \<or> total_message_chars p \<le> total_budget then Some None
           else case as_object (value_with_model (pl_raw p) primary_model) of
               None \<Rightarrow> Some None
             | Some kvs \<Rightarrow>
                 (case Option.bind (obj_get ''messages'' kvs) as_array of
                    None \<Rightarrow> Some None
                  | Some arr \<Rightarrow>
                      map_option (\<lambda>arr'. Some (JObject (obj_modify ''messages'' (\<lambda>_. JArray arr') kvs)))
                        (set_contents
                           (map2 (\<lambda>m b. (tr_index m, JString (str_of_chars (shorten (str_chars (tr_content m)) b))))
                              (pl_messages p) (proportional_char_budgets p total_budget)) arr)))"

definition apply_truncate :: "ChatCompletionsPayload \<Rightarrow> string \<Rightarrow> u32 \<Rightarrow> json option option" where
  "apply_truncate = apply_shorten truncate_text_to_limit"

definition apply_middle_out :: "ChatCompletionsPayload \<Rightarrow> string \<Rightarrow> u32 \<Rightarrow> json option option" where
  "apply_middle_out = apply_shorten middle_out_text_to_limit"

subsection \<open>Choosing the model\<close>

definition extract_fallback_model_candidates :: "string \<Rightarrow> string list" where
  "extract_fallback_model_candidates model = filter (\<lambda>c. c \<noteq> []) (map str_trim (split_on (CHR '','') model))"

definition resolve_primary_model :: "string option \<Rightarrow> string option \<Rightarrow> string option" where
  "resolve_primary_model body_model header_model =
     (case (case body_model of Some m \<Rightarrow> Some m | None \<Rightarrow> header_model) of
        None \<Rightarrow> None
      | Some source \<Rightarrow> (case extract_fallback_model_candidates source of [] \<Rightarrow> None | m # _ \<Rightarrow> Some m))"

definition compute_input_budget_tokens :: "u32 \<Rightarrow> u32 option \<Rightarrow> u32" where
  "compute_input_budget_tokens model_context_limit requested =
     saturating_sub model_context_limit
       (case requested of Some n \<Rightarrow> n | None \<Rightarrow> max (model_context_limit div 10) 1)"

definition apply_fallback ::
  "ChatCompletionsPayload \<Rightarrow> string \<Rightarrow> u32 option \<Rightarrow> u32 option \<Rightarrow> json option" where
  "apply_fallback p model_source estimated budget =
     (case extract_fallback_model_candidates model_source of
        _ # fallback_model # _ \<Rightarrow>
          if budget = None \<or> estimated = None \<or> the estimated \<ge> the budget
          then Some (value_with_model (pl_raw p) fallback_model) else None
      | _ \<Rightarrow> None)"

subsection \<open>The transformation\<close>

datatype LargeContextAction =
    SkippedNoModel | SkippedNoTextMessages | SkippedNonTextMessages | SkippedNoEstimate | SkippedBelowLimit
  | SkippedNoModelLimit | SkippedNoFallbackModel | Truncated | MiddleOutApplied | FallbackApplied

record LargeContextDecision =
  ld_handler :: TokenLimitExceptionHandler
  ld_action :: LargeContextAction
  ld_original_model :: "string option"
  ld_effective_model :: "string option"
  ld_estimated_input_tokens :: "u32 option"
  ld_model_context_limit :: "u32 option"
  ld_input_budget_tokens :: "u32 option"

text \<open>The arms for \<open>truncate\<close> and \<open>middle-out\<close>, which differ in what they apply and report.\<close>

definition shorten_arm ::
  "(ChatCompletionsPayload \<Rightarrow> string \<Rightarrow> u32 \<Rightarrow> json option option) \<Rightarrow> LargeContextAction \<Rightarrow> ChatCompletionsPayload
   \<Rightarrow> string \<Rightarrow> u32 option \<Rightarrow> u32 option \<Rightarrow> u32 option \<Rightarrow> json option \<Rightarrow> (LargeContextAction \<times> json option) option" where
  "shorten_arm app done_action p primary_model limit estimated budget normalized =
     (if pl_messages p = [] then Some (SkippedNoTextMessages, normalized)
      else if has_non_text_message_content p then Some (SkippedNonTextMessages, normalized)
      else if limit = None then Some (SkippedNoModelLimit, normalized)
      else case estimated of None \<Rightarrow> Some (SkippedNoEstimate, normalized)
      | Some e \<Rightarrow>
        (case budget of
           Some b \<Rightarrow>
             if e < b then Some (SkippedBelowLimit, normalized)
             else (case app p primary_model b of
                     None \<Rightarrow> None
                   | Some None \<Rightarrow> Some (SkippedNoTextMessages, normalized)
                   | Some (Some v) \<Rightarrow> Some (done_action, Some v))
         | None \<Rightarrow> None))"

definition fallback_arm ::
  "ChatCompletionsPayload \<Rightarrow> string option \<Rightarrow> u32 option \<Rightarrow> u32 option \<Rightarrow> json option
   \<Rightarrow> LargeContextAction \<times> json option" where
  "fallback_arm p model_source estimated budget normalized =
     (case Option.bind model_source (\<lambda>src. apply_fallback p src estimated budget) of
        Some v \<Rightarrow> (FallbackApplied, Some v)
      | None \<Rightarrow>
          (if (\<exists>src \<in> set_option model_source. length (extract_fallback_model_candidates src) < 2)
           then SkippedNoFallbackModel else SkippedBelowLimit, normalized))"

definition with_model :: "json \<Rightarrow> string \<Rightarrow> json" where
  "with_model raw model =
     (case as_object raw of Some kvs \<Rightarrow> JObject (obj_insert ''model'' (JString model) kvs) | None \<Rightarrow> raw)"

text \<open>\<open>value.get("model").and_then(Value::as_str)\<close>.\<close>

definition json_model :: "json \<Rightarrow> string option" where
  "json_model v = Option.bind (Option.bind (as_object v) (obj_get ''model'')) as_str"

text \<open>
  \<open>maybe_transform_unified_api_chat_request\<close>: the new body and the decision put into the extensions of the
  request, an error, or a panic.
\<close>

definition transform_payload ::
  "'d lc_env \<Rightarrow> TokenLimitExceptionHandler \<Rightarrow> string option \<Rightarrow> ChatCompletionsPayload
   \<Rightarrow> (json option \<times> LargeContextDecision) option" where
  "transform_payload env handler model_override p =
     (let model_source = (case pl_model p of Some m \<Rightarrow> Some m | None \<Rightarrow> model_override)
      in case resolve_primary_model (pl_model p) model_override of
        None \<Rightarrow> Some (None, \<lparr>ld_handler = handler, ld_action = SkippedNoModel, ld_original_model = model_source,
                   ld_effective_model = None, ld_estimated_input_tokens = None, ld_model_context_limit = None,
                   ld_input_budget_tokens = None\<rparr>)
      | Some primary \<Rightarrow>
          let limit = resolve_context_limit primary;
              estimated = estimate_chat_completion_input_tokens env p primary None;
              budget = map_option (\<lambda>l. compute_input_budget_tokens l (requested_completion_tokens p)) limit;
              normalized = (if pl_model p \<noteq> Some primary then Some (with_model (pl_raw p) primary) else None)
          in map_option (\<lambda>(act, v).
               (v, \<lparr>ld_handler = handler, ld_action = act, ld_original_model = model_source,
                   ld_effective_model = (case Option.bind v json_model of Some m \<Rightarrow> Some m | None \<Rightarrow> Some primary),
                   ld_estimated_input_tokens = estimated, ld_model_context_limit = limit,
                   ld_input_budget_tokens = budget\<rparr>))
             (case handler of
                Fallback \<Rightarrow> Some (fallback_arm p model_source estimated budget normalized)
              | Truncate \<Rightarrow> shorten_arm apply_truncate Truncated p primary limit estimated budget normalized
              | MiddleOut \<Rightarrow> shorten_arm apply_middle_out MiddleOutApplied p primary limit estimated budget normalized))"

definition maybe_transform_unified_api_chat_request ::
  "'d lc_env \<Rightarrow> headers \<Rightarrow> string \<Rightarrow> (lc_error, string \<times> LargeContextDecision option) result option" where
  "maybe_transform_unified_api_chat_request env hs body =
     (case parse_large_context_headers hs of
        Inl e \<Rightarrow> Some (Err e)
      | Inr h \<Rightarrow>
          (case lc_handler h of
             None \<Rightarrow> Some (Ok (body, None))
           | Some handler \<Rightarrow>
               (case parse_chat_completions_payload env body of
                  Some (Some p) \<Rightarrow>
                    map_option (\<lambda>(v, decision).
                      case v of None \<Rightarrow> Ok (body, Some decision)
                      | Some v \<Rightarrow> (case to_vec env v of
                          Some out \<Rightarrow> Ok (out, Some decision) | None \<Rightarrow> Err InvalidRequestBody))
                      (transform_payload env handler (lc_model_override h) p)
                | _ \<Rightarrow> Some (Ok (body, None)))))"

subsection \<open>Shortened texts\<close>

lemma set_normalize_text: "set (normalize_text t) \<subseteq> insert 0x20 (set t)"
  using set_join_space [of "split_whitespace t"] split_whitespace_words [of _ t] by (fastforce simp: normalize_text_def)

lemma length_normalize_text: "length (normalize_text t) \<le> length t"
  unfolding normalize_text_def by (rule length_join_split)

lemma length_uni_trim_end: "length (uni_trim_end s) \<le> length s"
  using length_dropWhile_le [of is_whitespace "rev s"] by (simp add: uni_trim_end_def)

lemma uni_trim_end_prefix: "\<exists>zs. s = uni_trim_end s @ zs"
proof -
  have "rev s = takeWhile is_whitespace (rev s) @ dropWhile is_whitespace (rev s)" by simp
  then have "s = rev (dropWhile is_whitespace (rev s)) @ rev (takeWhile is_whitespace (rev s))"
    by (metis rev_append rev_rev_ident)
  then show ?thesis unfolding uni_trim_end_def by blast
qed

text \<open>Truncation keeps a prefix of the normalised text, with an ellipsis if there is room for one.\<close>

lemma truncate_text_shape:
  "\<exists>n. n \<le> m \<and> truncate_text_to_limit t m =
     (if length (normalize_text t) \<le> m \<or> m \<le> 3 then take m (normalize_text t)
      else take n (normalize_text t) @ ellipsis) \<and> (3 < m \<longrightarrow> n + 3 \<le> m)"
proof (cases "length (normalize_text t) \<le> m \<or> m \<le> 3")
  case True
  then show ?thesis by (auto simp: truncate_text_to_limit_def Let_def intro!: exI [of _ "m - 3"])
next
  case False
  define norm where "norm = normalize_text t"
  define cand where "cand = take (m - 3) norm"
  define cut where "cut = (case last_whitespace cand of
      Some i \<Rightarrow> if m - 3 - 32 \<le> byte_index cand i then take i cand else cand | None \<Rightarrow> cand)"
  have "\<exists>k. cut = take k cand" unfolding cut_def by (cases "last_whitespace cand") (auto intro: exI [of _ "length cand"])
  then obtain k where k: "cut = take k cand" ..
  from uni_trim_end_prefix [of cut] have "uni_trim_end cut = take (length (uni_trim_end cut)) cut"
    by (metis append_eq_conv_conj)
  then have tr: "uni_trim_end cut = take (min (length (uni_trim_end cut)) (min k (m - 3))) norm"
    by (simp add: k cand_def min.commute min.assoc)
  have eq: "truncate_text_to_limit t m = (if uni_trim_end cut = [] then cand else uni_trim_end cut) @ ellipsis"
    using False unfolding truncate_text_to_limit_def Let_def cut_def cand_def norm_def by simp
  show ?thesis
  proof (cases "uni_trim_end cut = []")
    case True
    then show ?thesis using False by (auto simp: eq cand_def norm_def intro!: exI [of _ "m - 3"])
  next
    case ne: False
    then show ?thesis using False eq tr
      by (intro exI [of _ "min (length (uni_trim_end cut)) (min k (m - 3))"]) (auto simp: norm_def)
  qed
qed

lemma length_truncate_text: "length (truncate_text_to_limit t m) \<le> m"
  using truncate_text_shape [of m t] by (auto simp: ellipsis_def)

lemma length_middle_out_text: "length (middle_out_text_to_limit t m) = min m (length (normalize_text t))"
  by (auto simp: middle_out_text_to_limit_def Let_def ellipsis_def)

lemma set_part_normalize_text:
  "set (take k (normalize_text t)) \<subseteq> insert 0x20 (set t)" "set (drop k (normalize_text t)) \<subseteq> insert 0x20 (set t)"
  using set_normalize_text [of t] set_take_subset [of k "normalize_text t"] set_drop_subset [of k "normalize_text t"]
  by blast+

lemma set_truncate_text: "set (truncate_text_to_limit t m) \<subseteq> insert 0x20 (insert 0x2E (set t))"
proof -
  from truncate_text_shape [of m t] obtain n where
    "truncate_text_to_limit t m \<in> {take m (normalize_text t), take n (normalize_text t) @ ellipsis}"
    by (auto split: if_splits)
  then have "set (truncate_text_to_limit t m) \<subseteq>
      set (take m (normalize_text t)) \<union> (set (take n (normalize_text t)) \<union> {0x2E})"
    by (auto simp: ellipsis_def)
  then show ?thesis using set_part_normalize_text(1) [of m t] set_part_normalize_text(1) [of n t] by blast
qed

lemma set_middle_out_text: "set (middle_out_text_to_limit t m) \<subseteq> insert 0x20 (insert 0x2E (set t))"
proof -
  let ?n = "normalize_text t"
  let ?k = "(m - 3 + 1) div 2" and ?d = "length ?n - (m - 3) div 2"
  have "middle_out_text_to_limit t m \<in> {[], ?n, take m ?n, take ?k ?n @ ellipsis @ drop ?d ?n}"
    by (simp add: middle_out_text_to_limit_def Let_def)
  then have "set (middle_out_text_to_limit t m) \<subseteq>
      set ?n \<union> set (take m ?n) \<union> set (take ?k ?n) \<union> {0x2E} \<union> set (drop ?d ?n)"
    by (auto simp: ellipsis_def)
  then show ?thesis
    using set_normalize_text [of t] set_part_normalize_text(1) [of m t] set_part_normalize_text(1) [of ?k t]
      set_part_normalize_text(2) [of ?d t] by blast
qed

subsection \<open>Budgets\<close>

lemma length_share_budget [simp]: "length (share_budget r s cs) = length cs"
  by (induction r s cs rule: share_budget.induct) (simp_all add: Let_def)

text \<open>The shares are the whole budget, whatever the saturation of the product.\<close>

lemma sum_share_budget:
  "cs \<noteq> [] \<Longrightarrow> sum_list cs \<le> s \<Longrightarrow> sum_list (share_budget r s cs) = r"
proof (induction r s cs rule: share_budget.induct)
  case (2 r s c cs)
  show ?case
  proof (cases "cs = []")
    case False
    let ?b = "if s = 0 then 0 else min (c * r) usize_max div s"
    have "?b \<le> r"
    proof -
      have "min (c * r) usize_max div s \<le> (s * r) div s" using 2(3) by (intro div_le_mono) (simp add: min.coboundedI1)
      then show ?thesis by (cases "s = 0") simp_all
    qed
    moreover have "sum_list (share_budget (r - ?b) (s - c) cs) = r - ?b"
      using 2 False by (intro 2(1) [OF _ False]) auto
    ultimately show ?thesis using False by (simp add: Let_def)
  qed simp
qed simp

lemma sum_proportional_budgets:
  assumes "pl_messages p \<noteq> []"
  shows "sum_list (proportional_char_budgets p n) = (if total_message_chars p = 0 then 0 else n)"
  using assms sum_share_budget [of "map message_chars (pl_messages p)" "total_message_chars p" n]
  by (auto simp: proportional_char_budgets_def Let_def total_message_chars_def sum_list_replicate)

lemma length_proportional_budgets [simp]: "length (proportional_char_budgets p n) = length (pl_messages p)"
  by (simp add: proportional_char_budgets_def Let_def)

text \<open>Models with a known limit have a quarter of a token per character, and the budget keeps below it.\<close>

lemma truncate_char_ratio_bounds: "0 \<le> truncate_char_ratio" "truncate_char_ratio \<le> 1"
proof -
  obtain r where "f32_round (9 / 10) = Fin r" "0 \<le> r" "r \<le> of_nat 1"
    by (rule f32_round_between [of "9 / 10" 1]) simp_all
  then show "0 \<le> truncate_char_ratio" "truncate_char_ratio \<le> 1" by (simp_all add: truncate_char_ratio_def)
qed

lemma unat_f64_to_u64_floor_le:
  assumes "q \<le> of_nat n"
  shows "unat (f64_to_u64 (f64_floor (Fin q))) \<le> n"
proof (cases "q < 0 \<or> 2 ^ 64 - 1 \<le> (of_int \<lfloor>q\<rfloor> :: rat)")
  case False
  then have nn: "0 \<le> \<lfloor>q\<rfloor>" by simp
  have fl: "\<lfloor>q\<rfloor> \<le> int n" using assms by (metis floor_mono floor_of_nat)
  have "unat (of_int \<lfloor>q\<rfloor> :: u64) \<le> nat \<lfloor>q\<rfloor>"
    using nn by (metis int_nat_eq of_int_of_nat_eq of_nat_le_iff unat_of_nat mod_less_eq_dividend)
  with False fl nn show ?thesis by (auto simp: f64_to_u64_def f64_floor_def)
next
  case True
  then show ?thesis
  proof
    assume "q < 0"
    then have "of_int \<lfloor>q\<rfloor> < (0 :: rat)" by simp
    then show ?thesis by (simp add: f64_to_u64_def f64_floor_def)
  next
    assume big: "2 ^ 64 - 1 \<le> (of_int \<lfloor>q\<rfloor> :: rat)"
    also have "\<dots> \<le> of_nat n" using assms of_int_floor_le [of q] by linarith
    finally have "(of_nat (2 ^ 64 - 1) :: rat) \<le> of_nat n" by simp
    then have "2 ^ 64 - 1 \<le> n" by (simp only: of_nat_le_iff)
    moreover have "unat (f64_to_u64 (f64_floor (Fin q))) < 2 ^ 64" using unsigned_less [of "f64_to_u64 (f64_floor (Fin q))"] by simp
    ultimately show ?thesis by linarith
  qed
qed

lemma starts_with_iff: "starts_with p s \<longleftrightarrow> (\<exists>r. s = p @ r)"
  unfolding starts_with_def using strip_prefix_Some [of p s] by (cases "strip_prefix p s") auto

lemma f32_quarter: "f32_round (1 / 4) = Fin (1 / 4)"
  by code_simp

lemma budget_chars_le:
  assumes "resolve_context_limit m = Some l" and "unat b \<le> 128000"
  shows "budget_chars b m \<le> 4 * unat b"
proof -
  have not35: "\<not> starts_with ''gpt-3.5-turbo'' (model_suffix (to_ascii_lowercase (str_trim m)))"
    using assms(1) by (auto simp: resolve_context_limit_def starts_with_iff Let_def split: if_splits)
  then have t: "tokens_per_char m = 1 / 4" by (simp add: tokens_per_char_def f32_quarter)
  have "f32_round (of_nat (unat b)) = Fin (of_nat (unat b))" using assms(2) by (intro f32_round_nat) simp
  moreover have "f32_round (of_nat (4 * unat b)) = Fin (of_nat (4 * unat b))" using assms(2) by (intro f32_round_nat) simp
  ultimately have d: "f32_div (f32_round (of_nat (unat b))) (tokens_per_char m) = Fin (of_nat (4 * unat b))"
    by (simp add: f32_div_def t mult.commute)
  define n where "n = 4 * unat b"
  have n: "n < 2 ^ 24" using assms(2) by (simp add: n_def)
  have "of_nat n * truncate_char_ratio \<le> of_nat n * 1"
    using truncate_char_ratio_bounds by (intro mult_left_mono) simp_all
  moreover have "0 \<le> of_nat n * truncate_char_ratio" using truncate_char_ratio_bounds by simp
  ultimately obtain r where "f32_round (of_nat n * truncate_char_ratio) = Fin r" "r \<le> of_nat n"
    using f32_round_between [of "of_nat n * truncate_char_ratio" n] n by auto
  then show ?thesis
    unfolding budget_chars_def d f32_mul_def n_def [symmetric] using unat_f64_to_u64_floor_le [of r n] by simp
qed

subsection \<open>What the new contents change\<close>

definition text_of_message :: "json \<Rightarrow> string option" where
  "text_of_message m = Option.bind (Option.bind (as_object m) (obj_get ''content'')) as_str"

text \<open>The array with the texts replaced, one value per text message in order.\<close>

fun replace_texts :: "json list \<Rightarrow> string list \<Rightarrow> json list" where
  "replace_texts [] vs = []"
| "replace_texts (m # ms) vs =
     (case (text_of_message m, as_object m, vs) of
        (Some _, Some kvs, v # vs') \<Rightarrow> JObject (obj_insert ''content'' (JString v) kvs) # replace_texts ms vs'
      | (Some _, Some kvs, []) \<Rightarrow> m # ms
      | _ \<Rightarrow> m # replace_texts ms vs)"

lemma collect_messages_Cons:
  "fst (collect_messages i (m # ms)) =
     (case (text_of_message m, as_object m) of
        (Some c, Some kvs) \<Rightarrow> \<lparr>tr_index = i, tr_role = Option.bind (obj_get ''role'' kvs) trimmed_string, tr_content = c\<rparr>
          # fst (collect_messages (Suc i) ms)
      | _ \<Rightarrow> fst (collect_messages (Suc i) ms))"
  "snd (collect_messages i (m # ms)) \<longleftrightarrow>
     as_object m = None \<or> (\<exists>kvs v. m = JObject kvs \<and> obj_get ''content'' kvs = Some v \<and> v \<noteq> JNull \<and> as_str v = None)
     \<or> snd (collect_messages (Suc i) ms)"
  by (cases m; force simp: text_of_message_def split: prod.splits option.splits json.splits)+

declare collect_messages.simps(2) [simp del]

lemma set_contents_texts:
  assumes "length vs = length (fst (collect_messages i ms))" and "length pre = i"
  shows "set_contents (map2 (\<lambda>m v. (tr_index m, JString v)) (fst (collect_messages i ms)) vs) (pre @ ms)
    = Some (pre @ replace_texts ms vs)"
  using assms
proof (induction ms arbitrary: i pre vs)
  case Nil
  then show ?case by simp
next
  case (Cons m ms)
  show ?case
  proof (cases "text_of_message m")
    case None
    then have c: "fst (collect_messages i (m # ms)) = fst (collect_messages (Suc i) ms)"
      by (simp add: collect_messages_Cons)
    have "replace_texts (m # ms) vs = m # replace_texts ms vs" using None by simp
    with Cons.IH [of vs "Suc i" "pre @ [m]"] Cons.prems c show ?thesis by simp
  next
    case (Some t)
    then obtain kvs where m: "m = JObject kvs" by (cases m) (auto simp: text_of_message_def)
    have c: "fst (collect_messages i (m # ms)) =
        \<lparr>tr_index = i, tr_role = Option.bind (obj_get ''role'' kvs) trimmed_string, tr_content = t\<rparr>
        # fst (collect_messages (Suc i) ms)"
      using Some m by (simp add: collect_messages_Cons)
    then obtain v vs' where vs: "vs = v # vs'" "length vs' = length (fst (collect_messages (Suc i) ms))"
      using Cons.prems(1) by (cases vs) auto
    let ?m = "JObject (obj_insert ''content'' (JString v) kvs)"
    have "set_content i (JString v) (pre @ m # ms) = Some ((pre @ [?m]) @ ms)"
      using Cons.prems(2) m by (simp add: set_content_def nth_append list_update_append)
    then show ?thesis
      using Cons.IH [of vs' "Suc i" "pre @ [?m]"] Cons.prems(2) vs(2) Some m unfolding c vs(1) by simp
  qed
qed

lemma collect_replace_texts:
  assumes "length vs = length (fst (collect_messages i ms))"
  shows "fst (collect_messages i (replace_texts ms vs)) =
      map2 (\<lambda>m v. m\<lparr>tr_content := v\<rparr>) (fst (collect_messages i ms)) vs"
    and "snd (collect_messages i (replace_texts ms vs)) = snd (collect_messages i ms)"
proof -
  have "fst (collect_messages i (replace_texts ms vs)) = map2 (\<lambda>m v. m\<lparr>tr_content := v\<rparr>) (fst (collect_messages i ms)) vs
    \<and> snd (collect_messages i (replace_texts ms vs)) = snd (collect_messages i ms)"
    using assms
  proof (induction ms arbitrary: i vs)
    case (Cons m ms)
    show ?case
    proof (cases "text_of_message m")
      case None
      with Cons show ?thesis by (simp add: collect_messages_Cons)
    next
      case (Some t)
      then obtain kvs where m: "m = JObject kvs" "obj_get ''content'' kvs = Some (JString t)"
        by (cases m) (auto simp: text_of_message_def bind_eq_Some_conv)
      then obtain v vs' where vs: "vs = v # vs'" "length vs' = length (fst (collect_messages (Suc i) ms))"
        using Cons.prems Some by (cases vs) (auto simp: collect_messages_Cons)
      from Cons.IH [OF vs(2)] Some m show ?thesis unfolding vs(1)
        by (simp add: collect_messages_Cons text_of_message_def)
    qed
  qed simp
  then show "fst (collect_messages i (replace_texts ms vs)) = map2 (\<lambda>m v. m\<lparr>tr_content := v\<rparr>) (fst (collect_messages i ms)) vs"
    and "snd (collect_messages i (replace_texts ms vs)) = snd (collect_messages i ms)" by simp_all
qed

text \<open>One message, and one request, that differ in texts (and in the model) only.\<close>

definition same_but_content :: "json \<Rightarrow> json \<Rightarrow> bool" where
  "same_but_content m m' \<longleftrightarrow> m' = m \<or>
     (\<exists>kvs c c'. m = JObject kvs \<and> obj_get ''content'' kvs = Some (JString c)
        \<and> m' = JObject (obj_insert ''content'' (JString c') kvs))"

definition same_but_texts :: "json \<Rightarrow> json \<Rightarrow> bool" where
  "same_but_texts raw v \<longleftrightarrow>
     (\<exists>kvs kvs' arr arr'. raw = JObject kvs \<and> v = JObject kvs'
        \<and> obj_get ''messages'' kvs = Some (JArray arr) \<and> obj_get ''messages'' kvs' = Some (JArray arr')
        \<and> list_all2 same_but_content arr arr'
        \<and> (\<forall>k. k \<noteq> ''model'' \<and> k \<noteq> ''messages'' \<longrightarrow> obj_get k kvs' = obj_get k kvs))"

lemma replace_texts_same: "list_all2 same_but_content ms (replace_texts ms vs)"
proof (induction ms vs rule: replace_texts.induct)
  case (2 m ms vs)
  show ?case
  proof (cases "text_of_message m")
    case None
    then show ?thesis using 2 by (cases "as_object m") (auto simp: same_but_content_def)
  next
    case (Some t)
    then obtain kvs where "m = JObject kvs" "obj_get ''content'' kvs = Some (JString t)"
      by (cases m) (auto simp: text_of_message_def bind_eq_Some_conv)
    then show ?thesis using 2 Some
      by (cases vs) (auto simp: same_but_content_def list.rel_refl)
  qed
qed simp

lemma payload_of_jsonD:
  assumes "payload_of_json raw = Some p"
  obtains kvs arr where "raw = JObject kvs" and "obj_get ''messages'' kvs = Some (JArray arr)"
    and "pl_raw p = raw" and "pl_messages p = fst (collect_messages 0 arr)"
    and "has_non_text_message_content p = snd (collect_messages 0 arr)"
  using assms that by (auto simp: payload_of_json_def bind_eq_Some_conv split: option.splits)

definition new_texts :: "(scalar list \<Rightarrow> nat \<Rightarrow> scalar list) \<Rightarrow> ChatCompletionsPayload \<Rightarrow> nat \<Rightarrow> string list" where
  "new_texts shorten p n =
     map2 (\<lambda>m b. str_of_chars (shorten (str_chars (tr_content m)) b)) (pl_messages p) (proportional_char_budgets p n)"

lemma length_new_texts [simp]: "length (new_texts shorten p n) = length (pl_messages p)"
  by (simp add: new_texts_def)

lemma map2_pair: "map2 (\<lambda>m v. (f m, h v)) xs (map2 g xs ys) = map2 (\<lambda>m b. (f m, h (g m b))) xs ys"
  by (induction xs ys rule: list_induct2') simp_all

text \<open>On a parsed request the shortening never panics; what it yields is the request with the new texts.\<close>

lemma apply_shorten_result:
  assumes "payload_of_json raw = Some p" and "apply_shorten shorten p primary b \<noteq> Some None"
  obtains v p' where "apply_shorten shorten p primary b = Some (Some v)" and "same_but_texts raw v"
    and "json_model v = Some primary" and "payload_of_json v = Some p'"
    and "pl_messages p' = map2 (\<lambda>m c. m\<lparr>tr_content := c\<rparr>) (pl_messages p) (new_texts shorten p (budget_chars b primary))"
    and "pl_messages p \<noteq> []" and "budget_chars b primary < total_message_chars p"
proof -
  from assms(1) obtain kvs arr where raw: "raw = JObject kvs" "obj_get ''messages'' kvs = Some (JArray arr)"
      "pl_raw p = raw" and msgs: "pl_messages p = fst (collect_messages 0 arr)"
    by (rule payload_of_jsonD)
  let ?n = "budget_chars b primary"
  let ?vs = "new_texts shorten p ?n"
  let ?arr = "replace_texts arr ?vs"
  let ?v = "JObject (obj_modify ''messages'' (\<lambda>_. JArray ?arr) (obj_insert ''model'' (JString primary) kvs))"
  have len: "length ?vs = length (fst (collect_messages 0 arr))" by (simp add: msgs)
  have "map2 (\<lambda>m v. (tr_index m, JString v)) (pl_messages p) ?vs =
      map2 (\<lambda>m b. (tr_index m, JString (str_of_chars (shorten (str_chars (tr_content m)) b))))
        (pl_messages p) (proportional_char_budgets p ?n)"
    unfolding new_texts_def by (rule map2_pair)
  then have "set_contents (map2 (\<lambda>m b. (tr_index m, JString (str_of_chars (shorten (str_chars (tr_content m)) b))))
      (pl_messages p) (proportional_char_budgets p ?n)) arr = Some ?arr"
    using set_contents_texts [OF len, of "[]"] by (simp add: msgs)
  then have app: "apply_shorten shorten p primary b =
      (if has_non_text_message_content p \<or> pl_messages p = [] \<or> ?n = 0 \<or> total_message_chars p \<le> ?n then Some None
       else Some (Some ?v))"
    by (simp add: apply_shorten_def Let_def value_with_model_def raw)
  with assms(2) have cond: "pl_messages p \<noteq> []" "?n < total_message_chars p" and "apply_shorten shorten p primary b = Some (Some ?v)"
    by (auto split: if_splits)
  moreover have "same_but_texts raw ?v" using raw replace_texts_same [of arr ?vs] by (auto simp: same_but_texts_def)
  moreover have "json_model ?v = Some primary" by (simp add: json_model_def)
  moreover obtain p' where "payload_of_json ?v = Some p'" "pl_messages p' = fst (collect_messages 0 ?arr)"
    using raw by (auto simp: payload_of_json_def)
  ultimately show thesis using that collect_replace_texts(1) [OF len] msgs by auto
qed

text \<open>The new texts fit the budget, if the old ones are valid UTF-8 and the shortening keeps to its limit.\<close>

lemma new_texts_fit:
  assumes "\<And>t m. length (shorten t m) \<le> m" and "\<And>t m. set (shorten t m) \<subseteq> insert 0x20 (insert 0x2E (set t))"
    and "\<forall>m \<in> set (pl_messages p). valid_utf8 (tr_content m)"
    and "pl_messages p' = map2 (\<lambda>m c. m\<lparr>tr_content := c\<rparr>) (pl_messages p) (new_texts shorten p n)"
    and "pl_messages p \<noteq> []"
  shows "total_message_chars p' \<le> n"
proof -
  have "message_chars (m\<lparr>tr_content := str_of_chars (shorten (str_chars (tr_content m)) b)\<rparr>) \<le> b"
    if "m \<in> set (pl_messages p)" for m b
  proof -
    have "list_all is_scalar (str_chars (tr_content m))" using assms(3) that by (simp add: valid_utf8_def)
    then have "list_all is_scalar (shorten (str_chars (tr_content m)) b)"
      using assms(2) [of "str_chars (tr_content m)" b] by (auto simp: list_all_iff is_scalar_def)
    then show ?thesis
      using length_normalize_text [of "shorten (str_chars (tr_content m)) b"] assms(1) [of "str_chars (tr_content m)" b]
      by (simp add: message_chars_def)
  qed
  then have "sum_list (map message_chars (map2 (\<lambda>m c. m\<lparr>tr_content := c\<rparr>) ms
      (map2 (\<lambda>m b. str_of_chars (shorten (str_chars (tr_content m)) b)) ms bs))) \<le> sum_list bs"
    if "set ms \<subseteq> set (pl_messages p)" for ms bs
    using that by (induction ms bs rule: list_induct2') (auto intro!: add_mono)
  from this [of "pl_messages p" "proportional_char_budgets p n"]
  have "total_message_chars p' \<le> sum_list (proportional_char_budgets p n)"
    unfolding total_message_chars_def assms(4) new_texts_def by simp
  also have "\<dots> \<le> n" unfolding sum_proportional_budgets [OF assms(5)] by simp
  finally show ?thesis .
qed

subsection \<open>The whole transformation\<close>

lemma resolve_context_limit_value: "resolve_context_limit m = Some l \<Longrightarrow> l = 128000"
  by (auto simp: resolve_context_limit_def Let_def split: if_splits)

lemma input_budget_le: "resolve_context_limit m = Some l \<Longrightarrow> unat (compute_input_budget_tokens l r) \<le> 128000"
  using resolve_context_limit_value [of m l] by (simp add: compute_input_budget_tokens_def unat_saturating_sub)

lemma with_model_same:
  assumes "payload_of_json raw = Some p"
  shows "same_but_texts raw (with_model raw m)" and "json_model (with_model raw m) = Some m"
    and "value_with_model raw m = with_model raw m"
proof -
  from assms obtain kvs arr where "raw = JObject kvs" "obj_get ''messages'' kvs = Some (JArray arr)"
    by (rule payload_of_jsonD)
  then show "same_but_texts raw (with_model raw m)" and "json_model (with_model raw m) = Some m"
    by (auto simp: same_but_texts_def with_model_def json_model_def same_but_content_def list.rel_refl)
  show "value_with_model raw m = with_model raw m" by (simp add: value_with_model_def with_model_def)
qed

text \<open>What a shortening arm does, for either of its two functions.\<close>

lemma shorten_arm_cases:
  assumes "payload_of_json raw = Some p" and "limit = None \<longleftrightarrow> budget = None"
    and "\<And>v. normalized = Some v \<Longrightarrow> same_but_texts raw v \<and> json_model v = Some primary"
  obtains act v where "shorten_arm (apply_shorten shorten) d p primary limit estimated budget normalized = Some (act, v)"
    and "\<And>w. v = Some w \<Longrightarrow> same_but_texts raw w \<and> json_model w = Some primary"
    and "act \<notin> {SkippedNoTextMessages, SkippedNonTextMessages, SkippedNoModelLimit, SkippedNoEstimate, SkippedBelowLimit}
      \<Longrightarrow> \<exists>b w. budget = Some b \<and> v = Some w \<and> apply_shorten shorten p primary b = Some (Some w)"
proof -
  let ?arm = "shorten_arm (apply_shorten shorten) d p primary limit estimated budget normalized"
  show thesis
  proof (cases "\<exists>e b. estimated = Some e \<and> budget = Some b \<and> \<not> e < b \<and> pl_messages p \<noteq> []
      \<and> \<not> has_non_text_message_content p")
    case True
    then obtain e b where eb: "estimated = Some e" "budget = Some b" "\<not> e < b" "pl_messages p \<noteq> []"
      "\<not> has_non_text_message_content p" by blast
    then obtain l where limit: "limit = Some l" using assms(2) by auto
    show thesis
    proof (cases "apply_shorten shorten p primary b = Some None")
      case True
      then have "?arm = Some (SkippedNoTextMessages, normalized)" using eb limit by (simp add: shorten_arm_def)
      then show thesis using assms(3) by (intro that) auto
    next
      case False
      with assms(1) obtain v where v: "apply_shorten shorten p primary b = Some (Some v)" "same_but_texts raw v"
        "json_model v = Some primary" by (rule apply_shorten_result)
      then have "?arm = Some (d, Some v)" using eb limit by (simp add: shorten_arm_def)
      then show thesis using v eb(2) by (intro that) auto
    qed
  next
    case False
    then have "\<exists>act. ?arm = Some (act, normalized) \<and>
        act \<in> {SkippedNoTextMessages, SkippedNonTextMessages, SkippedNoModelLimit, SkippedNoEstimate, SkippedBelowLimit}"
      using assms(2) by (auto simp: shorten_arm_def split: option.splits)
    then obtain act where "?arm = Some (act, normalized)"
      "act \<in> {SkippedNoTextMessages, SkippedNonTextMessages, SkippedNoModelLimit, SkippedNoEstimate, SkippedBelowLimit}"
      by blast
    then show thesis using assms(3) by (intro that) auto
  qed
qed

text \<open>The two facts about a transformed request that the properties below state.\<close>

lemma transform_payload_frame:
  assumes "payload_of_json raw = Some p"
  obtains v d where "transform_payload env handler model_override p = Some (v, d)" and "ld_handler d = handler"
    and "\<And>w. v = Some w \<Longrightarrow> same_but_texts raw w \<and> json_model w = ld_effective_model d \<and> ld_effective_model d \<noteq> None"
    and "ld_action d \<in> {Truncated, MiddleOutApplied} \<Longrightarrow>
      \<exists>shorten primary l b w. shorten \<in> {truncate_text_to_limit, middle_out_text_to_limit} \<and> resolve_context_limit primary = Some l
        \<and> ld_input_budget_tokens d = Some b \<and> b = compute_input_budget_tokens l (requested_completion_tokens p)
        \<and> v = Some w \<and> apply_shorten shorten p primary b = Some (Some w)"
proof (cases "resolve_primary_model (pl_model p) model_override")
  case None
  let ?d = "\<lparr>ld_handler = handler, ld_action = SkippedNoModel,
      ld_original_model = (case pl_model p of Some m \<Rightarrow> Some m | None \<Rightarrow> model_override), ld_effective_model = None,
      ld_estimated_input_tokens = None, ld_model_context_limit = None, ld_input_budget_tokens = None\<rparr>"
  have "transform_payload env handler model_override p = Some (None, ?d)" by (simp add: transform_payload_def None)
  then show thesis by (rule that) simp_all
next
  case (Some primary)
  note result = that
  have raw: "pl_raw p = raw" using assms by (rule payload_of_jsonD)
  let ?limit = "resolve_context_limit primary"
  let ?budget = "map_option (\<lambda>l. compute_input_budget_tokens l (requested_completion_tokens p)) ?limit"
  let ?est = "estimate_chat_completion_input_tokens env p primary None"
  let ?norm = "if pl_model p \<noteq> Some primary then Some (with_model (pl_raw p) primary) else None"
  let ?src = "case pl_model p of Some m \<Rightarrow> Some m | None \<Rightarrow> model_override"
  let ?arm = "case handler of
      Fallback \<Rightarrow> Some (fallback_arm p ?src ?est ?budget ?norm)
    | Truncate \<Rightarrow> shorten_arm apply_truncate Truncated p primary ?limit ?est ?budget ?norm
    | MiddleOut \<Rightarrow> shorten_arm apply_middle_out MiddleOutApplied p primary ?limit ?est ?budget ?norm"
  have lb: "?limit = None \<longleftrightarrow> ?budget = None" by simp
  have norm: "same_but_texts raw w \<and> json_model w = Some primary" if "?norm = Some w" for w
    using that with_model_same [OF assms, of primary] by (auto simp: raw split: if_splits)
  have fin: thesis if arm: "?arm = Some (act, v)"
    and w: "\<And>w. v = Some w \<Longrightarrow> same_but_texts raw w \<and> json_model w \<noteq> None"
    and t: "act \<in> {Truncated, MiddleOutApplied} \<Longrightarrow> \<exists>shorten b w. shorten \<in> {truncate_text_to_limit, middle_out_text_to_limit}
      \<and> ?budget = Some b \<and> v = Some w \<and> apply_shorten shorten p primary b = Some (Some w)" for act v
  proof -
    let ?d = "\<lparr>ld_handler = handler, ld_action = act, ld_original_model = ?src,
      ld_effective_model = (case Option.bind v json_model of Some m \<Rightarrow> Some m | None \<Rightarrow> Some primary),
      ld_estimated_input_tokens = ?est, ld_model_context_limit = ?limit, ld_input_budget_tokens = ?budget\<rparr>"
    have eq: "transform_payload env handler model_override p = Some (v, ?d)"
      unfolding transform_payload_def Let_def Some option.case arm by simp
    have eff: "same_but_texts raw x \<and> json_model x = ld_effective_model ?d \<and> ld_effective_model ?d \<noteq> None"
      if "v = Some x" for x
      using w [OF that] by (cases "json_model x") (simp_all add: that)
    have red: "\<exists>shorten primary l b x. shorten \<in> {truncate_text_to_limit, middle_out_text_to_limit}
        \<and> resolve_context_limit primary = Some l
        \<and> ld_input_budget_tokens ?d = Some b \<and> b = compute_input_budget_tokens l (requested_completion_tokens p)
        \<and> v = Some x \<and> apply_shorten shorten p primary b = Some (Some x)"
      if act: "ld_action ?d \<in> {Truncated, MiddleOutApplied}"
    proof -
      from act have "act \<in> {Truncated, MiddleOutApplied}" by simp
      from t [OF this] obtain shorten b x where sh: "shorten \<in> {truncate_text_to_limit, middle_out_text_to_limit}"
        and b: "?budget = Some b" and x: "v = Some x" "apply_shorten shorten p primary b = Some (Some x)" by blast
      from b obtain l where "?limit = Some l" "b = compute_input_budget_tokens l (requested_completion_tokens p)" by auto
      with sh b x show ?thesis by (intro exI [of _ shorten] exI [of _ primary] exI [of _ l] exI [of _ b] exI [of _ x]) simp
    qed
    show thesis by (rule result [OF eq _ eff red]) simp
  qed
  show thesis
  proof (cases handler)
    case Truncate
    show thesis
      by (rule shorten_arm_cases [OF assms lb norm, where shorten = truncate_text_to_limit and d = Truncated and estimated = ?est], assumption, rule fin)
        (auto simp: Truncate apply_truncate_def)
  next
    case MiddleOut
    show thesis
      by (rule shorten_arm_cases [OF assms lb norm, where shorten = middle_out_text_to_limit and d = MiddleOutApplied and estimated = ?est], assumption, rule fin)
        (auto simp: MiddleOut apply_middle_out_def)
  next
    case Fallback
    have fb: "same_but_texts raw w \<and> json_model w \<noteq> None" if "apply_fallback p src e b = Some w" for src e b w
      using that with_model_same [OF assms] by (auto simp: apply_fallback_def raw split: list.splits if_splits)
    obtain act v where av: "fallback_arm p ?src ?est ?budget ?norm = (act, v)" by fastforce
    then have "act \<notin> {Truncated, MiddleOutApplied}"
      and "\<And>w. v = Some w \<Longrightarrow> same_but_texts raw w \<and> json_model w \<noteq> None"
      using norm fb by (auto simp: fallback_arm_def bind_eq_Some_conv split: option.splits if_splits)
    then show thesis using av by (intro fin [of act v]) (auto simp: Fallback)
  qed
qed

text \<open>
  A request that asks for a handler is never lost and never panics the gateway, whatever its body: it goes on
  unchanged, or with a body that differs from the original in the model and in texts of messages that were texts
  before, and nothing else; the decision that is logged names the model of the outgoing body. Without a handler
  header the body is untouched, and an unknown handler is refused.
\<close>

theorem large_context_frame:
  "case maybe_transform_unified_api_chat_request env hs body of
     None \<Rightarrow> False
   | Some (Inl e) \<Rightarrow> parse_large_context_headers hs = Inl e \<or> e = InvalidRequestBody
   | Some (Inr (out, None)) \<Rightarrow> out = body
   | Some (Inr (out, Some d)) \<Rightarrow>
       (\<exists>h. parse_large_context_headers hs = Inr h \<and> lc_handler h = Some (ld_handler d))
       \<and> (out = body \<or> (\<exists>raw v. from_slice env body = Some raw \<and> to_vec env v = Some out
            \<and> same_but_texts raw v \<and> json_model v = ld_effective_model d \<and> ld_effective_model d \<noteq> None))"
proof (cases "parse_large_context_headers hs")
  case (Inl e)
  then show ?thesis by (simp add: maybe_transform_unified_api_chat_request_def)
next
  case (Inr h)
  note headers = this
  show ?thesis
  proof (cases "lc_handler h")
    case None
    with headers show ?thesis by (simp add: maybe_transform_unified_api_chat_request_def)
  next
    case (Some handler)
    note handler = this
    show ?thesis
    proof (cases "\<exists>p. parse_chat_completions_payload env body = Some (Some p)")
      case False
      with headers handler show ?thesis
        by (auto simp: maybe_transform_unified_api_chat_request_def split: option.splits)
    next
      case True
      then obtain p raw where raw: "from_slice env body = Some raw" "payload_of_json raw = Some p"
        by (auto simp: parse_chat_completions_payload_def)
      obtain v d where "transform_payload env handler (lc_model_override h) p = Some (v, d)" "ld_handler d = handler"
        "\<And>w. v = Some w \<Longrightarrow> same_but_texts raw w \<and> json_model w = ld_effective_model d \<and> ld_effective_model d \<noteq> None"
        using transform_payload_frame [OF raw(2), of env handler "lc_model_override h"] by metis
      with headers handler raw show ?thesis
        by (cases v) (auto simp: maybe_transform_unified_api_chat_request_def parse_chat_completions_payload_def split: option.splits)
    qed
  qed
qed

lemma map_role_map2:
  "length cs = length ms \<Longrightarrow> map tr_role (map2 (\<lambda>m c. m\<lparr>tr_content := c\<rparr>) ms cs) = map tr_role ms"
  by (induction ms cs rule: list_induct2') auto

lemma maybe_transformE:
  assumes "maybe_transform_unified_api_chat_request env hs body = Some (Inr (out, Some d))"
    and "parse_chat_completions_payload env body = Some (Some p)"
  obtains handler mo v where "transform_payload env handler mo p = Some (v, d)"
    and "case v of None \<Rightarrow> out = body | Some w \<Rightarrow> to_vec env w = Some out"
proof -
  from assms obtain h where h: "parse_large_context_headers hs = Inr h"
    by (cases "parse_large_context_headers hs") (auto simp: maybe_transform_unified_api_chat_request_def)
  with assms obtain handler where hd: "lc_handler h = Some handler"
    by (cases "lc_handler h") (auto simp: maybe_transform_unified_api_chat_request_def)
  with assms h obtain v d' where v: "transform_payload env handler (lc_model_override h) p = Some (v, d')"
    by (cases "transform_payload env handler (lc_model_override h) p")
      (auto simp: maybe_transform_unified_api_chat_request_def)
  with assms h hd show thesis
    by (cases v) (auto simp: maybe_transform_unified_api_chat_request_def split: option.splits intro!: that [of handler "lc_model_override h"])
qed

text \<open>
  C12. A shortened request fits. When the decision says that the texts were truncated or middle-out was applied, the
  request that goes on parses again, has the same text messages with the same roles, and its texts have fewer
  characters than before and at most four per token of the input budget, which is the length of the
  budget at the gateway's own rate of a quarter of a token per character. The law on JSON, that what was printed is read back
  as the same value, holds of the library up to the last digit of fractional numbers.
\<close>

theorem large_context_fits:
  assumes "\<And>v out. to_vec env v = Some out \<Longrightarrow> from_slice env out = Some v"
    and "maybe_transform_unified_api_chat_request env hs body = Some (Inr (out, Some d))"
    and "ld_action d \<in> {Truncated, MiddleOutApplied}"
    and "parse_chat_completions_payload env body = Some (Some p)"
    and "\<forall>m \<in> set (pl_messages p). valid_utf8 (tr_content m)"
  shows "\<exists>p' b. parse_chat_completions_payload env out = Some (Some p') \<and> ld_input_budget_tokens d = Some b
    \<and> total_message_chars p' \<le> 4 * unat b \<and> total_message_chars p' < total_message_chars p
    \<and> map tr_role (pl_messages p') = map tr_role (pl_messages p)"
proof -
  from assms(4) obtain raw where raw: "from_slice env body = Some raw" "payload_of_json raw = Some p"
    by (auto simp: parse_chat_completions_payload_def)
  obtain handler mo v where v: "transform_payload env handler mo p = Some (v, d)"
    "case v of None \<Rightarrow> out = body | Some w \<Rightarrow> to_vec env w = Some out"
    by (rule maybe_transformE [OF assms(2,4)])
  obtain v' d' where f: "transform_payload env handler mo p = Some (v', d')" and "ld_handler d' = handler"
    and "\<And>w. v' = Some w \<Longrightarrow> same_but_texts raw w \<and> json_model w = ld_effective_model d' \<and> ld_effective_model d' \<noteq> None"
    and red: "ld_action d' \<in> {Truncated, MiddleOutApplied} \<Longrightarrow>
      \<exists>shorten primary l b w. shorten \<in> {truncate_text_to_limit, middle_out_text_to_limit} \<and> resolve_context_limit primary = Some l
        \<and> ld_input_budget_tokens d' = Some b \<and> b = compute_input_budget_tokens l (requested_completion_tokens p)
        \<and> v' = Some w \<and> apply_shorten shorten p primary b = Some (Some w)"
    by (rule transform_payload_frame [OF raw(2), of env handler mo]) blast
  from f v(1) have vd: "v' = v" "d' = d" by simp_all
  from red assms(3) obtain shorten primary l b w where w: "shorten \<in> {truncate_text_to_limit, middle_out_text_to_limit}"
      "resolve_context_limit primary = Some l" "ld_input_budget_tokens d = Some b"
      "b = compute_input_budget_tokens l (requested_completion_tokens p)" "v = Some w"
      "apply_shorten shorten p primary b = Some (Some w)"
    unfolding vd by blast
  from w(6) have "apply_shorten shorten p primary b \<noteq> Some None" by simp
  from apply_shorten_result [OF raw(2) this] w(6) obtain p' where p': "payload_of_json w = Some p'"
      "pl_messages p' = map2 (\<lambda>m c. m\<lparr>tr_content := c\<rparr>) (pl_messages p) (new_texts shorten p (budget_chars b primary))"
      "pl_messages p \<noteq> []" "budget_chars b primary < total_message_chars p"
    by (metis option.inject)
  have lim: "length (shorten t m) \<le> m" "set (shorten t m) \<subseteq> insert 0x20 (insert 0x2E (set t))" for t m
    using w(1) length_truncate_text [of t m] length_middle_out_text [of t m] set_truncate_text [of t m]
      set_middle_out_text [of t m] by (auto simp del: insert_iff)
  have fit: "total_message_chars p' \<le> budget_chars b primary"
    by (rule new_texts_fit [OF lim assms(5) p'(2,3)])
  moreover have "budget_chars b primary \<le> 4 * unat b"
    using budget_chars_le [OF w(2), of b] input_budget_le [OF w(2)] w(4) by simp
  moreover have "map tr_role (pl_messages p') = map tr_role (pl_messages p)"
    unfolding p'(2) by (rule map_role_map2) simp
  moreover have "parse_chat_completions_payload env out = Some (Some p')"
    using v(2) w(5) assms(1) p'(1) by (simp add: parse_chat_completions_payload_def)
  ultimately show ?thesis using w(3) p'(4) by (intro exI [of _ p'] exI [of _ b]) auto
qed

definition sample_request :: "string \<Rightarrow> json" where
  "sample_request content = JObject [(''model'', JString ''openai/gpt-4o''), (''max_tokens'', JNumber ''127998''),
     (''messages'', JArray [JObject [(''role'', JString ''user''), (''content'', JString content)]])]"

definition sample_env :: "string lc_env" where
  "sample_env = \<lparr>
     from_slice = (\<lambda>s. if s = ''in'' then Some (sample_request ''hello world'')
       else if s = ''out'' then Some (sample_request ''hell...'') else None),
     to_vec = (\<lambda>v. if v = sample_request ''hell...'' then Some ''out'' else None),
     json_to_string = (\<lambda>_. []), get_tokenizer = (\<lambda>_. False), num_tokens_from_messages = (\<lambda>_ _. None),
     bpe_for_model = (\<lambda>_. None), lc_calendar = toy_calendar\<rparr>"

definition sample_headers :: headers where
  "sample_headers = [(''alephant-token-limit-exception-handler'', ''Truncate'')]"

lemma sample_number: "as_u64 (JNumber ''127998'') = Some 127998"
  by (simp add: as_u64_def parse_uint_def digit_value_def)

lemma sample_payload:
  "payload_of_json (sample_request c) = Some \<lparr>pl_raw = sample_request c, pl_model = Some ''openai/gpt-4o'',
     pl_messages = [\<lparr>tr_index = 0, tr_role = Some ''user'', tr_content = c\<rparr>], has_non_text_message_content = False,
     pl_tools = None, requested_completion_tokens = Some 127998\<rparr>"
proof -
  have t: "trimmed_string (JString ''openai/gpt-4o'') = Some ''openai/gpt-4o''"
    "trimmed_string (JString ''user'') = Some ''user''" by code_simp+
  show ?thesis
    by (simp add: payload_of_json_def sample_request_def obj_get_def completion_budget_from_object_def member_u32_def
        sample_number u32_try_from_def t collect_messages.simps)
qed

lemma sample_chars: "str_chars ''hello world'' = map of_char ''hello world''"
   "normalize_text (str_chars ''hello world'') = map of_char ''hello world''"
  by (simp_all add: normalize_text_def split_whitespace.simps is_whitespace_def Let_def)

lemma sample_normalized:
  "normalize_text [104, 101, 108, 108, 111, 32, 119, 111, 114, 108, 100] = [104, 101, 108, 108, 111, 32, 119, 111, 114, 108, 100]"
  using sample_chars by simp

lemma sample_profile: "resolve_profile toy_calendar None ''openai/gpt-4o'' = EpOpenAiCompatible"
  by code_simp

lemma sample_limit: "resolve_context_limit ''openai/gpt-4o'' = Some 128000"
  by code_simp

lemma sample_budget: "compute_input_budget_tokens 128000 (Some 127998) = 2"
  by (simp add: compute_input_budget_tokens_def saturating_sub_def)

lemma sample_budget_chars: "budget_chars 2 ''openai/gpt-4o'' = 7"
proof -
  have t: "tokens_per_char ''openai/gpt-4o'' = 1 / 4" by code_simp
  have r: "truncate_char_ratio = 15099494 / 16777216" by code_simp
  let ?q = "7549747 / 1048576 :: rat"
  have "ilog2 ?q = 2"
  proof -
    have "(2::rat) powi ilog2 ?q < 2 powi 3" "(2::rat) powi 2 < 2 powi (ilog2 ?q + 1)"
      using ilog2_bounds [of ?q] by (simp_all add: power_int_def)
    from this [THEN powi_two_less] show ?thesis by linarith
  qed
  then have e: "f32_exponent ?q = - 21" by (simp add: f32_exponent_def)
  have "?q / 2 powi (- 21) = of_int 15099494" by (simp add: power_int_minus)
  then have "f32_round_pos ?q = ?q" unfolding f32_round_pos_def e by (simp only: round_half_even_int) (simp add: power_int_minus)
  then have q: "f32_round ?q = Fin ?q" by (simp add: f32_round_def)
  have m: "f32_round (2 :: rat) = Fin 2" "f32_round (8 :: rat) = Fin 8"
    using f32_round_nat [of 2] f32_round_nat [of 8] by simp_all
  have "budget_chars 2 ''openai/gpt-4o'' = unat (f64_to_u64 (f64_floor (Fin ?q)))"
    by (simp add: budget_chars_def t r f32_div_def f32_mul_def m q)
  also have "\<dots> = 7"
  proof -
    have "\<lfloor>?q\<rfloor> = 7" by (simp add: floor_eq_iff)
    then show ?thesis by (simp add: f64_floor_def f64_to_u64_def)
  qed
  finally show ?thesis .
qed

lemma sample_truncated:
  "truncate_text_to_limit (str_chars ''hello world'') 7 = map of_char ''hell...''"
proof -
  have "last_whitespace (map of_char ''hell'') = None"
    by (simp add: last_whitespace_def is_whitespace_def find_None_iff less_Suc_eq numeral_eq_Suc)
  then show ?thesis unfolding truncate_text_to_limit_def Let_def sample_chars(2)
    by (simp add: uni_trim_end_def ellipsis_def is_whitespace_def)
qed

lemma sample_estimate:
  "has_non_text_message_content p = False \<Longrightarrow> pl_tools p = None
    \<Longrightarrow> pl_messages p = [\<lparr>tr_index = 0, tr_role = Some ''user'', tr_content = ''hello world''\<rparr>]
    \<Longrightarrow> estimate_chat_completion_input_tokens sample_env p ''openai/gpt-4o'' None = Some 7"
proof -
  assume p: "has_non_text_message_content p = False" "pl_tools p = None"
    "pl_messages p = [\<lparr>tr_index = 0, tr_role = Some ''user'', tr_content = ''hello world''\<rparr>]"
  have z: "f64_round (0 :: rat) = Fin 0" "f64_round (11 :: rat) = Fin 11"
    using f64_round_small_int [of 0] f64_round_small_int [of 11] by simp_all
  have a: "f64_mul_f64 (f64_round (11 / 20)) (Fin 0) = Fin 0" by code_simp
  have b: "f64_add (1 / 4) 0 = Fin (1 / 4)" "f64_mul 11 (1 / 4) = Fin (11 / 4)" by code_simp+
  have c: "\<lceil>11 / 4 :: rat\<rceil> = 3" by (simp add: ceiling_eq_iff)
  have "estimate_heuristic_layer_d sample_env p = Some 7"
    by (simp add: estimate_heuristic_layer_d_def p sample_normalized char_is_cjk_related_dense_def usize_max_def z a b c
        f64_div_f64_def f64_div_def f64_mul_f64_def [of "Fin 11"] f64_ceil_def f64_to_u32_def saturating_add_def Let_def)
  moreover have "count_tokens_openai_profile sample_env p ''openai/gpt-4o'' = None"
    by (simp add: count_tokens_openai_profile_def sample_env_def Let_def)
  moreover have "lc_calendar sample_env = toy_calendar" by (simp add: sample_env_def)
  ultimately show ?thesis
    by (simp add: estimate_chat_completion_input_tokens_def p(1) sample_profile Let_def)
qed

lemma sample_transform:
  assumes "payload_of_json (sample_request ''hello world'') = Some p"
  shows "\<exists>d. transform_payload sample_env Truncate None p = Some (Some (sample_request ''hell...''), d)
    \<and> ld_action d = Truncated"
proof -
  have p: "p = \<lparr>pl_raw = sample_request ''hello world'', pl_model = Some ''openai/gpt-4o'',
     pl_messages = [\<lparr>tr_index = 0, tr_role = Some ''user'', tr_content = ''hello world''\<rparr>],
     has_non_text_message_content = False, pl_tools = None, requested_completion_tokens = Some 127998\<rparr>"
    using assms sample_payload by simp
  have prim: "resolve_primary_model (Some ''openai/gpt-4o'') None = Some ''openai/gpt-4o''" by code_simp
  have mc: "message_chars \<lparr>tr_index = 0, tr_role = Some ''user'', tr_content = ''hello world''\<rparr> = 11"
    by (simp add: message_chars_def sample_normalized)
  have out: "str_of_chars (truncate_text_to_limit (str_chars ''hello world'') 7) = ''hell...''"
    unfolding sample_truncated by code_simp
  have "apply_truncate p ''openai/gpt-4o'' 2 = Some (Some (sample_request ''hell...''))"
    using out unfolding apply_truncate_def apply_shorten_def Let_def sample_budget_chars
    by (simp add: p total_message_chars_def mc proportional_char_budgets_def value_with_model_def sample_request_def
        obj_get_def set_content_def del: str_chars.simps)
  then have "shorten_arm apply_truncate Truncated p ''openai/gpt-4o'' (Some 128000) (Some 7) (Some 2) None
      = Some (Truncated, Some (sample_request ''hell...''))"
    by (simp add: shorten_arm_def p)
  then show ?thesis
    using sample_estimate [of p] by (simp add: transform_payload_def p prim sample_limit sample_budget Let_def)
qed

theorem large_context_fits_witness:
  "\<exists>p' (d :: LargeContextDecision). parse_chat_completions_payload sample_env ''out'' = Some (Some p') \<and> ld_action d = Truncated
     \<and> (\<exists>b. ld_input_budget_tokens d = Some b \<and> total_message_chars p' \<le> 4 * unat b) \<and> total_message_chars p' < 11"
proof -
  let ?p = "the (payload_of_json (sample_request ''hello world''))"
  have p: "payload_of_json (sample_request ''hello world'') = Some ?p" by (simp add: sample_payload)
  from sample_transform [OF p] obtain d where
    d: "transform_payload sample_env Truncate None ?p = Some (Some (sample_request ''hell...''), d)" "ld_action d = Truncated" by blast
  have ne: "sample_request ''hello world'' \<noteq> sample_request ''hell...''" by (simp add: sample_request_def)
  have hd: "parse_large_context_headers sample_headers = Inr \<lparr>lc_handler = Some Truncate, lc_model_override = None\<rparr>" by code_simp
  have parse: "parse_chat_completions_payload sample_env ''in'' = Some (Some ?p)"
    using p by (simp add: parse_chat_completions_payload_def sample_env_def)
  have vec: "to_vec sample_env (sample_request ''hell...'') = Some ''out''" by (simp add: sample_env_def)
  have run: "maybe_transform_unified_api_chat_request sample_env sample_headers ''in'' = Some (Inr (''out'', Some d))"
    using d vec by (simp add: maybe_transform_unified_api_chat_request_def hd parse)
  have rt: "from_slice sample_env out = Some v" if "to_vec sample_env v = Some out" for v out
    using that by (auto simp: sample_env_def split: if_splits)
  have utf: "\<forall>m \<in> set (pl_messages ?p). valid_utf8 (tr_content m)"
  proof -
    have "str_of_chars (map of_char ''hello world'') = ''hello world''" by code_simp
    then have "valid_utf8 ''hello world''" unfolding valid_utf8_def sample_chars(1) by (simp add: is_scalar_def)
    then show ?thesis by (simp add: sample_payload)
  qed
  have act: "ld_action d \<in> {Truncated, MiddleOutApplied}" using d(2) by simp
  have "total_message_chars ?p = 11"
    by (simp add: sample_payload total_message_chars_def message_chars_def sample_normalized)
  with large_context_fits [OF rt run act parse utf] obtain p' b where
    "parse_chat_completions_payload sample_env ''out'' = Some (Some p')" "ld_input_budget_tokens d = Some b"
    "total_message_chars p' \<le> 4 * unat b" "total_message_chars p' < 11"
    by auto
  with d(2) show ?thesis by (intro exI [of _ p'] exI [of _ d]) simp
qed

end
