(* ===== verification/Model_Catalog.thy ===== *)
theory Model_Catalog
  imports Discovery Large_Context
begin

text \<open>
  The catalogue of models. \<open>discover/router\<close> builds the registry of providers, one router per provider and an index of
  bare model names from the rows of the database; \<open>middleware/model_support\<close> checks the model of every POST against the
  catalogue before it is routed, and completes a bare name with its provider.

  Redis, the database, the URL parser, the embedded defaults and the JSON library are arguments of the definitions.
  A row has the members the code reads.
\<close>

subsection \<open>Bare model names\<close>

type_synonym BareModelExpandIndex = "string \<rightharpoonup> string list"

definition bare_push :: "string \<Rightarrow> string \<Rightarrow> BareModelExpandIndex \<Rightarrow> BareModelExpandIndex" where
  "bare_push provider_code model_id idx =
     (if model_id = [] then idx
      else
        let key = to_ascii_lowercase model_id;
            full = provider_code @ ''/'' @ model_id;
            v = (case idx key of None \<Rightarrow> [] | Some v \<Rightarrow> v)
        in idx(key \<mapsto> (if full \<in> set v then v else v @ [full])))"

definition gateway_models_for_bare_id :: "BareModelExpandIndex \<Rightarrow> string \<Rightarrow> string list" where
  "gateway_models_for_bare_id idx bare = (case idx (to_ascii_lowercase bare) of None \<Rightarrow> [] | Some v \<Rightarrow> v)"

subsection \<open>The registry from the database\<close>

datatype UpstreamAuthStyle = Bearer | ApiKey

record ('d, 'url) GlobalProviderConfig =
  gp_models :: "'d ModelId list"
  gp_base_url :: 'url
  gp_version :: "string option"
  gp_upstream_auth :: UpstreamAuthStyle

record 'id DbGatewayProvider =
  db_id :: 'id
  db_code :: string
  db_default_base_url :: "string option"

record 'id DbGatewayProviderModel =
  dm_provider_id :: 'id
  dm_model_id :: string

record ('id, 'd, 'url, 'w) db_registry =
  raw_models_by_provider :: "'id \<rightharpoonup> string list"
  reg_entries :: "(InferenceProvider \<times> ('d, 'url) GlobalProviderConfig) list"
  router_map :: "string \<rightharpoonup> ('d, 'w) BalanceConfig"
  bare_model_expand :: BareModelExpandIndex

definition index_raw_models :: "'id DbGatewayProviderModel list \<Rightarrow> ('id \<rightharpoonup> string list)" where
  "index_raw_models rows =
     fold (\<lambda>row idx. idx(dm_provider_id row \<mapsto>
       (case idx (dm_provider_id row) of None \<Rightarrow> [] | Some v \<Rightarrow> v) @ [dm_model_id row])) rows Map.empty"

text \<open>The base URL of a provider row: its own if it parses, else the embedded one; \<open>None\<close> skips the row.\<close>

definition db_base_url ::
  "(string \<Rightarrow> 'url option) \<Rightarrow> (InferenceProvider \<Rightarrow> ('d, 'url) GlobalProviderConfig option)
   \<Rightarrow> InferenceProvider \<Rightarrow> string option \<Rightarrow> 'url option" where
  "db_base_url parse_url embedded provider url =
     (case url of
        Some u \<Rightarrow> (case parse_url u of Some x \<Rightarrow> Some x | None \<Rightarrow> map_option gp_base_url (embedded provider))
      | None \<Rightarrow> map_option gp_base_url (embedded provider))"

fun register_models ::
  "'d calendar \<Rightarrow> InferenceProvider \<Rightarrow> string \<Rightarrow> string list \<Rightarrow> 'd ModelId list \<Rightarrow> BareModelExpandIndex
   \<Rightarrow> 'd ModelId list \<times> BareModelExpandIndex" where
  "register_models cal provider code [] models idx = (models, idx)"
| "register_models cal provider code (s # ss) models idx =
     (case from_str_and_provider cal provider s of
        Inr mid \<Rightarrow> register_models cal provider code ss (if mid \<in> set models then models else models @ [mid])
                   (bare_push code s idx)
      | Inl _ \<Rightarrow> register_models cal provider code ss models idx)"

text \<open>One turn of the loop over the provider rows.\<close>

definition register_provider ::
  "'d calendar \<Rightarrow> (string \<Rightarrow> 'url option) \<Rightarrow> (InferenceProvider \<Rightarrow> ('d, 'url) GlobalProviderConfig option)
   \<Rightarrow> 'id DbGatewayProvider \<Rightarrow> ('id, 'd, 'url, 'w) db_registry \<Rightarrow> ('id, 'd, 'url, 'w) db_registry" where
  "register_provider cal parse_url embedded row reg =
     (case from_provider_code (db_code row) of
        Inl _ \<Rightarrow> reg
      | Inr provider \<Rightarrow>
          (case db_base_url parse_url embedded provider (db_default_base_url row) of
             None \<Rightarrow> reg
           | Some url \<Rightarrow>
               let raw = (case raw_models_by_provider reg (db_id row) of None \<Rightarrow> [] | Some v \<Rightarrow> v);
                   (models, idx) = register_models cal provider (db_code row) raw [] (bare_model_expand reg)
               in \<lparr>raw_models_by_provider = (raw_models_by_provider reg)(db_id row := None),
                   reg_entries = reg_entries reg @
                     [(provider, \<lparr>gp_models = models, gp_base_url = url,
                        gp_version = Option.bind (embedded provider) gp_version,
                        gp_upstream_auth = (case embedded provider of None \<Rightarrow> Bearer | Some c \<Rightarrow> gp_upstream_auth c)\<rparr>)],
                   router_map = (router_map reg)(db_code row \<mapsto> [(Chat, BalancedLatency [provider])]),
                   bare_model_expand = idx\<rparr>))"

definition build_from_db ::
  "'d calendar \<Rightarrow> (string \<Rightarrow> 'url option) \<Rightarrow> (InferenceProvider \<Rightarrow> ('d, 'url) GlobalProviderConfig option)
   \<Rightarrow> 'id DbGatewayProvider list \<Rightarrow> 'id DbGatewayProviderModel list
   \<Rightarrow> (InferenceProvider \<rightharpoonup> ('d, 'url) GlobalProviderConfig) \<times> (string \<rightharpoonup> ('d, 'w) BalanceConfig) \<times> BareModelExpandIndex" where
  "build_from_db cal parse_url embedded providers models =
     (let reg = fold (register_provider cal parse_url embedded) providers
            \<lparr>raw_models_by_provider = index_raw_models models, reg_entries = [], router_map = Map.empty,
             bare_model_expand = Map.empty\<rparr>
      in (map_of (rev (reg_entries reg)), router_map reg, bare_model_expand reg))"

subsection \<open>Is a model supported\<close>

record ParsedProviderModel =
  provider_raw :: string
  model_raw :: string

definition split_provider_model :: "string \<Rightarrow> ParsedProviderModel option" where
  "split_provider_model model =
     (case split_once (CHR ''/'') model of
        None \<Rightarrow> None
      | Some (a, b) \<Rightarrow>
          if str_trim a = [] \<or> str_trim b = [] then None
          else Some \<lparr>provider_raw = str_trim a, model_raw = str_trim b\<rparr>)"

definition catalog_redis_key :: "string \<Rightarrow> string \<Rightarrow> string" where
  "catalog_redis_key p m = to_ascii_lowercase p @ ''::'' @ to_ascii_lowercase m"

definition model_field_from_json_body :: "(string \<Rightarrow> json option) \<Rightarrow> string \<Rightarrow> string option" where
  "model_field_from_json_body parse body =
     Option.bind (Option.bind (Option.bind (parse body) as_object) (obj_get ''model'')) trimmed_string"

definition canonical_provider_code :: "string \<Rightarrow> string option" where
  "canonical_provider_code p =
     (case from_provider_code p of Inr provider \<Rightarrow> Some (as_provider_code provider) | Inl _ \<Rightarrow> None)"

record catalog_store =
  gateway_model_pair_supported :: "string \<Rightarrow> string \<Rightarrow> (unit, bool) result"
  find_providers_for_bare_model :: "string \<Rightarrow> (unit, (string \<times> string) list) result"

record catalog_state =
  cat_redis :: "(string \<Rightarrow> (unit, bool) result) option"
  cat_store :: "catalog_store option"
  cat_index :: BareModelExpandIndex

datatype catalog_error =
    CatInvalidHeaders lc_error | UnsupportedGatewayModel string | AmbiguousBareModel string "string list" | CatInternal

text \<open>A failed lookup in Redis counts as a miss.\<close>

definition redis_has :: "(string \<Rightarrow> (unit, bool) result) \<Rightarrow> string \<Rightarrow> bool" where
  "redis_has client key = (case client key of Inr v \<Rightarrow> v | Inl _ \<Rightarrow> False)"

definition gateway_model_supported :: "catalog_state \<Rightarrow> string \<Rightarrow> string \<Rightarrow> (catalog_error, bool) result" where
  "gateway_model_supported cat p m =
     (let canonical = canonical_provider_code p;
          other = (case canonical of Some c \<Rightarrow> if eq_ignore_ascii_case c p then None else Some c | None \<Rightarrow> None);
          in_redis = (case cat_redis cat of None \<Rightarrow> False
            | Some client \<Rightarrow> redis_has client (catalog_redis_key p m)
                \<or> (case other of None \<Rightarrow> False | Some c \<Rightarrow> redis_has client (catalog_redis_key c m)))
      in if in_redis then Ok True
         else (case cat_store cat of None \<Rightarrow> Ok True
           | Some store \<Rightarrow>
               (case gateway_model_pair_supported store p m of
                  Inl _ \<Rightarrow> Err CatInternal
                | Inr True \<Rightarrow> Ok True
                | Inr False \<Rightarrow>
                    (case other of None \<Rightarrow> Ok False
                     | Some c \<Rightarrow> (case gateway_model_pair_supported store c m of Inl _ \<Rightarrow> Err CatInternal | Inr b \<Rightarrow> Ok b)))))"

definition resolve_bare_model :: "catalog_state \<Rightarrow> string \<Rightarrow> (catalog_error, string) result" where
  "resolve_bare_model cat bare =
     try_bind
       (case gateway_models_for_bare_id (cat_index cat) bare of
          [] \<Rightarrow> (case cat_store cat of None \<Rightarrow> Ok []
            | Some store \<Rightarrow> (case find_providers_for_bare_model store bare of
                Inl _ \<Rightarrow> Err CatInternal
              | Inr rows \<Rightarrow> Ok (map (\<lambda>(code, model_id). code @ ''/'' @ model_id) rows)))
        | cs \<Rightarrow> Ok cs)
       (\<lambda>candidates. case candidates of
          [] \<Rightarrow> Err (UnsupportedGatewayModel bare)
        | [c] \<Rightarrow> Ok c
        | cs \<Rightarrow> Err (AmbiguousBareModel bare cs))"

definition rewrite_model_in_body ::
  "(string \<Rightarrow> json option) \<Rightarrow> (json \<Rightarrow> string option) \<Rightarrow> string \<Rightarrow> string \<Rightarrow> string option" where
  "rewrite_model_in_body parse print body new_model =
     Option.bind (parse body) (\<lambda>v.
       case v of JObject kvs \<Rightarrow>
           (case obj_get ''model'' kvs of None \<Rightarrow> None
            | Some _ \<Rightarrow> print (JObject (obj_insert ''model'' (JString new_model) kvs)))
       | _ \<Rightarrow> None)"

subsection \<open>The layer\<close>

datatype RequestKind = RkRouter | RkUnifiedApi | RkDirectProxy | RkCustomProvider

definition check_supported :: "catalog_state \<Rightarrow> string \<Rightarrow> (catalog_error, unit) result" where
  "check_supported cat full =
     (case split_provider_model full of
        None \<Rightarrow> Err (UnsupportedGatewayModel full)
      | Some parsed \<Rightarrow>
          try_bind (gateway_model_supported cat (provider_raw parsed) (model_raw parsed)) (\<lambda>supported.
            if supported then Ok () else Err (UnsupportedGatewayModel full)))"

text \<open>The loop over the candidates, with the body as rewritten so far.\<close>

fun check_candidates ::
  "(string \<Rightarrow> json option) \<Rightarrow> (json \<Rightarrow> string option) \<Rightarrow> catalog_state \<Rightarrow> bool \<Rightarrow> string list \<Rightarrow> string
   \<Rightarrow> (catalog_error, string) result" where
  "check_candidates parse print cat direct [] body = Ok body"
| "check_candidates parse print cat direct (c # cs) body =
     (if direct \<or> CHR ''/'' \<in> set c then
        try_bind (check_supported cat c) (\<lambda>_. check_candidates parse print cat direct cs body)
      else
        try_bind (resolve_bare_model cat c) (\<lambda>resolved.
          let body' = (case rewrite_model_in_body parse print body resolved of Some b \<Rightarrow> b | None \<Rightarrow> body)
          in try_bind (check_supported cat resolved) (\<lambda>_. check_candidates parse print cat direct cs body')))"

definition model_candidates ::
  "(string \<Rightarrow> json option) \<Rightarrow> LargeContextHeaders option \<Rightarrow> string \<Rightarrow> string list" where
  "model_candidates parse lc body =
     (let body_model = model_field_from_json_body parse body
      in if Option.bind lc lc_handler \<noteq> None
         then (case (case body_model of Some m \<Rightarrow> Some m | None \<Rightarrow> Option.bind lc lc_model_override) of
                 None \<Rightarrow> [] | Some source \<Rightarrow> extract_fallback_model_candidates source)
         else (case body_model of None \<Rightarrow> [] | Some m \<Rightarrow> [m]))"

text \<open>
  \<open>ModelSupportService::call\<close>: an error, or the body that goes to the inner service. \<open>collected\<close> is the body as read,
  \<open>None\<close> when reading it failed or it is too large.
\<close>

definition model_support_call ::
  "(string \<Rightarrow> json option) \<Rightarrow> (json \<Rightarrow> string option) \<Rightarrow> catalog_state \<Rightarrow> bool \<Rightarrow> RequestKind option \<Rightarrow> headers
   \<Rightarrow> string \<Rightarrow> string option \<Rightarrow> (catalog_error, string) result" where
  "model_support_call parse print cat is_post kind hs body collected =
     (if \<not> is_post then Ok body
      else (case collected of None \<Rightarrow> Err CatInternal
        | Some bytes \<Rightarrow>
            try_bind (if kind = Some RkUnifiedApi
                      then (case parse_large_context_headers hs of Inl e \<Rightarrow> Err (CatInvalidHeaders e) | Inr h \<Rightarrow> Ok (Some h))
                      else Ok None) (\<lambda>lc.
              let cands = model_candidates parse lc bytes
              in if cands = [] \<or> kind = Some RkCustomProvider then Ok bytes
                 else check_candidates parse print cat (kind = Some RkDirectProxy) cands bytes)))"

subsection \<open>The index\<close>

lemma gateway_models_push:
  "gateway_models_for_bare_id (bare_push code model idx) b =
     (if model \<noteq> [] \<and> to_ascii_lowercase model = to_ascii_lowercase b
        \<and> code @ ''/'' @ model \<notin> set (gateway_models_for_bare_id idx b)
      then gateway_models_for_bare_id idx b @ [code @ ''/'' @ model] else gateway_models_for_bare_id idx b)"
  by (auto simp: gateway_models_for_bare_id_def bare_push_def Let_def)

lemma gateway_models_empty [simp]: "gateway_models_for_bare_id Map.empty b = []"
  by (simp add: gateway_models_for_bare_id_def)

text \<open>The full names a bare name stands for, among the registered pairs.\<close>

definition full_names :: "string \<Rightarrow> (string \<times> string) list \<Rightarrow> string list" where
  "full_names b rows = map (\<lambda>(code, model). code @ ''/'' @ model)
     (filter (\<lambda>(_, model). model \<noteq> [] \<and> to_ascii_lowercase model = to_ascii_lowercase b) rows)"

lemma bare_index_fold:
  "gateway_models_for_bare_id (fold (\<lambda>(code, model). bare_push code model) rows idx) b
   = index_set_insert_all (gateway_models_for_bare_id idx b) (full_names b rows)"
  by (induction rows arbitrary: idx) (auto simp: full_names_def gateway_models_push split_def)

lemma register_models_index:
  "snd (register_models cal provider code ss models idx) =
     fold (\<lambda>(code, model). bare_push code model)
       (map (Pair code) (filter (\<lambda>s. is_ok (from_str_and_provider cal provider s)) ss)) idx"
  by (induction ss arbitrary: models idx) (auto split: sum.splits)

text \<open>
  The pairs that the rows of the database register, in the order of the provider rows. A provider counts with its first
  row that is registered, which takes its models.
\<close>

fun registered_pairs ::
  "'d calendar \<Rightarrow> (string \<Rightarrow> 'url option) \<Rightarrow> (InferenceProvider \<Rightarrow> ('d, 'url) GlobalProviderConfig option)
   \<Rightarrow> 'id DbGatewayProvider list \<Rightarrow> ('id \<rightharpoonup> string list) \<Rightarrow> (string \<times> string) list" where
  "registered_pairs cal parse_url embedded [] raw = []"
| "registered_pairs cal parse_url embedded (row # rows) raw =
     (case from_provider_code (db_code row) of
        Inl _ \<Rightarrow> registered_pairs cal parse_url embedded rows raw
      | Inr provider \<Rightarrow>
          (if db_base_url parse_url embedded provider (db_default_base_url row) = None
           then registered_pairs cal parse_url embedded rows raw
           else map (Pair (db_code row)) (filter (\<lambda>s. is_ok (from_str_and_provider cal provider s))
                  (case raw (db_id row) of None \<Rightarrow> [] | Some v \<Rightarrow> v))
                @ registered_pairs cal parse_url embedded rows (raw(db_id row := None))))"

lemma register_providers_index:
  "bare_model_expand (fold (register_provider cal parse_url embedded) rows reg) =
     fold (\<lambda>(code, model). bare_push code model)
       (registered_pairs cal parse_url embedded rows (raw_models_by_provider reg)) (bare_model_expand reg)"
proof (induction rows arbitrary: reg)
  case (Cons row rows)
  show ?case
  proof (cases "from_provider_code (db_code row)")
    case (Inl e)
    then have "register_provider cal parse_url embedded row reg = reg" by (simp add: register_provider_def)
    with Inl Cons [of reg] show ?thesis by simp
  next
    case (Inr provider)
    show ?thesis
    proof (cases "db_base_url parse_url embedded provider (db_default_base_url row)")
      case None
      with Inr have "register_provider cal parse_url embedded row reg = reg" by (simp add: register_provider_def)
      with Inr None Cons [of reg] show ?thesis by simp
    next
      case (Some url)
      let ?raw = "case raw_models_by_provider reg (db_id row) of None \<Rightarrow> [] | Some v \<Rightarrow> v"
      obtain models idx where mi: "register_models cal provider (db_code row) ?raw [] (bare_model_expand reg) = (models, idx)"
        by fastforce
      then have "idx = fold (\<lambda>(code, model). bare_push code model)
          (map (Pair (db_code row)) (filter (\<lambda>s. is_ok (from_str_and_provider cal provider s)) ?raw)) (bare_model_expand reg)"
        using register_models_index [of cal provider "db_code row" ?raw "[]" "bare_model_expand reg"] by simp
      moreover have b: "bare_model_expand (register_provider cal parse_url embedded row reg) = idx"
        and r: "raw_models_by_provider (register_provider cal parse_url embedded row reg) = (raw_models_by_provider reg)(db_id row := None)"
        using Inr Some mi by (simp_all add: register_provider_def)
      moreover have "registered_pairs cal parse_url embedded (row # rows) (raw_models_by_provider reg) =
          map (Pair (db_code row)) (filter (\<lambda>s. is_ok (from_str_and_provider cal provider s)) ?raw)
          @ registered_pairs cal parse_url embedded rows ((raw_models_by_provider reg)(db_id row := None))"
        using Inr Some by simp
      ultimately show ?thesis by (simp only: list.simps fold_simps Cons b r fold_append comp_apply)
    qed
  qed
qed simp

lemma index_raw_models_get:
  "(case index_raw_models rows i of None \<Rightarrow> [] | Some v \<Rightarrow> v) = map dm_model_id (filter (\<lambda>r. dm_provider_id r = i) rows)"
proof (induction rows rule: rev_induct)
  case (snoc r rows)
  then show ?case by (auto simp: index_raw_models_def)
qed (simp add: index_raw_models_def)

text \<open>The provider of a row that is registered.\<close>

definition registered_provider ::
  "(string \<Rightarrow> 'url option) \<Rightarrow> (InferenceProvider \<Rightarrow> ('d, 'url) GlobalProviderConfig option)
   \<Rightarrow> 'id DbGatewayProvider \<Rightarrow> InferenceProvider option" where
  "registered_provider parse_url embedded row =
     (case from_provider_code (db_code row) of
        Inl _ \<Rightarrow> None
      | Inr p \<Rightarrow> if db_base_url parse_url embedded p (db_default_base_url row) = None then None else Some p)"

lemma set_registered_pairs:
  assumes "distinct (map db_id rows)"
  shows "(code, model) \<in> set (registered_pairs cal parse_url embedded rows raw) \<longleftrightarrow>
    (\<exists>row \<in> set rows. \<exists>p. db_code row = code \<and> registered_provider parse_url embedded row = Some p
       \<and> model \<in> set (case raw (db_id row) of None \<Rightarrow> [] | Some v \<Rightarrow> v) \<and> is_ok (from_str_and_provider cal p model))"
  using assms
proof (induction rows arbitrary: raw)
  case (Cons row rows)
  have ih: "(code, model) \<in> set (registered_pairs cal parse_url embedded rows (raw(db_id row := None))) \<longleftrightarrow>
      (code, model) \<in> set (registered_pairs cal parse_url embedded rows raw)"
  proof -
    have "(raw(db_id row := None)) (db_id r) = raw (db_id r)" if "r \<in> set rows" for r
      using Cons.prems that by (auto simp: image_iff)
    then show ?thesis using Cons by (simp add: Cons.IH cong: bex_cong_simp)
  qed
  show ?case
  proof (cases "registered_provider parse_url embedded row")
    case None
    then have "registered_pairs cal parse_url embedded (row # rows) raw = registered_pairs cal parse_url embedded rows raw"
      by (auto simp: registered_provider_def split: sum.splits if_splits)
    with None Cons show ?thesis by simp
  next
    case (Some p)
    then have "registered_pairs cal parse_url embedded (row # rows) raw =
        map (Pair (db_code row)) (filter (\<lambda>s. is_ok (from_str_and_provider cal p s)) (case raw (db_id row) of None \<Rightarrow> [] | Some v \<Rightarrow> v))
        @ registered_pairs cal parse_url embedded rows (raw(db_id row := None))"
      by (auto simp: registered_provider_def split: sum.splits if_splits)
    with Some ih Cons show ?thesis by auto
  qed
qed simp

lemma register_providers_routers:
  "router_map (fold (register_provider cal parse_url embedded) rows reg) code =
     (if \<exists>row \<in> set rows. db_code row = code \<and> registered_provider parse_url embedded row \<noteq> None
      then (case from_provider_code code of Inr p \<Rightarrow> Some [(Chat, BalancedLatency [p])] | Inl _ \<Rightarrow> None)
      else router_map reg code)"
proof (induction rows arbitrary: reg)
  case (Cons row rows)
  have "router_map (register_provider cal parse_url embedded row reg) code =
      (if db_code row = code \<and> registered_provider parse_url embedded row \<noteq> None
       then (case from_provider_code code of Inr p \<Rightarrow> Some [(Chat, BalancedLatency [p])] | Inl _ \<Rightarrow> None)
       else router_map reg code)"
    by (auto simp: register_provider_def registered_provider_def split: sum.splits option.splits prod.splits)
  with Cons show ?case by auto
qed simp

lemma set_index_set_insert_all: "set (index_set_insert_all acc xs) = set acc \<union> set xs"
  by (induction xs arbitrary: acc) auto

lemma distinct_index_set_insert_all: "distinct acc \<Longrightarrow> distinct (index_set_insert_all acc xs)"
  by (induction xs arbitrary: acc) auto

text \<open>
  C22. The registry says what the database says. When provider ids are unique, a bare model name stands, in any case,
  for exactly the names \<open>code/model\<close> of the rows whose provider is known and has a base URL and whose model
  parses for it, each once; and there is a router of the one provider for exactly the codes of those rows.
\<close>

theorem registry_exact:
  assumes "distinct (map db_id providers)"
    and "build_from_db cal parse_url embedded providers models = (cfg, routers, idx)"
  shows "distinct (gateway_models_for_bare_id idx b)
    \<and> (full \<in> set (gateway_models_for_bare_id idx b) \<longleftrightarrow>
      (\<exists>row \<in> set providers. \<exists>m \<in> set models. \<exists>p. registered_provider parse_url embedded row = Some p
         \<and> dm_provider_id m = db_id row \<and> is_ok (from_str_and_provider cal p (dm_model_id m)) \<and> dm_model_id m \<noteq> []
         \<and> to_ascii_lowercase (dm_model_id m) = to_ascii_lowercase b \<and> full = db_code row @ ''/'' @ dm_model_id m))
    \<and> routers code = (if \<exists>row \<in> set providers. db_code row = code \<and> registered_provider parse_url embedded row \<noteq> None
      then (case from_provider_code code of Inr p \<Rightarrow> Some [(Chat, BalancedLatency [p])] | Inl _ \<Rightarrow> None) else None)"
    (is "_ \<and> (_ \<longleftrightarrow> ?named) \<and> ?routers")
proof -
  let ?pairs = "registered_pairs cal parse_url embedded providers (index_raw_models models)"
  obtain reg where reg: "raw_models_by_provider reg = index_raw_models models"
      "router_map reg = Map.empty" "bare_model_expand reg = Map.empty"
    and idx: "idx = bare_model_expand (fold (register_provider cal parse_url embedded) providers reg)"
    and routers: "routers = router_map (fold (register_provider cal parse_url embedded) providers reg)"
    by (rule that [of "\<lparr>raw_models_by_provider = index_raw_models models, reg_entries = [], router_map = Map.empty,
          bare_model_expand = Map.empty\<rparr>"]) (use assms(2) in \<open>simp_all add: build_from_db_def Let_def\<close>)
  have look: "gateway_models_for_bare_id idx b = index_set_insert_all [] (full_names b ?pairs)"
    unfolding idx register_providers_index reg by (simp add: bare_index_fold)
  have "full \<in> set (gateway_models_for_bare_id idx b) \<longleftrightarrow> ?named"
    unfolding look set_index_set_insert_all full_names_def
    using set_registered_pairs [OF assms(1), of _ _ cal parse_url embedded "index_raw_models models"]
    by (fastforce simp: index_raw_models_get)
  moreover have ?routers unfolding routers by (auto simp: register_providers_routers reg)
  ultimately show ?thesis unfolding look by (simp add: distinct_index_set_insert_all)
qed

theorem registry_exact_witness:
  "''openai/gpt-4o'' \<in> set (gateway_models_for_bare_id
      (snd (snd (build_from_db toy_calendar Some (\<lambda>_. None)
        [\<lparr>db_id = 1 :: nat, db_code = ''openai'', db_default_base_url = Some ''https://x''\<rparr>]
        [\<lparr>dm_provider_id = 1, dm_model_id = ''gpt-4o''\<rparr>] ::
          (InferenceProvider \<rightharpoonup> (string, string) GlobalProviderConfig) \<times> (string \<rightharpoonup> (string, nat) BalanceConfig) \<times> BareModelExpandIndex)))
      ''GPT-4o'')"
proof -
  let ?p = "\<lparr>db_id = 1 :: nat, db_code = ''openai'', db_default_base_url = Some ''https://x''\<rparr>"
  let ?m = "\<lparr>dm_provider_id = 1 :: nat, dm_model_id = ''gpt-4o''\<rparr>"
  obtain cfg and routers :: "string \<rightharpoonup> (string, nat) BalanceConfig" and idx where
    b: "build_from_db toy_calendar Some ((\<lambda>_. None) :: InferenceProvider \<Rightarrow> (string, string) GlobalProviderConfig option) [?p] [?m]
        = (cfg, routers, idx)"
    by (metis surj_pair)
  have r: "registered_provider Some ((\<lambda>_. None) :: InferenceProvider \<Rightarrow> (string, string) GlobalProviderConfig option) ?p = Some OpenAI"
    by code_simp
  have ok: "is_ok (from_str_and_provider toy_calendar OpenAI ''gpt-4o'')" by code_simp
  have l: "to_ascii_lowercase ''gpt-4o'' = to_ascii_lowercase ''GPT-4o''" by code_simp
  have "distinct (map db_id [?p])" by simp
  from registry_exact [OF this b, of "''GPT-4o''" "''openai/gpt-4o''"] r ok l
  have "''openai/gpt-4o'' \<in> set (gateway_models_for_bare_id idx ''GPT-4o'')" by simp
  then show ?thesis unfolding b by simp
qed

subsection \<open>Admission\<close>

text \<open>The codes under which a provider may be catalogued: as written, and its canonical one.\<close>

definition catalog_codes :: "string \<Rightarrow> string list" where
  "catalog_codes p = p # (case canonical_provider_code p of
     Some c \<Rightarrow> if eq_ignore_ascii_case c p then [] else [c] | None \<Rightarrow> [])"

definition pair_known :: "catalog_state \<Rightarrow> string \<Rightarrow> string \<Rightarrow> bool" where
  "pair_known cat p m \<longleftrightarrow>
     (\<exists>client \<in> set_option (cat_redis cat). \<exists>c \<in> set (catalog_codes p). client (catalog_redis_key c m) = Inr True)
     \<or> cat_store cat = None
     \<or> (\<exists>store \<in> set_option (cat_store cat). \<exists>c \<in> set (catalog_codes p). gateway_model_pair_supported store c m = Inr True)"

definition store_up :: "catalog_state \<Rightarrow> bool" where
  "store_up cat \<longleftrightarrow> (\<forall>store \<in> set_option (cat_store cat).
     (\<forall>c m. is_ok (gateway_model_pair_supported store c m)) \<and> (\<forall>b. is_ok (find_providers_for_bare_model store b)))"

lemma redis_has_iff: "redis_has client key \<longleftrightarrow> client key = Inr True"
  by (auto simp: redis_has_def split: sum.splits)

lemma is_ok_iff: "is_ok r \<longleftrightarrow> (\<exists>x. r = Inr x)"
  by (cases r) auto

lemma gateway_model_supported_known:
  assumes "store_up cat"
  shows "gateway_model_supported cat p m = Inr (pair_known cat p m)"
proof (cases "cat_store cat")
  case None
  then show ?thesis by (auto simp: gateway_model_supported_def pair_known_def Let_def)
next
  case (Some store)
  have up: "\<exists>b. gateway_model_pair_supported store c m = Inr b" for c
    using assms Some by (auto simp: store_up_def is_ok_iff)
  obtain b where b: "gateway_model_pair_supported store p m = Inr b" using up by blast
  show ?thesis
  proof (cases "canonical_provider_code p")
    case None
    with Some b show ?thesis
      by (cases b) (auto simp: gateway_model_supported_def pair_known_def catalog_codes_def Let_def redis_has_iff split: option.splits)
  next
    case (Some c)
    obtain b' where b': "gateway_model_pair_supported store c m = Inr b'" using up by blast
    with b Some \<open>cat_store cat = Some store\<close> show ?thesis
      by (cases b; cases b'; cases "cat_redis cat")
        (auto simp: gateway_model_supported_def pair_known_def catalog_codes_def Let_def redis_has_iff)
  qed
qed

text \<open>The full name a candidate stands for, and whether the catalogue has it.\<close>

definition candidate_known :: "catalog_state \<Rightarrow> bool \<Rightarrow> string \<Rightarrow> bool" where
  "candidate_known cat direct c \<longleftrightarrow>
     (\<exists>full pm. (if direct \<or> CHR ''/'' \<in> set c then full = c else resolve_bare_model cat c = Inr full)
        \<and> split_provider_model full = Some pm \<and> pair_known cat (provider_raw pm) (model_raw pm))"

lemma check_supported_iff:
  assumes "store_up cat"
  shows "is_ok (check_supported cat full) \<longleftrightarrow>
    (\<exists>pm. split_provider_model full = Some pm \<and> pair_known cat (provider_raw pm) (model_raw pm))"
  using gateway_model_supported_known [OF assms] by (auto simp: check_supported_def split: option.splits)

lemma is_ok_try_bind: "is_ok (try_bind r f) \<longleftrightarrow> (\<exists>x. r = Inr x \<and> is_ok (f x))"
  by (cases r) auto

lemma check_candidates_ok_iff:
  assumes "store_up cat"
  shows "is_ok (check_candidates parse print cat direct cs body) \<longleftrightarrow> (\<forall>c \<in> set cs. candidate_known cat direct c)"
proof (induction cs arbitrary: body)
  case (Cons c cs)
  have sup: "(\<exists>u. check_supported cat full = Inr u) \<longleftrightarrow>
      (\<exists>pm. split_provider_model full = Some pm \<and> pair_known cat (provider_raw pm) (model_raw pm))" for full
    using check_supported_iff [OF assms, of full] by (auto simp: is_ok_iff)
  show ?case
  proof (cases "direct \<or> CHR ''/'' \<in> set c")
    case True
    then show ?thesis using Cons sup [of c] by (auto simp: is_ok_try_bind candidate_known_def)
  next
    case False
    then show ?thesis using Cons sup by (auto simp: is_ok_try_bind candidate_known_def Let_def)
  qed
qed simp

text \<open>The body that leaves the loop: the last bare candidate decides its model.\<close>

lemma obj_insert_twice [simp]: "obj_insert k v (obj_insert k w kvs) = obj_insert k v kvs"
  by (induction kvs) auto

definition bare_candidates :: "bool \<Rightarrow> string list \<Rightarrow> string list" where
  "bare_candidates direct cs = filter (\<lambda>c. \<not> direct \<and> CHR ''/'' \<notin> set c) cs"

lemma rewrite_model_cases:
  assumes "\<And>v b. print v = Some b \<Longrightarrow> parse b = Some v" and "rewrite_model_in_body parse print body full = Some body'"
  obtains kvs where "parse body = Some (JObject kvs)" and "parse body' = Some (JObject (obj_insert ''model'' (JString full) kvs))"
proof -
  from assms(2) obtain v where v: "parse body = Some v" by (auto simp: rewrite_model_in_body_def bind_eq_Some_conv)
  with assms(2) obtain kvs where kvs: "v = JObject kvs" by (cases v) (auto simp: rewrite_model_in_body_def)
  with assms(2) v have "print (JObject (obj_insert ''model'' (JString full) kvs)) = Some body'"
    by (auto simp: rewrite_model_in_body_def split: option.splits)
  with v kvs assms(1) show thesis by (intro that) auto
qed

lemma check_candidates_body:
  assumes law: "\<And>v b. print v = Some b \<Longrightarrow> parse b = Some v"
    and "check_candidates parse print cat direct cs body = Inr out"
  shows "out = body \<or> (\<exists>kvs full. parse body = Some (JObject kvs) \<and> parse out = Some (JObject (obj_insert ''model'' (JString full) kvs))
    \<and> (\<exists>c \<in> set (bare_candidates direct cs). resolve_bare_model cat c = Inr full))"
  using assms(2)
proof (induction cs arbitrary: body)
  case (Cons c cs)
  show ?case
  proof (cases "direct \<or> CHR ''/'' \<in> set c")
    case True
    then have "check_candidates parse print cat direct cs body = Inr out"
      using Cons.prems by (auto dest!: try_bind_OkD)
    with Cons.IH [of body] True show ?thesis by (auto simp: bare_candidates_def)
  next
    case False
    with Cons.prems obtain full where full: "resolve_bare_model cat c = Inr full" by (auto dest!: try_bind_OkD)
    let ?body = "case rewrite_model_in_body parse print body full of Some b \<Rightarrow> b | None \<Rightarrow> body"
    have "check_candidates parse print cat direct cs ?body = Inr out"
      using False full Cons.prems by (auto simp: Let_def dest!: try_bind_OkD)
    note ih = Cons.IH [OF this]
    have bare: "bare_candidates direct (c # cs) = c # bare_candidates direct cs"
      using False by (simp add: bare_candidates_def)
    show ?thesis
    proof (cases "rewrite_model_in_body parse print body full")
      case None
      with ih bare show ?thesis by auto
    next
      case (Some body')
      obtain kvs where "parse body = Some (JObject kvs)" "parse body' = Some (JObject (obj_insert ''model'' (JString full) kvs))"
        by (rule rewrite_model_cases [of print parse, OF law Some])
      with ih bare Some full show ?thesis by auto
    qed
  qed
qed simp

definition layer_headers :: "RequestKind option \<Rightarrow> headers \<Rightarrow> (lc_error, LargeContextHeaders option) result" where
  "layer_headers kind hs =
     (if kind = Some RkUnifiedApi then map_sum (\<lambda>e. e) Some (parse_large_context_headers hs) else Inr None)"

lemma model_support_call_eq:
  assumes "layer_headers kind hs = Inr lc" and "kind \<noteq> Some RkCustomProvider"
  shows "model_support_call parse print cat True kind hs body (Some bytes) =
    check_candidates parse print cat (kind = Some RkDirectProxy) (model_candidates parse lc bytes) bytes"
  using assms by (auto simp: model_support_call_def layer_headers_def Let_def split: sum.splits)

text \<open>
  C23. What the catalogue check lets pass. A request that is not a POST goes on with its body, a POST whose body cannot be read is
  an internal error, and one for the unified API with malformed large-context headers is refused for them. A POST for a custom
  provider is not checked at all and goes on unchanged, whatever models it names. Any other POST goes on, as long as
  the database answers, exactly if every model it names is in the catalogue: a qualified name under the code as written or under
  the canonical code of its provider, a bare name through the one provider that has it; an error of Redis alone never
  refuses it. The body goes on unchanged unless a bare name was completed, and then only its model changes.
  The law on JSON, that what was printed is read back as the same value, holds of the library up to the last digit of
  fractional numbers.
\<close>

theorem model_support_exact:
  assumes "store_up cat" and law: "\<And>v b. print v = Some b \<Longrightarrow> parse b = Some v"
  shows "model_support_call parse print cat False kind hs body collected = Inr body
    \<and> model_support_call parse print cat True kind hs body None = Inl CatInternal
    \<and> (case layer_headers kind hs of
         Inl e \<Rightarrow> model_support_call parse print cat True kind hs body (Some bytes) = Inl (CatInvalidHeaders e)
       | Inr lc \<Rightarrow>
           if kind = Some RkCustomProvider
           then model_support_call parse print cat True kind hs body (Some bytes) = Inr bytes
           else (case model_support_call parse print cat True kind hs body (Some bytes) of
               Inl _ \<Rightarrow> \<exists>c \<in> set (model_candidates parse lc bytes). \<not> candidate_known cat (kind = Some RkDirectProxy) c
             | Inr out \<Rightarrow> (\<forall>c \<in> set (model_candidates parse lc bytes). candidate_known cat (kind = Some RkDirectProxy) c)
                 \<and> (out = bytes \<or> (\<exists>kvs full. parse bytes = Some (JObject kvs)
                      \<and> parse out = Some (JObject (obj_insert ''model'' (JString full) kvs))
                      \<and> (\<exists>c \<in> set (bare_candidates (kind = Some RkDirectProxy) (model_candidates parse lc bytes)).
                           resolve_bare_model cat c = Inr full)))))"
proof -
  let ?r = "model_support_call parse print cat True kind hs body (Some bytes)"
  have outer: "model_support_call parse print cat False kind hs body collected = Inr body"
    "model_support_call parse print cat True kind hs body None = Inl CatInternal"
    "kind = Some RkCustomProvider \<Longrightarrow> ?r = Inr bytes"
    "layer_headers kind hs = Inl e \<Longrightarrow> ?r = Inl (CatInvalidHeaders e)" for e
    by (auto simp: model_support_call_def layer_headers_def Let_def split: sum.splits if_splits)
  have checked: "case ?r of
      Inl _ \<Rightarrow> \<exists>c \<in> set (model_candidates parse lc bytes). \<not> candidate_known cat (kind = Some RkDirectProxy) c
    | Inr out \<Rightarrow> (\<forall>c \<in> set (model_candidates parse lc bytes). candidate_known cat (kind = Some RkDirectProxy) c)
        \<and> (out = bytes \<or> (\<exists>kvs full. parse bytes = Some (JObject kvs)
             \<and> parse out = Some (JObject (obj_insert ''model'' (JString full) kvs))
             \<and> (\<exists>c \<in> set (bare_candidates (kind = Some RkDirectProxy) (model_candidates parse lc bytes)).
                  resolve_bare_model cat c = Inr full)))"
    if "layer_headers kind hs = Inr lc" and "kind \<noteq> Some RkCustomProvider" for lc
  proof -
    have eq: "?r = check_candidates parse print cat (kind = Some RkDirectProxy) (model_candidates parse lc bytes) bytes"
      by (rule model_support_call_eq [OF that])
    have ok: "is_ok ?r \<longleftrightarrow> (\<forall>c \<in> set (model_candidates parse lc bytes). candidate_known cat (kind = Some RkDirectProxy) c)"
      unfolding eq by (rule check_candidates_ok_iff [OF assms(1)])
    show ?thesis
    proof (cases ?r)
      case (Inl e)
      with ok show ?thesis by simp
    next
      case (Inr out)
      then have "check_candidates parse print cat (kind = Some RkDirectProxy) (model_candidates parse lc bytes) bytes = Inr out"
        using eq by simp
      from check_candidates_body [of print parse, OF law this] ok Inr show ?thesis by simp
    qed
  qed
  show ?thesis using outer checked by (cases "layer_headers kind hs") auto
qed

definition small_catalog :: catalog_state where
  "small_catalog = \<lparr>cat_redis = None,
     cat_store = Some \<lparr>gateway_model_pair_supported = (\<lambda>p _. Inr (p = ''openai'')), find_providers_for_bare_model = (\<lambda>_. Inr [])\<rparr>,
     cat_index = bare_push ''openai'' ''gpt-4o'' (bare_push ''openai'' ''gpt-4o-mini'' Map.empty)\<rparr>"

definition model_body :: "string \<Rightarrow> json" where
  "model_body m = JObject [(''model'', JString m), (''messages'', JArray [])]"

definition small_parse :: "string \<Rightarrow> json option" where
  "small_parse s = (if s = ''bare'' then Some (model_body ''gpt-4o,gpt-4o-mini'') else if s = ''first'' then Some (model_body ''openai/gpt-4o'')
     else if s = ''second'' then Some (model_body ''openai/gpt-4o-mini'') else None)"

definition small_print :: "json \<Rightarrow> string option" where
  "small_print v = (if v = model_body ''openai/gpt-4o'' then Some ''first''
     else if v = model_body ''openai/gpt-4o-mini'' then Some ''second'' else None)"

lemma small_law: "small_print v = Some b \<Longrightarrow> small_parse b = Some v"
  by (auto simp: small_print_def small_parse_def split: if_splits)

theorem model_support_exact_witness:
  "candidate_known small_catalog False ''openai/gpt-4o''
   \<and> model_support_call small_parse small_print small_catalog True (Some RkCustomProvider) [] ''bare'' (Some ''bare'') = Inr ''bare''"
proof -
  have up: "store_up small_catalog" by (simp add: store_up_def small_catalog_def)
  have h: "layer_headers k [] = Inr None" if "k \<noteq> Some RkUnifiedApi" for k using that by (simp add: layer_headers_def)
  have c: "model_candidates small_parse None ''first'' = [''openai/gpt-4o'']" by code_simp
  have r: "model_support_call small_parse small_print small_catalog True (Some RkRouter) [] ''first'' (Some ''first'') = Inr ''first''"
    by code_simp
  note exact = model_support_exact [where parse = small_parse and print = small_print, OF up small_law, THEN conjunct2, THEN conjunct2]
  have "candidate_known small_catalog False ''openai/gpt-4o''"
    using exact [of "Some RkRouter" "[]" "''first''" "''first''"] by (simp add: h r c)
  moreover have "model_support_call small_parse small_print small_catalog True (Some RkCustomProvider) [] ''bare'' (Some ''bare'') = Inr ''bare''"
    using exact [of "Some RkCustomProvider" "[]" "''bare''" "''bare''"] by (simp add: h)
  ultimately show ?thesis ..
qed

end
