(* ===== verification/Default_Model.thy ===== *)
theory Default_Model
  imports Model_Catalog "HOL-Library.List_Lexorder" "HOL-Library.Char_ord"
begin

text \<open>
  Which models a virtual key may use (\<open>virtual_key\<close>), and the model that is chosen for a request that names none
  (\<open>default_model\<close>): the first policy that lists models gives the candidates, bare names are expanded, blocked and
  unsupported ones are dropped, and the most expensive of the rest is taken, the greatest name among equals.

  The rows of the database and the reading of JSON numbers as \<open>f64\<close> are arguments. Names are compared as byte strings,
  in the lexicographic order that the library theories give to strings. An outer \<open>None\<close> is a panic.
\<close>

subsection \<open>More of the arithmetic of f64\<close>

definition f64_neg :: "f64 \<Rightarrow> f64" where
  "f64_neg x = (case x of NaN \<Rightarrow> NaN | PosInf \<Rightarrow> NegInf | NegInf \<Rightarrow> PosInf | Fin a \<Rightarrow> Fin (- a))"

definition f64_add_f64 :: "f64 \<Rightarrow> f64 \<Rightarrow> f64" where
  "f64_add_f64 x y =
     (case (x, y) of
        (NaN, _) \<Rightarrow> NaN | (_, NaN) \<Rightarrow> NaN
      | (Fin a, Fin b) \<Rightarrow> f64_add a b
      | (PosInf, NegInf) \<Rightarrow> NaN | (NegInf, PosInf) \<Rightarrow> NaN
      | (PosInf, _) \<Rightarrow> PosInf | (_, PosInf) \<Rightarrow> PosInf
      | _ \<Rightarrow> NegInf)"

definition f64_sub :: "f64 \<Rightarrow> f64 \<Rightarrow> f64" where
  "f64_sub x y = f64_add_f64 x (f64_neg y)"

definition f64_abs :: "f64 \<Rightarrow> f64" where
  "f64_abs x = (case x of NaN \<Rightarrow> NaN | PosInf \<Rightarrow> PosInf | NegInf \<Rightarrow> PosInf | Fin a \<Rightarrow> Fin (abs a))"

definition f64_le :: "f64 \<Rightarrow> f64 \<Rightarrow> bool" where
  "f64_le x y \<longleftrightarrow> x \<noteq> NaN \<and> y \<noteq> NaN \<and> \<not> f64_gt x y"

text \<open>\<open>f64::max\<close> ignores NaN.\<close>

definition f64_max :: "f64 \<Rightarrow> f64 \<Rightarrow> f64" where
  "f64_max x y = (if x = NaN then y else if y = NaN then x else if f64_gt x y then x else y)"

subsection \<open>Access policy of a virtual key\<close>

record 'uuid VkPolicy =
  vk_virtual_key_id :: 'uuid
  vk_allowed_models :: "string list option"
  vk_blocked_models :: "string list option"

definition listed :: "string \<Rightarrow> string list option \<Rightarrow> bool" where
  "listed model ms = (case ms of None \<Rightarrow> False | Some l \<Rightarrow> list_ex (\<lambda>x. to_ascii_lowercase x = to_ascii_lowercase model) l)"

definition model_access_allowed :: "string \<Rightarrow> string list option \<Rightarrow> string list option \<Rightarrow> bool" where
  "model_access_allowed request_model allowed blocked =
     (if listed request_model allowed then True
      else if listed request_model blocked then False
      else True)"

datatype access_error = ModelAccessDenied string

definition check_model_access :: "'uuid VkPolicy option \<Rightarrow> string \<Rightarrow> (access_error, unit) result" where
  "check_model_access vk model =
     (case vk of None \<Rightarrow> Ok ()
      | Some policy \<Rightarrow>
          if \<not> model_access_allowed model (vk_allowed_models policy) (vk_blocked_models policy)
          then Err (ModelAccessDenied model) else Ok ())"

text \<open>The hash of a key is that of its text without the scheme.\<close>

definition hash_key :: "(string \<Rightarrow> string) \<Rightarrow> string \<Rightarrow> string" where
  "hash_key sha256_hex key = sha256_hex (case strip_prefix ''Bearer '' key of Some k \<Rightarrow> k | None \<Rightarrow> key)"

subsection \<open>Lists of models in policies\<close>

definition trimmed_non_empty :: "string list \<Rightarrow> string list" where
  "trimmed_non_empty l = filter (\<lambda>s. s \<noteq> []) (map str_trim l)"

definition non_empty_string_ids :: "json \<Rightarrow> string list option" where
  "non_empty_string_ids a =
     (case as_array a of None \<Rightarrow> None
      | Some xs \<Rightarrow> (case trimmed_non_empty (List.map_filter as_str xs) of [] \<Rightarrow> None | v \<Rightarrow> Some v))"

fun first_non_empty_list :: "string list option list \<Rightarrow> string list option" where
  "first_non_empty_list [] = None"
| "first_non_empty_list (None # rest) = first_non_empty_list rest"
| "first_non_empty_list (Some l # rest) =
     (case trimmed_non_empty l of [] \<Rightarrow> first_non_empty_list rest | v \<Rightarrow> Some v)"

text \<open>\<open>Option<Vec<String>>\<close> from a value; the outer \<open>None\<close> is an error.\<close>

definition opt_strings :: "json \<Rightarrow> string list option option" where
  "opt_strings v =
     (case v of JNull \<Rightarrow> Some None
      | JArray xs \<Rightarrow> if list_all (\<lambda>x. as_str x \<noteq> None) xs then Some (Some (List.map_filter as_str xs)) else None
      | _ \<Rightarrow> None)"

text \<open>
  The derived deserialiser of \<open>ModelListDoc\<close>: from an object with one of the two names of its member, or from an
  array of at most one element.
\<close>

definition model_list_doc :: "json \<Rightarrow> string list option option" where
  "model_list_doc v =
     (case v of
        JObject kvs \<Rightarrow>
          (case (obj_get ''allowed_models'' kvs, obj_get ''models'' kvs) of
             (None, None) \<Rightarrow> Some None
           | (Some x, None) \<Rightarrow> opt_strings x
           | (None, Some x) \<Rightarrow> opt_strings x
           | _ \<Rightarrow> None)
      | JArray [] \<Rightarrow> Some None
      | JArray [x] \<Rightarrow> opt_strings x
      | _ \<Rightarrow> None)"

definition json_get :: "string \<Rightarrow> json \<Rightarrow> json option" where
  "json_get k v = Option.bind (as_object v) (obj_get k)"

definition get_either :: "string \<Rightarrow> string \<Rightarrow> json \<Rightarrow> json option" where
  "get_either k k' v = (case json_get k v of Some x \<Rightarrow> Some x | None \<Rightarrow> json_get k' v)"

text \<open>\<open>a.or_else(b)\<close>.\<close>

definition or_else :: "'a option \<Rightarrow> 'a option \<Rightarrow> 'a option" where
  "or_else a b = (case a of Some x \<Rightarrow> Some x | None \<Rightarrow> b)"

definition model_ids_from_config_json :: "json \<Rightarrow> string list option" where
  "model_ids_from_config_json v =
     or_else (Option.bind (get_either ''allowedModels'' ''allowed_models'' v) non_empty_string_ids)
       (case model_list_doc v of None \<Rightarrow> None | Some l \<Rightarrow> first_non_empty_list [l, None, None])"

definition json_pointer2 :: "string \<Rightarrow> string \<Rightarrow> json \<Rightarrow> json option" where
  "json_pointer2 a b v = Option.bind (json_get a v) (json_get b)"

definition model_ids_from_policy_overrides_json :: "json \<Rightarrow> string list option" where
  "model_ids_from_policy_overrides_json v =
     or_else (Option.bind (json_pointer2 ''modelWhitelist'' ''models'' v) non_empty_string_ids)
     (or_else (Option.bind (json_pointer2 ''model_whitelist'' ''models'' v) non_empty_string_ids)
     (or_else (Option.bind (Option.bind (get_either ''modelWhitelist'' ''model_whitelist'' v) (json_get ''models''))
                non_empty_string_ids)
     (or_else (model_ids_from_config_json v)
       (Option.bind (json_get ''model_access'' v) model_ids_from_config_json))))"

subsection \<open>Prices\<close>

definition json_as_f64 :: "(string \<Rightarrow> f64 option) \<Rightarrow> json \<Rightarrow> f64 option" where
  "json_as_f64 num v = (case v of JNumber s \<Rightarrow> num s | _ \<Rightarrow> None)"

definition price_member :: "(string \<Rightarrow> f64 option) \<Rightarrow> json \<Rightarrow> string \<Rightarrow> f64" where
  "price_member num info k = (case Option.bind (json_get k info) (json_as_f64 num) of Some x \<Rightarrow> x | None \<Rightarrow> Fin 0)"

definition price_sum_from_info :: "(string \<Rightarrow> f64 option) \<Rightarrow> json \<Rightarrow> f64" where
  "price_sum_from_info num info = f64_add_f64 (price_member num info ''prompt'') (price_member num info ''completion'')"

definition nearly :: "f64 \<Rightarrow> f64 \<Rightarrow> bool" where
  "nearly a b = f64_le (f64_abs (f64_sub a b))
     (f64_max (f64_round (1 / 10 ^ 9)) (f64_mul_f64 (f64_round (1 / 10 ^ 9)) (f64_abs b)))"

definition max_price :: "(string \<times> f64) list \<Rightarrow> f64" where
  "max_price scored = fold (\<lambda>(_, x) acc. f64_max acc x) scored NegInf"

definition pick_greatest_by_price_and_name :: "(string \<times> f64) list \<Rightarrow> string option" where
  "pick_greatest_by_price_and_name scored =
     (if scored = [] then None
      else (case map fst (filter (\<lambda>(_, x). nearly x (max_price scored)) scored) of
              [] \<Rightarrow> None
            | n # ns \<Rightarrow> Some (fold max ns n)))"

subsection \<open>Choosing\<close>

record ScoredGatewayModel =
  gateway_model :: string
  sc_provider_code :: string
  price_sum :: f64

record DefaultModelCandidate =
  cd_original :: string
  cd_provider_code :: string
  cd_model_id :: string

record 'uuid policy_store =
  overrides_by_department :: "'uuid \<Rightarrow> 'uuid \<Rightarrow> (unit, json option) result"
  overrides_for_virtual_key :: "'uuid \<Rightarrow> 'uuid \<Rightarrow> (unit, json option) result"
  overrides_workspace_default :: "'uuid \<Rightarrow> (unit, json option) result"
  policy_config_model_access :: "'uuid \<Rightarrow> (unit, json option) result"
  selection_info_batch :: "(string \<times> string) list \<Rightarrow> (unit, (string \<times> string \<times> json option) list) result"

datatype default_model_error = NoModelAvailable | DmInternal

definition pick_best_scored_gateway_model :: "ScoredGatewayModel list \<Rightarrow> string option \<Rightarrow> string option option" where
  "pick_best_scored_gateway_model scored excluded =
     (let filtered = map (\<lambda>c. (gateway_model c, price_sum c))
            (filter (\<lambda>c. case excluded of None \<Rightarrow> True | Some e \<Rightarrow> \<not> eq_ignore_ascii_case (sc_provider_code c) e) scored)
      in if filtered = [] then Some None
         else map_option Some (pick_greatest_by_price_and_name filtered))"

definition candidate_lookup_key :: "string \<Rightarrow> string \<Rightarrow> string" where
  "candidate_lookup_key p m = to_ascii_lowercase p @ ''/'' @ to_ascii_lowercase m"

text \<open>The loop of \<open>expand_policy_model_list\<close>: \<open>seen\<close> holds the names so far in lower case.\<close>

definition push_unseen :: "string \<Rightarrow> string set \<times> string list \<Rightarrow> string set \<times> string list" where
  "push_unseen g = (\<lambda>(seen, out). if to_ascii_lowercase g \<in> seen then (seen, out)
     else (insert (to_ascii_lowercase g) seen, out @ [g]))"

fun expand_loop :: "BareModelExpandIndex \<Rightarrow> string list \<Rightarrow> string set \<times> string list \<Rightarrow> string set \<times> string list" where
  "expand_loop idx [] acc = acc"
| "expand_loop idx (raw # rest) acc =
     (let t = str_trim raw
      in if t = [] then expand_loop idx rest acc
         else (case split_provider_model t of
                 Some pm \<Rightarrow> expand_loop idx rest (push_unseen (provider_raw pm @ ''/'' @ model_raw pm) acc)
               | None \<Rightarrow> expand_loop idx rest (fold push_unseen (gateway_models_for_bare_id idx t) acc)))"

definition expand_policy_model_list :: "BareModelExpandIndex \<Rightarrow> string list \<Rightarrow> string list" where
  "expand_policy_model_list idx l = snd (expand_loop idx l ({}, []))"

datatype ModelInteractionSelectionPolicy = ChatMultimodalReasoning | EmbeddingOnly | LegacyCompatible

definition selection_policy_for_unified_path :: "string \<Rightarrow> ModelInteractionSelectionPolicy" where
  "selection_policy_for_unified_path path =
     (if path \<in> set [''chat/completions'', ''messages'', ''responses''] then ChatMultimodalReasoning
      else if path = ''embeddings'' then EmbeddingOnly
      else LegacyCompatible)"

definition model_interaction_type_from_info :: "json option \<Rightarrow> string option" where
  "model_interaction_type_from_info info =
     Option.bind (Option.bind info (json_get ''model_interaction_type'')) as_str"

definition policy_allows_interaction_type :: "ModelInteractionSelectionPolicy \<Rightarrow> string option \<Rightarrow> bool" where
  "policy_allows_interaction_type pol t =
     (case pol of
        ChatMultimodalReasoning \<Rightarrow> t \<in> set [Some ''chat'', Some ''multimodal'', Some ''reasoning'']
      | EmbeddingOnly \<Rightarrow> t = Some ''embedding''
      | LegacyCompatible \<Rightarrow> t \<noteq> Some ''embedding'')"

definition model_info_allows_unified_path :: "json option \<Rightarrow> string \<Rightarrow> bool" where
  "model_info_allows_unified_path info path =
     policy_allows_interaction_type (selection_policy_for_unified_path path) (model_interaction_type_from_info info)"

definition default_candidates :: "string list option \<Rightarrow> string list \<Rightarrow> DefaultModelCandidate list" where
  "default_candidates blocked l =
     List.map_filter (\<lambda>m.
       if \<not> model_access_allowed m None blocked then None
       else map_option (\<lambda>pm. \<lparr>cd_original = m, cd_provider_code = provider_raw pm, cd_model_id = model_raw pm\<rparr>)
              (split_provider_model m)) l"

definition score_candidate ::
  "(string \<Rightarrow> f64 option) \<Rightarrow> string \<Rightarrow> (string \<rightharpoonup> json option) \<Rightarrow> DefaultModelCandidate \<Rightarrow> ScoredGatewayModel option" where
  "score_candidate num path info_by_key c =
     (case info_by_key (candidate_lookup_key (cd_provider_code c) (cd_model_id c)) of
        None \<Rightarrow> None
      | Some info \<Rightarrow>
          if \<not> model_info_allows_unified_path info path then None
          else Some \<lparr>gateway_model = cd_original c, sc_provider_code = cd_provider_code c,
                     price_sum = (case info of None \<Rightarrow> Fin 0 | Some j \<Rightarrow> price_sum_from_info num j)\<rparr>)"

definition resolve_scored_gateway_models ::
  "(string \<Rightarrow> f64 option) \<Rightarrow> 'uuid policy_store \<Rightarrow> string \<Rightarrow> 'uuid VkPolicy \<Rightarrow> string list
   \<Rightarrow> (default_model_error, ScoredGatewayModel list) result" where
  "resolve_scored_gateway_models num store path vk l =
     (let candidates = default_candidates (vk_blocked_models vk) l
      in case selection_info_batch store (map (\<lambda>c. (cd_provider_code c, cd_model_id c)) candidates) of
           Inl _ \<Rightarrow> Err DmInternal
         | Inr rows \<Rightarrow>
             let info_by_key = map_of (rev (map (\<lambda>(p, m, info). (candidate_lookup_key p m, info)) rows))
             in Ok (List.map_filter (score_candidate num path info_by_key) candidates))"

subsection \<open>The policies in their order\<close>

definition nonempty_allow_list :: "string list option \<Rightarrow> string list option" where
  "nonempty_allow_list allowed =
     (case allowed of None \<Rightarrow> None | Some l \<Rightarrow> (case trimmed_non_empty l of [] \<Rightarrow> None | v \<Rightarrow> Some v))"

text \<open>One look into a row: an error ends the search, a list ends it with a result, anything else goes on.\<close>

definition try_source ::
  "(unit, json option) result \<Rightarrow> (json \<Rightarrow> string list option) \<Rightarrow> (default_model_error, string list option) result
   \<Rightarrow> (default_model_error, string list option) result" where
  "try_source row ids next =
     (case row of Inl _ \<Rightarrow> Err DmInternal
      | Inr r \<Rightarrow> (case Option.bind r ids of Some l \<Rightarrow> if l = [] then next else Ok (Some l) | None \<Rightarrow> next))"

definition load_overrides_list ::
  "'uuid policy_store \<Rightarrow> 'uuid \<Rightarrow> 'uuid \<Rightarrow> 'uuid \<Rightarrow> 'uuid \<Rightarrow> (default_model_error, string list option) result" where
  "load_overrides_list store nil workspace vk_id department =
     (let rest =
        try_source (overrides_for_virtual_key store workspace vk_id) model_ids_from_policy_overrides_json
          (try_source (overrides_workspace_default store workspace) model_ids_from_policy_overrides_json (Ok None))
      in if department \<noteq> nil
         then try_source (overrides_by_department store workspace department) model_ids_from_policy_overrides_json rest
         else rest)"

definition resolve_model_id_list ::
  "'uuid policy_store \<Rightarrow> 'uuid \<Rightarrow> 'uuid \<Rightarrow> 'uuid VkPolicy \<Rightarrow> 'uuid \<Rightarrow> (default_model_error, string list) result" where
  "resolve_model_id_list store nil workspace vk department =
     (case nonempty_allow_list (vk_allowed_models vk) of
        Some v \<Rightarrow> Ok v
      | None \<Rightarrow>
          try_bind (load_overrides_list store nil workspace (vk_virtual_key_id vk) department) (\<lambda>ov.
            case ov of Some v \<Rightarrow> Ok v
            | None \<Rightarrow>
                (case policy_config_model_access store workspace of
                   Inl _ \<Rightarrow> Err DmInternal
                 | Inr row \<Rightarrow> Ok (case Option.bind row model_ids_from_config_json of Some ids \<Rightarrow> ids | None \<Rightarrow> []))))"

definition choose_default_gateway_model_excluding_provider ::
  "(string \<Rightarrow> f64 option) \<Rightarrow> BareModelExpandIndex \<Rightarrow> 'uuid policy_store option \<Rightarrow> 'uuid \<Rightarrow> string \<Rightarrow> 'uuid \<Rightarrow> 'uuid
   \<Rightarrow> 'uuid VkPolicy \<Rightarrow> string option \<Rightarrow> (default_model_error, string) result option" where
  "choose_default_gateway_model_excluding_provider num idx store_opt nil path workspace department vk excluded =
     (case store_opt of None \<Rightarrow> Some (Err NoModelAvailable)
      | Some store \<Rightarrow>
          (case resolve_model_id_list store nil workspace vk department of
             Inl e \<Rightarrow> Some (Err e)
           | Inr ids \<Rightarrow>
               let l = expand_policy_model_list idx ids
               in if l = [] then Some (Err NoModelAvailable)
                  else (case resolve_scored_gateway_models num store path vk l of
                          Inl e \<Rightarrow> Some (Err e)
                        | Inr scored \<Rightarrow>
                            map_option (\<lambda>best. case best of None \<Rightarrow> Err NoModelAvailable | Some m \<Rightarrow> Ok m)
                              (pick_best_scored_gateway_model scored excluded))))"

definition choose_default_gateway_model where
  "choose_default_gateway_model num idx store_opt nil path workspace department vk =
     choose_default_gateway_model_excluding_provider num idx store_opt nil path workspace department vk None"

subsection \<open>The greatest price\<close>

lemma price_tolerance: "\<exists>c. f64_round (1 / 10 ^ 9) = Fin c \<and> 0 \<le> c"
proof -
  let ?q = "1 / 10 ^ 9 :: rat"
  have q: "0 < ?q" "?q \<le> 2 powi 0" by simp_all
  have "(2::rat) powi ilog2 ?q < 2 powi 1" using ilog2_bounds(1) [OF q(1)] q by (simp add: power_int_def)
  from powi_two_less [OF this] have "f64_exponent ?q \<le> 0" by (simp add: f64_exponent_def)
  from round_pos_le_power [OF q(1) this q(2)] have "round_pos ?q \<le> 1" by simp
  then have "round_pos ?q < 2 ^ 1024" by (rule le_less_trans) simp
  then show ?thesis using q round_pos_nonneg [OF q(1)] by (simp add: f64_round_def)
qed

lemma nearly_refl: "nearly (Fin q) (Fin q)"
proof -
  obtain c where c: "f64_round (1 / 10 ^ 9) = Fin c" "0 \<le> c" using price_tolerance by blast
  have z: "f64_abs (f64_sub (Fin q) (Fin q)) = Fin 0"
    by (simp add: f64_abs_def f64_sub_def f64_neg_def f64_add_f64_def f64_add_def f64_round_def)
  have "f64_le (Fin 0) (f64_max (Fin c) y)" for y
    using c(2) by (cases y) (auto simp: f64_le_def f64_max_def f64_gt_def)
  then show ?thesis unfolding nearly_def z c(1) .
qed

lemma f64_max_Fin [simp]: "f64_max (Fin a) (Fin b) = Fin (max a b)" "f64_max NegInf (Fin b) = Fin b"
  by (auto simp: f64_max_def f64_gt_def max_def)

lemma f64_gt_Fin [simp]: "f64_gt (Fin a) (Fin b) \<longleftrightarrow> b < a"
  by (simp add: f64_gt_def)

lemma max_price_Fin:
  assumes "scored \<noteq> []" and "\<forall>(n, x) \<in> set scored. \<exists>q. x = Fin q"
  obtains q where "max_price scored = Fin q" and "Fin q \<in> snd ` set scored" and "\<forall>(n, x) \<in> set scored. \<not> f64_gt x (Fin q)"
proof -
  have run: "\<exists>q. fold (\<lambda>(_, x) acc. f64_max acc x) xs (Fin a) = Fin q \<and> (q = a \<or> Fin q \<in> snd ` set xs)
      \<and> a \<le> q \<and> (\<forall>(n, x) \<in> set xs. \<not> f64_gt x (Fin q))"
    if "\<forall>(n, x) \<in> set xs. \<exists>q. x = Fin q" for xs :: "(string \<times> f64) list" and a
    using that
  proof (induction xs arbitrary: a)
    case (Cons nx xs)
    then obtain n b where nx: "nx = (n, Fin b)" by (cases nx) auto
    from Cons.prems have "\<forall>(n, x) \<in> set xs. \<exists>q. x = Fin q" by simp
    from Cons.IH [OF this, of "max a b"] obtain q where "fold (\<lambda>(_, x) acc. f64_max acc x) xs (Fin (max a b)) = Fin q"
      "q = max a b \<or> Fin q \<in> snd ` set xs" "max a b \<le> q" "\<forall>(n, x) \<in> set xs. \<not> f64_gt x (Fin q)"
      by blast
    with nx show ?case by (intro exI [of _ q]) (auto simp: max_def split: if_splits)
  qed simp
  from assms obtain n b xs where s: "scored = (n, Fin b) # xs" by (cases scored) auto
  with assms(2) run [of xs b] obtain q where "fold (\<lambda>(_, x) acc. f64_max acc x) xs (Fin b) = Fin q"
    "q = b \<or> Fin q \<in> snd ` set xs" "b \<le> q" "\<forall>(n, x) \<in> set xs. \<not> f64_gt x (Fin q)" by auto
  with s show thesis by (intro that [of q]) (auto simp: max_price_def)
qed

lemma pick_greatest:
  assumes "scored \<noteq> []" and "\<forall>(n, x) \<in> set scored. \<exists>q. x = Fin q"
  obtains n x mx where "pick_greatest_by_price_and_name scored = Some n" and "(n, x) \<in> set scored" and "nearly x mx"
    and "mx \<in> snd ` set scored"
    and "\<forall>(n', x') \<in> set scored. \<not> f64_gt x' mx \<and> (nearly x' mx \<longrightarrow> n' \<le> n)"
proof -
  obtain q where q: "max_price scored = Fin q" "Fin q \<in> snd ` set scored" "\<forall>(n, x) \<in> set scored. \<not> f64_gt x (Fin q)"
    using max_price_Fin [OF assms] by blast
  let ?near = "map fst (filter (\<lambda>(_, x). nearly x (Fin q)) scored)"
  from q(2) obtain n0 where "(n0, Fin q) \<in> set scored" by auto
  then have "n0 \<in> set ?near" using nearly_refl by force
  then obtain n ns where ns: "?near = n # ns" by (cases ?near) auto
  let ?best = "Max (set ?near)"
  have "pick_greatest_by_price_and_name scored = Some ?best"
    unfolding pick_greatest_by_price_and_name_def q(1) ns Max.set_eq_fold using assms(1) by simp
  moreover have "?best \<in> set ?near" using ns by (intro Max_in) auto
  then obtain x where "(?best, x) \<in> set scored" "nearly x (Fin q)" by auto
  moreover have "n' \<le> ?best" if "(n', x') \<in> set scored" "nearly x' (Fin q)" for n' x'
    using that by (intro Max_ge) force+
  then have "\<forall>(n', x') \<in> set scored. \<not> f64_gt x' (Fin q) \<and> (nearly x' (Fin q) \<longrightarrow> n' \<le> ?best)" using q(3) by blast
  ultimately show thesis using that [of ?best x "Fin q"] q(2) by blast
qed

subsection \<open>The expanded list\<close>

definition seen_ok :: "string set \<times> string list \<Rightarrow> bool" where
  "seen_ok acc \<longleftrightarrow> distinct (map to_ascii_lowercase (snd acc)) \<and> set (map to_ascii_lowercase (snd acc)) = fst acc"

lemma push_unseen_ok: "seen_ok acc \<Longrightarrow> seen_ok (push_unseen g acc)"
  by (cases acc) (auto simp: seen_ok_def push_unseen_def)

lemma fold_push_unseen_ok: "seen_ok acc \<Longrightarrow> seen_ok (fold push_unseen gs acc)"
  by (induction gs arbitrary: acc) (simp_all add: push_unseen_ok)

lemma expand_loop_ok: "seen_ok acc \<Longrightarrow> seen_ok (expand_loop idx l acc)"
  by (induction l arbitrary: acc) (auto simp: Let_def push_unseen_ok fold_push_unseen_ok split: option.splits)

lemma expand_distinct: "distinct (map to_ascii_lowercase (expand_policy_model_list idx l))"
  using expand_loop_ok [of "({}, [])" idx l] by (simp add: seen_ok_def expand_policy_model_list_def)

subsection \<open>The choice\<close>

text \<open>A model that may be chosen for a path, with its price: not blocked, in the catalogue, of a fitting kind.\<close>

definition eligible ::
  "(string \<Rightarrow> f64 option) \<Rightarrow> string \<Rightarrow> (string \<rightharpoonup> json option) \<Rightarrow> string list option \<Rightarrow> string option \<Rightarrow> string \<Rightarrow> f64 \<Rightarrow> bool" where
  "eligible num path info blocked excluded m x \<longleftrightarrow>
     \<not> listed m blocked
     \<and> (\<exists>pm i. split_provider_model m = Some pm \<and> info (candidate_lookup_key (provider_raw pm) (model_raw pm)) = Some i
          \<and> model_info_allows_unified_path i path
          \<and> (\<forall>e \<in> set_option excluded. \<not> eq_ignore_ascii_case (provider_raw pm) e)
          \<and> x = (case i of None \<Rightarrow> Fin 0 | Some j \<Rightarrow> price_sum_from_info num j))"

lemma set_map_filter: "y \<in> set (List.map_filter f xs) \<longleftrightarrow> (\<exists>x \<in> set xs. f x = Some y)"
  by (induction xs) (auto simp: List.map_filter_simps split: option.splits)

lemma model_access_no_allow: "model_access_allowed m None blocked \<longleftrightarrow> \<not> listed m blocked"
  by (simp add: model_access_allowed_def listed_def)

lemma default_candidates_set:
  "c \<in> set (default_candidates blocked l) \<longleftrightarrow>
     (\<exists>m pm. m \<in> set l \<and> \<not> listed m blocked \<and> split_provider_model m = Some pm
        \<and> c = \<lparr>cd_original = m, cd_provider_code = provider_raw pm, cd_model_id = model_raw pm\<rparr>)"
  unfolding default_candidates_def set_map_filter model_access_no_allow by (auto split: if_splits)

lemma score_candidate_Some:
  "score_candidate num path info c = Some s \<longleftrightarrow>
     (\<exists>i. info (candidate_lookup_key (cd_provider_code c) (cd_model_id c)) = Some i \<and> model_info_allows_unified_path i path
        \<and> s = \<lparr>gateway_model = cd_original c, sc_provider_code = cd_provider_code c,
               price_sum = (case i of None \<Rightarrow> Fin 0 | Some j \<Rightarrow> price_sum_from_info num j)\<rparr>)"
  by (auto simp: score_candidate_def split: option.splits)

lemma scored_set:
  "s \<in> set (List.map_filter (score_candidate num path info) (default_candidates blocked l)) \<longleftrightarrow>
     (\<exists>m pm i. m \<in> set l \<and> \<not> listed m blocked \<and> split_provider_model m = Some pm
        \<and> info (candidate_lookup_key (provider_raw pm) (model_raw pm)) = Some i \<and> model_info_allows_unified_path i path
        \<and> s = \<lparr>gateway_model = m, sc_provider_code = provider_raw pm,
               price_sum = (case i of None \<Rightarrow> Fin 0 | Some j \<Rightarrow> price_sum_from_info num j)\<rparr>)"
  unfolding set_map_filter score_candidate_Some Bex_def default_candidates_set
  apply (rule iffI)
   apply (elim exE conjE)
   apply (hypsubst_thin)
   apply (simp only: DefaultModelCandidate.select_convs)
   apply blast
  apply (elim exE conjE)
  subgoal for m pm i
    by (rule exI [of _ "\<lparr>cd_original = m, cd_provider_code = provider_raw pm, cd_model_id = model_raw pm\<rparr>"])
      (simp, blast)
  done

lemma scored_eligible:
  "(m, x) \<in> (\<lambda>c. (gateway_model c, price_sum c)) ` {c \<in> set (List.map_filter (score_candidate num path info) (default_candidates blocked l)).
       case excluded of None \<Rightarrow> True | Some e \<Rightarrow> \<not> eq_ignore_ascii_case (sc_provider_code c) e}
   \<longleftrightarrow> m \<in> set l \<and> eligible num path info blocked excluded m x" (is "?L \<longleftrightarrow> ?R")
proof
  assume ?L
  then obtain c where "c \<in> set (List.map_filter (score_candidate num path info) (default_candidates blocked l))"
    "m = gateway_model c" "x = price_sum c" "\<forall>e \<in> set_option excluded. \<not> eq_ignore_ascii_case (sc_provider_code c) e"
    by (auto split: option.splits)
  then show ?R unfolding scored_set eligible_def by fastforce
next
  assume ?R
  then obtain pm i where "m \<in> set l" "\<not> listed m blocked" and pm: "split_provider_model m = Some pm"
    "info (candidate_lookup_key (provider_raw pm) (model_raw pm)) = Some i" "model_info_allows_unified_path i path"
    "\<forall>e \<in> set_option excluded. \<not> eq_ignore_ascii_case (provider_raw pm) e"
    "x = (case i of None \<Rightarrow> Fin 0 | Some j \<Rightarrow> price_sum_from_info num j)"
    unfolding eligible_def by blast
  let ?s = "\<lparr>gateway_model = m, sc_provider_code = provider_raw pm, price_sum = x\<rparr>"
  have "?s \<in> set (List.map_filter (score_candidate num path info) (default_candidates blocked l))"
    unfolding scored_set using \<open>m \<in> set l\<close> \<open>\<not> listed m blocked\<close> pm by blast
  then show ?L using pm(4) by (intro image_eqI [of _ _ ?s]) (auto split: option.splits)
qed

text \<open>
  C25. The default model. When the policies list models and the database answers, and prices are finite, the choice
  never panics: without an eligible model the request is refused; otherwise the chosen model is eligible (listed by the
  policy, not blocked, in the catalogue, of a kind that serves the path, not of the excluded provider), no eligible
  model costs more than the one it is compared with, up to the tolerance, and among the models of about that
  price it has the greatest name. The virtual key may use it.
\<close>

theorem default_model_exact:
  assumes "resolve_model_id_list store nil workspace vk department = Inr ids"
    and "l = expand_policy_model_list idx ids"
    and "selection_info_batch store (map (\<lambda>c. (cd_provider_code c, cd_model_id c)) (default_candidates (vk_blocked_models vk) l)) = Inr rows"
    and "info = map_of (rev (map (\<lambda>(p, m, i). (candidate_lookup_key p m, i)) rows))"
    and "\<forall>m \<in> set l. \<forall>x. eligible num path info (vk_blocked_models vk) excluded m x \<longrightarrow> (\<exists>q. x = Fin q)"
  shows "case choose_default_gateway_model_excluding_provider num idx (Some store) nil path workspace department vk excluded of
      None \<Rightarrow> False
    | Some (Inl e) \<Rightarrow> e = NoModelAvailable \<and> (\<forall>m \<in> set l. \<forall>x. \<not> eligible num path info (vk_blocked_models vk) excluded m x)
    | Some (Inr m) \<Rightarrow> m \<in> set l \<and> check_model_access (Some vk) m = Inr ()
        \<and> (\<exists>x mx. eligible num path info (vk_blocked_models vk) excluded m x \<and> nearly x mx
            \<and> (\<exists>m' \<in> set l. eligible num path info (vk_blocked_models vk) excluded m' mx)
            \<and> (\<forall>m' \<in> set l. \<forall>x'. eligible num path info (vk_blocked_models vk) excluded m' x' \<longrightarrow>
                 \<not> f64_gt x' mx \<and> (nearly x' mx \<longrightarrow> m' \<le> m)))"
proof -
  let ?ok = "eligible num path info (vk_blocked_models vk) excluded"
  let ?scored = "List.map_filter (score_candidate num path info) (default_candidates (vk_blocked_models vk) l)"
  let ?fil = "map (\<lambda>c. (gateway_model c, price_sum c))
      (filter (\<lambda>c. case excluded of None \<Rightarrow> True | Some e \<Rightarrow> \<not> eq_ignore_ascii_case (sc_provider_code c) e) ?scored)"
  have mem: "(m, x) \<in> set ?fil \<longleftrightarrow> m \<in> set l \<and> ?ok m x" for m x
    using scored_eligible [of m x num path info "vk_blocked_models vk" l excluded] by simp
  have sc: "resolve_scored_gateway_models num store path vk l = Inr ?scored"
    using assms(3,4) by (simp add: resolve_scored_gateway_models_def Let_def)
  have ch: "choose_default_gateway_model_excluding_provider num idx (Some store) nil path workspace department vk excluded =
      (if l = [] then Some (Inl NoModelAvailable)
       else map_option (\<lambda>best. case best of None \<Rightarrow> Inl NoModelAvailable | Some m \<Rightarrow> Inr m)
              (if ?fil = [] then Some None else map_option Some (pick_greatest_by_price_and_name ?fil)))"
    using assms(1,2) sc unfolding choose_default_gateway_model_excluding_provider_def pick_best_scored_gateway_model_def Let_def
    by simp
  show ?thesis
  proof (cases "?fil = []")
    case True
    then have "\<not> (m \<in> set l \<and> ?ok m x)" for m x using mem [of m x] by simp
    then show ?thesis unfolding ch if_P [OF True] by auto
  next
    case False
    then have ne: "l \<noteq> []" by (auto simp: default_candidates_def List.map_filter_simps)
    have fin: "\<forall>(n, x) \<in> set ?fil. \<exists>q. x = Fin q" using mem assms(5) by blast
    obtain m x mx where m: "pick_greatest_by_price_and_name ?fil = Some m" "(m, x) \<in> set ?fil" "nearly x mx"
        "mx \<in> snd ` set ?fil" "\<forall>(n', x') \<in> set ?fil. \<not> f64_gt x' mx \<and> (nearly x' mx \<longrightarrow> n' \<le> m)"
      by (rule pick_greatest [OF False fin])
    from m(2) mem have mok: "m \<in> set l" "?ok m x" by blast+
    from m(4) mem obtain m' where "m' \<in> set l" "?ok m' mx" by force
    moreover have "\<not> f64_gt x' mx \<and> (nearly x' mx \<longrightarrow> n' \<le> m)" if "n' \<in> set l" "?ok n' x'" for n' x'
      using m(5) mem [of n' x'] that by blast
    moreover have "check_model_access (Some vk) m = Inr ()"
      using mok(2) by (simp add: check_model_access_def model_access_allowed_def eligible_def)
    ultimately have "m \<in> set l \<and> check_model_access (Some vk) m = Inr () \<and> (\<exists>x mx. ?ok m x \<and> nearly x mx
        \<and> (\<exists>m' \<in> set l. ?ok m' mx) \<and> (\<forall>m' \<in> set l. \<forall>x'. ?ok m' x' \<longrightarrow> \<not> f64_gt x' mx \<and> (nearly x' mx \<longrightarrow> m' \<le> m)))"
      using mok m(3) by blast
    then show ?thesis unfolding ch if_not_P [OF ne] if_not_P [OF False] m(1) by simp
  qed
qed


text \<open>A store with two catalogue rows, for a virtual key with a list of its own.\<close>

definition demo_info :: "string \<Rightarrow> json option" where
  "demo_info p = Some (JObject [(''model_interaction_type'', JString ''chat''), (''prompt'', JNumber p)])"

definition demo_store :: "nat policy_store" where
  "demo_store = \<lparr>overrides_by_department = (\<lambda>_ _. Inr None), overrides_for_virtual_key = (\<lambda>_ _. Inr None),
     overrides_workspace_default = (\<lambda>_. Inr None), policy_config_model_access = (\<lambda>_. Inr None),
     selection_info_batch = (\<lambda>_. Inr [(''a'', ''x'', demo_info ''1''), (''b'', ''y'', demo_info ''2'')])\<rparr>"

definition demo_num :: "string \<Rightarrow> f64 option" where
  "demo_num s = (if s = ''1'' then Some (Fin 1) else if s = ''2'' then Some (Fin 2) else None)"

definition demo_vk :: "nat VkPolicy" where
  "demo_vk = \<lparr>vk_virtual_key_id = 7, vk_allowed_models = Some [''a/x'', ''b/y'', ''c/z''], vk_blocked_models = Some [''C/Z'']\<rparr>"

definition demo_choice :: "(default_model_error, string) result option" where
  "demo_choice = choose_default_gateway_model_excluding_provider demo_num Map.empty (Some demo_store) 0
     ''chat/completions'' 1 0 demo_vk None"

definition demo_rows :: "string \<rightharpoonup> json option" where
  "demo_rows = map_of [(''b/y'', demo_info ''2''), (''a/x'', demo_info ''1'')]"

lemma demo_prices [simp]:
  "price_sum_from_info demo_num (the (demo_info ''1'')) = Fin 1"
  "price_sum_from_info demo_num (the (demo_info ''2'')) = Fin 2"
  by code_simp+

lemma demo_eligible:
  "eligible demo_num ''chat/completions'' demo_rows (vk_blocked_models demo_vk) None m x \<longleftrightarrow>
     m = ''a/x'' \<and> x = Fin 1 \<or> m = ''b/y'' \<and> x = Fin 2" if "m \<in> set [''a/x'', ''b/y'', ''c/z'']"
proof -
  have a: "split_provider_model ''a/x'' = Some \<lparr>provider_raw = ''a'', model_raw = ''x''\<rparr>"
    "split_provider_model ''b/y'' = Some \<lparr>provider_raw = ''b'', model_raw = ''y''\<rparr>"
    "\<not> listed ''a/x'' (vk_blocked_models demo_vk)" "\<not> listed ''b/y'' (vk_blocked_models demo_vk)"
    "listed ''c/z'' (vk_blocked_models demo_vk)" "candidate_lookup_key ''a'' ''x'' = ''a/x''"
    "candidate_lookup_key ''b'' ''y'' = ''b/y''" "model_info_allows_unified_path (demo_info ''1'') ''chat/completions''"
    "model_info_allows_unified_path (demo_info ''2'') ''chat/completions''"
    "demo_rows ''a/x'' = Some (demo_info ''1'')" "demo_rows ''b/y'' = Some (demo_info ''2'')"
    by code_simp+
  have p: "(case demo_info k of None \<Rightarrow> Fin 0 | Some j \<Rightarrow> price_sum_from_info demo_num j) =
      price_sum_from_info demo_num (the (demo_info k))" for k
    by (simp add: demo_info_def)
  from that consider "m = ''a/x''" | "m = ''b/y''" | "m = ''c/z''" by auto
  then show ?thesis by cases (simp_all add: eligible_def a p)
qed

theorem default_model_exact_witness:
  "resolve_model_id_list demo_store 0 1 demo_vk 0 = Inr [''a/x'', ''b/y'', ''c/z'']
   \<and> (demo_choice = Some (Inr ''a/x'') \<or> demo_choice = Some (Inr ''b/y''))"
proof -
  have ids: "resolve_model_id_list demo_store 0 1 demo_vk 0 = Inr [''a/x'', ''b/y'', ''c/z'']" by code_simp
  have l: "[''a/x'', ''b/y'', ''c/z''] = expand_policy_model_list Map.empty [''a/x'', ''b/y'', ''c/z'']" by code_simp
  have rows: "selection_info_batch demo_store (map (\<lambda>c. (cd_provider_code c, cd_model_id c))
      (default_candidates (vk_blocked_models demo_vk) [''a/x'', ''b/y'', ''c/z'']))
      = Inr [(''a'', ''x'', demo_info ''1''), (''b'', ''y'', demo_info ''2'')]"
    by (simp add: demo_store_def)
  have keys: "candidate_lookup_key ''a'' ''x'' = ''a/x''" "candidate_lookup_key ''b'' ''y'' = ''b/y''" by code_simp+
  have info: "demo_rows = map_of (rev (map (\<lambda>(p, m, i). (candidate_lookup_key p m, i))
      [(''a'', ''x'', demo_info ''1''), (''b'', ''y'', demo_info ''2'')]))"
    by (simp add: demo_rows_def keys)
  have "case demo_choice of None \<Rightarrow> False
      | Some (Inl e) \<Rightarrow> e = NoModelAvailable \<and> (\<forall>m \<in> set [''a/x'', ''b/y'', ''c/z'']. \<forall>x.
          \<not> eligible demo_num ''chat/completions'' demo_rows (vk_blocked_models demo_vk) None m x)
      | Some (Inr m) \<Rightarrow> m \<in> set [''a/x'', ''b/y'', ''c/z'']
          \<and> (\<exists>x. eligible demo_num ''chat/completions'' demo_rows (vk_blocked_models demo_vk) None m x)"
    using default_model_exact [OF ids l rows info, of demo_num "''chat/completions''" None] demo_eligible
    unfolding demo_choice_def by (auto split: option.splits sum.splits)
  then show ?thesis using ids demo_eligible by (auto split: option.splits sum.splits)
qed

end
