(* ===== verification/Gateway_Errors.thy ===== *)
theory Gateway_Errors
  imports Default_Model In_Flight_Limit Retry
begin

text \<open>
  The errors of the gateway and the answers they become (\<open>error\<close>): client errors, authentication errors,
  internal errors and errors of a stream. An error of a library is represented by the text it displays. The errors that
  the single components report are embedded here, as the \<open>From\<close> implementations of the code do.
\<close>

subsection \<open>Client errors\<close>

datatype ClientError =
    IrNotFound string
  | IrMethodNotAllowed string string
  | IrUnsupportedProvider InferenceProvider
  | IrUnsupportedEndpoint string
  | IrRouterIdNotFound string
  | IrMissingRouterId
  | IrMissingModelId
  | IrInvalidModelId
  | IrUnsupportedGatewayModel string
  | IrInvalidRequest string
  | IrInvalidUrl string
  | IrInvalidRequestBody string
  | IrProvider4xxError nat
  | IrTooManyRequests TooManyRequestsError
  | IrInvalidRequestHeader string
  | IrInvalidLargeContextHandler string
  | IrInvalidPromptInputs string
  | IrModelAccessDenied string
  | IrNoModelAvailable
  | IrPiicacheOutBodyMissing string
  | IrPromptCacheInvalid string
  | IrAmbiguousBareModel string "string list"
  | IrCustomProviderMissingBaseUrl
  | IrContentPolicyDenied string

text \<open>Decimal numbers, the reasons of status codes, and the debug form of strings.\<close>

fun decimal :: "nat \<Rightarrow> string" where
  "decimal n = (if n < 10 then [char_of (48 + n)] else decimal (n div 10) @ [char_of (48 + n mod 10)])"

declare decimal.simps [simp del]

definition hex_digit :: "nat \<Rightarrow> char" where
  "hex_digit n = char_of (if n < 10 then 48 + n else 87 + n)"

definition escape_debug :: "char \<Rightarrow> string" where
  "escape_debug c =
     (let n = of_char c :: nat
      in if c = CHR 0x22 \<or> c = CHR 0x5C then [CHR 0x5C, c]
         else if c = CHR 0x0A then [CHR 0x5C, CHR ''n'']
         else if c = CHR 0x0D then [CHR 0x5C, CHR ''r'']
         else if c = CHR 0x09 then [CHR 0x5C, CHR ''t'']
         else if c = CHR 0x00 then [CHR 0x5C, CHR ''0'']
         else if n < 32 \<or> n = 127
         then [CHR 0x5C, CHR ''u'', CHR 0x7B] @ (if n < 16 then [] else [hex_digit (n div 16)]) @ [hex_digit (n mod 16), CHR 0x7D]
         else [c])"

definition quote_debug :: "string \<Rightarrow> string" where
  "quote_debug s = [CHR 0x22] @ concat (map escape_debug s) @ [CHR 0x22]"

fun join_with :: "string \<Rightarrow> string list \<Rightarrow> string" where
  "join_with sep [] = []"
| "join_with sep [x] = x"
| "join_with sep (x # y # xs) = x @ sep @ join_with sep (y # xs)"

text \<open>\<open>Display\<close>; the text of a status code is an argument.\<close>

definition client_error_display :: "(nat \<Rightarrow> string) \<Rightarrow> ClientError \<Rightarrow> string" where
  "client_error_display status_text e =
     (case e of
        IrNotFound s \<Rightarrow> ''Resource not found: '' @ s
      | IrMethodNotAllowed m p \<Rightarrow> ''HTTP method `'' @ m @ ''` is not allowed for `'' @ p @ ''`''
      | IrUnsupportedProvider p \<Rightarrow> ''Unsupported provider: '' @ provider_as_ref p
      | IrUnsupportedEndpoint s \<Rightarrow> ''Unsupported endpoint: '' @ s
      | IrRouterIdNotFound s \<Rightarrow> ''Router id not found: '' @ s
      | IrMissingRouterId \<Rightarrow> ''Missing router id in request path''
      | IrMissingModelId \<Rightarrow> ''Missing model id in request body''
      | IrInvalidModelId \<Rightarrow> ''Invalid model id in request body''
      | IrUnsupportedGatewayModel s \<Rightarrow> ''Unsupported model: '' @ s
      | IrInvalidRequest s \<Rightarrow> ''Invalid request: '' @ s
      | IrInvalidUrl s \<Rightarrow> ''Invalid request url: '' @ s
      | IrInvalidRequestBody s \<Rightarrow> ''Invalid request body: '' @ s
      | IrProvider4xxError n \<Rightarrow> ''Upstream 4xx error: '' @ status_text n
      | IrTooManyRequests t \<Rightarrow> ''Too many requests: Retry after '' @ decimal (unat (retry_after t)) @ ''s.''
      | IrInvalidRequestHeader s \<Rightarrow> ''Invalid request header: '' @ s
      | IrInvalidLargeContextHandler s \<Rightarrow> ''Invalid large context handler: '' @ s
      | IrInvalidPromptInputs s \<Rightarrow> ''Invalid prompt inputs: '' @ s
      | IrModelAccessDenied s \<Rightarrow> ''Model access denied: '' @ s
      | IrNoModelAvailable \<Rightarrow> ''No model available''
      | IrPiicacheOutBodyMissing s \<Rightarrow> s
      | IrPromptCacheInvalid s \<Rightarrow> s
      | IrAmbiguousBareModel m cs \<Rightarrow> ''Ambiguous model '' @ [CHR 0x27] @ m @ [CHR 0x27] @ '' matches providers: ['' @
          join_with '', '' (map quote_debug cs) @ '']''
      | IrCustomProviderMissingBaseUrl \<Rightarrow> ''Custom provider requires a base_url in master_key configuration''
      | IrContentPolicyDenied s \<Rightarrow> ''Content filter denied (HTTP 200 + OpenAI-style JSON for clients).'')"

record ErrorDetails =
  ed_message :: string
  ed_type :: "string option"
  ed_param :: "string option"
  ed_code :: "string option"

record error_answer =
  ea_status :: nat
  ea_headers :: headers
  ea_error :: ErrorDetails

definition json_error :: "nat \<Rightarrow> string \<Rightarrow> string \<Rightarrow> string option \<Rightarrow> error_answer" where
  "json_error status ty message code = \<lparr>ea_status = status, ea_headers = [],
     ea_error = \<lparr>ed_message = message, ed_type = Some ty, ed_param = None, ed_code = code\<rparr>\<rparr>"

definition invalid_request_error_type :: string where "invalid_request_error_type = ''invalid_request_error''"
definition server_error_type :: string where "server_error_type = ''server_error''"

definition client_error_response :: "(nat \<Rightarrow> string) \<Rightarrow> ClientError \<Rightarrow> error_answer" where
  "client_error_response status_text e =
     (let message = client_error_display status_text e;
          answer = (\<lambda>status message code. json_error status invalid_request_error_type message code)
      in case e of
           IrContentPolicyDenied m \<Rightarrow> answer 200 m (Some ''content_filter'')
         | IrMethodNotAllowed _ _ \<Rightarrow> answer 405 message (Some ''method_not_allowed'')
         | IrNotFound _ \<Rightarrow> answer 404 message None
         | IrRouterIdNotFound _ \<Rightarrow> answer 404 message None
         | IrProvider4xxError status \<Rightarrow> answer status message None
         | IrTooManyRequests t \<Rightarrow>
             (answer 429 message None)\<lparr>ea_headers :=
                [(''retry-after'', decimal (unat (retry_after t))), (''x-ratelimit-after'', decimal (unat (retry_after t))),
                 (''x-ratelimit-limit'', decimal (unat (ratelimit_limit t))),
                 (''x-ratelimit-remaining'', decimal (unat (ratelimit_remaining t)))]\<rparr>
         | IrModelAccessDenied _ \<Rightarrow> answer 403 message None
         | IrNoModelAvailable \<Rightarrow> answer 403 message None
         | IrPiicacheOutBodyMissing m \<Rightarrow> answer 400 m (Some ''piicache_out_body_missing'')
         | IrPromptCacheInvalid m \<Rightarrow> answer 400 m (Some ''prompt_cache_invalid'')
         | IrAmbiguousBareModel m cs \<Rightarrow> answer 400 (''Ambiguous model '' @ [CHR 0x27] @ m @ [CHR 0x27]
             @ '': matches multiple providers. Please specify one of: '' @ join_with '', '' cs) (Some ''ambiguous_model'')
         | IrCustomProviderMissingBaseUrl \<Rightarrow>
             answer 400 ''Custom provider requires a base_url in master_key configuration'' (Some ''custom_provider_missing_base_url'')
         | _ \<Rightarrow> answer 400 message None)"

text \<open>The label of an error in the metrics.\<close>

definition client_error_metric :: "ClientError \<Rightarrow> string" where
  "client_error_metric e =
     (case e of
        IrUnsupportedProvider _ \<Rightarrow> ''UnsupportedProvider''
      | IrMethodNotAllowed _ _ \<Rightarrow> ''MethodNotAllowed''
      | IrNotFound _ \<Rightarrow> ''NotFound'' | IrRouterIdNotFound _ \<Rightarrow> ''NotFound''
      | IrMissingRouterId \<Rightarrow> ''NotFound'' | IrInvalidRequestHeader _ \<Rightarrow> ''NotFound''
      | IrInvalidRequest _ \<Rightarrow> ''InvalidRequest'' | IrUnsupportedEndpoint _ \<Rightarrow> ''InvalidRequest''
      | IrInvalidLargeContextHandler _ \<Rightarrow> ''InvalidRequest'' | IrInvalidPromptInputs _ \<Rightarrow> ''InvalidRequest''
      | IrMissingModelId \<Rightarrow> ''InvalidRequest'' | IrInvalidModelId \<Rightarrow> ''InvalidRequest''
      | IrInvalidUrl _ \<Rightarrow> ''InvalidUrl''
      | IrInvalidRequestBody _ \<Rightarrow> ''InvalidRequestBody''
      | IrProvider4xxError _ \<Rightarrow> ''Provider4xxError''
      | IrTooManyRequests _ \<Rightarrow> ''TooManyRequests''
      | IrModelAccessDenied _ \<Rightarrow> ''ModelAccessDenied''
      | IrNoModelAvailable \<Rightarrow> ''NoModelAvailable''
      | IrUnsupportedGatewayModel _ \<Rightarrow> ''UnsupportedGatewayModel''
      | IrContentPolicyDenied _ \<Rightarrow> ''ContentPolicyDenied''
      | IrPiicacheOutBodyMissing _ \<Rightarrow> ''PiicacheOutBodyMissing''
      | IrPromptCacheInvalid _ \<Rightarrow> ''PromptCacheInvalid''
      | IrAmbiguousBareModel _ _ \<Rightarrow> ''AmbiguousBareModel''
      | IrCustomProviderMissingBaseUrl \<Rightarrow> ''CustomProviderMissingBaseUrl'')"

subsection \<open>Authentication errors\<close>

datatype AuthError = MissingAuthorizationHeader | InvalidCredentials | ProviderKeyNotFound

definition auth_error_response :: "AuthError \<Rightarrow> error_answer" where
  "auth_error_response e =
     (case e of
        MissingAuthorizationHeader \<Rightarrow> json_error 401 invalid_request_error_type ''Missing authorization header'' (Some ''invalid_api_key'')
      | InvalidCredentials \<Rightarrow> json_error 401 invalid_request_error_type ''Invalid credentials'' (Some ''invalid_api_key'')
      | ProviderKeyNotFound \<Rightarrow> json_error 401 invalid_request_error_type ''Provider key not found'' (Some ''provider_key_not_found''))"

definition auth_error_metric :: "AuthError \<Rightarrow> string" where
  "auth_error_metric e =
     (case e of MissingAuthorizationHeader \<Rightarrow> ''MissingAuthorizationHeader'' | InvalidCredentials \<Rightarrow> ''InvalidCredentials''
      | ProviderKeyNotFound \<Rightarrow> ''ProviderKeyNotFound'')"

subsection \<open>Internal errors\<close>

datatype MapperErr =
    MeChatConversion
  | MeNoModelMapping InferenceProvider string
  | MeInvalidModelName string
  | MeNoProviderConfig InferenceProvider
  | MeProviderNotEnabled InferenceProvider
  | MeInvalidRequest
  | MeSerdeError string
  | MeEmptyResponseBody
  | MeProviderNotSupported string
  | MeToolMappingInvalid string
  | MeImageMappingInvalid string
  | MeFailedToMapBedrockMessage string

definition mapper_error_display :: "MapperErr \<Rightarrow> string" where
  "mapper_error_display e =
     (case e of
        MeChatConversion \<Rightarrow> ''Failed to convert chat completion request''
      | MeNoModelMapping p m \<Rightarrow> ''No model mapping found for provider: '' @ provider_as_ref p @ '' and model: '' @ m
      | MeInvalidModelName s \<Rightarrow> ''Invalid model name: '' @ s
      | MeNoProviderConfig p \<Rightarrow> ''No global provider config found for provider: '' @ provider_as_ref p
      | MeProviderNotEnabled p \<Rightarrow> ''Provider not enabled in router config: '' @ provider_as_ref p
      | MeInvalidRequest \<Rightarrow> ''Invalid request body''
      | MeSerdeError s \<Rightarrow> ''Serde error: '' @ s
      | MeEmptyResponseBody \<Rightarrow> ''Empty response body''
      | MeProviderNotSupported s \<Rightarrow> ''Provider not supported: '' @ s
      | MeToolMappingInvalid s \<Rightarrow> ''Tool spec not found: '' @ s
      | MeImageMappingInvalid s \<Rightarrow> ''Image mapping invalid: '' @ s
      | MeFailedToMapBedrockMessage s \<Rightarrow> ''Failed to map Bedrock message: '' @ s)"

definition mapper_error_metric :: "MapperErr \<Rightarrow> string" where
  "mapper_error_metric e =
     (case e of
        MeChatConversion \<Rightarrow> ''ChatConversion'' | MeNoModelMapping _ _ \<Rightarrow> ''NoModelMapping''
      | MeInvalidModelName _ \<Rightarrow> ''InvalidModelName'' | MeNoProviderConfig _ \<Rightarrow> ''NoProviderConfig''
      | MeProviderNotEnabled _ \<Rightarrow> ''ProviderNotEnabled'' | MeInvalidRequest \<Rightarrow> ''InvalidRequest''
      | MeSerdeError _ \<Rightarrow> ''SerdeError'' | MeEmptyResponseBody \<Rightarrow> ''EmptyResponseBody''
      | MeProviderNotSupported _ \<Rightarrow> ''ProviderNotSupported'' | MeToolMappingInvalid _ \<Rightarrow> ''ToolMappingInvalid''
      | MeImageMappingInvalid _ \<Rightarrow> ''ImageMappingInvalid'' | MeFailedToMapBedrockMessage _ \<Rightarrow> ''FailedToMapBedrockMessage'')"

datatype InternalErr =
    IeInternal
  | IeSerialize string string
  | IeDeserialize string string
  | IeProviderNotConfigured InferenceProvider
  | IeExtensionNotFound string
  | IeProviderNotFound
  | IeCollectBodyError string
  | IeRequestBodyError string
  | IeReqwestError string
  | IeHttpError string
  | IeMapperError MapperErr
  | IeLoadBalancerError string
  | IePollReadyError string
  | IeBufferError string
  | IeInvalidUri string
  | IeInvalidHeader string
  | IeMappingTaskError string
  | IeInvalidConverter ApiEndpoint ApiEndpoint
  | IeProvider5xxError nat
  | IeMetricsNotConfigured ApiEndpoint
  | IeAwsRequestSigningError string
  | IeDynamicRouterDiscoveryError string
  | IePromptError string
  | IePromptTaskError string
  | IeDatabaseError string
  | IeProviderNotAllowedForWorkspace InferenceProvider
  | IeContentFilterUnavailable string

definition internal_error_display :: "(nat \<Rightarrow> string) \<Rightarrow> (ApiEndpoint \<Rightarrow> string) \<Rightarrow> InternalErr \<Rightarrow> string" where
  "internal_error_display status_text endpoint_debug e =
     (case e of
        IeInternal \<Rightarrow> ''Internal error''
      | IeSerialize ty s \<Rightarrow> ''Could not serialize '' @ ty @ '' due to: '' @ s
      | IeDeserialize ty s \<Rightarrow> ''Could not deserialize '' @ ty @ '' due to: '' @ s
      | IeProviderNotConfigured p \<Rightarrow> ''Router config provider '' @ [CHR 0x27] @ provider_as_ref p @ [CHR 0x27]
          @ '' not present in `ProvidersConfig`''
      | IeExtensionNotFound s \<Rightarrow> ''Extension '' @ s @ '' not found''
      | IeProviderNotFound \<Rightarrow> ''Provider not found''
      | IeCollectBodyError s \<Rightarrow> ''Could not collect response body: '' @ s
      | IeRequestBodyError s \<Rightarrow> ''Could not process request body: '' @ s
      | IeReqwestError s \<Rightarrow> ''Reqwest error: '' @ s
      | IeHttpError s \<Rightarrow> ''Http error: '' @ s
      | IeMapperError m \<Rightarrow> ''Mapper error: '' @ mapper_error_display m
      | IeLoadBalancerError s \<Rightarrow> ''Load balancer error: '' @ s
      | IePollReadyError s \<Rightarrow> ''Poll ready error: '' @ s
      | IeBufferError s \<Rightarrow> ''Buffer error: '' @ s
      | IeInvalidUri s \<Rightarrow> ''Invalid URI: '' @ s
      | IeInvalidHeader s \<Rightarrow> ''Invalid header: '' @ s
      | IeMappingTaskError s \<Rightarrow> ''Failed to complete mapping task: '' @ s
      | IeInvalidConverter a b \<Rightarrow> ''Converter not present for '' @ endpoint_debug a @ '' -> '' @ endpoint_debug b
      | IeProvider5xxError n \<Rightarrow> ''Upstream 5xx error: '' @ status_text n
      | IeMetricsNotConfigured a \<Rightarrow> ''Metrics not configured for: '' @ endpoint_debug a
      | IeAwsRequestSigningError s \<Rightarrow> ''Failed to sign AWS request: '' @ s
      | IeDynamicRouterDiscoveryError s \<Rightarrow> ''Dynamic router discovery error: '' @ s
      | IePromptError s \<Rightarrow> ''Prompt error: '' @ s
      | IePromptTaskError s \<Rightarrow> ''Failed to complete prompt task: '' @ s
      | IeDatabaseError s \<Rightarrow> ''Database error: '' @ s
      | IeProviderNotAllowedForWorkspace p \<Rightarrow> ''Provider '' @ provider_as_ref p @ '' is not in the workspace'' @ [CHR 0x27]
          @ ''s allowed provider set''
      | IeContentFilterUnavailable s \<Rightarrow> ''Content filter service unavailable: '' @ s)"

definition internal_error_response :: "(nat \<Rightarrow> string) \<Rightarrow> (ApiEndpoint \<Rightarrow> string) \<Rightarrow> InternalErr \<Rightarrow> error_answer" where
  "internal_error_response status_text endpoint_debug e =
     json_error (case e of IeContentFilterUnavailable _ \<Rightarrow> 503 | _ \<Rightarrow> 500) server_error_type
       (internal_error_display status_text endpoint_debug e) None"

definition internal_error_metric :: "InternalErr \<Rightarrow> string" where
  "internal_error_metric e =
     (case e of
        IeInternal \<Rightarrow> ''Internal'' | IeSerialize _ _ \<Rightarrow> ''Serialize'' | IeDeserialize _ _ \<Rightarrow> ''Deserialize''
      | IeProviderNotConfigured _ \<Rightarrow> ''ProviderNotConfigured'' | IeExtensionNotFound _ \<Rightarrow> ''ExtensionNotFound''
      | IeProviderNotFound \<Rightarrow> ''ProviderNotFound'' | IeCollectBodyError _ \<Rightarrow> ''CollectBodyError''
      | IeRequestBodyError _ \<Rightarrow> ''RequestBodyError'' | IeReqwestError _ \<Rightarrow> ''ReqwestError'' | IeHttpError _ \<Rightarrow> ''HttpError''
      | IeMapperError m \<Rightarrow> ''MapperError:'' @ mapper_error_metric m
      | IeLoadBalancerError _ \<Rightarrow> ''LoadBalancerError'' | IePollReadyError _ \<Rightarrow> ''PollReadyError''
      | IeBufferError _ \<Rightarrow> ''BufferError'' | IeInvalidUri _ \<Rightarrow> ''InvalidUri'' | IeInvalidHeader _ \<Rightarrow> ''InvalidHeader''
      | IeMappingTaskError _ \<Rightarrow> ''TokioTaskError'' | IePromptTaskError _ \<Rightarrow> ''TokioTaskError''
      | IeInvalidConverter _ _ \<Rightarrow> ''InvalidConverter'' | IeProvider5xxError _ \<Rightarrow> ''Provider5xxError''
      | IeMetricsNotConfigured _ \<Rightarrow> ''MetricsNotConfigured'' | IeAwsRequestSigningError _ \<Rightarrow> ''AwsRequestSigningError''
      | IePromptError _ \<Rightarrow> ''PromptError'' | IeDynamicRouterDiscoveryError _ \<Rightarrow> ''DynamicRouterDiscoveryError''
      | IeDatabaseError _ \<Rightarrow> ''DatabaseError'' | IeProviderNotAllowedForWorkspace _ \<Rightarrow> ''ProviderNotAllowedForWorkspace''
      | IeContentFilterUnavailable _ \<Rightarrow> ''ContentFilterUnavailable'')"

subsection \<open>Errors of a stream\<close>

text \<open>\<open>reqwest_eventsource::Error\<close>, each with the text it displays.\<close>

datatype eventsource_error =
    EsUtf8 string | EsParser string | EsTransport string
  | EsInvalidContentType string | EsInvalidStatusCode nat string | EsInvalidLastEventId string | EsStreamEnded string

definition eventsource_display :: "eventsource_error \<Rightarrow> string" where
  "eventsource_display e =
     (case e of EsUtf8 s \<Rightarrow> s | EsParser s \<Rightarrow> s | EsTransport s \<Rightarrow> s | EsInvalidContentType s \<Rightarrow> s
      | EsInvalidStatusCode _ s \<Rightarrow> s | EsInvalidLastEventId s \<Rightarrow> s | EsStreamEnded s \<Rightarrow> s)"

datatype StreamErr = SeStreamError eventsource_error | SeBodyError string

definition is_client_error :: "nat \<Rightarrow> bool" where "is_client_error n \<longleftrightarrow> 400 \<le> n \<and> n < 500"

definition stream_is_retryable :: "StreamErr \<Rightarrow> bool" where
  "stream_is_retryable e =
     (case e of
        SeStreamError es \<Rightarrow>
          (case es of EsUtf8 _ \<Rightarrow> True | EsParser _ \<Rightarrow> True | EsTransport _ \<Rightarrow> True
           | EsInvalidStatusCode n _ \<Rightarrow> is_server_error n
           | _ \<Rightarrow> False)
      | SeBodyError _ \<Rightarrow> False)"

definition stream_error_response :: "StreamErr \<Rightarrow> error_answer" where
  "stream_error_response e =
     (case e of
        SeStreamError es \<Rightarrow>
          (case es of
             EsInvalidStatusCode n _ \<Rightarrow>
               if is_server_error n then json_error n server_error_type (eventsource_display es) None
               else if is_client_error n then json_error n invalid_request_error_type (eventsource_display es) None
               else json_error 500 server_error_type (eventsource_display es) None
           | _ \<Rightarrow> json_error 500 server_error_type (eventsource_display es) None)
      | SeBodyError s \<Rightarrow> json_error 500 server_error_type s None)"

subsection \<open>All errors\<close>

datatype ApiError =
    InvalidRequest ClientError
  | Authentication AuthError
  | InternalE InternalErr
  | StreamE StreamErr
  | Panic string

definition into_response :: "(nat \<Rightarrow> string) \<Rightarrow> (ApiEndpoint \<Rightarrow> string) \<Rightarrow> ApiError \<Rightarrow> error_answer" where
  "into_response status_text endpoint_debug e =
     (case e of
        InvalidRequest c \<Rightarrow> client_error_response status_text c
      | Authentication a \<Rightarrow> auth_error_response a
      | InternalE i \<Rightarrow> internal_error_response status_text endpoint_debug i
      | StreamE s \<Rightarrow> stream_error_response s
      | Panic _ \<Rightarrow> json_error 500 server_error_type ''Internal server error'' None)"

definition error_metric :: "ApiError \<Rightarrow> string" where
  "error_metric e =
     (case e of
        InvalidRequest c \<Rightarrow> ''InvalidRequest:'' @ client_error_metric c
      | Authentication a \<Rightarrow> ''Authentication:'' @ auth_error_metric a
      | InternalE i \<Rightarrow> ''InternalError:'' @ internal_error_metric i
      | StreamE s \<Rightarrow>
          (case s of
             SeStreamError es \<Rightarrow>
               (case es of EsInvalidStatusCode n _ \<Rightarrow>
                    if is_client_error n then ''InvalidRequest:InvalidRequest'' else ''StreamError:StreamError''
                | _ \<Rightarrow> ''StreamError:StreamError'')
           | SeBodyError _ \<Rightarrow> ''StreamError:BodyError'')
      | Panic _ \<Rightarrow> ''Panic'')"

text \<open>\<open>dynamic_router::router::Error\<close> and its conversion.\<close>

datatype dynamic_router_error = DrExtensionNotFound | DrDiscover string | DrRouterNotFound string

definition of_dynamic_router_error :: "dynamic_router_error \<Rightarrow> ApiError" where
  "of_dynamic_router_error e =
     (case e of DrExtensionNotFound \<Rightarrow> InternalE (IeExtensionNotFound ''RouterId'')
      | DrDiscover s \<Rightarrow> InternalE (IeDynamicRouterDiscoveryError s)
      | DrRouterNotFound k \<Rightarrow> InvalidRequest (IrRouterIdNotFound k))"

text \<open>The errors of the components. The texts of library errors and the internal errors,
  which the components do not keep, are arguments.\<close>

definition of_lc_error :: "string \<Rightarrow> lc_error \<Rightarrow> ApiError" where
  "of_lc_error txt e =
     (case e of InvalidRequestHeader \<Rightarrow> InvalidRequest (IrInvalidRequestHeader txt)
      | InvalidLargeContextHandler s \<Rightarrow> InvalidRequest (IrInvalidLargeContextHandler s)
      | InvalidRequestBody \<Rightarrow> InvalidRequest (IrInvalidRequestBody txt))"

definition of_catalog_error :: "string \<Rightarrow> InternalErr \<Rightarrow> catalog_error \<Rightarrow> ApiError" where
  "of_catalog_error txt internal e =
     (case e of CatInvalidHeaders h \<Rightarrow> of_lc_error txt h
      | UnsupportedGatewayModel m \<Rightarrow> InvalidRequest (IrUnsupportedGatewayModel m)
      | AmbiguousBareModel m cs \<Rightarrow> InvalidRequest (IrAmbiguousBareModel m cs)
      | CatInternal \<Rightarrow> InternalE internal)"

definition of_default_model_error :: "string \<Rightarrow> default_model_error \<Rightarrow> ApiError" where
  "of_default_model_error txt e =
     (case e of NoModelAvailable \<Rightarrow> InvalidRequest IrNoModelAvailable | DmInternal \<Rightarrow> InternalE (IeDatabaseError txt))"

definition of_access_error :: "access_error \<Rightarrow> ApiError" where
  "of_access_error e = (case e of ModelAccessDenied m \<Rightarrow> InvalidRequest (IrModelAccessDenied m))"

definition of_mapper_error :: "MapperError \<Rightarrow> ApiError" where
  "of_mapper_error e = InternalE (IeMapperError
     (case e of InvalidModelName s \<Rightarrow> MeInvalidModelName s | ProviderNotSupported s \<Rightarrow> MeProviderNotSupported s))"

end
