(* ===== verification/Request_Routing.thy ===== *)
theory Request_Routing
  imports Gateway_Errors
begin

text \<open>
  The route of a request (\<open>router/router_details.rs\<close>), the checks of path and method before authentication
  (\<open>middleware/routing_precheck.rs\<close>) and the dispatch of the meta router (\<open>router/meta.rs\<close>).

  The two regular expressions are written as functions on text and shown equal to what the expressions denote.
  The parser of \<open>PathAndQuery\<close> (of the \<open>http\<close> library) is an argument. Extensions of a request are a record with an
  optional field for every type that is inserted.
\<close>

subsection \<open>Requests and their extensions\<close>

datatype RouterId = NamedRouter string

datatype RouteType =
    RtRouter RouterId string
  | RtUnifiedApi string
  | RtDirectProxy InferenceProvider string

record PathAndQuery =
  pq_path :: string
  pq_query :: "string option"

record MapperContext =
  mc_is_stream :: bool
  mc_model :: "string option"
  mc_anthropic_openai_usage :: "unit option"
  mc_unified_responses_bridge :: bool

record routing_ext =
  x_path_and_query :: "PathAndQuery option"
  x_request_kind :: "RequestKind option"
  x_router_id :: "RouterId option"
  x_mapper_context :: "MapperContext option"
  x_route_type :: "RouteType option"

definition no_ext :: routing_ext where
  "no_ext = \<lparr>x_path_and_query = None, x_request_kind = None, x_router_id = None, x_mapper_context = None, x_route_type = None\<rparr>"

record http_request =
  rq_method :: string
  rq_path :: string
  rq_query :: "string option"
  rq_headers :: headers
  rq_ext :: routing_ext

subsection \<open>Routes\<close>

text \<open>\<open>UNIFIED_URL_REGEX\<close>: \<open>^/(?P<first_segment>[^/?]+)(?P<rest>/[^?]*)?(?P<query>\?.*)?$\<close>.\<close>

definition split_rest :: "string \<Rightarrow> (string \<times> string)" where
  "split_rest r = (if r \<noteq> [] \<and> hd r = CHR ''/'' then (takeWhile (\<lambda>c. c \<noteq> CHR ''?'') r, dropWhile (\<lambda>c. c \<noteq> CHR ''?'') r) else ([], r))"

definition query_ok :: "string \<Rightarrow> bool" where
  "query_ok q = (case q of [] \<Rightarrow> True | c # w \<Rightarrow> c = CHR ''?'' \<and> CHR 0x0A \<notin> set w)"

definition unified_url_captures :: "string \<Rightarrow> (string \<times> string) option" where
  "unified_url_captures path =
     (case strip_prefix ''/'' path of
        None \<Rightarrow> None
      | Some t \<Rightarrow>
          let seg = takeWhile (\<lambda>c. c \<noteq> CHR ''/'' \<and> c \<noteq> CHR ''?'') t;
              (rest, q) = split_rest (dropWhile (\<lambda>c. c \<noteq> CHR ''/'' \<and> c \<noteq> CHR ''?'') t)
          in if seg \<noteq> [] \<and> query_ok q then Some (seg, rest) else None)"

definition is_router_id_char :: "char \<Rightarrow> bool" where
  "is_router_id_char c = (let n = of_char c :: nat in
     65 \<le> n \<and> n \<le> 90 \<or> 97 \<le> n \<and> n \<le> 122 \<or> 48 \<le> n \<and> n \<le> 57 \<or> c = CHR ''_'' \<or> c = CHR ''-'')"

text \<open>\<open>ROUTER_URL_REGEX\<close>: \<open>^/router/(?P<id>[A-Za-z0-9_-]{1,12})(?P<path>/[^?]*)?(?P<query>\?.*)?$\<close>.\<close>

definition router_url_captures :: "string \<Rightarrow> (string \<times> string) option" where
  "router_url_captures path =
     (case strip_prefix ''/router/'' path of
        None \<Rightarrow> None
      | Some t \<Rightarrow>
          let rid = takeWhile is_router_id_char t;
              (rest, q) = split_rest (dropWhile is_router_id_char t)
          in if 1 \<le> length rid \<and> length rid \<le> 12 \<and> query_ok q then Some (rid, rest) else None)"

definition forced_routing_header :: string where "forced_routing_header = ''alephant-forced-routing''"

definition trim_slashes :: "string \<Rightarrow> string" where
  "trim_slashes s = dropWhile (\<lambda>c. c = CHR ''/'') s"

definition not_found :: "string \<Rightarrow> ApiError" where
  "not_found s = InvalidRequest (IrNotFound s)"

definition extract_router_id_and_path :: "string \<Rightarrow> (ApiError, RouterId \<times> string) result" where
  "extract_router_id_and_path path =
     (case router_url_captures path of
        Some (rid, api_path) \<Rightarrow> Ok (NamedRouter rid, api_path)
      | None \<Rightarrow> Err (not_found path))"

definition parse_route :: "http_request \<Rightarrow> (ApiError, RouteType) result" where
  "parse_route req =
     (let path = rq_path req
      in case unified_url_captures path of
           None \<Rightarrow> Err (not_found path)
         | Some (first_segment, rest_path) \<Rightarrow>
             let is_router = first_segment = ''router'';
                 is_unified = first_segment = ''ai'' \<or> first_segment = ''v1''
             in case header_str (rq_headers req) forced_routing_header of
                  Some forced \<Rightarrow>
                    if is_router \<or> is_unified then Ok (RtDirectProxy (provider_from_str forced) (trim_slashes rest_path))
                    else Ok (RtDirectProxy (provider_from_str first_segment) (trim_slashes rest_path))
                | None \<Rightarrow>
                    if is_router then
                      try_bind (extract_router_id_and_path path) (\<lambda>(rid, api_path). Ok (RtRouter rid (trim_slashes api_path)))
                    else if is_unified then Ok (RtUnifiedApi (trim_slashes rest_path))
                    else Ok (RtDirectProxy (provider_from_str first_segment) (trim_slashes rest_path)))"

definition extract_path_and_query ::
  "(string \<Rightarrow> PathAndQuery option) \<Rightarrow> string \<Rightarrow> string option \<Rightarrow> (ApiError, PathAndQuery) result" where
  "extract_path_and_query parse_pq path query =
     ok_or (InternalE IeInternal) (parse_pq (case query of Some q \<Rightarrow> path @ ''?'' @ q | None \<Rightarrow> path))"

definition passthrough_mapper_context :: MapperContext where
  "passthrough_mapper_context = \<lparr>mc_is_stream = False, mc_model = None, mc_anthropic_openai_usage = None,
     mc_unified_responses_bridge = False\<rparr>"

definition router_details_call :: "(string \<Rightarrow> PathAndQuery option) \<Rightarrow> http_request \<Rightarrow> (ApiError, http_request) result" where
  "router_details_call parse_pq req =
     try_bind (parse_route req) (\<lambda>rt.
       try_bind (extract_path_and_query parse_pq (case rt of RtRouter _ p \<Rightarrow> p | RtUnifiedApi p \<Rightarrow> p | RtDirectProxy _ p \<Rightarrow> p) (rq_query req))
         (\<lambda>pq.
           let x = (rq_ext req)\<lparr>x_path_and_query := Some pq\<rparr>;
               x' = (case rt of
                  RtRouter rid _ \<Rightarrow> x\<lparr>x_request_kind := Some RkRouter, x_router_id := Some rid\<rparr>
                | RtUnifiedApi _ \<Rightarrow> x\<lparr>x_request_kind := Some RkUnifiedApi\<rparr>
                | RtDirectProxy _ _ \<Rightarrow> x\<lparr>x_request_kind := Some RkDirectProxy, x_mapper_context := Some passthrough_mapper_context\<rparr>)
           in Ok (req\<lparr>rq_ext := x'\<lparr>x_route_type := Some rt\<rparr>\<rparr>)))"

subsection \<open>Path and method\<close>

definition ends_with :: "string \<Rightarrow> string \<Rightarrow> bool" where
  "ends_with s suf \<longleftrightarrow> strip_suffix suf s \<noteq> None"

fun str_contains :: "string \<Rightarrow> string \<Rightarrow> bool" where
  "str_contains [] pat = (pat = [])"
| "str_contains (c # s) pat = (take (length pat) (c # s) = pat \<or> str_contains s pat)"

definition path_requires_post :: "string \<Rightarrow> bool" where
  "path_requires_post path =
     (let p = trim_slashes path
      in if p = ''chat/completions'' \<or> ends_with p ''/chat/completions'' then True
         else if p = ''v1/chat/completions'' \<or> ends_with p ''/v1/chat/completions'' then True
         else if p = ''messages'' \<or> p = ''v1/messages'' \<or> ends_with p ''/v1/messages'' \<or> ends_with p ''/messages'' then True
         else if str_contains p ''/converse'' then True
         else if str_contains p ''v1beta/openai/chat/completions'' then True
         else if p = ''embeddings'' \<or> ends_with p ''/v1/embeddings'' \<or> ends_with p ''v1/embeddings'' \<or> ends_with p ''/embeddings'' then True
         else if p = ''images/generations'' \<or> str_contains p ''images/generations'' then True
         else if p = ''responses'' \<or> p = ''v1/responses'' \<or> ends_with p ''/v1/responses'' \<or> ends_with p ''/responses'' then True
         else if p = ''completions'' \<or> (ends_with p ''/completions'' \<and> \<not> ends_with p ''/chat/completions'') then True
         else False)"

definition check_method :: "string \<Rightarrow> string \<Rightarrow> (ApiError, unit) result" where
  "check_method method path =
     (if method = ''OPTIONS'' then Ok ()
      else if path_requires_post path \<and> method \<noteq> ''POST'' then Err (InvalidRequest (IrMethodNotAllowed method path))
      else Ok ())"

datatype UnifiedApi =
    UaChatCompletions | UaCompletions | UaEmbeddings | UaImageGenerations | UaResponses | UaMessages

definition unified_api_try_from :: "string \<Rightarrow> (ClientError, UnifiedApi) result" where
  "unified_api_try_from v =
     (if v = ''chat/completions'' then Ok UaChatCompletions
      else if v = ''completions'' then Ok UaCompletions
      else if v = ''embeddings'' then Ok UaEmbeddings
      else if v = ''images/generations'' then Ok UaImageGenerations
      else if v = ''responses'' then Ok UaResponses
      else if v = ''messages'' then Ok UaMessages
      else Err (IrUnsupportedEndpoint v))"

definition precheck :: "InferenceProvider set \<Rightarrow> http_request \<Rightarrow> (ApiError, unit) result" where
  "precheck direct_allowed req =
     (case x_route_type (rq_ext req) of
        None \<Rightarrow> Err (not_found (rq_path req))
      | Some rt \<Rightarrow>
          (case x_path_and_query (rq_ext req) of
             None \<Rightarrow> Err (InternalE (IeExtensionNotFound ''PathAndQuery''))
           | Some pq \<Rightarrow>
               let path = pq_path pq
               in case rt of
                    RtUnifiedApi _ \<Rightarrow>
                      (case unified_api_try_from path of
                         Inl _ \<Rightarrow> Err (not_found (rq_path req))
                       | Inr _ \<Rightarrow> check_method (rq_method req) path)
                  | RtRouter _ _ \<Rightarrow>
                      if api_endpoint_new path = None then Err (not_found path) else check_method (rq_method req) path
                  | RtDirectProxy p _ \<Rightarrow>
                      if p \<notin> direct_allowed then Err (not_found (rq_path req)) else check_method (rq_method req) path))"

definition precheck_call :: "InferenceProvider set \<Rightarrow> http_request \<Rightarrow> (ApiError, http_request) result" where
  "precheck_call direct_allowed req = try_bind (precheck direct_allowed req) (\<lambda>_. Ok req)"

subsection \<open>The meta router\<close>

text \<open>Where a request goes: the answer of the meta router itself, or the service it calls.\<close>

datatype meta_target = ToDynamicRouter RouterId | ToUnifiedApi | ToDirectProxy InferenceProvider

definition meta_router_call :: "InferenceProvider set \<Rightarrow> http_request \<Rightarrow> (ApiError, meta_target) result" where
  "meta_router_call direct_proxies req =
     (case x_route_type (rq_ext req) of
        Some (RtRouter rid _) \<Rightarrow> Ok (ToDynamicRouter rid)
      | Some (RtUnifiedApi _) \<Rightarrow> Ok ToUnifiedApi
      | Some (RtDirectProxy p _) \<Rightarrow>
          if p \<notin> direct_proxies then Err (InvalidRequest (IrUnsupportedProvider p)) else Ok (ToDirectProxy p)
      | None \<Rightarrow> Err (not_found (rq_path req)))"

subsection \<open>The regular expressions\<close>

text \<open>What the groups \<open>(/[^?]*)?\<close> and \<open>(\?.*)?\<close> match.\<close>

definition denotes_rest :: "string \<Rightarrow> bool" where
  "denotes_rest r \<longleftrightarrow> r = [] \<or> (\<exists>t. r = CHR ''/'' # t \<and> CHR ''?'' \<notin> set t)"

definition denotes_query :: "string \<Rightarrow> bool" where
  "denotes_query q \<longleftrightarrow> q = [] \<or> (\<exists>w. q = CHR ''?'' # w \<and> CHR 0x0A \<notin> set w)"

lemma query_ok_iff: "query_ok q \<longleftrightarrow> denotes_query q"
  by (auto simp: query_ok_def denotes_query_def split: list.splits)

lemma span_iff:
  "takeWhile P t = a \<and> dropWhile P t = b \<longleftrightarrow> t = a @ b \<and> (\<forall>c \<in> set a. P c) \<and> (b = [] \<or> \<not> P (hd b))"
proof
  assume "takeWhile P t = a \<and> dropWhile P t = b"
  then show "t = a @ b \<and> (\<forall>c \<in> set a. P c) \<and> (b = [] \<or> \<not> P (hd b))"
    using takeWhile_dropWhile_id [of P t] hd_dropWhile [of P t] set_takeWhileD by fastforce
next
  assume "t = a @ b \<and> (\<forall>c \<in> set a. P c) \<and> (b = [] \<or> \<not> P (hd b))"
  then show "takeWhile P t = a \<and> dropWhile P t = b" by (cases b) (auto simp: takeWhile_append dropWhile_append)
qed

lemma split_rest_iff:
  "split_rest r = (rest, q) \<and> query_ok q \<longleftrightarrow> r = rest @ q \<and> denotes_rest rest \<and> denotes_query q"
proof (cases "r \<noteq> [] \<and> hd r = CHR ''/''")
  case True
  then obtain t where r: "r = CHR ''/'' # t" by (cases r) auto
  have "split_rest r = (rest, q) \<longleftrightarrow> takeWhile (\<lambda>c. c \<noteq> CHR ''?'') r = rest \<and> dropWhile (\<lambda>c. c \<noteq> CHR ''?'') r = q"
    unfolding r split_rest_def by simp
  moreover have "(\<forall>c \<in> set rest. c \<noteq> CHR ''?'') \<and> (q = [] \<or> hd q = CHR ''?'') \<longleftrightarrow> denotes_rest rest"
    if "r = rest @ q" "denotes_query q"
    using that r by (cases rest) (auto simp: denotes_rest_def denotes_query_def)
  ultimately show ?thesis unfolding span_iff query_ok_iff by auto
next
  case False
  then have "split_rest r = ([], r)" by (simp only: split_rest_def if_False)
  then show ?thesis using False unfolding query_ok_iff by (auto simp: denotes_rest_def)
qed

lemma denotes_hd: "denotes_rest a \<Longrightarrow> denotes_query b \<Longrightarrow> a @ b = [] \<or> hd (a @ b) = CHR ''/'' \<or> hd (a @ b) = CHR ''?''"
  by (auto simp: denotes_rest_def denotes_query_def)

text \<open>Captures of \<open>^/A(/[^?]*)?(\?.*)?$\<close> after the prefix, for a run \<open>A\<close> of characters that are neither \<open>/\<close> nor \<open>?\<close>.\<close>

lemma captures_iff:
  assumes "\<not> P (CHR ''/'')" and "\<not> P (CHR ''?'')"
  shows "takeWhile P t = seg \<and> split_rest (dropWhile P t) = (rest, q) \<and> query_ok q \<longleftrightarrow>
    t = seg @ rest @ q \<and> (\<forall>c \<in> set seg. P c) \<and> denotes_rest rest \<and> denotes_query q"
proof -
  have "takeWhile P t = seg \<and> dropWhile P t = rest @ q \<longleftrightarrow> t = seg @ rest @ q \<and> (\<forall>c \<in> set seg. P c)"
    if "denotes_rest rest" "denotes_query q"
    unfolding span_iff using denotes_hd [OF that] assms by auto
  then show ?thesis unfolding split_rest_iff by blast
qed

text \<open>The same with the text before the run, under a condition on the run.\<close>

lemma captures_ex:
  assumes "\<not> P (CHR ''/'')" and "\<not> P (CHR ''?'')"
  shows "(\<exists>t. path = pre @ t \<and> takeWhile P t = seg \<and> A (takeWhile P t)
      \<and> (\<exists>q. split_rest (dropWhile P t) = (rest, q) \<and> query_ok q)) \<longleftrightarrow>
    (\<exists>q. path = pre @ seg @ rest @ q \<and> A seg \<and> (\<forall>c \<in> set seg. P c) \<and> denotes_rest rest \<and> denotes_query q)"
  (is "?L \<longleftrightarrow> ?R")
proof
  assume ?L
  then obtain t q where t: "path = pre @ t" "takeWhile P t = seg" "A (takeWhile P t)"
      "split_rest (dropWhile P t) = (rest, q)" "query_ok q" by (elim exE conjE)
  then have "t = seg @ rest @ q \<and> (\<forall>c \<in> set seg. P c) \<and> denotes_rest rest \<and> denotes_query q"
    by (intro captures_iff [OF assms, THEN iffD1] conjI)
  with t(1-3) show ?R by (intro exI [of _ q]) simp
next
  assume ?R
  then obtain q where q: "path = pre @ seg @ rest @ q" "A seg" "\<forall>c \<in> set seg. P c" "denotes_rest rest" "denotes_query q"
    by (elim exE conjE)
  then have c: "takeWhile P (seg @ rest @ q) = seg \<and> split_rest (dropWhile P (seg @ rest @ q)) = (rest, q) \<and> query_ok q"
    by (intro captures_iff [OF assms, THEN iffD2] conjI refl)
  then have a: "A (takeWhile P (seg @ rest @ q))" using q(2) by (simp only:)
  show ?L
  proof (rule exI, intro conjI)
    show "path = pre @ seg @ rest @ q" by (rule q(1))
    show "\<exists>q'. split_rest (dropWhile P (seg @ rest @ q)) = (rest, q') \<and> query_ok q'" using conjunct2 [OF c] by (rule exI [of _ q])
  qed (rule conjunct1 [OF c] a)+
qed

lemma strip_prefix_case:
  "(case strip_prefix p s of None \<Rightarrow> None | Some t \<Rightarrow> f t) = Some y \<longleftrightarrow> (\<exists>t. s = p @ t \<and> f t = Some y)"
proof (cases "strip_prefix p s")
  case None
  then have "s \<noteq> p @ t" for t using strip_prefix_Some [of p s t] by simp
  with None show ?thesis by simp
next
  case (Some t)
  then have "s = p @ t" using strip_prefix_Some by blast
  with Some show ?thesis by simp
qed

lemma split_rest_case:
  "(case r of (rest', q) \<Rightarrow> if A \<and> query_ok q then Some (sg, rest') else None) = Some (seg, rest) \<longleftrightarrow>
     sg = seg \<and> A \<and> (\<exists>q. r = (rest, q) \<and> query_ok q)"
  by (cases r) auto

lemma unified_url_iff:
  "unified_url_captures path = Some (seg, rest) \<longleftrightarrow>
     (\<exists>q. path = ''/'' @ seg @ rest @ q \<and> seg \<noteq> [] \<and> CHR ''/'' \<notin> set seg \<and> CHR ''?'' \<notin> set seg \<and> denotes_rest rest \<and> denotes_query q)"
proof -
  let ?P = "\<lambda>c. c \<noteq> CHR ''/'' \<and> c \<noteq> CHR ''?''"
  have "unified_url_captures path = Some (seg, rest) \<longleftrightarrow>
      (\<exists>t. path = ''/'' @ t \<and> takeWhile ?P t = seg \<and> takeWhile ?P t \<noteq> []
        \<and> (\<exists>q. split_rest (dropWhile ?P t) = (rest, q) \<and> query_ok q))"
    unfolding unified_url_captures_def strip_prefix_case Let_def split_rest_case ..
  also have "\<dots> \<longleftrightarrow> (\<exists>q. path = ''/'' @ seg @ rest @ q \<and> seg \<noteq> [] \<and> (\<forall>c \<in> set seg. ?P c) \<and> denotes_rest rest \<and> denotes_query q)"
    by (rule captures_ex [of ?P path "''/''" seg "\<lambda>s. s \<noteq> []" rest]) simp_all
  finally show ?thesis by auto
qed

lemma router_id_char_no [simp]: "\<not> is_router_id_char (CHR ''/'')" "\<not> is_router_id_char (CHR ''?'')"
  by (simp_all add: is_router_id_char_def)

lemma router_url_iff:
  "router_url_captures path = Some (rid, rest) \<longleftrightarrow>
     (\<exists>q. path = ''/router/'' @ rid @ rest @ q \<and> 1 \<le> length rid \<and> length rid \<le> 12 \<and> (\<forall>c \<in> set rid. is_router_id_char c)
        \<and> denotes_rest rest \<and> denotes_query q)"
proof -
  have "router_url_captures path = Some (rid, rest) \<longleftrightarrow>
      (\<exists>t. path = ''/router/'' @ t \<and> takeWhile is_router_id_char t = rid
        \<and> (1 \<le> length (takeWhile is_router_id_char t) \<and> length (takeWhile is_router_id_char t) \<le> 12)
        \<and> (\<exists>q. split_rest (dropWhile is_router_id_char t) = (rest, q) \<and> query_ok q))"
    unfolding router_url_captures_def strip_prefix_case Let_def conj_assoc [symmetric] split_rest_case ..
  also note captures_ex [of is_router_id_char path "''/router/''" rid "\<lambda>s. 1 \<le> length s \<and> length s \<le> 12" rest]
  finally show ?thesis by simp
qed

subsection \<open>Routes that are parsed\<close>

lemma trim_slashes_idem [simp]: "trim_slashes (trim_slashes s) = trim_slashes s"
  by (simp add: trim_slashes_def)

text \<open>The route of a path \<open>/seg rest\<close>, by its first segment.\<close>

lemma parse_route_captures:
  assumes "rq_path req = ''/'' @ seg @ rest @ q" and "seg \<noteq> []" and "CHR ''/'' \<notin> set seg" and "CHR ''?'' \<notin> set seg"
    and "denotes_rest rest" and "denotes_query q"
  shows "unified_url_captures (rq_path req) = Some (seg, rest)"
  unfolding unified_url_iff using assms by blast

lemma router_request_captures:
  assumes "unified_url_captures path = Some (''router'', rest)" and "router_url_captures path = Some (rid, api)"
  shows "rest = ''/'' @ rid @ api"
proof -
  from assms(1) obtain q where q: "path = ''/'' @ ''router'' @ rest @ q" "denotes_rest rest" "denotes_query q"
    unfolding unified_url_iff by blast
  from assms(2) obtain q' where q': "path = ''/router/'' @ rid @ api @ q'" "\<forall>c \<in> set rid. is_router_id_char c"
    "denotes_rest api" "denotes_query q'"
    unfolding router_url_iff by blast
  from q(1) q'(1) have e: "rest @ q = (''/'' @ rid @ api) @ q'" by simp
  have "CHR ''?'' \<notin> set (rid @ api)" using q'(2,3) router_id_char_no(2) by (auto simp: denotes_rest_def)
  then have "denotes_rest (''/'' @ rid @ api)" by (auto simp: denotes_rest_def)
  with e q(2,3) q'(4) have "split_rest (rest @ q) = (rest, q)" "split_rest (rest @ q) = (''/'' @ rid @ api, q')"
    using split_rest_iff [of "rest @ q" rest q] split_rest_iff [of "rest @ q" "''/'' @ rid @ api" q'] by blast+
  then show ?thesis by simp
qed

text \<open>What the routes mean, independently of the order of the tests: a path is \<open>/segment\<close>, a rest and a query.\<close>

definition path_parts :: "string \<Rightarrow> string \<Rightarrow> string \<Rightarrow> bool" where
  "path_parts path seg rest \<longleftrightarrow> (\<exists>q. path = ''/'' @ seg @ rest @ q \<and> seg \<noteq> [] \<and> CHR ''/'' \<notin> set seg \<and> CHR ''?'' \<notin> set seg
     \<and> denotes_rest rest \<and> denotes_query q)"

definition router_path_parts :: "string \<Rightarrow> string \<Rightarrow> string \<Rightarrow> bool" where
  "router_path_parts path rid api \<longleftrightarrow> (\<exists>q. path = ''/router/'' @ rid @ api @ q \<and> 1 \<le> length rid \<and> length rid \<le> 12
     \<and> (\<forall>c \<in> set rid. is_router_id_char c) \<and> denotes_rest api \<and> denotes_query q)"

lemmas path_parts_iff = unified_url_iff [folded path_parts_def]
lemmas router_path_parts_iff = router_url_iff [folded router_path_parts_def]

inductive routes :: "http_request \<Rightarrow> RouteType \<Rightarrow> bool" where
  forced: "path_parts (rq_path req) seg rest \<Longrightarrow> seg \<in> {''router'', ''ai'', ''v1''}
    \<Longrightarrow> header_str (rq_headers req) forced_routing_header = Some f
    \<Longrightarrow> routes req (RtDirectProxy (provider_from_str f) (trim_slashes rest))"
| router: "router_path_parts (rq_path req) rid api \<Longrightarrow> header_str (rq_headers req) forced_routing_header = None
    \<Longrightarrow> routes req (RtRouter (NamedRouter rid) (trim_slashes api))"
| unified: "path_parts (rq_path req) seg rest \<Longrightarrow> seg \<in> {''ai'', ''v1''}
    \<Longrightarrow> header_str (rq_headers req) forced_routing_header = None
    \<Longrightarrow> routes req (RtUnifiedApi (trim_slashes rest))"
| direct: "path_parts (rq_path req) seg rest \<Longrightarrow> seg \<notin> {''router'', ''ai'', ''v1''}
    \<Longrightarrow> routes req (RtDirectProxy (provider_from_str seg) (trim_slashes rest))"

inductive_simps routes_RtRouter: "routes req (RtRouter rid p)"
inductive_simps routes_RtUnifiedApi: "routes req (RtUnifiedApi p)"
inductive_simps routes_RtDirectProxy: "routes req (RtDirectProxy pr p)"

lemma router_is_path: "router_path_parts path rid api \<Longrightarrow> path_parts path ''router'' (''/'' @ rid @ api)"
proof -
  assume "router_path_parts path rid api"
  then obtain q where q: "path = ''/router/'' @ rid @ api @ q" "\<forall>c \<in> set rid. is_router_id_char c" "denotes_rest api" "denotes_query q"
    unfolding router_path_parts_def by blast
  have "CHR ''?'' \<notin> set (rid @ api)" using q(2,3) router_id_char_no(2) by (auto simp: denotes_rest_def)
  then have "denotes_rest (''/'' @ rid @ api)" by (auto simp: denotes_rest_def)
  with q show ?thesis unfolding path_parts_def by (intro exI [of _ q]) simp
qed

lemma parse_route_parts:
  "path_parts (rq_path req) seg rest \<Longrightarrow> parse_route req =
     (case header_str (rq_headers req) forced_routing_header of
        Some f \<Rightarrow> Inr (RtDirectProxy (provider_from_str (if seg \<in> {''router'', ''ai'', ''v1''} then f else seg)) (trim_slashes rest))
      | None \<Rightarrow>
          if seg = ''router'' then
            (case router_url_captures (rq_path req) of None \<Rightarrow> Inl (not_found (rq_path req))
             | Some (rid, api) \<Rightarrow> Inr (RtRouter (NamedRouter rid) (trim_slashes api)))
          else if seg \<in> {''ai'', ''v1''} then Inr (RtUnifiedApi (trim_slashes rest))
          else Inr (RtDirectProxy (provider_from_str seg) (trim_slashes rest)))"
  unfolding path_parts_iff [symmetric] parse_route_def extract_router_id_and_path_def
  by (auto simp: Let_def split: option.splits)

text \<open>
  C26. The route of a request. The first segment of the path and the header for forced routing decide: the parser
  returns a route exactly if the path has a first segment and the rules give this route; every other request
  is answered with 404.
\<close>

theorem parse_route_exact:
  "(parse_route req = Inr rt \<longleftrightarrow> routes req rt)
   \<and> (case parse_route req of Inl e \<Rightarrow> ea_status (into_response st ed e) = 404 | Inr _ \<Rightarrow> True)"
proof (cases "unified_url_captures (rq_path req)")
  case None
  then have "\<not> path_parts (rq_path req) seg rest" for seg rest by (simp add: path_parts_iff [symmetric])
  then have "\<not> routes req rt" using router_is_path by (blast elim: routes.cases)
  with None show ?thesis
    by (auto simp: parse_route_def not_found_def into_response_def client_error_response_def json_error_def Let_def)
next
  case (Some sr)
  obtain seg rest where sr: "sr = (seg, rest)" by (cases sr)
  with Some have p: "path_parts (rq_path req) seg rest" by (simp add: path_parts_iff [symmetric])
  have u: "path_parts (rq_path req) seg' rest' \<longleftrightarrow> seg' = seg \<and> rest' = rest" for seg' rest'
    using Some sr by (auto simp: path_parts_iff [symmetric])
  have r: "router_path_parts (rq_path req) rid api \<longleftrightarrow> seg = ''router'' \<and> router_url_captures (rq_path req) = Some (rid, api)" for rid api
    using router_is_path [of "rq_path req" rid api] by (auto simp: u router_path_parts_iff)
  have "parse_route req = Inr rt \<longleftrightarrow> routes req rt"
    unfolding parse_route_parts [OF p]
    by (cases rt) (auto simp: routes_RtRouter routes_RtUnifiedApi routes_RtDirectProxy u r split: option.splits if_splits)
  moreover have "case parse_route req of Inl e \<Rightarrow> ea_status (into_response st ed e) = 404 | Inr _ \<Rightarrow> True"
    unfolding parse_route_parts [OF p]
    by (auto simp: not_found_def into_response_def client_error_response_def json_error_def Let_def split: option.splits if_splits)
  ultimately show ?thesis by blast
qed

text \<open>A forced route of a router request keeps the id of the router in the path that goes upstream.\<close>

text \<open>
  Forced routing on a router path. A request for \<open>/router/{id}/{path}\<close> with the header for forced routing goes to the
  named provider, but with the path \<open>{id}/{path}\<close>: the id of the router is not taken off, whereas the
  same request without the header is routed with \<open>{path}\<close>.
\<close>

theorem forced_routing_keeps_router_id:
  assumes "router_path_parts (rq_path req) rid (''/'' @ api)" and "header_str (rq_headers req) forced_routing_header = Some f"
    and "api \<noteq> []" and "hd api \<noteq> CHR ''/''"
  shows "parse_route req = Inr (RtDirectProxy (provider_from_str f) (rid @ ''/'' @ api))
    \<and> parse_route (req\<lparr>rq_headers := []\<rparr>) = Inr (RtRouter (NamedRouter rid) api)"
proof -
  from assms(1) have p: "path_parts (rq_path req) ''router'' (''/'' @ rid @ ''/'' @ api)" by (rule router_is_path)
  from assms(1) have "rid \<noteq> []" "hd rid \<noteq> CHR ''/''"
    unfolding router_path_parts_def using router_id_char_no(1) hd_in_set [of rid] by fastforce+
  then have t: "trim_slashes (''/'' @ rid @ ''/'' @ api) = rid @ ''/'' @ api" by (cases rid) (simp_all add: trim_slashes_def)
  have t': "trim_slashes (''/'' @ api) = api" using assms(3,4) by (cases api) (simp_all add: trim_slashes_def)
  from assms(1) have c: "router_url_captures (rq_path req) = Some (rid, ''/'' @ api)" by (simp add: router_path_parts_iff)
  have h: "header_str [] forced_routing_header = None" by (simp add: header_str_def header_get_def)
  show ?thesis
    using parse_route_parts [OF p] parse_route_parts [of "req\<lparr>rq_headers := []\<rparr>" "''router''" "''/'' @ rid @ ''/'' @ api"] p c t t' h assms(2)
    by simp
qed

definition forced_request :: http_request where
  "forced_request = \<lparr>rq_method = ''POST'', rq_path = ''/router/team-a/chat/completions'', rq_query = None,
     rq_headers = [(forced_routing_header, ''openai'')], rq_ext = no_ext\<rparr>"

theorem forced_routing_keeps_router_id_witness:
  "parse_route forced_request = Inr (RtDirectProxy OpenAI ''team-a/chat/completions'')"
proof -
  have "router_path_parts (rq_path forced_request) ''team-a'' (''/'' @ ''chat/completions'')"
    unfolding router_path_parts_iff [symmetric] by code_simp
  moreover have "header_str (rq_headers forced_request) forced_routing_header = Some ''openai''" by code_simp
  moreover have "''chat/completions'' \<noteq> []" "hd ''chat/completions'' \<noteq> CHR ''/''" by simp_all
  moreover have "provider_from_str ''openai'' = OpenAI" by code_simp
  ultimately show ?thesis using forced_routing_keeps_router_id [of forced_request "''team-a''" "''chat/completions''" "''openai''"] by simp
qed

subsection \<open>Which requests pass the checks\<close>

definition inference_paths :: "string list" where
  "inference_paths = [''chat/completions'', ''completions'', ''embeddings'', ''images/generations'', ''responses'', ''messages'']"

lemma inference_paths_post: "p \<in> set inference_paths \<Longrightarrow> path_requires_post p"
proof -
  have "list_all path_requires_post inference_paths" by code_simp
  then show "p \<in> set inference_paths \<Longrightarrow> path_requires_post p" by (simp add: list_all_iff)
qed

lemma unified_api_known: "is_ok (unified_api_try_from p) \<longleftrightarrow> p \<in> set inference_paths"
  by (auto simp: unified_api_try_from_def inference_paths_def is_ok_def)

lemma api_endpoint_known: "api_endpoint_new p \<noteq> None \<longleftrightarrow> p \<in> set inference_paths"
  by (auto simp: api_endpoint_new_def route_from_path_def openai_try_from_def inference_paths_def)

definition known_path :: "InferenceProvider set \<Rightarrow> RouteType \<Rightarrow> string \<Rightarrow> bool" where
  "known_path direct rt path = (case rt of RtDirectProxy p _ \<Rightarrow> p \<in> direct | _ \<Rightarrow> path \<in> set inference_paths)"

definition method_fits :: "string \<Rightarrow> string \<Rightarrow> bool" where
  "method_fits method path \<longleftrightarrow> method = ''POST'' \<or> method = ''OPTIONS'' \<or> \<not> path_requires_post path"

lemma check_method_ok: "check_method m p = (if method_fits m p then Inr () else Inl (InvalidRequest (IrMethodNotAllowed m p)))"
  by (auto simp: check_method_def method_fits_def)

lemma precheck_cases:
  assumes "x_route_type (rq_ext req) = Some rt" and "x_path_and_query (rq_ext req) = Some pq"
  shows "precheck direct req =
    (if \<not> known_path direct rt (pq_path pq)
     then Inl (not_found (case rt of RtRouter _ _ \<Rightarrow> pq_path pq | _ \<Rightarrow> rq_path req))
     else check_method (rq_method req) (pq_path pq))"
  using unified_api_known [of "pq_path pq"] api_endpoint_known [of "pq_path pq"] assms
  by (auto simp: precheck_def known_path_def is_ok_def split: RouteType.splits sum.splits)

lemma router_details_ext:
  assumes "router_details_call parse_pq req = Inr req'"
  obtains rt pq where "parse_route req = Inr rt" and "x_route_type (rq_ext req') = Some rt" and "x_path_and_query (rq_ext req') = Some pq"
    and "rq_method req' = rq_method req" and "rq_path req' = rq_path req" and "rq_headers req' = rq_headers req"
    and "x_request_kind (rq_ext req') = Some (case rt of RtRouter _ _ \<Rightarrow> RkRouter | RtUnifiedApi _ \<Rightarrow> RkUnifiedApi | RtDirectProxy _ _ \<Rightarrow> RkDirectProxy)"
    and "\<And>rid p. rt = RtRouter rid p \<Longrightarrow> x_router_id (rq_ext req') = Some rid"
proof -
  from assms obtain rt pq where rt: "parse_route req = Inr rt"
    "extract_path_and_query parse_pq (case rt of RtRouter _ p \<Rightarrow> p | RtUnifiedApi p \<Rightarrow> p | RtDirectProxy _ p \<Rightarrow> p) (rq_query req) = Inr pq"
    unfolding router_details_call_def by (auto simp: try_bind_def split: sum.splits)
  with assms show thesis
    by (intro that [of rt pq]) (auto simp: router_details_call_def try_bind_def Let_def split: RouteType.splits)
qed

text \<open>
  C27. The checks before authentication. After its route is known, a request passes exactly if its path is served (one
  of the six inference paths for a router and for the unified API, a configured provider for a direct
  proxy) and the method is POST or OPTIONS where the path asks for POST. Otherwise the answer is 404 for an
  unknown path and 405 for a wrong method. A request that passes is never refused by the meta router.
\<close>

theorem routing_precheck_exact:
  assumes "router_details_call parse_pq req = Inr req'"
  shows "\<exists>rt pq. parse_route req = Inr rt \<and> x_path_and_query (rq_ext req') = Some pq
    \<and> (case precheck_call direct req' of
         Inr r \<Rightarrow> r = req' \<and> known_path direct rt (pq_path pq) \<and> method_fits (rq_method req) (pq_path pq) \<and> is_ok (meta_router_call direct r)
       | Inl e \<Rightarrow> \<not> (known_path direct rt (pq_path pq) \<and> method_fits (rq_method req) (pq_path pq))
           \<and> ea_status (into_response st ed e) = (if known_path direct rt (pq_path pq) then 405 else 404))"
proof -
  obtain rt pq where rt: "parse_route req = Inr rt" "x_route_type (rq_ext req') = Some rt" "x_path_and_query (rq_ext req') = Some pq"
    "rq_method req' = rq_method req"
    by (rule router_details_ext [OF assms]) blast
  have m: "known_path direct rt (pq_path pq) \<Longrightarrow> is_ok (meta_router_call direct req')"
    using rt(2) by (auto simp: meta_router_call_def known_path_def is_ok_def split: RouteType.splits)
  have "case precheck_call direct req' of
         Inr r \<Rightarrow> r = req' \<and> known_path direct rt (pq_path pq) \<and> method_fits (rq_method req) (pq_path pq) \<and> is_ok (meta_router_call direct r)
       | Inl e \<Rightarrow> \<not> (known_path direct rt (pq_path pq) \<and> method_fits (rq_method req) (pq_path pq))
           \<and> ea_status (into_response st ed e) = (if known_path direct rt (pq_path pq) then 405 else 404)"
    unfolding precheck_call_def precheck_cases [OF rt(2,3)] check_method_ok using m rt(4)
    by (auto simp: try_bind_def not_found_def into_response_def client_error_response_def json_error_def Let_def)
  with rt(1,3) show ?thesis by blast
qed

definition plain_pq :: "string \<Rightarrow> PathAndQuery option" where
  "plain_pq s = Some \<lparr>pq_path = s, pq_query = None\<rparr>"

theorem routing_precheck_exact_witness:
  "\<exists>req'. router_details_call plain_pq (forced_request\<lparr>rq_headers := []\<rparr>) = Inr req' \<and> precheck_call {} req' = Inr req'"
proof -
  let ?r = "forced_request\<lparr>rq_headers := []\<rparr>"
  have pr: "parse_route ?r = Inr (RtRouter (NamedRouter ''team-a'') ''chat/completions'')" by code_simp
  then obtain req' where r: "router_details_call plain_pq ?r = Inr req'" "rq_method req' = ''POST''"
      "x_path_and_query (rq_ext req') = Some \<lparr>pq_path = ''chat/completions'', pq_query = None\<rparr>"
    by (simp add: router_details_call_def extract_path_and_query_def plain_pq_def forced_request_def try_bind_def ok_or_def Let_def)
  have "''chat/completions'' \<in> set inference_paths" by (simp add: inference_paths_def)
  with routing_precheck_exact [OF r(1), of "{}" "\<lambda>_. []" "\<lambda>_. []"] pr r(2,3) show ?thesis
    by (intro exI [of _ req'] conjI [OF r(1)])
      (auto simp: known_path_def method_fits_def forced_request_def split: sum.splits)
qed

end
