(* ===== verification/Key_Cache.thy ===== *)
theory Key_Cache
  imports Gateway_Errors
begin

text \<open>
  The keys the gateway keeps in memory: the virtual keys (\<open>app_state.rs\<close>), loaded by hash and brought up to date by
  the poll of the database (\<open>store/db_listener.rs\<close>), and the decrypted master keys
  (\<open>store/master_key_cache.rs\<close>).

  The tables are lists of rows, and the queries are their documented filters; a query that fails is \<open>None\<close>. The lists of
  rows can differ from call to call, as other clients write to the database. Instants are integers. The LRU
  cache and the decryption are operations of libraries and arguments.
\<close>

subsection \<open>Rows and queries\<close>

record 'u DbVirtualKey =
  vk_id :: 'u
  vk_workspace_id :: 'u
  vk_master_key_id :: 'u
  vk_key_hash :: string
  vk_key_prefix :: string
  vk_label :: string
  vk_entity_type :: "string option"
  vk_entity_id :: "'u option"
  vk_status :: string
  vk_expires_at :: "int option"
  vk_deleted_at :: "int option"
  vk_updated_at :: int
  vk_allowed :: "string list option"
  vk_blocked :: "string list option"
  vk_subscription_log_limit :: int

definition row_active :: "'u DbVirtualKey \<Rightarrow> bool" where
  "row_active r \<longleftrightarrow> vk_deleted_at r = None \<and> vk_status r = ''active''"

definition get_db_virtual_key_by_key_hash :: "'u DbVirtualKey list option \<Rightarrow> string \<Rightarrow> (unit, 'u DbVirtualKey option) result" where
  "get_db_virtual_key_by_key_hash db h =
     (case db of None \<Rightarrow> Err () | Some rows \<Rightarrow> Ok (find (\<lambda>r. vk_key_hash r = h \<and> vk_deleted_at r = None \<and> vk_status r = ''active'') rows))"

definition get_db_virtual_keys_updated_after :: "'u DbVirtualKey list option \<Rightarrow> int \<Rightarrow> (unit, 'u DbVirtualKey list) result" where
  "get_db_virtual_keys_updated_after db since =
     (case db of None \<Rightarrow> Err () | Some rows \<Rightarrow> Ok (filter (\<lambda>r. vk_updated_at r > since) rows))"

record 'u DbMasterKeyUpdateRow =
  mk_id :: 'u
  mk_updated_at :: int

definition get_master_keys_updated_after :: "'u DbMasterKeyUpdateRow list option \<Rightarrow> int \<Rightarrow> (unit, 'u DbMasterKeyUpdateRow list) result" where
  "get_master_keys_updated_after db since =
     (case db of None \<Rightarrow> Err () | Some rows \<Rightarrow> Ok (filter (\<lambda>r. mk_updated_at r > since) rows))"

subsection \<open>Virtual keys in memory\<close>

record 'u key_state =
  virtual_keys_cache :: "(string \<rightharpoonup> 'u DbVirtualKey) option"
  api_keys_gauge :: int
  pg_fallback_heal :: nat
  pg_fallback_db_errors :: nat

definition upsert_virtual_key_entry ::
  "(string \<rightharpoonup> 'u DbVirtualKey) \<Rightarrow> 'u DbVirtualKey \<Rightarrow> (string \<rightharpoonup> 'u DbVirtualKey) \<times> bool" where
  "upsert_virtual_key_entry m vk = (m(vk_key_hash vk \<mapsto> vk), m (vk_key_hash vk) = None)"

definition remove_virtual_key_entry ::
  "(string \<rightharpoonup> 'u DbVirtualKey) \<Rightarrow> string \<Rightarrow> (string \<rightharpoonup> 'u DbVirtualKey) \<times> bool" where
  "remove_virtual_key_entry m h = (m(h := None), m h \<noteq> None)"

definition check_virtual_key :: "'u key_state \<Rightarrow> string \<Rightarrow> 'u DbVirtualKey option" where
  "check_virtual_key s h = Option.bind (virtual_keys_cache s) (\<lambda>m. m h)"

definition set_virtual_key :: "'u DbVirtualKey \<Rightarrow> 'u key_state \<Rightarrow> 'u key_state" where
  "set_virtual_key vk s =
     (case virtual_keys_cache s of None \<Rightarrow> s
      | Some m \<Rightarrow>
          let (m', new) = upsert_virtual_key_entry m vk; s' = s\<lparr>virtual_keys_cache := Some m'\<rparr>
          in if new then s'\<lparr>api_keys_gauge := api_keys_gauge s' + 1\<rparr> else s')"

definition remove_virtual_key :: "string \<Rightarrow> 'u key_state \<Rightarrow> 'u key_state" where
  "remove_virtual_key h s =
     (case virtual_keys_cache s of None \<Rightarrow> s
      | Some m \<Rightarrow>
          let (m', gone) = remove_virtual_key_entry m h; s' = s\<lparr>virtual_keys_cache := Some m'\<rparr>
          in if gone then s'\<lparr>api_keys_gauge := api_keys_gauge s' - 1\<rparr> else s')"

text \<open>
  \<open>resolve_virtual_key_for_auth\<close> up to the query, and from its answer on: other tasks run in between. The first
  part returns the key from memory, or says whether the database is asked.
\<close>

datatype 'u lookup = InMemory "'u DbVirtualKey" | Unknown | AskDatabase

definition resolve_begin :: "bool \<Rightarrow> string \<Rightarrow> 'u key_state \<Rightarrow> 'u lookup" where
  "resolve_begin has_store h s =
     (case check_virtual_key s h of
        Some vk \<Rightarrow> InMemory vk
      | None \<Rightarrow> if \<not> has_store \<or> virtual_keys_cache s = None then Unknown else AskDatabase)"

definition resolve_finish ::
  "(unit, 'u DbVirtualKey option) result \<Rightarrow> 'u key_state \<Rightarrow> 'u DbVirtualKey option \<times> 'u key_state" where
  "resolve_finish answer s =
     (case answer of
        Inr (Some vk) \<Rightarrow> (Some vk, set_virtual_key vk (s\<lparr>pg_fallback_heal := pg_fallback_heal s + 1\<rparr>))
      | Inr None \<Rightarrow> (None, s)
      | Inl _ \<Rightarrow> (None, s\<lparr>pg_fallback_db_errors := pg_fallback_db_errors s + 1\<rparr>))"

definition resolve_virtual_key_for_auth ::
  "'u DbVirtualKey list option option \<Rightarrow> string \<Rightarrow> 'u key_state \<Rightarrow> 'u DbVirtualKey option \<times> 'u key_state" where
  "resolve_virtual_key_for_auth store h s =
     (case resolve_begin (store \<noteq> None) h s of
        InMemory vk \<Rightarrow> (Some vk, s)
      | Unknown \<Rightarrow> (None, s)
      | AskDatabase \<Rightarrow> resolve_finish (get_db_virtual_key_by_key_hash (the store) h) s)"

subsection \<open>Master keys in memory\<close>

record DecryptedMasterKey =
  dk_plaintext :: string
  dk_provider :: InferenceProvider
  dk_base_url :: "string option"
  dk_updated_at :: int

record 'u DbMasterKeyRow =
  mr_id :: 'u
  mr_provider_code :: string
  mr_key_ciphertext :: string
  mr_key_nonce :: string
  mr_base_url :: "string option"
  mr_updated_at :: int

datatype 'u MasterKeyCacheError = MkNotFound 'u | UnknownProvider string | DecryptFailed | MkDb

text \<open>The operations of the LRU cache that are used.\<close>

record ('c, 'u) lru_ops =
  lru_get :: "'u \<Rightarrow> 'c \<Rightarrow> DecryptedMasterKey option \<times> 'c"
  lru_put :: "'u \<Rightarrow> DecryptedMasterKey \<Rightarrow> 'c \<Rightarrow> 'c"
  lru_pop :: "'u \<Rightarrow> 'c \<Rightarrow> 'c"

text \<open>\<open>decrypt\<close> yields the text of the key; \<open>row\<close> is the answer of the query for the id.\<close>

definition master_key_of_row ::
  "(string \<Rightarrow> string \<Rightarrow> string option) \<Rightarrow> 'u \<Rightarrow> (unit, 'u DbMasterKeyRow option) result
   \<Rightarrow> ('u MasterKeyCacheError, DecryptedMasterKey) result" where
  "master_key_of_row decrypt i row =
     (case row of
        Inl _ \<Rightarrow> Err MkDb
      | Inr None \<Rightarrow> Err (MkNotFound i)
      | Inr (Some r) \<Rightarrow>
          (case from_provider_code (mr_provider_code r) of
             Inl _ \<Rightarrow> Err (UnknownProvider (mr_provider_code r))
           | Inr p \<Rightarrow>
               (case decrypt (mr_key_ciphertext r) (mr_key_nonce r) of
                  None \<Rightarrow> Err DecryptFailed
                | Some t \<Rightarrow> Ok \<lparr>dk_plaintext = t, dk_provider = p, dk_base_url = mr_base_url r, dk_updated_at = mr_updated_at r\<rparr>)))"

definition master_key_get ::
  "('c, 'u) lru_ops \<Rightarrow> (string \<Rightarrow> string \<Rightarrow> string option) \<Rightarrow> ('u \<Rightarrow> (unit, 'u DbMasterKeyRow option) result) \<Rightarrow> 'u \<Rightarrow> 'c
   \<Rightarrow> ('u MasterKeyCacheError, DecryptedMasterKey) result \<times> 'c" where
  "master_key_get ops decrypt rows i c =
     (case lru_get ops i c of
        (Some e, c') \<Rightarrow> (Ok e, c')
      | (None, c') \<Rightarrow>
          (case master_key_of_row decrypt i (rows i) of
             Inl e \<Rightarrow> (Err e, c')
           | Inr e \<Rightarrow> (Ok e, lru_put ops i e c')))"

definition master_key_invalidate :: "('c, 'u) lru_ops \<Rightarrow> 'u \<Rightarrow> 'c \<Rightarrow> 'c" where
  "master_key_invalidate ops i c = lru_pop ops i c"

text \<open>The random choice among the fallback keys is an argument: an index below the number of candidates.\<close>

definition get_primary_or_fallback ::
  "('c, 'u) lru_ops \<Rightarrow> (string \<Rightarrow> string \<Rightarrow> string option) \<Rightarrow> ('u \<Rightarrow> (unit, 'u DbMasterKeyRow option) result) \<Rightarrow> (nat \<Rightarrow> nat)
   \<Rightarrow> 'u \<Rightarrow> (unit, 'u list) result \<Rightarrow> bool \<Rightarrow> 'c \<Rightarrow> ('u MasterKeyCacheError, DecryptedMasterKey) result \<times> 'c" where
  "get_primary_or_fallback ops decrypt rows pick primary ids fallback_enabled c =
     (case master_key_get ops decrypt rows primary c of
        (Inr k, c') \<Rightarrow> (Ok k, c')
      | (Inl e, c') \<Rightarrow>
          if \<not> fallback_enabled then (Err e, c')
          else (case ids of
             Inl _ \<Rightarrow> (Err MkDb, c')
           | Inr l \<Rightarrow>
               let candidates = filter (\<lambda>i. i \<noteq> primary) l
               in if candidates = [] then (Err (MkNotFound primary), c')
                  else master_key_get ops decrypt rows (candidates ! pick (length candidates)) c'))"

subsection \<open>The poll of the database\<close>

datatype 'u VirtualKeyUpdateAction = Upsert "'u DbVirtualKey" | RemoveKey string | Skip

definition classify_virtual_key_update :: "int option \<Rightarrow> 'u DbVirtualKey \<Rightarrow> 'u VirtualKeyUpdateAction" where
  "classify_virtual_key_update last_seen vk =
     (if \<not> (case last_seen of None \<Rightarrow> True | Some t \<Rightarrow> vk_updated_at vk > t) then Skip
      else if vk_deleted_at vk \<noteq> None \<or> vk_status vk \<noteq> ''active'' then RemoveKey (vk_key_hash vk)
      else Upsert vk)"

record 'u listener =
  last_virtual_key_updated_at :: "string \<rightharpoonup> int"
  last_master_key_updated_at :: "'u \<rightharpoonup> int"
  last_poll_time :: "int option"

definition poll_virtual_key :: "'u DbVirtualKey \<Rightarrow> 'u listener \<times> 'u key_state \<Rightarrow> 'u listener \<times> 'u key_state" where
  "poll_virtual_key vk = (\<lambda>(l, s).
     case classify_virtual_key_update (last_virtual_key_updated_at l (vk_key_hash vk)) vk of
       Upsert v \<Rightarrow> (l\<lparr>last_virtual_key_updated_at := (last_virtual_key_updated_at l)(vk_key_hash v \<mapsto> vk_updated_at v)\<rparr>, set_virtual_key v s)
     | RemoveKey h \<Rightarrow> (l\<lparr>last_virtual_key_updated_at := (last_virtual_key_updated_at l)(h := None)\<rparr>, remove_virtual_key h s)
     | Skip \<Rightarrow> (l, s))"

definition poll_master_key ::
  "('c, 'u) lru_ops \<Rightarrow> 'u DbMasterKeyUpdateRow \<Rightarrow> 'u listener \<times> 'c option \<Rightarrow> 'u listener \<times> 'c option" where
  "poll_master_key ops row = (\<lambda>(l, c).
     if (case last_master_key_updated_at l (mk_id row) of None \<Rightarrow> True | Some t \<Rightarrow> mk_updated_at row > t)
     then (l\<lparr>last_master_key_updated_at := (last_master_key_updated_at l)(mk_id row \<mapsto> mk_updated_at row)\<rparr>,
           map_option (master_key_invalidate ops (mk_id row)) c)
     else (l, c))"

definition should_reload_providers :: "int option \<Rightarrow> bool option \<Rightarrow> bool" where
  "should_reload_providers last_poll probe = (if last_poll = None then True else (case probe of Some b \<Rightarrow> b | None \<Rightarrow> False))"

text \<open>
  What a poll sees: the two tables, the probes for changed providers (an error counts as \<open>False\<close>), and the clock at
  its end. It returns an error or which of the two reloads it asks for.
\<close>

record 'u poll_env =
  pe_virtual_keys :: "'u DbVirtualKey list option"
  pe_master_keys :: "'u DbMasterKeyUpdateRow list option"
  pe_providers_updated :: "bool option"
  pe_configs_updated :: "bool option"
  pe_end :: int

record poll_reloads =
  reload_providers :: bool
  reload_allowlist :: bool

definition rows_since :: "int option \<Rightarrow> (int \<Rightarrow> (unit, 'a list) result) \<Rightarrow> (unit, 'a list) result" where
  "rows_since last_poll query = (case last_poll of None \<Rightarrow> Ok [] | Some t \<Rightarrow> query t)"

definition poll_database ::
  "('c, 'u) lru_ops \<Rightarrow> 'u poll_env \<Rightarrow> 'u listener \<times> 'u key_state \<times> 'c option
   \<Rightarrow> (unit, poll_reloads) result \<times> 'u listener \<times> 'u key_state \<times> 'c option" where
  "poll_database ops env = (\<lambda>(l, s, c).
     let last = last_poll_time l
     in case rows_since last (get_db_virtual_keys_updated_after (pe_virtual_keys env)) of
          Inl e \<Rightarrow> (Err e, l, s, c)
        | Inr vks \<Rightarrow>
            let (l1, s1) = fold poll_virtual_key vks (l, s)
            in case rows_since last (get_master_keys_updated_after (pe_master_keys env)) of
                 Inl e \<Rightarrow> (Err e, l1, s1, c)
               | Inr mks \<Rightarrow>
                   let (l2, c2) = fold (poll_master_key ops) mks (l1, c);
                       probe = (case last of None \<Rightarrow> None | Some _ \<Rightarrow> Some (case pe_providers_updated env of Some b \<Rightarrow> b | None \<Rightarrow> False));
                       configs = (case last of None \<Rightarrow> True | Some _ \<Rightarrow> (case pe_configs_updated env of Some b \<Rightarrow> b | None \<Rightarrow> False))
                   in (Ok \<lparr>reload_providers = should_reload_providers last probe, reload_allowlist = configs\<rparr>,
                       l2\<lparr>last_poll_time := Some (pe_end env)\<rparr>, s1, c2))"

subsection \<open>The cache follows the table\<close>

lemma set_virtual_key_cache [simp]:
  "virtual_keys_cache (set_virtual_key vk s) = map_option (\<lambda>m. m(vk_key_hash vk \<mapsto> vk)) (virtual_keys_cache s)"
  by (simp add: set_virtual_key_def upsert_virtual_key_entry_def Let_def split: option.splits)

lemma remove_virtual_key_cache [simp]:
  "virtual_keys_cache (remove_virtual_key h s) = map_option (\<lambda>m. m(h := None)) (virtual_keys_cache s)"
  by (simp add: remove_virtual_key_def remove_virtual_key_entry_def Let_def split: option.splits)






text \<open>The effect of a row on the entry of its hash, with the instant that was seen last.\<close>

definition row_effect :: "'u DbVirtualKey \<Rightarrow> int option \<times> 'u DbVirtualKey option \<Rightarrow> int option \<times> 'u DbVirtualKey option" where
  "row_effect r = (\<lambda>(seen, entry). case classify_virtual_key_update seen r of
     Upsert v \<Rightarrow> (Some (vk_updated_at v), Some v) | RemoveKey _ \<Rightarrow> (None, None) | Skip \<Rightarrow> (seen, entry))"

definition entry_of :: "'u listener \<times> 'u key_state \<Rightarrow> string \<Rightarrow> int option \<times> 'u DbVirtualKey option" where
  "entry_of ls h = (last_virtual_key_updated_at (fst ls) h, check_virtual_key (snd ls) h)"

lemma classify_hash:
  "classify_virtual_key_update seen r = Upsert v \<Longrightarrow> v = r"
  "classify_virtual_key_update seen r = RemoveKey h \<Longrightarrow> h = vk_key_hash r"
  by (auto simp: classify_virtual_key_update_def split: if_splits)

lemma poll_row_entry:
  assumes "virtual_keys_cache (snd ls) \<noteq> None"
  shows "entry_of (poll_virtual_key r ls) h = (if h = vk_key_hash r then row_effect r (entry_of ls h) else entry_of ls h)"
    and "virtual_keys_cache (snd (poll_virtual_key r ls)) \<noteq> None"
proof -
  obtain l s m where ls: "ls = (l, s)" "virtual_keys_cache s = Some m" using assms by (cases ls) auto
  then show "entry_of (poll_virtual_key r ls) h = (if h = vk_key_hash r then row_effect r (entry_of ls h) else entry_of ls h)"
    using classify_hash [of "last_virtual_key_updated_at l (vk_key_hash r)" r]
    by (auto simp: entry_of_def poll_virtual_key_def row_effect_def check_virtual_key_def split: VirtualKeyUpdateAction.splits)
  show "virtual_keys_cache (snd (poll_virtual_key r ls)) \<noteq> None"
    using ls by (auto simp: poll_virtual_key_def split: VirtualKeyUpdateAction.splits)
qed


lemma poll_rows_cache: "virtual_keys_cache (snd ls) \<noteq> None \<Longrightarrow> virtual_keys_cache (snd (fold poll_virtual_key rows ls)) \<noteq> None"
proof (induction rows arbitrary: ls)
  case (Cons r rows)
  show ?case using Cons.IH [OF poll_row_entry(2) [OF Cons.prems]] by simp
qed simp







text \<open>The poll, as far as the virtual keys are concerned.\<close>

lemma poll_database_keys:
  assumes "pe_virtual_keys env = Some table" and "last_poll_time l = Some t"
    and "poll_database ops env (l, s, c) = (res, l', s', c')"
  shows "s' = snd (fold poll_virtual_key (filter (\<lambda>r. t < vk_updated_at r) table) (l, s))"
    and "last_virtual_key_updated_at l' = last_virtual_key_updated_at (fst (fold poll_virtual_key (filter (\<lambda>r. t < vk_updated_at r) table) (l, s)))"
    and "is_ok res \<Longrightarrow> last_poll_time l' = Some (pe_end env)"
proof -
  let ?f = "fold poll_virtual_key (filter (\<lambda>r. t < vk_updated_at r) table) (l, s)"
  have mk: "last_virtual_key_updated_at (fst (fold (poll_master_key ops) mks lc)) = last_virtual_key_updated_at (fst lc)" for mks lc
    by (induction mks arbitrary: lc) (auto simp: poll_master_key_def split: prod.splits)
  have q: "rows_since (last_poll_time l) (get_db_virtual_keys_updated_after (pe_virtual_keys env)) = Inr (filter (\<lambda>r. t < vk_updated_at r) table)"
    using assms(1,2) by (simp add: rows_since_def get_db_virtual_keys_updated_after_def)
  show "s' = snd ?f" "last_virtual_key_updated_at l' = last_virtual_key_updated_at (fst ?f)"
    "is_ok res \<Longrightarrow> last_poll_time l' = Some (pe_end env)"
    using assms(3) mk [of _ "(fst ?f, c)"]
    by (auto simp: poll_database_def q Let_def is_ok_def split: prod.splits sum.splits) (metis fst_conv)+
qed


subsection \<open>Changes that a poll misses\<close>

definition run_polls ::
  "('c, 'u) lru_ops \<Rightarrow> 'u poll_env list \<Rightarrow> 'u listener \<times> 'u key_state \<times> 'c option \<Rightarrow> 'u listener \<times> 'u key_state \<times> 'c option" where
  "run_polls ops envs st = fold (\<lambda>env st. snd (poll_database ops env st)) envs st"

lemma poll_rows_other:
  assumes "virtual_keys_cache (snd ls) \<noteq> None" and "\<forall>r \<in> set rows. vk_key_hash r \<noteq> h"
  shows "entry_of (fold poll_virtual_key rows ls) h = entry_of ls h"
  using assms
proof (induction rows arbitrary: ls)
  case (Cons r rows)
  then show ?case using Cons.IH [OF poll_row_entry(2) [OF Cons.prems(1)], of r] poll_row_entry(1) [OF Cons.prems(1), of r h] by auto
qed simp

lemma fold_poll_time: "last_poll_time (fst (fold poll_virtual_key rows ls)) = last_poll_time (fst ls)"
  by (induction rows arbitrary: ls) (auto simp: poll_virtual_key_def split: prod.splits VirtualKeyUpdateAction.splits)

lemma poll_keeps_entry:
  assumes "last_poll_time l = Some t" and "check_virtual_key s h = Some old"
    and "\<forall>r \<in> set (case pe_virtual_keys env of None \<Rightarrow> [] | Some table \<Rightarrow> table). vk_key_hash r = h \<longrightarrow> vk_updated_at r \<le> t"
    and "poll_database ops env (l, s, c) = (res, l', s', c')"
  shows "check_virtual_key s' h = Some old \<and> last_poll_time l' \<in> {Some t, Some (pe_end env)}"
proof (cases "pe_virtual_keys env")
  case None
  with assms show ?thesis
    by (auto simp: poll_database_def rows_since_def get_db_virtual_keys_updated_after_def)
next
  case (Some table)
  let ?rows = "filter (\<lambda>r. t < vk_updated_at r) table" let ?f = "fold poll_virtual_key ?rows (l, s)"
  have "virtual_keys_cache s \<noteq> None" using assms(2) by (cases "virtual_keys_cache s") (simp_all add: check_virtual_key_def)
  then have "entry_of ?f h = entry_of (l, s) h" using assms(3) Some by (intro poll_rows_other) auto
  with poll_database_keys(1) [OF Some assms(1,4)] assms(2) have "check_virtual_key s' h = Some old" by (simp add: entry_of_def)
  moreover have q: "rows_since (Some t) (get_db_virtual_keys_updated_after (pe_virtual_keys env)) = Inr ?rows"
    using Some by (simp add: rows_since_def get_db_virtual_keys_updated_after_def)
  have "last_poll_time l' \<in> {Some t, Some (pe_end env)}"
    using assms(4) fold_poll_time [of ?rows "(l, s)"]
    by (auto simp: poll_database_def assms(1) q Let_def split: prod.splits sum.splits)
  ultimately show ?thesis by blast
qed

lemma run_polls_keep:
  assumes "last_poll_time l = Some t" and "e \<le> t" and "check_virtual_key s h = Some old"
    and "\<forall>env \<in> set envs. e \<le> pe_end env \<and>
      (\<forall>r \<in> set (case pe_virtual_keys env of None \<Rightarrow> [] | Some table \<Rightarrow> table). vk_key_hash r = h \<longrightarrow> vk_updated_at r \<le> e)"
    and "run_polls ops envs (l, s, c) = (l', s', c')"
  shows "check_virtual_key s' h = Some old"
  using assms
proof (induction envs arbitrary: l s c t)
  case (Cons env envs)
  obtain res l1 s1 c1 where p: "poll_database ops env (l, s, c) = (res, l1, s1, c1)" by (cases "poll_database ops env (l, s, c)")
  have "\<forall>r \<in> set (case pe_virtual_keys env of None \<Rightarrow> [] | Some table \<Rightarrow> table). vk_key_hash r = h \<longrightarrow> vk_updated_at r \<le> t"
    using Cons.prems(2,4) by auto
  from poll_keeps_entry [OF Cons.prems(1,3) this p] Cons.prems(2,4) obtain t' where
    "check_virtual_key s1 h = Some old" "last_poll_time l1 = Some t'" "e \<le> t'" by auto
  with Cons.IH [of l1 t' s1 c1] Cons.prems(4,5) p show ?case by (simp add: run_polls_def)
qed (simp add: run_polls_def)

text \<open>
  C29. A revocation is lost when it falls into a poll. The instant that a poll stores as its time is read after its
  queries. A row that changes after the query, with a time stamp not later than the stored instant, is in the
  answer of no later query: as long as the row does not change again, every later poll leaves the old key in
  memory, and authentication still finds it, whatever the table says.
\<close>

theorem revocation_lost_in_poll:
  assumes "poll_database ops env (l0, s0, c0) = (Inr reloads, l, s, c)" and "check_virtual_key s h = Some old"
    and "pe_virtual_keys env = Some table" and "last_poll_time l0 \<noteq> None"
    and "\<forall>env' \<in> set envs. pe_end env \<le> pe_end env' \<and>
      (\<forall>r \<in> set (case pe_virtual_keys env' of None \<Rightarrow> [] | Some table' \<Rightarrow> table'). vk_key_hash r = h \<longrightarrow> vk_updated_at r \<le> pe_end env)"
    and "run_polls ops envs (l, s, c) = (l', s', c')"
  shows "resolve_virtual_key_for_auth store h s' = (Some old, s')"
proof -
  obtain t0 where "last_poll_time l0 = Some t0" using assms(4) by blast
  from poll_database_keys(3) [OF assms(3) this assms(1)] have "last_poll_time l = Some (pe_end env)" by (simp add: is_ok_def)
  from run_polls_keep [OF this order_refl assms(2,5,6)] have "check_virtual_key s' h = Some old" .
  then show ?thesis by (simp add: resolve_virtual_key_for_auth_def resolve_begin_def)
qed

text \<open>
  A removal between the query of a lookup and its end has no effect: the lookup puts the old row back, and it stays
  there until the row changes again.
\<close>

lemma heal_after_removal:
  assumes "resolve_begin True h s = AskDatabase" and "get_db_virtual_key_by_key_hash (Some rows) h = Inr (Some vk)"
  shows "check_virtual_key (snd (resolve_finish (Inr (Some vk)) (remove_virtual_key h s))) h = Some vk"
proof -
  from assms(1) have "virtual_keys_cache s \<noteq> None" by (auto simp: resolve_begin_def split: option.splits if_splits)
  moreover have "vk_key_hash vk = h" using assms(2) by (auto simp: get_db_virtual_key_by_key_hash_def find_Some_iff)
  ultimately show ?thesis by (auto simp: resolve_finish_def check_virtual_key_def)
qed

text \<open>A database with one key that is revoked while the second poll runs.\<close>

definition demo_row :: "nat DbVirtualKey" where
  "demo_row = \<lparr>vk_id = 1, vk_workspace_id = 2, vk_master_key_id = 3, vk_key_hash = ''h'', vk_key_prefix = ''vk-'', vk_label = ''l'',
     vk_entity_type = None, vk_entity_id = None, vk_status = ''active'', vk_expires_at = None, vk_deleted_at = None,
     vk_updated_at = 15, vk_allowed = None, vk_blocked = None, vk_subscription_log_limit = 90\<rparr>"

definition revoked_row :: "nat DbVirtualKey" where
  "revoked_row = demo_row\<lparr>vk_status := ''revoked'', vk_updated_at := 21\<rparr>"

definition no_lru :: "(unit, nat) lru_ops" where
  "no_lru = \<lparr>lru_get = (\<lambda>_ c. (None, c)), lru_put = (\<lambda>_ _ c. c), lru_pop = (\<lambda>_ c. c)\<rparr>"

definition demo_poll :: "nat DbVirtualKey \<Rightarrow> int \<Rightarrow> nat poll_env" where
  "demo_poll r e = \<lparr>pe_virtual_keys = Some [r], pe_master_keys = Some [], pe_providers_updated = Some False,
     pe_configs_updated = Some False, pe_end = e\<rparr>"

definition demo_listener :: "nat listener" where
  "demo_listener = \<lparr>last_virtual_key_updated_at = Map.empty, last_master_key_updated_at = Map.empty, last_poll_time = Some 10\<rparr>"

definition demo_keys :: "nat key_state" where
  "demo_keys = \<lparr>virtual_keys_cache = Some Map.empty, api_keys_gauge = 0, pg_fallback_heal = 0, pg_fallback_db_errors = 0\<rparr>"

lemma demo_poll_result:
  "poll_database no_lru (demo_poll demo_row 22) (demo_listener, demo_keys, None) =
     (Inr \<lparr>reload_providers = False, reload_allowlist = False\<rparr>,
      demo_listener\<lparr>last_virtual_key_updated_at := [''h'' \<mapsto> 15], last_poll_time := Some 22\<rparr>,
      demo_keys\<lparr>virtual_keys_cache := Some [''h'' \<mapsto> demo_row], api_keys_gauge := 1\<rparr>, None)"
  by (simp add: poll_database_def demo_poll_def demo_listener_def demo_keys_def demo_row_def rows_since_def
      get_db_virtual_keys_updated_after_def get_master_keys_updated_after_def poll_virtual_key_def classify_virtual_key_update_def
      set_virtual_key_def upsert_virtual_key_entry_def should_reload_providers_def Let_def)


theorem revocation_lost_in_poll_witness:
  "\<not> row_active revoked_row
   \<and> (\<exists>s'. run_polls no_lru [demo_poll revoked_row 33, demo_poll revoked_row 44]
         (snd (poll_database no_lru (demo_poll demo_row 22) (demo_listener, demo_keys, None))) = s'
       \<and> resolve_virtual_key_for_auth (Some (Some [revoked_row])) ''h'' (fst (snd s')) = (Some demo_row, fst (snd s')))"
proof -
  let ?envs = "[demo_poll revoked_row 33, demo_poll revoked_row 44]"
  let ?s = "demo_keys\<lparr>virtual_keys_cache := Some [''h'' \<mapsto> demo_row], api_keys_gauge := 1\<rparr>"
  obtain l' s' c' where r: "run_polls no_lru ?envs (demo_listener\<lparr>last_virtual_key_updated_at := [''h'' \<mapsto> 15], last_poll_time := Some 22\<rparr>, ?s, None)
      = (l', s', c')" by (rule prod_cases3)
  have "check_virtual_key ?s ''h'' = Some demo_row" by (simp add: check_virtual_key_def)
  moreover have "pe_virtual_keys (demo_poll demo_row 22) = Some [demo_row]" "last_poll_time demo_listener \<noteq> None"
    by (simp_all add: demo_poll_def demo_listener_def)
  moreover have "\<forall>env' \<in> set ?envs. pe_end (demo_poll demo_row 22) \<le> pe_end env' \<and>
      (\<forall>r \<in> set (case pe_virtual_keys env' of None \<Rightarrow> [] | Some table' \<Rightarrow> table'). vk_key_hash r = ''h'' \<longrightarrow> vk_updated_at r \<le> pe_end (demo_poll demo_row 22))"
    by (simp add: demo_poll_def revoked_row_def)
  ultimately have "resolve_virtual_key_for_auth (Some (Some [revoked_row])) ''h'' s' = (Some demo_row, s')"
    using revocation_lost_in_poll [OF demo_poll_result _ _ _ _ r] by blast
  then show ?thesis unfolding demo_poll_result snd_conv using r by (simp add: revoked_row_def row_active_def)
qed

end
