(* ===== verification/Authentication.thy ===== *)
theory Authentication
  imports Key_Cache Request_Routing
begin

text \<open>
  Authentication of a request by its virtual key (\<open>middleware/auth.rs\<close>). The hash of keys, the clock, the answers of
  Redis and of the database and the master key cache are arguments; the keys in memory are part of the state.
\<close>

record 'u AuthContext =
  ac_api_key :: string
  ac_user_id :: 'u
  ac_org_id :: 'u
  ac_virtual_key_id :: "'u option"
  ac_virtual_key_prefix :: string
  ac_master_key_id :: "'u option"
  ac_master_key_base_url :: "string option"
  ac_department_id :: 'u
  ac_entity_type :: string
  ac_entity_id :: 'u
  ac_entity_name :: string
  ac_body_ttl_days :: nat
  ac_is_custom_provider :: bool
  ac_master_key_allowed_providers :: "InferenceProvider list option"

subsection \<open>The department of a key\<close>

text \<open>
  The first answer is that of Redis for the cached text (\<open>None\<close> without Redis), \<open>parse\<close> reads the cached value, the
  second that of the database (\<open>None\<close> without a store). The second result is what is written to Redis.
\<close>

definition resolve_department_id_after_vk_auth ::
  "(string \<Rightarrow> 'u option option) \<Rightarrow> 'u \<Rightarrow> (unit, string option) result option \<Rightarrow> (unit, 'u option option) result option
   \<Rightarrow> 'u \<times> 'u option option" where
  "resolve_department_id_after_vk_auth parse nil cached row =
     (case (case cached of Some (Inr (Some raw)) \<Rightarrow> parse raw | _ \<Rightarrow> None) of
        Some d \<Rightarrow> (case d of Some x \<Rightarrow> x | None \<Rightarrow> nil, None)
      | None \<Rightarrow>
          (case row of
             Some (Inr (Some d)) \<Rightarrow> (case d of Some x \<Rightarrow> x | None \<Rightarrow> nil, if cached = None then None else Some d)
           | _ \<Rightarrow> (nil, None)))"

subsection \<open>Parts of the context\<close>

definition strip_bearer_prefix :: "string \<Rightarrow> string" where
  "strip_bearer_prefix k = (case strip_prefix ''Bearer '' k of Some r \<Rightarrow> r | None \<Rightarrow> k)"

definition body_ttl_days_from_subscription_log_limit :: "int \<Rightarrow> nat" where
  "body_ttl_days_from_subscription_log_limit n = (if 1 \<le> n \<and> n \<le> 730 then nat n else 90)"

definition virtual_key_owner_and_org :: "'u DbVirtualKey \<Rightarrow> 'u \<times> 'u" where
  "virtual_key_owner_and_org vk = (case vk_entity_id vk of Some e \<Rightarrow> e | None \<Rightarrow> vk_workspace_id vk, vk_workspace_id vk)"

definition auth_entity_scope_from_vk :: "'u \<Rightarrow> 'u DbVirtualKey \<Rightarrow> string \<times> 'u \<times> string" where
  "auth_entity_scope_from_vk nil vk =
     (case vk_entity_type vk of Some t \<Rightarrow> t | None \<Rightarrow> [], case vk_entity_id vk of Some e \<Rightarrow> e | None \<Rightarrow> nil, vk_label vk)"

definition virtual_key_is_expired :: "'u DbVirtualKey \<Rightarrow> int \<Rightarrow> bool" where
  "virtual_key_is_expired vk t = (case vk_expires_at vk of None \<Rightarrow> False | Some e \<Rightarrow> e \<le> t)"

subsection \<open>Authentication\<close>

text \<open>What the request finds outside: the master key for an id (\<open>None\<close> without a cache), the department, the routers.\<close>

record 'u auth_env =
  ae_sha256_hex :: "string \<Rightarrow> string"
  ae_store :: "'u DbVirtualKey list option option"
  ae_time :: int
  ae_master_key :: "('u \<Rightarrow> ('u MasterKeyCacheError, DecryptedMasterKey) result) option"
  ae_department :: "'u \<Rightarrow> 'u"
  ae_router_organization :: "RouterId \<rightharpoonup> 'u"
  ae_nil :: 'u
  ae_auth_disabled :: bool

definition master_key_info :: "'u auth_env \<Rightarrow> 'u \<Rightarrow> string option \<times> bool \<times> InferenceProvider list option" where
  "master_key_info env i =
     (case ae_master_key env of
        None \<Rightarrow> (None, False, None)
      | Some get \<Rightarrow>
          (case get i of
             Inr dk \<Rightarrow> (dk_base_url dk, dk_provider dk = Custom, Some [dk_provider dk])
           | Inl _ \<Rightarrow> (None, False, None)))"

definition auth_context :: "'u auth_env \<Rightarrow> string \<Rightarrow> 'u DbVirtualKey \<Rightarrow> 'u AuthContext" where
  "auth_context env api_key vk =
     (let (owner_id, org_id) = virtual_key_owner_and_org vk;
          (base_url, is_custom, allowed) = master_key_info env (vk_master_key_id vk);
          (entity_type, entity_id, entity_name) = auth_entity_scope_from_vk (ae_nil env) vk
      in \<lparr>ac_api_key = api_key, ac_user_id = owner_id, ac_org_id = org_id, ac_virtual_key_id = Some (vk_id vk),
          ac_virtual_key_prefix = vk_key_prefix vk, ac_master_key_id = Some (vk_master_key_id vk), ac_master_key_base_url = base_url,
          ac_department_id = ae_department env (vk_id vk), ac_entity_type = entity_type, ac_entity_id = entity_id,
          ac_entity_name = entity_name,
          ac_body_ttl_days = body_ttl_days_from_subscription_log_limit (vk_subscription_log_limit vk),
          ac_is_custom_provider = is_custom, ac_master_key_allowed_providers = allowed\<rparr>)"

definition vk_policy_of :: "'u DbVirtualKey \<Rightarrow> 'u VkPolicy" where
  "vk_policy_of vk = \<lparr>vk_virtual_key_id = vk_id vk, vk_allowed_models = vk_allowed vk, vk_blocked_models = vk_blocked vk\<rparr>"

definition authenticate_request_inner ::
  "'u auth_env \<Rightarrow> string \<Rightarrow> RequestKind option \<Rightarrow> RouterId option \<Rightarrow> 'u key_state
   \<Rightarrow> (ApiError, 'u AuthContext \<times> 'u VkPolicy) result \<times> 'u key_state" where
  "authenticate_request_inner env api_key kind router_id s =
     (let key = strip_bearer_prefix api_key; computed = hash_key (ae_sha256_hex env) key
      in case kind of
           None \<Rightarrow> (Err (InternalE (IeExtensionNotFound ''RequestKind'')), s)
         | Some k \<Rightarrow>
             (case resolve_virtual_key_for_auth (ae_store env) computed s of
                (None, s') \<Rightarrow> (Err (Authentication InvalidCredentials), s')
              | (Some vk, s') \<Rightarrow>
                  (if virtual_key_is_expired vk (ae_time env) then Err (Authentication InvalidCredentials)
                   else
                     let ctx = auth_context env key vk
                     in if ac_is_custom_provider ctx \<and> ac_master_key_base_url ctx = None
                        then Err (InvalidRequest IrCustomProviderMissingBaseUrl)
                        else (case k of
                            RkRouter \<Rightarrow>
                              (case router_id of
                                 None \<Rightarrow> Err (InternalE (IeExtensionNotFound ''RouterId''))
                               | Some rid \<Rightarrow>
                                   (case ae_router_organization env rid of
                                      None \<Rightarrow> Err (not_found ''router not found'')
                                    | Some org \<Rightarrow>
                                        if org = ac_org_id ctx then Ok (ctx, vk_policy_of vk)
                                        else Err (Authentication InvalidCredentials)))
                          | _ \<Rightarrow> Ok (ctx, vk_policy_of vk)), s')))"

text \<open>
  \<open>AuthService::authorize\<close>: the request with what is inserted into its extensions, or the error of the answer, and the two
  counters.
\<close>

record 'u authorized =
  az_request :: http_request
  az_auth :: "'u AuthContext option"
  az_policy :: "'u VkPolicy option"

record auth_metrics =
  auth_attempts :: nat
  auth_rejections :: nat

definition authorize ::
  "'u auth_env \<Rightarrow> http_request \<Rightarrow> 'u key_state \<times> auth_metrics \<Rightarrow> (ApiError, 'u authorized) result \<times> 'u key_state \<times> auth_metrics" where
  "authorize env req = (\<lambda>(s, am).
     if ae_auth_disabled env then (Ok \<lparr>az_request = req, az_auth = None, az_policy = None\<rparr>, s, am)
     else (case header_str (rq_headers req) ''authorization'' of
         None \<Rightarrow> (Err (Authentication MissingAuthorizationHeader), s, am)
       | Some api_key \<Rightarrow>
           let am' = am\<lparr>auth_attempts := auth_attempts am + 1\<rparr>
           in case authenticate_request_inner env api_key (x_request_kind (rq_ext req)) (x_router_id (rq_ext req)) s of
                (Inr (ctx, pol), s') \<Rightarrow>
                  (Ok \<lparr>az_request = (if ac_is_custom_provider ctx then req\<lparr>rq_ext := (rq_ext req)\<lparr>x_request_kind := Some RkCustomProvider\<rparr>\<rparr> else req),
                       az_auth = Some ctx, az_policy = Some pol\<rparr>, s', am')
              | (Inl e, s') \<Rightarrow>
                  (Err e, s', case e of Authentication _ \<Rightarrow> am'\<lparr>auth_rejections := auth_rejections am' + 1\<rparr> | _ \<Rightarrow> am')))"

subsection \<open>Who is let in\<close>

lemma hash_key_stripped: "strip_prefix ''Bearer '' k = None \<Longrightarrow> hash_key sha k = sha k"
  by (simp add: hash_key_def)

lemma auth_context_org [simp]: "ac_org_id (auth_context env k vk) = vk_workspace_id vk"
  by (simp add: auth_context_def virtual_key_owner_and_org_def Let_def split: prod.splits)

lemma auth_context_custom:
  "ac_is_custom_provider (auth_context env k vk) = fst (snd (master_key_info env (vk_master_key_id vk)))"
  "ac_master_key_base_url (auth_context env k vk) = fst (master_key_info env (vk_master_key_id vk))"
  "ac_master_key_allowed_providers (auth_context env k vk) = snd (snd (master_key_info env (vk_master_key_id vk)))"
  by (simp_all add: auth_context_def virtual_key_owner_and_org_def auth_entity_scope_from_vk_def Let_def split: prod.splits)

text \<open>What an accepted key is: found under the hash of the presented text, not expired, and fit for the request.\<close>

definition key_accepted :: "'u auth_env \<Rightarrow> http_request \<Rightarrow> string \<Rightarrow> 'u DbVirtualKey \<Rightarrow> bool" where
  "key_accepted env req api_key vk \<longleftrightarrow>
     \<not> virtual_key_is_expired vk (ae_time env)
     \<and> (fst (snd (master_key_info env (vk_master_key_id vk))) \<longrightarrow> fst (master_key_info env (vk_master_key_id vk)) \<noteq> None)
     \<and> (case x_request_kind (rq_ext req) of None \<Rightarrow> False
        | Some RkRouter \<Rightarrow> (case x_router_id (rq_ext req) of None \<Rightarrow> False
            | Some rid \<Rightarrow> ae_router_organization env rid = Some (vk_workspace_id vk))
        | Some _ \<Rightarrow> True)"

lemma authenticate_inner_ok:
  "authenticate_request_inner env api_key (x_request_kind (rq_ext req)) (x_router_id (rq_ext req)) s = (Inr r, s') \<longleftrightarrow>
     (\<exists>vk. resolve_virtual_key_for_auth (ae_store env) (hash_key (ae_sha256_hex env) (strip_bearer_prefix api_key)) s = (Some vk, s')
        \<and> key_accepted env req api_key vk \<and> r = (auth_context env (strip_bearer_prefix api_key) vk, vk_policy_of vk))"
  unfolding authenticate_request_inner_def key_accepted_def
  by (auto simp: Let_def auth_context_custom split: option.splits prod.splits RequestKind.splits if_splits)

lemma authenticate_inner_error:
  assumes "authenticate_request_inner env api_key kind rid s = (Inl e, s')"
  shows "e = Authentication InvalidCredentials \<or> e = InvalidRequest IrCustomProviderMissingBaseUrl \<or> e = not_found ''router not found''
    \<or> (\<exists>x. e = InternalE (IeExtensionNotFound x))"
  using assms unfolding authenticate_request_inner_def
  by (auto simp: Let_def split: option.splits prod.splits RequestKind.splits if_splits)

lemma auth_error_status [simp]:
  "ea_status (into_response st ed (Authentication a)) = 401"
  "ea_status (into_response st ed (InvalidRequest IrCustomProviderMissingBaseUrl)) = 400"
  "ea_status (into_response st ed (not_found x)) = 404"
  "ea_status (into_response st ed (InternalE (IeExtensionNotFound x))) = 500"
  by (simp_all add: into_response_def auth_error_response_def client_error_response_def internal_error_response_def json_error_def
      not_found_def Let_def split: AuthError.splits)

text \<open>
  C30. Who is let in. With authentication enabled a request passes exactly if it carries a key, the key is found
  under its hash, is not expired, a custom provider has a base URL, and a request for a router belongs to the
  workspace of the router. It then carries the context and the model policy of exactly this key. Every other
  request is refused with 401, 400, 404 or 500, and the refusals with 401 after an attempt are counted.
\<close>

theorem authorize_exact:
  assumes "\<not> ae_auth_disabled env" and "authorize env req (s, am) = (res, s', am')"
  shows "case res of
      Inr a \<Rightarrow> \<exists>api_key vk. header_str (rq_headers req) ''authorization'' = Some api_key
          \<and> resolve_virtual_key_for_auth (ae_store env) (hash_key (ae_sha256_hex env) (strip_bearer_prefix api_key)) s = (Some vk, s')
          \<and> key_accepted env req api_key vk
          \<and> az_auth a = Some (auth_context env (strip_bearer_prefix api_key) vk) \<and> az_policy a = Some (vk_policy_of vk)
          \<and> x_route_type (rq_ext (az_request a)) = x_route_type (rq_ext req)
          \<and> auth_attempts am' = auth_attempts am + 1 \<and> auth_rejections am' = auth_rejections am
    | Inl e \<Rightarrow> \<not> (\<exists>api_key vk. header_str (rq_headers req) ''authorization'' = Some api_key
          \<and> fst (resolve_virtual_key_for_auth (ae_store env) (hash_key (ae_sha256_hex env) (strip_bearer_prefix api_key)) s) = Some vk
          \<and> key_accepted env req api_key vk)
        \<and> ea_status (into_response st ed e) \<in> {401, 400, 404, 500}
        \<and> auth_rejections am' = auth_rejections am + (if ea_status (into_response st ed e) = 401 \<and> auth_attempts am' \<noteq> auth_attempts am then 1 else 0)"
proof (cases "header_str (rq_headers req) ''authorization''")
  case None
  with assms show ?thesis by (auto simp: authorize_def)
next
  case (Some api_key)
  let ?inner = "authenticate_request_inner env api_key (x_request_kind (rq_ext req)) (x_router_id (rq_ext req)) s"
  obtain r s1 where r: "?inner = (r, s1)" by (cases ?inner)
  show ?thesis
  proof (cases r)
    case (Inr cp)
    with r obtain vk where vk: "cp = (auth_context env (strip_bearer_prefix api_key) vk, vk_policy_of vk)"
      "resolve_virtual_key_for_auth (ae_store env) (hash_key (ae_sha256_hex env) (strip_bearer_prefix api_key)) s = (Some vk, s1)"
      "key_accepted env req api_key vk"
      using authenticate_inner_ok [of env api_key req s cp s1] by blast
    have "s' = s1" "\<exists>a. res = Inr a \<and> az_auth a = Some (fst cp) \<and> az_policy a = Some (snd cp)
        \<and> x_route_type (rq_ext (az_request a)) = x_route_type (rq_ext req)"
      "auth_attempts am' = auth_attempts am + 1" "auth_rejections am' = auth_rejections am"
      using assms r Inr Some vk(1) by (auto simp: authorize_def Let_def)
    with vk Some show ?thesis by auto
  next
    case (Inl e)
    have no: "\<not> key_accepted env req api_key vk"
      if "fst (resolve_virtual_key_for_auth (ae_store env) (hash_key (ae_sha256_hex env) (strip_bearer_prefix api_key)) s) = Some vk" for vk
      using that r Inl authenticate_inner_ok [of env api_key req s] by (metis Inl_Inr_False fst_conv prod.collapse)
    have am: "res = Inl e" "am' = (case e of Authentication _ \<Rightarrow> am\<lparr>auth_attempts := auth_attempts am + 1, auth_rejections := auth_rejections am + 1\<rparr>
        | _ \<Rightarrow> am\<lparr>auth_attempts := auth_attempts am + 1\<rparr>)"
      using assms r Inl Some by (auto simp: authorize_def Let_def split: ApiError.splits)
    from authenticate_inner_error [OF r [unfolded Inl]] have "ea_status (into_response st ed e) \<in> {401, 400, 404, 500}
        \<and> auth_rejections am' = auth_rejections am + (if ea_status (into_response st ed e) = 401 \<and> auth_attempts am' \<noteq> auth_attempts am then 1 else 0)"
      unfolding am(2) by (elim disjE exE) (simp_all, simp add: not_found_def)
    with no Some am(1) show ?thesis by auto
  qed
qed

definition demo_auth_env :: "nat auth_env" where
  "demo_auth_env = \<lparr>ae_sha256_hex = (\<lambda>_. ''h''), ae_store = None, ae_time = 100, ae_master_key = None, ae_department = (\<lambda>_. 0),
     ae_router_organization = [NamedRouter ''team-a'' \<mapsto> 2], ae_nil = 0, ae_auth_disabled = False\<rparr>"

definition demo_router_request :: http_request where
  "demo_router_request = \<lparr>rq_method = ''POST'', rq_path = ''/router/team-a/chat/completions'', rq_query = None,
     rq_headers = [(''authorization'', ''Bearer vk-1'')],
     rq_ext = no_ext\<lparr>x_request_kind := Some RkRouter, x_router_id := Some (NamedRouter ''team-a'')\<rparr>\<rparr>"

definition demo_key_state :: "nat key_state" where
  "demo_key_state = demo_keys\<lparr>virtual_keys_cache := Some [''h'' \<mapsto> demo_row], api_keys_gauge := 1\<rparr>"

theorem authorize_exact_witness:
  "\<exists>(a :: nat authorized) ctx s' am'. authorize demo_auth_env demo_router_request (demo_key_state, \<lparr>auth_attempts = 0, auth_rejections = 0\<rparr>) = (Inr a, s', am')
     \<and> az_auth a = Some ctx \<and> ac_org_id ctx = 2 \<and> auth_attempts am' = 1 \<and> auth_rejections am' = 0"
proof -
  let ?am = "\<lparr>auth_attempts = 0, auth_rejections = 0\<rparr>"
  have h: "header_str (rq_headers demo_router_request) ''authorization'' = Some ''Bearer vk-1''" by code_simp
  have res: "resolve_virtual_key_for_auth (ae_store demo_auth_env) (hash_key (ae_sha256_hex demo_auth_env) k) demo_key_state = (Some demo_row, demo_key_state)" for k
    by (simp add: resolve_virtual_key_for_auth_def resolve_begin_def check_virtual_key_def demo_key_state_def demo_auth_env_def hash_key_def)
  have acc: "key_accepted demo_auth_env demo_router_request k demo_row" for k
    by (simp add: key_accepted_def demo_auth_env_def demo_row_def demo_router_request_def virtual_key_is_expired_def master_key_info_def)
  obtain r s' am' where run: "authorize demo_auth_env demo_router_request (demo_key_state, ?am) = (r, s', am')" by (rule prod_cases3)
  have "\<not> ae_auth_disabled demo_auth_env" by (simp add: demo_auth_env_def)
  from authorize_exact [OF this run] obtain a where a: "r = Inr a" using h res acc by (cases r) auto
  with authorize_exact [OF \<open>\<not> ae_auth_disabled demo_auth_env\<close> run] h res obtain ctx where
    "az_auth a = Some ctx" "ac_org_id ctx = 2" "auth_attempts am' = 1" "auth_rejections am' = 0"
    by (auto simp: demo_row_def)
  with run a show ?thesis by blast
qed

end
