(* ===== verification/Unified_Api.thy ===== *)
theory Unified_Api
  imports Authentication
begin

text \<open>
  The unified API (\<open>router/unified_api.rs\<close>, \<open>router/target_provider_resolve.rs\<close>): a hand-written future that collects
  the body, transforms large contexts, completes a missing model, checks the policy of the virtual key, finds the
  provider and calls its direct proxy.

  The future is modelled round by round, as its loop over the states is written. A future it waits for is the number of
  polls for which it is pending, with its result. The deserialisers of the request types are arguments; they yield the
  model. A panic is a result of its own.
\<close>

subsection \<open>The target provider\<close>

definition provider_from_bare_model :: "'d calendar \<Rightarrow> string \<Rightarrow> (ApiError, InferenceProvider) result" where
  "provider_from_bare_model cal model =
     (case model_id_from_str cal model of
        Inl e \<Rightarrow> Err (of_mapper_error e)
      | Inr i \<Rightarrow>
          (case i of
             ModelIdWithVersion p _ \<Rightarrow> Ok p
           | BedrockModel _ \<Rightarrow> Ok Bedrock
           | OllamaModel _ \<Rightarrow> Ok Ollama
           | UnknownModel _ \<Rightarrow> Err (InvalidRequest (IrUnsupportedEndpoint
               (''provider for the given model: '' @ [CHR 0x27] @ model_id_display cal i @ [CHR 0x27] @ '' not supported'')))))"

definition resolve_unified_target_provider ::
  "'d calendar \<Rightarrow> bool \<Rightarrow> InferenceProvider \<Rightarrow> string \<Rightarrow> InferenceProvider list option \<Rightarrow> (ApiError, InferenceProvider) result" where
  "resolve_unified_target_provider cal compat_mode compat_fallback model allowed =
     (case allowed of
        Some [p] \<Rightarrow> Ok p
      | Some (p # ps) \<Rightarrow>
          try_bind (if compat_mode then Ok compat_fallback else provider_from_bare_model cal model) (\<lambda>resolved.
            if resolved \<in> set (p # ps) then Ok resolved
            else Err (InvalidRequest (IrUnsupportedGatewayModel
              ''requested model routes to a provider not allowed for this API key'')))
      | _ \<Rightarrow> if compat_mode then Ok compat_fallback else provider_from_bare_model cal model)"

subsection \<open>Requests and their surroundings\<close>

datatype ImageModel = DallE2 | DallE3 | OtherImageModel string

definition image_model_routing_name :: "ImageModel \<Rightarrow> string" where
  "image_model_routing_name m = (case m of DallE2 \<Rightarrow> ''dall-e-2'' | DallE3 \<Rightarrow> ''dall-e-3'' | OtherImageModel s \<Rightarrow> s)"

record 'u ua_parts =
  up_headers :: headers
  up_path_and_query :: "PathAndQuery option"
  up_auth :: "'u AuthContext option"
  up_vk_policy :: "'u VkPolicy option"
  up_api_endpoint :: "ApiEndpoint option"
  up_responses_bridge :: bool
  up_implicit_fallback :: "string option"
  up_large_context :: "LargeContextDecision option"
  up_provider :: "InferenceProvider option"
  up_master_key_passthrough :: bool

text \<open>
  \<open>ue_request_model\<close> is the typed deserialiser of a path with the model of the request, \<open>ue_image_request\<close> that of image
  requests, whose model is optional.
\<close>

record ('u, 'd) ua_env =
  ue_lc :: "'d lc_env"
  ue_num :: "string \<Rightarrow> f64 option"
  ue_index :: BareModelExpandIndex
  ue_store :: "'u policy_store option"
  ue_nil :: 'u
  ue_compat :: bool
  ue_proxies :: "InferenceProvider set"
  ue_request_model :: "string \<Rightarrow> string \<Rightarrow> string option"
  ue_image_request :: "string \<Rightarrow> ImageModel option option"
  ue_parse_pq :: "string \<Rightarrow> PathAndQuery option"
  ue_error_text :: string

definition skip_model_access_custom_master_fallback :: "('u, 'd) ua_env \<Rightarrow> 'u ua_parts \<Rightarrow> string \<Rightarrow> bool" where
  "skip_model_access_custom_master_fallback env parts model =
     (if ue_compat env then False
      else (case up_auth parts of None \<Rightarrow> False
        | Some auth \<Rightarrow>
            if \<not> ac_is_custom_provider auth \<or> ac_master_key_base_url auth = None then False
            else (case provider_from_bare_model (lc_calendar (ue_lc env)) model of
                    Inl _ \<Rightarrow> False | Inr p \<Rightarrow> p \<notin> ue_proxies env)))"

text \<open>\<open>v["model"] = ...\<close>: null becomes an object, any other value that is no object panics.\<close>

definition index_insert :: "string \<Rightarrow> json \<Rightarrow> json \<Rightarrow> json option" where
  "index_insert k x v =
     (case v of JObject kvs \<Rightarrow> Some (JObject (obj_insert k x kvs)) | JNull \<Rightarrow> Some (JObject [(k, x)]) | _ \<Rightarrow> None)"

definition inject_default_model_into_body_unified ::
  "('u, 'd) ua_env \<Rightarrow> string \<Rightarrow> string \<Rightarrow> 'u AuthContext \<Rightarrow> 'u VkPolicy \<Rightarrow> (ApiError, string) result option" where
  "inject_default_model_into_body_unified env path body auth vk =
     (if model_field_from_json_body (from_slice (ue_lc env)) body \<noteq> None then Some (Ok body)
      else (case choose_default_gateway_model (ue_num env) (ue_index env) (ue_store env) (ue_nil env) path (ac_org_id auth)
                   (ac_department_id auth) vk of
          None \<Rightarrow> None
        | Some (Inl e) \<Rightarrow> Some (Err (of_default_model_error (ue_error_text env) e))
        | Some (Inr chosen) \<Rightarrow>
            (case from_slice (ue_lc env) body of
               None \<Rightarrow> Some (Err (InvalidRequest (IrInvalidRequestBody (ue_error_text env))))
             | Some v \<Rightarrow>
                 (case index_insert ''model'' (JString chosen) v of
                    None \<Rightarrow> None
                  | Some v' \<Rightarrow> Some (case to_vec (ue_lc env) v' of Some out \<Rightarrow> Ok out
                      | None \<Rightarrow> Err (InvalidRequest (IrInvalidRequestBody (ue_error_text env))))))))"

definition implicit_default_model_fallback_context :: "('u, 'd) ua_env \<Rightarrow> string \<Rightarrow> string \<Rightarrow> string option" where
  "implicit_default_model_fallback_context env path body =
     (if path \<noteq> ''chat/completions'' then None else model_field_from_json_body (from_slice (ue_lc env)) body)"

definition apply_chat_completions_body_redirect_if_needed ::
  "('u, 'd) ua_env \<Rightarrow> string \<Rightarrow> string \<Rightarrow> 'u ua_parts \<Rightarrow> (ApiError, string \<times> 'u ua_parts) result" where
  "apply_chat_completions_body_redirect_if_needed env path body parts =
     (if path \<noteq> ''chat/completions'' then Ok (path, parts)
      else (case Option.bind (from_slice (ue_lc env) body) as_object of
          None \<Rightarrow> Ok (path, parts)
        | Some obj \<Rightarrow>
            if obj_get ''messages'' obj \<noteq> None then Ok (path, parts)
            else if obj_get ''input'' obj = None then Ok (path, parts)
            else
              let parts1 = parts\<lparr>up_responses_bridge := True, up_api_endpoint := Some (ApiOpenAI OaResponses)\<rparr>
              in case up_path_and_query parts1 of
                   None \<Rightarrow> Err (InternalE (IeExtensionNotFound ''PathAndQuery''))
                 | Some pq \<Rightarrow>
                     (case ue_parse_pq env (case pq_query pq of Some q \<Rightarrow> ''responses?'' @ q | None \<Rightarrow> ''responses'') of
                        None \<Rightarrow> Err (InternalE (IeInvalidUri (ue_error_text env)))
                      | Some pq' \<Rightarrow> Ok (''responses'', parts1\<lparr>up_path_and_query := Some pq'\<rparr>))))"

subsection \<open>The states\<close>

definition unified_endpoint :: "UnifiedApi \<Rightarrow> ApiEndpoint" where
  "unified_endpoint u =
     (case u of UaChatCompletions \<Rightarrow> ApiOpenAI OaChatCompletions | UaCompletions \<Rightarrow> ApiOpenAI OaCompletions
      | UaEmbeddings \<Rightarrow> ApiOpenAI OaEmbeddings | UaImageGenerations \<Rightarrow> ApiOpenAI OaImageGenerations
      | UaResponses \<Rightarrow> ApiOpenAI OaResponses | UaMessages \<Rightarrow> ApiAnthropic AnMessages)"

type_synonym 'r fut = "nat \<times> 'r"

datatype ('u, 'resp) ua_state =
    CollectBody "(string, string) result fut" "'u ua_parts option"
  | DetermineProvider "string option" "'u ua_parts option" bool
  | AwaitDefaultModel "(ApiError, string) result option fut" "'u ua_parts option"
  | InitProxy "('u ua_parts \<times> string) option" InferenceProvider
  | Proxy "(unit, 'resp) result fut"

datatype 'r polled = PanicPoll | Pending | Ready 'r

datatype ('s, 'r) round = Continue 's | Return "'r polled" 's

text \<open>One request type: its model, and where compatibility mode sends it.\<close>

definition typed_request :: "('u, 'd) ua_env \<Rightarrow> string \<Rightarrow> string \<Rightarrow> (ApiError, string \<times> InferenceProvider) result" where
  "typed_request env path body =
     (let bad = InvalidRequest (IrInvalidRequestBody (ue_error_text env))
      in if path = ''images/generations'' then
           (case ue_image_request env body of
              None \<Rightarrow> Err bad
            | Some None \<Rightarrow> Err (InvalidRequest IrMissingModelId)
            | Some (Some i) \<Rightarrow> Ok (image_model_routing_name i, OpenAI))
         else if path = ''messages'' then map_sum id (\<lambda>m. (m, Anthropic)) (ok_or bad (ue_request_model env path body))
         else if path \<in> set [''chat/completions'', ''completions'', ''embeddings'', ''responses'']
         then map_sum id (\<lambda>m. (m, OpenAI)) (ok_or bad (ue_request_model env path body))
         else Err (InvalidRequest (IrNotFound path)))"

text \<open>What follows the default model: the redirect, the policy and the provider.\<close>

definition determine_target ::
  "('u, 'd) ua_env \<Rightarrow> 'u ua_parts \<Rightarrow> string \<Rightarrow> string \<Rightarrow> (ApiError, 'u ua_parts \<times> InferenceProvider) result" where
  "determine_target env parts path0 body =
     try_bind (apply_chat_completions_body_redirect_if_needed env path0 body parts) (\<lambda>(path, parts1).
       let allowed = Option.bind (up_auth parts1) ac_master_key_allowed_providers
       in try_bind (typed_request env path body) (\<lambda>(model, fallback).
            try_bind (if skip_model_access_custom_master_fallback env parts1 model then Ok ()
                      else map_sum of_access_error id (check_model_access (up_vk_policy parts1) model)) (\<lambda>_.
              try_bind (resolve_unified_target_provider (lc_calendar (ue_lc env)) (ue_compat env) fallback model allowed) (\<lambda>provider.
                Ok (parts1\<lparr>up_provider := Some provider\<rparr>, provider)))))"

text \<open>
  The outcome of the state \<open>DetermineProvider\<close>: a panic, an error, the wait for a default model, or a request for a provider.
\<close>

datatype 'u determined =
    DetPanic
  | DetError ApiError
  | DetDefault string string "'u AuthContext" "'u VkPolicy" "'u ua_parts"
  | DetRequest "'u ua_parts" string InferenceProvider

definition determine_provider :: "('u, 'd) ua_env \<Rightarrow> string \<Rightarrow> 'u ua_parts \<Rightarrow> bool \<Rightarrow> 'u determined" where
  "determine_provider env original_body parts pre_transformed =
     (case up_path_and_query parts of
        None \<Rightarrow> DetError (InternalE (IeExtensionNotFound ''PathAndQuery''))
      | Some pq \<Rightarrow>
          (case (if pre_transformed then Some (Ok (original_body, None))
                 else maybe_transform_unified_api_chat_request (ue_lc env) (up_headers parts) original_body) of
             None \<Rightarrow> DetPanic
           | Some (Inl e) \<Rightarrow> DetError (of_lc_error (ue_error_text env) e)
           | Some (Inr (body, decision)) \<Rightarrow>
               let parts1 = (case decision of None \<Rightarrow> parts | Some d \<Rightarrow> parts\<lparr>up_large_context := Some d\<rparr>)
               in if \<not> pre_transformed \<and> model_field_from_json_body (from_slice (ue_lc env)) body = None then
                    (case up_auth parts1 of
                       None \<Rightarrow> DetError (InvalidRequest IrNoModelAvailable)
                     | Some auth \<Rightarrow>
                         (case up_vk_policy parts1 of
                            None \<Rightarrow> DetError (InvalidRequest IrNoModelAvailable)
                          | Some vk \<Rightarrow> DetDefault (pq_path pq) body auth vk parts1))
                  else (case determine_target env parts1 (pq_path pq) body of
                          Inl e \<Rightarrow> DetError e
                        | Inr (parts2, provider) \<Rightarrow> DetRequest parts2 body provider)))"

text \<open>The proxy of a provider, or the one that carries a request to the base URL of a custom master key.\<close>

definition select_proxy ::
  "('u, 'd) ua_env \<Rightarrow> 'u ua_parts \<Rightarrow> InferenceProvider \<Rightarrow> (ApiError, 'u ua_parts \<times> InferenceProvider) result" where
  "select_proxy env parts provider =
     (if provider \<in> ue_proxies env then Ok (parts, provider)
      else if \<not> (case up_auth parts of None \<Rightarrow> False | Some auth \<Rightarrow> ac_is_custom_provider auth \<and> ac_master_key_base_url auth \<noteq> None)
      then Err (InvalidRequest (IrUnsupportedProvider provider))
      else
        let parts1 = parts\<lparr>up_master_key_passthrough := True\<rparr>
        in if Custom \<in> ue_proxies env then Ok (parts1, Custom)
           else if OpenAI \<in> ue_proxies env then Ok (parts1, OpenAI)
           else Err (InvalidRequest (IrUnsupportedProvider provider)))"

definition poll_fut :: "'r fut \<Rightarrow> 'r option \<times> 'r fut" where
  "poll_fut f = (case f of (0, r) \<Rightarrow> (Some r, f) | (Suc n, r) \<Rightarrow> (None, (n, r)))"

text \<open>
  One round of the loop in \<open>poll\<close>. \<open>delay\<close> is how long the default model takes, \<open>call\<close> the direct proxy of a provider
  with the request it is given.
\<close>

definition ua_round ::
  "('u, 'd) ua_env \<Rightarrow> nat \<Rightarrow> (InferenceProvider \<Rightarrow> 'u ua_parts \<Rightarrow> string \<Rightarrow> (unit, 'resp) result fut) \<Rightarrow> ('u, 'resp) ua_state
   \<Rightarrow> (('u, 'resp) ua_state, (ApiError, 'resp) result) round" where
  "ua_round env delay call st =
     (case st of
        CollectBody f parts \<Rightarrow>
          (case poll_fut f of
             (None, f') \<Rightarrow> Return Pending (CollectBody f' parts)
           | (Some (Inl e), f') \<Rightarrow> Return (Ready (Err (InternalE (IeCollectBodyError e)))) (CollectBody f' parts)
           | (Some (Inr bytes), f') \<Rightarrow>
               (case parts of
                  None \<Rightarrow> Return PanicPoll (CollectBody f' None)
                | Some p \<Rightarrow>
                    (case up_path_and_query p of
                       None \<Rightarrow> Return (Ready (Err (InternalE (IeExtensionNotFound ''PathAndQuery'')))) (CollectBody f' None)
                     | Some pq \<Rightarrow>
                         (case unified_api_try_from (pq_path pq) of
                            Inl e \<Rightarrow> Return (Ready (Err (InvalidRequest e))) (CollectBody f' None)
                          | Inr u \<Rightarrow> Continue (DetermineProvider (Some bytes) (Some (p\<lparr>up_api_endpoint := Some (unified_endpoint u)\<rparr>)) False)))))
      | AwaitDefaultModel f parts \<Rightarrow>
          (case poll_fut f of
             (None, f') \<Rightarrow> Return Pending (AwaitDefaultModel f' parts)
           | (Some None, f') \<Rightarrow> Return PanicPoll (AwaitDefaultModel f' parts)
           | (Some (Some (Inl e)), f') \<Rightarrow> Return (Ready (Err e)) (AwaitDefaultModel f' parts)
           | (Some (Some (Inr body)), f') \<Rightarrow>
               (case parts of
                  None \<Rightarrow> Return PanicPoll (AwaitDefaultModel f' None)
                | Some p \<Rightarrow>
                    let path = (case up_path_and_query p of Some pq \<Rightarrow> pq_path pq | None \<Rightarrow> []);
                        p' = (case implicit_default_model_fallback_context env path body of
                                Some m \<Rightarrow> p\<lparr>up_implicit_fallback := Some m\<rparr> | None \<Rightarrow> p)
                    in Continue (DetermineProvider (Some body) (Some p') True)))
      | DetermineProvider body parts pre \<Rightarrow>
          (case (body, parts) of
             (Some b, Some p) \<Rightarrow>
               (case determine_provider env b p pre of
                  DetPanic \<Rightarrow> Return PanicPoll (DetermineProvider None None pre)
                | DetError e \<Rightarrow> Return (Ready (Err e)) (DetermineProvider None None pre)
                | DetDefault path b' auth vk p' \<Rightarrow>
                    Continue (AwaitDefaultModel (delay, inject_default_model_into_body_unified env path b' auth vk) (Some p'))
                | DetRequest p' b' provider \<Rightarrow> Continue (InitProxy (Some (p', b')) provider))
           | _ \<Rightarrow> Return PanicPoll (DetermineProvider None None pre))
      | InitProxy request provider \<Rightarrow>
          (case request of
             None \<Rightarrow> Return PanicPoll (InitProxy None provider)
           | Some (p, b) \<Rightarrow>
               (case select_proxy env p provider of
                  Inl e \<Rightarrow> Return (Ready (Err e)) (InitProxy None provider)
                | Inr (p', carrier) \<Rightarrow> Continue (Proxy (call carrier p' b))))
      | Proxy f \<Rightarrow>
          (case poll_fut f of
             (None, f') \<Rightarrow> Return Pending (Proxy f')
           | (Some r, f') \<Rightarrow> Return (Ready (case r of Inr x \<Rightarrow> Ok x | Inl _ \<Rightarrow> Err (InternalE IeInternal))) (Proxy f')))"

text \<open>The loop ends: every round that continues comes nearer to the proxy.\<close>

definition state_rank :: "('u, 'resp) ua_state \<Rightarrow> nat" where
  "state_rank st = (case st of CollectBody _ _ \<Rightarrow> 5 | DetermineProvider _ _ pre \<Rightarrow> if pre then 2 else 4
     | AwaitDefaultModel _ _ \<Rightarrow> 3 | InitProxy _ _ \<Rightarrow> 1 | Proxy _ \<Rightarrow> 0)"

lemma determine_pre_no_default [simp]: "determine_provider env b p True = DetDefault path b' auth vk p' \<longleftrightarrow> False"
  by (auto simp: determine_provider_def Let_def split: option.splits sum.splits prod.splits)

lemma ua_round_rank: "ua_round env delay call st = Continue st' \<Longrightarrow> state_rank st' < state_rank st"
  by (auto simp: ua_round_def state_rank_def Let_def split: ua_state.splits option.splits sum.splits prod.splits determined.splits)

function ua_poll ::
  "('u, 'd) ua_env \<Rightarrow> nat \<Rightarrow> (InferenceProvider \<Rightarrow> 'u ua_parts \<Rightarrow> string \<Rightarrow> (unit, 'resp) result fut) \<Rightarrow> ('u, 'resp) ua_state
   \<Rightarrow> (ApiError, 'resp) result polled \<times> ('u, 'resp) ua_state" where
  "ua_poll env delay call st =
     (case ua_round env delay call st of Continue st' \<Rightarrow> ua_poll env delay call st' | Return r st' \<Rightarrow> (r, st'))"
  by pat_completeness auto

termination by (relation "measure (\<lambda>(env, delay, call, st). state_rank st)") (auto simp: ua_round_rank)

declare ua_poll.simps [simp del]

text \<open>Polling until the future is ready, with the number of polls as fuel.\<close>

fun ua_await ::
  "('u, 'd) ua_env \<Rightarrow> nat \<Rightarrow> (InferenceProvider \<Rightarrow> 'u ua_parts \<Rightarrow> string \<Rightarrow> (unit, 'resp) result fut) \<Rightarrow> nat \<Rightarrow> ('u, 'resp) ua_state
   \<Rightarrow> (ApiError, 'resp) result polled option" where
  "ua_await env delay call 0 st = None"
| "ua_await env delay call (Suc k) st =
     (case ua_poll env delay call st of (Pending, st') \<Rightarrow> ua_await env delay call k st' | (r, _) \<Rightarrow> Some r)"

subsection \<open>The sequential reading\<close>

text \<open>What a request comes to, read from top to bottom: a panic, an error, or the call of a proxy.\<close>

definition ua_second_pass ::
  "('u, 'd) ua_env \<Rightarrow> 'u ua_parts \<Rightarrow> string \<Rightarrow> (ApiError, 'u ua_parts \<times> string \<times> InferenceProvider) result option" where
  "ua_second_pass env parts body =
     (let path = (case up_path_and_query parts of Some pq \<Rightarrow> pq_path pq | None \<Rightarrow> []);
          parts' = (case implicit_default_model_fallback_context env path body of
             Some m \<Rightarrow> parts\<lparr>up_implicit_fallback := Some m\<rparr> | None \<Rightarrow> parts)
      in case determine_provider env body parts' True of
           DetError e \<Rightarrow> Some (Err e) | DetRequest p b provider \<Rightarrow> Some (Ok (p, b, provider)) | _ \<Rightarrow> None)"

definition ua_target ::
  "('u, 'd) ua_env \<Rightarrow> 'u ua_parts \<Rightarrow> string \<Rightarrow> (ApiError, 'u ua_parts \<times> string \<times> InferenceProvider) result option" where
  "ua_target env parts body =
     (case determine_provider env body parts False of
        DetPanic \<Rightarrow> None
      | DetError e \<Rightarrow> Some (Err e)
      | DetRequest p b provider \<Rightarrow> Some (Ok (p, b, provider))
      | DetDefault path b auth vk p \<Rightarrow>
          (case inject_default_model_into_body_unified env path b auth vk of
             None \<Rightarrow> None | Some (Inl e) \<Rightarrow> Some (Err e) | Some (Inr b') \<Rightarrow> ua_second_pass env p b'))"

definition ua_forward ::
  "('u, 'd) ua_env \<Rightarrow> 'u ua_parts \<Rightarrow> string \<Rightarrow> (ApiError, InferenceProvider \<times> 'u ua_parts \<times> string) result option" where
  "ua_forward env parts body =
     (case up_path_and_query parts of
        None \<Rightarrow> Some (Err (InternalE (IeExtensionNotFound ''PathAndQuery'')))
      | Some pq \<Rightarrow>
          (case unified_api_try_from (pq_path pq) of
             Inl e \<Rightarrow> Some (Err (InvalidRequest e))
           | Inr u \<Rightarrow>
               (case ua_target env (parts\<lparr>up_api_endpoint := Some (unified_endpoint u)\<rparr>) body of
                  None \<Rightarrow> None
                | Some (Inl e) \<Rightarrow> Some (Err e)
                | Some (Inr (p, b, provider)) \<Rightarrow>
                    Some (try_bind (select_proxy env p provider) (\<lambda>(p', carrier). Ok (carrier, p', b))))))"

definition ua_answer ::
  "('u, 'd) ua_env \<Rightarrow> (InferenceProvider \<Rightarrow> 'u ua_parts \<Rightarrow> string \<Rightarrow> (unit, 'resp) result fut) \<Rightarrow> 'u ua_parts \<Rightarrow> string
   \<Rightarrow> (ApiError, 'resp) result polled" where
  "ua_answer env call parts body =
     (case ua_forward env parts body of
        None \<Rightarrow> PanicPoll
      | Some (Inl e) \<Rightarrow> Ready (Err e)
      | Some (Inr (carrier, p, b)) \<Rightarrow> Ready (case snd (call carrier p b) of Inr x \<Rightarrow> Ok x | Inl _ \<Rightarrow> Err (InternalE IeInternal)))"

subsection \<open>The future does what the reading says\<close>

definition completes ::
  "('u, 'd) ua_env \<Rightarrow> nat \<Rightarrow> (InferenceProvider \<Rightarrow> 'u ua_parts \<Rightarrow> string \<Rightarrow> (unit, 'resp) result fut) \<Rightarrow> ('u, 'resp) ua_state
   \<Rightarrow> (ApiError, 'resp) result polled \<Rightarrow> bool" where
  "completes env delay call st r \<longleftrightarrow> (\<exists>k. \<forall>fuel \<ge> k. ua_await env delay call fuel st = Some r)"

lemma completes_Continue:
  assumes "ua_round env delay call st = Continue st'" and "completes env delay call st' r"
  shows "completes env delay call st r"
proof -
  have "ua_await env delay call (Suc k) st = ua_await env delay call (Suc k) st'" for k
    using assms(1) by (simp add: ua_poll.simps [of env delay call st])
  moreover from assms(2) obtain k where "\<forall>fuel \<ge> k. ua_await env delay call fuel st' = Some r" unfolding completes_def by blast
  ultimately have "\<forall>fuel \<ge> Suc k. ua_await env delay call fuel st = Some r" by (metis Suc_le_D Suc_leD)
  then show ?thesis unfolding completes_def by blast
qed

lemma completes_Pending:
  assumes "ua_round env delay call st = Return Pending st'" and "completes env delay call st' r"
  shows "completes env delay call st r"
proof -
  have "ua_await env delay call (Suc k) st = ua_await env delay call k st'" for k
    using assms(1) by (simp add: ua_poll.simps [of env delay call st])
  moreover from assms(2) obtain k where "\<forall>fuel \<ge> k. ua_await env delay call fuel st' = Some r" unfolding completes_def by blast
  ultimately have "\<forall>fuel \<ge> Suc k. ua_await env delay call fuel st = Some r" by (metis Suc_le_D Suc_le_mono)
  then show ?thesis unfolding completes_def by blast
qed

lemma completes_Return:
  assumes "ua_round env delay call st = Return r st'" and "r \<noteq> Pending"
  shows "completes env delay call st r"
proof -
  have "ua_await env delay call (Suc k) st = Some r" for k
    using assms by (cases r) (simp_all add: ua_poll.simps [of env delay call st])
  then have "\<forall>fuel \<ge> 1. ua_await env delay call fuel st = Some r" by (metis One_nat_def Suc_le_D)
  then show ?thesis unfolding completes_def by blast
qed

lemma completes_Proxy: "completes env delay call (Proxy (n, x)) (Ready (case x of Inr y \<Rightarrow> Ok y | Inl _ \<Rightarrow> Err (InternalE IeInternal)))"
proof (induction n)
  case 0
  show ?case by (rule completes_Return [where st' = "Proxy (0, x)"]) (simp_all add: ua_round_def poll_fut_def)
next
  case (Suc n)
  show ?case by (rule completes_Pending [OF _ Suc]) (simp add: ua_round_def poll_fut_def)
qed

lemma completes_InitProxy:
  "completes env delay call (InitProxy (Some (p, b)) provider)
     (case select_proxy env p provider of Inl e \<Rightarrow> Ready (Err e)
      | Inr (p', carrier) \<Rightarrow> Ready (case snd (call carrier p' b) of Inr y \<Rightarrow> Ok y | Inl _ \<Rightarrow> Err (InternalE IeInternal)))"
proof (cases "select_proxy env p provider")
  case (Inl e)
  then show ?thesis by (auto intro!: completes_Return [where st' = "InitProxy None provider"] simp: ua_round_def)
next
  case (Inr pc)
  obtain p' carrier where pc: "pc = (p', carrier)" by (cases pc)
  obtain n x where c: "call carrier p' b = (n, x)" by (cases "call carrier p' b")
  have "ua_round env delay call (InitProxy (Some (p, b)) provider) = Continue (Proxy (n, x))"
    using Inr pc c by (simp add: ua_round_def)
  from completes_Continue [OF this completes_Proxy] Inr pc c show ?thesis by simp
qed

text \<open>The answer from a target on.\<close>

definition target_answer ::
  "('u, 'd) ua_env \<Rightarrow> (InferenceProvider \<Rightarrow> 'u ua_parts \<Rightarrow> string \<Rightarrow> (unit, 'resp) result fut)
   \<Rightarrow> (ApiError, 'u ua_parts \<times> string \<times> InferenceProvider) result option \<Rightarrow> (ApiError, 'resp) result polled" where
  "target_answer env call t =
     (case t of None \<Rightarrow> PanicPoll | Some (Inl e) \<Rightarrow> Ready (Err e)
      | Some (Inr (p, b, provider)) \<Rightarrow>
          (case select_proxy env p provider of Inl e \<Rightarrow> Ready (Err e)
           | Inr (p', carrier) \<Rightarrow> Ready (case snd (call carrier p' b) of Inr y \<Rightarrow> Ok y | Inl _ \<Rightarrow> Err (InternalE IeInternal))))"

lemma completes_second_pass:
  assumes "p' = (case implicit_default_model_fallback_context env (case up_path_and_query p of Some pq \<Rightarrow> pq_path pq | None \<Rightarrow> []) b of
       Some m \<Rightarrow> p\<lparr>up_implicit_fallback := Some m\<rparr> | None \<Rightarrow> p)"
  shows "completes env delay call (DetermineProvider (Some b) (Some p') True) (target_answer env call (ua_second_pass env p b))"
proof (cases "determine_provider env b p' True")
  case (DetRequest p2 b2 provider)
  then have "ua_round env delay call (DetermineProvider (Some b) (Some p') True) = Continue (InitProxy (Some (p2, b2)) provider)"
    by (simp add: ua_round_def)
  from completes_Continue [OF this completes_InitProxy] DetRequest assms show ?thesis
    by (simp add: target_answer_def ua_second_pass_def Let_def)
qed (use assms in \<open>auto intro!: completes_Return [where st' = "DetermineProvider None None True"]
      simp: ua_round_def target_answer_def ua_second_pass_def Let_def\<close>)

lemma completes_AwaitDefaultModel:
  "completes env delay call (AwaitDefaultModel (n, x) (Some p))
     (target_answer env call (case x of None \<Rightarrow> None | Some (Inl e) \<Rightarrow> Some (Err e) | Some (Inr b) \<Rightarrow> ua_second_pass env p b))"
proof (induction n)
  case 0
  consider "x = None" | e where "x = Some (Inl e)" | b where "x = Some (Inr b)" by (cases x) (auto, metis sum.exhaust)
  then show ?case
  proof cases
    case (3 b)
    let ?p' = "case implicit_default_model_fallback_context env (case up_path_and_query p of Some pq \<Rightarrow> pq_path pq | None \<Rightarrow> []) b of
       Some m \<Rightarrow> p\<lparr>up_implicit_fallback := Some m\<rparr> | None \<Rightarrow> p"
    have "ua_round env delay call (AwaitDefaultModel (0, x) (Some p)) = Continue (DetermineProvider (Some b) (Some ?p') True)"
      using 3 by (simp add: ua_round_def poll_fut_def Let_def)
    from completes_Continue [OF this completes_second_pass [OF refl]] 3 show ?thesis by simp
  qed (auto intro!: completes_Return [where st' = "AwaitDefaultModel (0, x) (Some p)"] simp: ua_round_def poll_fut_def target_answer_def)
next
  case (Suc n)
  show ?case by (rule completes_Pending [OF _ Suc]) (simp add: ua_round_def poll_fut_def)
qed

lemma completes_first_pass:
  "completes env delay call (DetermineProvider (Some b) (Some p) False) (target_answer env call (ua_target env p b))"
proof (cases "determine_provider env b p False")
  case (DetRequest p2 b2 provider)
  then have "ua_round env delay call (DetermineProvider (Some b) (Some p) False) = Continue (InitProxy (Some (p2, b2)) provider)"
    by (simp add: ua_round_def)
  from completes_Continue [OF this completes_InitProxy] DetRequest show ?thesis by (simp add: target_answer_def ua_target_def)
next
  case (DetDefault path b' auth vk p')
  then have "ua_round env delay call (DetermineProvider (Some b) (Some p) False) =
      Continue (AwaitDefaultModel (delay, inject_default_model_into_body_unified env path b' auth vk) (Some p'))"
    by (simp add: ua_round_def)
  from completes_Continue [OF this completes_AwaitDefaultModel] DetDefault show ?thesis by (simp add: ua_target_def)
qed (auto intro!: completes_Return [where st' = "DetermineProvider None None False"] simp: ua_round_def target_answer_def ua_target_def)

lemma ua_answer_target:
  assumes "up_path_and_query parts = Some pq" and "unified_api_try_from (pq_path pq) = Inr u"
  shows "ua_answer env call parts body = target_answer env call (ua_target env (parts\<lparr>up_api_endpoint := Some (unified_endpoint u)\<rparr>) body)"
  using assms by (auto simp: ua_answer_def ua_forward_def target_answer_def try_bind_def split: option.splits sum.splits prod.splits)

text \<open>
  C32. The future of the unified API completes, and with the answer of the sequential reading. However often the body, the
  default model and the proxy are pending, enough polls bring the future to its end, and it is the error,
  the call of the proxy, or the panic that the steps read from top to bottom come to.
\<close>

theorem unified_future_completes:
  "\<exists>k. \<forall>fuel \<ge> k. ua_await env delay call fuel (CollectBody (n, collected) (Some parts)) =
     Some (case collected of Inl e \<Rightarrow> Ready (Err (InternalE (IeCollectBodyError e))) | Inr body \<Rightarrow> ua_answer env call parts body)"
proof -
  have "completes env delay call (CollectBody (n, collected) (Some parts))
      (case collected of Inl e \<Rightarrow> Ready (Err (InternalE (IeCollectBodyError e))) | Inr body \<Rightarrow> ua_answer env call parts body)"
  proof (induction n)
    case (Suc n)
    show ?case by (rule completes_Pending [OF _ Suc]) (simp add: ua_round_def poll_fut_def)
  next
    case 0
    show ?case
    proof (cases collected)
      case (Inl e)
      then show ?thesis by (auto intro!: completes_Return [where st' = "CollectBody (0, collected) (Some parts)"] simp: ua_round_def poll_fut_def)
    next
      case (Inr body)
      show ?thesis
      proof (cases "\<exists>pq u. up_path_and_query parts = Some pq \<and> unified_api_try_from (pq_path pq) = Inr u")
        case True
        then obtain pq u where pq: "up_path_and_query parts = Some pq" "unified_api_try_from (pq_path pq) = Inr u" by blast
        have "ua_round env delay call (CollectBody (0, collected) (Some parts)) =
            Continue (DetermineProvider (Some body) (Some (parts\<lparr>up_api_endpoint := Some (unified_endpoint u)\<rparr>)) False)"
          using pq Inr by (simp add: ua_round_def poll_fut_def)
        from completes_Continue [OF this completes_first_pass] Inr show ?thesis by (simp add: ua_answer_target [OF pq])
      next
        case False
        with Inr show ?thesis
          by (auto intro!: completes_Return [where st' = "CollectBody (0, collected) None"]
              simp: ua_round_def poll_fut_def ua_answer_def ua_forward_def split: option.splits sum.splits)
      qed
    qed
  qed
  then show ?thesis unfolding completes_def .
qed

subsection \<open>What is forwarded\<close>

lemma resolve_in_allowed:
  "resolve_unified_target_provider cal compat_mode fallback model (Some l) = Inr p \<Longrightarrow> l \<noteq> [] \<Longrightarrow> p \<in> set l"
  by (auto simp: resolve_unified_target_provider_def try_bind_def split: list.splits sum.splits if_splits)

lemma map_sum_id_Inr: "map_sum f id r = Inr x \<longleftrightarrow> r = Inr x"
  by (cases r) auto

lemma redirect_keeps:
  assumes "apply_chat_completions_body_redirect_if_needed env path body parts = Inr (path', parts')"
  shows "up_auth parts' = up_auth parts \<and> up_vk_policy parts' = up_vk_policy parts \<and> path' \<in> {path, ''responses''}"
  using assms by (auto simp: apply_chat_completions_body_redirect_if_needed_def Let_def split: option.splits if_splits)

text \<open>A custom master key whose model names a provider without a proxy: its requests go to its own base URL, unchecked.\<close>

definition custom_master_exception :: "('u, 'd) ua_env \<Rightarrow> 'u ua_parts \<Rightarrow> string \<Rightarrow> bool" where
  "custom_master_exception env parts model \<longleftrightarrow> \<not> ue_compat env
     \<and> (\<exists>auth p. up_auth parts = Some auth \<and> ac_is_custom_provider auth \<and> ac_master_key_base_url auth \<noteq> None
          \<and> provider_from_bare_model (lc_calendar (ue_lc env)) model = Inr p \<and> p \<notin> ue_proxies env)"

lemma skip_iff: "skip_model_access_custom_master_fallback env parts model \<longleftrightarrow> custom_master_exception env parts model"
  by (auto simp: skip_model_access_custom_master_fallback_def custom_master_exception_def split: option.splits sum.splits)

definition request_permitted :: "('u, 'd) ua_env \<Rightarrow> 'u ua_parts \<Rightarrow> string \<Rightarrow> string \<Rightarrow> InferenceProvider \<Rightarrow> bool" where
  "request_permitted env parts path b provider \<longleftrightarrow>
     (\<exists>path' model fallback. path' \<in> {path, ''responses''} \<and> typed_request env path' b = Inr (model, fallback)
        \<and> (custom_master_exception env parts model \<or> check_model_access (up_vk_policy parts) model = Inr ())
        \<and> (case Option.bind (up_auth parts) ac_master_key_allowed_providers of None \<Rightarrow> True
           | Some l \<Rightarrow> l = [] \<or> provider \<in> set l))"

lemma determine_target_permitted:
  assumes "determine_target env parts path b = Inr (p, provider)"
  shows "request_permitted env parts path b provider \<and> up_provider p = Some provider \<and> up_auth p = up_auth parts"
proof -
  from assms obtain path' parts1 model fallback where r: "apply_chat_completions_body_redirect_if_needed env path b parts = Inr (path', parts1)"
    "typed_request env path' b = Inr (model, fallback)"
    "skip_model_access_custom_master_fallback env parts1 model \<or> check_model_access (up_vk_policy parts1) model = Inr ()"
    "resolve_unified_target_provider (lc_calendar (ue_lc env)) (ue_compat env) fallback model
       (Option.bind (up_auth parts1) ac_master_key_allowed_providers) = Inr provider"
    "p = parts1\<lparr>up_provider := Some provider\<rparr>"
    unfolding determine_target_def
    by (auto simp: try_bind_def Let_def map_sum_id_Inr split: sum.splits prod.splits if_splits)
  note k = redirect_keeps [OF r(1)]
  have e: "custom_master_exception env parts1 = custom_master_exception env parts"
    using k by (intro ext) (simp add: custom_master_exception_def)
  have "case Option.bind (up_auth parts) ac_master_key_allowed_providers of None \<Rightarrow> True | Some l \<Rightarrow> l = [] \<or> provider \<in> set l"
    using r(4) k resolve_in_allowed by (fastforce split: option.splits)
  with r k e show ?thesis unfolding request_permitted_def skip_iff by auto
qed

lemma determine_provider_permitted:
  assumes "determine_provider env body parts pre = DetRequest p b provider"
  obtains pq where "up_path_and_query parts = Some pq" and "request_permitted env parts (pq_path pq) b provider"
    and "up_provider p = Some provider" and "up_auth p = up_auth parts"
proof -
  from assms obtain pq parts1 where d: "up_path_and_query parts = Some pq" "determine_target env parts1 (pq_path pq) b = Inr (p, provider)"
    "up_auth parts1 = up_auth parts" "up_vk_policy parts1 = up_vk_policy parts"
    unfolding determine_provider_def by (auto simp: Let_def split: option.splits sum.splits prod.splits if_splits)
  have "request_permitted env parts1 = request_permitted env parts"
    using d(3,4) by (intro ext) (simp add: request_permitted_def custom_master_exception_def)
  with that determine_target_permitted [OF d(2)] d show thesis by metis
qed

lemma transform_keeps:
  assumes "determine_provider env body parts False = DetDefault path b auth vk p"
  shows "up_path_and_query p = up_path_and_query parts \<and> up_auth p = up_auth parts \<and> up_vk_policy p = up_vk_policy parts
    \<and> up_auth parts = Some auth \<and> up_vk_policy parts = Some vk \<and> (\<exists>pq. up_path_and_query parts = Some pq \<and> path = pq_path pq)
    \<and> model_field_from_json_body (from_slice (ue_lc env)) b = None"
  using assms unfolding determine_provider_def by (auto simp: Let_def split: option.splits sum.splits prod.splits if_splits)

text \<open>
  C31. The unified API forwards only what is permitted. A request that reaches a proxy names a model that the policy of
  its virtual key allows (the model the deserialiser of its path reads from the very body that is sent), and goes to a
  provider of the list of its master key, if there is one. The only exception is a custom master key with a model
  of a provider without proxy. The proxy is that of the provider, or, for a custom master key with a base URL, the
  carrier for its requests, which are then marked.
\<close>

theorem unified_policy_enforced:
  assumes "ua_forward env parts body = Some (Inr (carrier, p, b))"
  shows "\<exists>pq provider. up_path_and_query parts = Some pq \<and> pq_path pq \<in> set inference_paths
    \<and> request_permitted env parts (pq_path pq) b provider \<and> up_provider p = Some provider
    \<and> (provider \<in> ue_proxies env \<and> carrier = provider
       \<or> provider \<notin> ue_proxies env \<and> carrier \<in> {Custom, OpenAI} \<inter> ue_proxies env \<and> up_master_key_passthrough p
         \<and> (\<exists>auth. up_auth parts = Some auth \<and> ac_is_custom_provider auth \<and> ac_master_key_base_url auth \<noteq> None))"
proof -
  from assms obtain pq u p1 provider where f: "up_path_and_query parts = Some pq" "unified_api_try_from (pq_path pq) = Inr u"
    "ua_target env (parts\<lparr>up_api_endpoint := Some (unified_endpoint u)\<rparr>) body = Some (Inr (p1, b, provider))"
    "select_proxy env p1 provider = Inr (p, carrier)"
    unfolding ua_forward_def by (auto simp: try_bind_def split: option.splits sum.splits prod.splits)
  let ?parts = "parts\<lparr>up_api_endpoint := Some (unified_endpoint u)\<rparr>"
  have t: "request_permitted env ?parts (pq_path pq) b provider \<and> up_provider p1 = Some provider \<and> up_auth p1 = up_auth parts"
  proof (cases "determine_provider env body ?parts False")
    case (DetRequest q b' pr)
    with f(3) show ?thesis using determine_provider_permitted [OF DetRequest] f(1) by (auto simp: ua_target_def)
  next
    case (DetDefault path b0 auth vk q)
    with f(3) obtain b1 where b1: "ua_second_pass env q b1 = Some (Inr (p1, b, provider))"
      by (auto simp: ua_target_def split: option.splits sum.splits)
    then obtain q' where q': "determine_provider env b1 q' True = DetRequest p1 b provider" "up_path_and_query q' = up_path_and_query q"
      "up_auth q' = up_auth q" "up_vk_policy q' = up_vk_policy q"
      by (auto simp: ua_second_pass_def Let_def split: option.splits determined.splits)
    note k = transform_keeps [OF DetDefault]
    have "request_permitted env q' = request_permitted env ?parts"
      using q' k by (intro ext) (simp add: request_permitted_def custom_master_exception_def)
    with determine_provider_permitted [OF q'(1)] q' k f(1) show ?thesis by (metis option.inject ua_parts.select_convs(2) ua_parts.ext_inject ua_parts.surjective ua_parts.update_convs(5) ua_parts.select_convs(3))
  qed (use f(3) in \<open>auto simp: ua_target_def\<close>)
  have "request_permitted env ?parts = request_permitted env parts" by (intro ext) (simp add: request_permitted_def custom_master_exception_def)
  moreover have "pq_path pq \<in> set inference_paths" using f(2) unified_api_known [of "pq_path pq"] by (simp add: is_ok_def)
  ultimately show ?thesis using t f(1,4)
    by (auto simp: select_proxy_def Let_def split: if_splits option.splits)
qed

text \<open>A request of a virtual key for the chat completions, through the proxy of OpenAI.\<close>

definition chat_env :: "(nat, string) ua_env" where
  "chat_env = \<lparr>ue_lc = sample_env\<lparr>from_slice := (\<lambda>s. if s = ''{}'' then Some (JObject [(''model'', JString ''gpt-4o'')])
       else if s = ''[]'' then Some (JArray []) else None)\<rparr>,
     ue_num = (\<lambda>_. None), ue_index = Map.empty,
     ue_store = Some \<lparr>overrides_by_department = (\<lambda>_ _. Inr None), overrides_for_virtual_key = (\<lambda>_ _. Inr None),
       overrides_workspace_default = (\<lambda>_. Inr None), policy_config_model_access = (\<lambda>_. Inr None),
       selection_info_batch = (\<lambda>_. Inr [(''openai'', ''gpt-4o'', Some (JObject [(''model_interaction_type'', JString ''chat'')]))])\<rparr>,
     ue_nil = 0, ue_compat = True, ue_proxies = {OpenAI}, ue_request_model = (\<lambda>_ _. Some ''gpt-4o''),
     ue_image_request = (\<lambda>_. None), ue_parse_pq = (\<lambda>_. None), ue_error_text = ''e''\<rparr>"

definition chat_auth :: "nat AuthContext" where
  "chat_auth = \<lparr>ac_api_key = ''k'', ac_user_id = 1, ac_org_id = 1, ac_virtual_key_id = Some 7, ac_virtual_key_prefix = [],
     ac_master_key_id = None, ac_master_key_base_url = None, ac_department_id = 0, ac_entity_type = ''member'', ac_entity_id = 1,
     ac_entity_name = [], ac_body_ttl_days = 7, ac_is_custom_provider = False, ac_master_key_allowed_providers = Some [OpenAI]\<rparr>"

definition chat_parts :: "nat ua_parts" where
  "chat_parts = \<lparr>up_headers = [], up_path_and_query = Some \<lparr>pq_path = ''chat/completions'', pq_query = None\<rparr>,
     up_auth = Some chat_auth,
     up_vk_policy = Some \<lparr>vk_virtual_key_id = 7, vk_allowed_models = Some [''openai/gpt-4o''], vk_blocked_models = Some [''o1'']\<rparr>,
     up_api_endpoint = None, up_responses_bridge = False, up_implicit_fallback = None, up_large_context = None,
     up_provider = None, up_master_key_passthrough = False\<rparr>"

lemma chat_forward:
  "ua_forward chat_env chat_parts ''{}'' = Some (Inr (OpenAI, chat_parts\<lparr>up_api_endpoint := Some (ApiOpenAI OaChatCompletions),
     up_provider := Some OpenAI\<rparr>, ''{}''))"
  by code_simp

theorem unified_future_completes_witness:
  "\<exists>k. ua_await chat_env 0 (\<lambda>_ _ _. (2, Inr (7 :: nat))) k (CollectBody (1, Inr ''{}'') (Some chat_parts)) = Some (Ready (Inr 7))"
proof -
  have "ua_answer chat_env (\<lambda>_ _ _. (2, Inr (7 :: nat))) chat_parts ''{}'' = Ready (Inr 7)"
    by (simp add: ua_answer_def chat_forward)
  with unified_future_completes [of chat_env 0 "\<lambda>_ _ _. (2, Inr (7 :: nat))" 1 "Inr ''{}''" chat_parts] show ?thesis by auto
qed

theorem unified_policy_enforced_witness:
  "\<exists>p :: nat ua_parts. ua_forward chat_env chat_parts ''{}'' = Some (Inr (OpenAI, p, ''{}''))
     \<and> request_permitted chat_env chat_parts ''chat/completions'' ''{}'' OpenAI \<and> up_provider p = Some OpenAI"
proof -
  from chat_forward obtain p where "ua_forward chat_env chat_parts ''{}'' = Some (Inr (OpenAI, p, ''{}''))" ..
  moreover have "up_path_and_query chat_parts = Some \<lparr>pq_path = ''chat/completions'', pq_query = None\<rparr>"
    "up_auth chat_parts = Some chat_auth" "ac_master_key_base_url chat_auth = None" "ue_proxies chat_env = {OpenAI}"
    by (simp_all add: chat_parts_def chat_env_def chat_auth_def)
  ultimately show ?thesis using unified_policy_enforced [of chat_env chat_parts "''{}''" OpenAI p "''{}''"] by auto
qed

text \<open>
  C33. A body without a model that is no object ends the request in a panic. When such a body is JSON (an array, a number, a
  string or a boolean) and a default model is found for its virtual key, the model is assigned to the member
  \<open>model\<close> of the value, which panics: the client gets the answer of the panic handler, not an
  invalid-request error.
\<close>

theorem default_model_panics:
  assumes "up_path_and_query parts = Some pq" and "unified_api_try_from (pq_path pq) = Inr u"
    and "parse_large_context_headers (up_headers parts) = Inr h" and "lc_handler h = None"
    and "up_auth parts = Some auth" and "up_vk_policy parts = Some vk"
    and "from_slice (ue_lc env) body = Some v" and "v \<noteq> JNull" and "as_object v = None"
    and "choose_default_gateway_model (ue_num env) (ue_index env) (ue_store env) (ue_nil env) (pq_path pq) (ac_org_id auth)
      (ac_department_id auth) vk = Some (Inr m)"
  shows "ua_forward env parts body = None \<and> ua_answer env call parts body = PanicPoll"
proof -
  have n: "model_field_from_json_body (from_slice (ue_lc env)) body = None"
    using assms(7,9) by (simp add: model_field_from_json_body_def)
  have i: "index_insert k x v = None" for k x
    using assms(8,9) by (cases v) (simp_all add: index_insert_def)
  have "inject_default_model_into_body_unified env (pq_path pq) body auth vk = None"
    by (simp add: inject_default_model_into_body_unified_def n assms i)
  then have "ua_target env (parts\<lparr>up_api_endpoint := Some (unified_endpoint u)\<rparr>) body = None"
    by (simp add: ua_target_def determine_provider_def maybe_transform_unified_api_chat_request_def assms n)
  then show ?thesis by (simp add: ua_forward_def ua_answer_def assms)
qed

theorem default_model_panics_witness:
  "from_slice (ue_lc chat_env) ''[]'' = Some (JArray []) \<and> ua_forward chat_env chat_parts ''[]'' = None"
proof -
  have p: "up_path_and_query chat_parts = Some \<lparr>pq_path = ''chat/completions'', pq_query = None\<rparr>"
    "up_auth chat_parts = Some chat_auth"
    "up_vk_policy chat_parts = Some \<lparr>vk_virtual_key_id = 7, vk_allowed_models = Some [''openai/gpt-4o''], vk_blocked_models = Some [''o1'']\<rparr>"
    "parse_large_context_headers (up_headers chat_parts) = Inr \<lparr>lc_handler = None, lc_model_override = None\<rparr>"
    by (simp_all add: chat_parts_def) code_simp
  have u: "unified_api_try_from (pq_path \<lparr>pq_path = ''chat/completions'', pq_query = None\<rparr>) = Inr UaChatCompletions" by code_simp
  have v: "from_slice (ue_lc chat_env) ''[]'' = Some (JArray [])" by (simp add: chat_env_def)
  let ?vk = "\<lparr>vk_virtual_key_id = 7, vk_allowed_models = Some [''openai/gpt-4o''], vk_blocked_models = Some [''o1'']\<rparr> :: nat VkPolicy"
  have ids: "resolve_model_id_list (the (ue_store chat_env)) 0 1 ?vk 0 = Inr [''openai/gpt-4o'']"
    "expand_policy_model_list Map.empty [''openai/gpt-4o''] = [''openai/gpt-4o'']"
    "resolve_scored_gateway_models (ue_num chat_env) (the (ue_store chat_env)) ''chat/completions'' ?vk [''openai/gpt-4o'']
       = Inr [\<lparr>gateway_model = ''openai/gpt-4o'', sc_provider_code = ''openai'', price_sum = Fin 0\<rparr>]"
    by code_simp+
  have best: "pick_best_scored_gateway_model [\<lparr>gateway_model = ''openai/gpt-4o'', sc_provider_code = ''openai'', price_sum = Fin 0\<rparr>] None = Some (Some ''openai/gpt-4o'')"
    by (simp add: pick_best_scored_gateway_model_def pick_greatest_by_price_and_name_def max_price_def nearly_refl)
  have env: "ue_index chat_env = Map.empty" "ue_store chat_env = Some (the (ue_store chat_env))" "ue_nil chat_env = 0"
    "ac_org_id chat_auth = 1" "ac_department_id chat_auth = 0"
    by (simp_all add: chat_env_def chat_auth_def)
  have "choose_default_gateway_model (ue_num chat_env) (ue_index chat_env) (ue_store chat_env) (ue_nil chat_env)
      (pq_path \<lparr>pq_path = ''chat/completions'', pq_query = None\<rparr>) (ac_org_id chat_auth) (ac_department_id chat_auth) ?vk
      = Some (Inr ''openai/gpt-4o'')"
    unfolding choose_default_gateway_model_def choose_default_gateway_model_excluding_provider_def
    by (subst env(2)) (simp add: env(1,3,4,5) ids best Let_def del: One_nat_def)
  from default_model_panics [OF p(1) u p(4) _ p(2,3) v _ _ this, where call = "\<lambda>_ _ _. (0, Inr ())"] v show ?thesis by simp
qed

end
