(* ===== verification/Security_Plugins.thy ===== *)
theory Security_Plugins
  imports Json Unicode_Text "HOL-Library.Multiset"
begin

text \<open>
  The security plugins (\<open>plugin/mod.rs\<close>, \<open>plugin/builtins.rs\<close>, \<open>plugin/loader.rs\<close>, \<open>config/security_plugin.rs\<close>) and the
  middleware that runs them on every request and answer (\<open>middleware/security.rs\<close>).

  A plugin is a trait object: a record of its methods. The JSON parser and printer (\<open>from_str\<close>, \<open>to_string\<close> of \<open>serde_json\<close>)
  and the Unicode tables behind \<open>str::to_lowercase\<close> are arguments, collected in \<open>sec_env\<close>, as is the registry of
  third-party plugins. Collecting a body gives its bytes or an error text.
\<close>

subsection \<open>Text\<close>

text \<open>\<open>String::from_utf8_lossy\<close>: every maximal prefix of a sequence that is not UTF-8 becomes one U+FFFD.\<close>

definition second_ok :: "nat \<Rightarrow> nat \<Rightarrow> bool" where
  "second_ok n m \<longleftrightarrow>
     (if n = 0xE0 then 0xA0 \<le> m \<and> m \<le> 0xBF
      else if n = 0xED then 0x80 \<le> m \<and> m \<le> 0x9F
      else if n = 0xF0 then 0x90 \<le> m \<and> m \<le> 0xBF
      else if n = 0xF4 then 0x80 \<le> m \<and> m \<le> 0x8F
      else 0x80 \<le> m \<and> m \<le> 0xBF)"

definition utf8_width :: "nat \<Rightarrow> nat" where
  "utf8_width n = (if n < 0x80 then 1 else if n < 0xC2 then 0 else if n < 0xE0 then 2 else if n < 0xF0 then 3
     else if n < 0xF5 then 4 else 0)"

definition cont_ok :: "nat \<Rightarrow> bool" where
  "cont_ok m \<longleftrightarrow> 0x80 \<le> m \<and> m \<le> 0xBF"

text \<open>How many bytes after the lead byte belong to its sequence.\<close>

definition utf8_tail :: "nat \<Rightarrow> nat list \<Rightarrow> nat" where
  "utf8_tail n ms =
     (case ms of [] \<Rightarrow> 0
      | m # ms' \<Rightarrow> if utf8_width n < 2 \<or> \<not> second_ok n m then 0
          else 1 + length (takeWhile cont_ok (take (utf8_width n - 2) ms')))"

definition replacement :: string where
  "replacement = map char_of [0xEF :: nat, 0xBF, 0xBD]"

function from_utf8_lossy :: "string \<Rightarrow> string" where
  "from_utf8_lossy [] = []"
| "from_utf8_lossy (b # bs) =
     (let n = of_char b; k = utf8_tail n (map of_char bs)
      in (if k + 1 = utf8_width n then b # take k bs else replacement) @ from_utf8_lossy (drop k bs))"
  by pat_completeness auto

termination by (relation "measure length") auto

text \<open>\<open>str::contains\<close>.\<close>

fun str_contains :: "string \<Rightarrow> string \<Rightarrow> bool" where
  "str_contains p [] \<longleftrightarrow> p = []"
| "str_contains p (c # cs) \<longleftrightarrow> strip_prefix p (c # cs) \<noteq> None \<or> str_contains p cs"

subsection \<open>Plugins\<close>

record SecurityContext =
  virtual_key_id :: string
  sc_provider :: string
  request_body :: string
  workspace_id :: "string option"

record ResponseData =
  rd_body :: string
  rd_sensitive :: bool

datatype SecurityError =
    SensitiveDataDetected string
  | AccessDenied string
  | SecConfigError string
  | SecInternalError string

definition security_error_display :: "SecurityError \<Rightarrow> string" where
  "security_error_display e =
     (case e of SensitiveDataDetected s \<Rightarrow> ''sensitive data detected: '' @ s
      | AccessDenied s \<Rightarrow> ''access denied: '' @ s
      | SecConfigError s \<Rightarrow> ''plugin configuration error: '' @ s
      | SecInternalError s \<Rightarrow> ''internal plugin error: '' @ s)"

datatype SensitivityLevel = Public | Sensitive | Confidential

definition requires_masking :: "SensitivityLevel \<Rightarrow> bool" where
  "requires_masking l \<longleftrightarrow> l = Sensitive \<or> l = Confidential"

definition must_not_persist :: "SensitivityLevel \<Rightarrow> bool" where
  "must_not_persist l \<longleftrightarrow> l = Confidential"

record SecurityPlugin =
  plugin_name :: string
  plugin_priority :: int
  plugin_check_request :: "SecurityContext \<Rightarrow> (SecurityError, unit) result"
  plugin_mask_response :: "ResponseData \<Rightarrow> (SecurityError, ResponseData) result"

record sec_env =
  to_lowercase :: "string \<Rightarrow> string"
  se_from_str :: "string \<Rightarrow> json option"
  se_to_string :: "json \<Rightarrow> string option"

definition default_for_field :: "(string \<Rightarrow> string) \<Rightarrow> string \<Rightarrow> SensitivityLevel" where
  "default_for_field lower field =
     (let l = lower field
      in if l \<in> set [''password'', ''token'', ''secret'', ''api_key'', ''apikey'', ''private_key''] then Confidential
         else if l \<in> set [''phone'', ''tel'', ''mobile'', ''email'', ''id_card'', ''idcard'', ''passport'', ''ssn''] then Sensitive
         else if l \<in> set [''bank_account'', ''bankaccount'', ''credit_card'', ''creditcard'', ''card_number''] then Confidential
         else if l \<in> set [''medical'', ''health'', ''legal'', ''court''] then Sensitive
         else Public)"

text \<open>The registry of third-party plugins.\<close>

type_synonym plugin_registry = "string \<rightharpoonup> SecurityPlugin"

definition register_plugin :: "string \<Rightarrow> SecurityPlugin \<Rightarrow> plugin_registry \<Rightarrow> plugin_registry" where
  "register_plugin name plugin registry = registry(name \<mapsto> plugin)"

definition get_plugin :: "plugin_registry \<Rightarrow> string \<Rightarrow> SecurityPlugin option" where
  "get_plugin registry name = registry name"

subsubsection \<open>No operation\<close>

definition NoOpSecurityPlugin :: SecurityPlugin where
  "NoOpSecurityPlugin = \<lparr>plugin_name = ''noop'', plugin_priority = 2147483647, plugin_check_request = (\<lambda>_. Ok ()),
     plugin_mask_response = Ok\<rparr>"

subsubsection \<open>Detector\<close>

record SensitiveDataDetectorConfig =
  dc_fields :: "string list"
  dc_patterns :: "string list"
  dc_field_levels :: "string set"

definition detector_config_default :: SensitiveDataDetectorConfig where
  "detector_config_default = \<lparr>dc_fields = [''password'', ''token'', ''secret'', ''api_key'', ''apikey'', ''phone'', ''tel'', ''mobile'',
       ''email'', ''id_card'', ''idcard'', ''passport'', ''ssn'', ''bank_account'', ''bankaccount'', ''credit_card'', ''creditcard'',
       ''card_number''],
     dc_patterns = [], dc_field_levels = {}\<rparr>"

definition quote :: string where "quote = [CHR 0x22]"

definition key_pattern :: "string \<Rightarrow> string" where
  "key_pattern field = quote @ field @ quote @ '':''"

fun check_fields :: "sec_env \<Rightarrow> string set \<Rightarrow> string \<Rightarrow> string list \<Rightarrow> (SecurityError, unit) result" where
  "check_fields env levels body_str [] = Ok ()"
| "check_fields env levels body_str (field # fs) =
     (if str_contains (key_pattern (to_lowercase env field)) (to_lowercase env body_str)
         \<and> must_not_persist (if field \<in> levels then Confidential else default_for_field (to_lowercase env) field)
      then Err (SensitiveDataDetected (''confidential field detected: '' @ field))
      else check_fields env levels body_str fs)"

definition check_json_for_sensitive :: "sec_env \<Rightarrow> SensitiveDataDetectorConfig \<Rightarrow> string \<Rightarrow> (SecurityError, unit) result" where
  "check_json_for_sensitive env config body = check_fields env (dc_field_levels config) (from_utf8_lossy body) (dc_fields config)"

definition masked_value :: json where
  "masked_value = JString ''***MASKED***''"

fun mask_json_value :: "string \<Rightarrow> json \<Rightarrow> json" where
  "mask_json_value field (JObject kvs) =
     JObject (map (\<lambda>(k, v). (k, if eq_ignore_ascii_case k field then masked_value else mask_json_value field v)) kvs)"
| "mask_json_value field (JArray items) = JArray (map (mask_json_value field) items)"
| "mask_json_value field v = v"

definition mask_json_string_field :: "sec_env \<Rightarrow> string \<Rightarrow> string \<Rightarrow> string" where
  "mask_json_string_field env input field =
     (case se_from_str env input of
        None \<Rightarrow> input
      | Some v \<Rightarrow> (case se_to_string env (mask_json_value field v) of Some s \<Rightarrow> s | None \<Rightarrow> input))"

definition mask_sensitive_json :: "sec_env \<Rightarrow> string \<Rightarrow> string list \<Rightarrow> string" where
  "mask_sensitive_json env body fs = foldl (mask_json_string_field env) (from_utf8_lossy body) fs"

definition SensitiveDataDetector :: "sec_env \<Rightarrow> SensitiveDataDetectorConfig \<Rightarrow> SecurityPlugin" where
  "SensitiveDataDetector env config = \<lparr>plugin_name = ''sensitive_data_detector'', plugin_priority = 10,
     plugin_check_request = (\<lambda>ctx. if request_body ctx = [] then Ok () else check_json_for_sensitive env config (request_body ctx)),
     plugin_mask_response = (\<lambda>data. if rd_body data = [] then Ok data
       else Ok (data\<lparr>rd_body := mask_sensitive_json env (rd_body data) (dc_fields config)\<rparr>))\<rparr>"

subsubsection \<open>Classifier\<close>

record DataClassifierConfig =
  min_level :: SensitivityLevel
  confidential_fields :: "string list"

definition classifier_config_default :: DataClassifierConfig where
  "classifier_config_default = \<lparr>min_level = Public, confidential_fields = []\<rparr>"

definition classify_request :: "sec_env \<Rightarrow> SecurityContext \<Rightarrow> DataClassifierConfig \<Rightarrow> SensitivityLevel" where
  "classify_request env ctx config =
     (let lower = to_lowercase env (from_utf8_lossy (request_body ctx));
          has = (\<lambda>field. str_contains (quote @ field @ quote @ '':'' @ quote) lower)
      in if list_ex (\<lambda>field. let field = to_lowercase env field
              in str_contains (key_pattern field) lower \<or> str_contains (key_pattern field @ '' '') lower) (confidential_fields config)
         then Confidential
         else if list_ex has [''password'', ''secret'', ''token'', ''api_key'', ''private_key''] then Confidential
         else if list_ex has [''phone'', ''email'', ''id_card'', ''ssn'', ''passport''] then Sensitive
         else if list_ex has [''bank_account'', ''credit_card'', ''card_number''] then Confidential
         else let level = Public
              in if requires_masking level \<or> min_level config = Public then level else min_level config)"

definition is_likely_sensitive :: "sec_env \<Rightarrow> string \<Rightarrow> bool" where
  "is_likely_sensitive env body =
     (let lower = to_lowercase env (from_utf8_lossy body)
      in list_ex (\<lambda>i. str_contains i lower) [''email'', ''phone'', ''address'', ''ssn'', ''account''])"

definition DataClassifier :: "sec_env \<Rightarrow> DataClassifierConfig \<Rightarrow> SecurityPlugin" where
  "DataClassifier env config = \<lparr>plugin_name = ''data_classifier'', plugin_priority = 20,
     plugin_check_request = (\<lambda>ctx. let level = classify_request env ctx config in Ok ()),
     plugin_mask_response = (\<lambda>data. if is_likely_sensitive env (rd_body data) then Ok (data\<lparr>rd_sensitive := True\<rparr>) else Ok data)\<rparr>"

subsection \<open>The loader\<close>

datatype toml =
    TomlString string
  | TomlInteger int
  | TomlFloat string
  | TomlBoolean bool
  | TomlDatetime string
  | TomlArray "toml list"
  | TomlTable "(string \<times> toml) list"

definition toml_get :: "string \<Rightarrow> toml \<Rightarrow> toml option" where
  "toml_get k v = (case v of TomlTable kvs \<Rightarrow> map_of kvs k | _ \<Rightarrow> None)"

definition toml_as_array :: "toml \<Rightarrow> toml list option" where
  "toml_as_array v = (case v of TomlArray l \<Rightarrow> Some l | _ \<Rightarrow> None)"

definition toml_as_str :: "toml \<Rightarrow> string option" where
  "toml_as_str v = (case v of TomlString s \<Rightarrow> Some s | _ \<Rightarrow> None)"

definition toml_strings :: "string \<Rightarrow> toml \<Rightarrow> string list option" where
  "toml_strings k v = map_option (List.map_filter toml_as_str) (Option.bind (toml_get k v) toml_as_array)"

definition detector_config_try_from :: "toml \<Rightarrow> (string, SensitiveDataDetectorConfig) result" where
  "detector_config_try_from v =
     (let c0 = detector_config_default;
          c1 = (case toml_strings ''fields'' v of Some l \<Rightarrow> c0\<lparr>dc_fields := l\<rparr> | None \<Rightarrow> c0);
          c2 = (case toml_strings ''patterns'' v of Some l \<Rightarrow> c1\<lparr>dc_patterns := l\<rparr> | None \<Rightarrow> c1)
      in Ok c2)"

definition classifier_config_try_from :: "toml \<Rightarrow> (string, DataClassifierConfig) result" where
  "classifier_config_try_from v =
     (let c0 = classifier_config_default;
          c1 = (case toml_strings ''confidential_fields'' v of Some l \<Rightarrow> c0\<lparr>confidential_fields := l\<rparr> | None \<Rightarrow> c0);
          c2 = (case Option.bind (toml_get ''min_level'' v) toml_as_str of
                  None \<Rightarrow> c1
                | Some l \<Rightarrow> c1\<lparr>min_level := (if l = ''public'' then Public else if l = ''sensitive'' then Sensitive
                    else if l = ''confidential'' then Confidential else Public)\<rparr>)
      in Ok c2)"

definition create_plugin :: "sec_env \<Rightarrow> plugin_registry \<Rightarrow> string \<Rightarrow> toml option \<Rightarrow> (SecurityError, SecurityPlugin) result" where
  "create_plugin env registry name config =
     (if name = ''noop'' then Ok NoOpSecurityPlugin
      else if name = ''sensitive_data_detector'' then
        try_bind (case config of
            None \<Rightarrow> Ok detector_config_default
          | Some c \<Rightarrow> if c = TomlTable [] then Ok detector_config_default
              else map_sum (\<lambda>e. SecConfigError (''sensitive_data_detector: '' @ e)) id (detector_config_try_from c))
          (\<lambda>c. Ok (SensitiveDataDetector env c))
      else if name = ''data_classifier'' then
        try_bind (case config of
            None \<Rightarrow> Ok classifier_config_default
          | Some c \<Rightarrow> if c = TomlTable [] then Ok classifier_config_default
              else map_sum (\<lambda>e. SecConfigError (''data_classifier: '' @ e)) id (classifier_config_try_from c))
          (\<lambda>c. Ok (DataClassifier env c))
      else ok_or (SecConfigError (''plugin not found: '' @ name)) (get_plugin registry name))"

record PluginConfig =
  pc_name :: string
  pc_enabled :: bool
  pc_priority :: "int option"
  pc_config :: "toml option"

record LoadedPlugin =
  lp_plugin :: SecurityPlugin
  lp_priority :: int

fun load_plugins :: "sec_env \<Rightarrow> plugin_registry \<Rightarrow> PluginConfig list \<Rightarrow> (SecurityError, LoadedPlugin list) result" where
  "load_plugins env registry [] = Ok []"
| "load_plugins env registry (c # cs) =
     (if \<not> pc_enabled c then load_plugins env registry cs
      else try_bind (create_plugin env registry (pc_name c) (pc_config c)) (\<lambda>plugin.
        try_bind (load_plugins env registry cs) (\<lambda>ps.
          Ok (\<lparr>lp_plugin = plugin, lp_priority = (case pc_priority c of Some p \<Rightarrow> p | None \<Rightarrow> plugin_priority plugin)\<rparr> # ps))))"

definition loader_from_config :: "sec_env \<Rightarrow> plugin_registry \<Rightarrow> PluginConfig list \<Rightarrow> (SecurityError, LoadedPlugin list) result" where
  "loader_from_config env registry cs = try_bind (load_plugins env registry cs) (\<lambda>ps. Ok (sort_key lp_priority ps))"

fun loader_check_request :: "LoadedPlugin list \<Rightarrow> SecurityContext \<Rightarrow> (SecurityError, unit) result" where
  "loader_check_request [] ctx = Ok ()"
| "loader_check_request (l # ls) ctx = try_bind (plugin_check_request (lp_plugin l) ctx) (\<lambda>_. loader_check_request ls ctx)"

fun loader_mask_response :: "LoadedPlugin list \<Rightarrow> ResponseData \<Rightarrow> (SecurityError, ResponseData) result" where
  "loader_mask_response [] data = Ok data"
| "loader_mask_response (l # ls) data = try_bind (plugin_mask_response (lp_plugin l) data) (loader_mask_response ls)"

definition plugin_names :: "LoadedPlugin list \<Rightarrow> string list" where
  "plugin_names ls = map (plugin_name \<circ> lp_plugin) ls"

text \<open>The configuration of the gateway: the global section, else that of the unified API; without one the layer has no plugins.\<close>

record SecurityPluginConfiguration =
  spc_enabled :: bool
  spc_plugins :: "PluginConfig list"

definition to_loader_config :: "SecurityPluginConfiguration \<Rightarrow> PluginConfig list option" where
  "to_loader_config c = (if \<not> spc_enabled c then None else Some (spc_plugins c))"

definition security_layer ::
  "sec_env \<Rightarrow> plugin_registry \<Rightarrow> SecurityPluginConfiguration option \<Rightarrow> SecurityPluginConfiguration option
   \<Rightarrow> (string, LoadedPlugin list) result" where
  "security_layer env registry global unified =
     (case (case global of None \<Rightarrow> unified | Some c \<Rightarrow> Some c) of
        None \<Rightarrow> Ok []
      | Some c \<Rightarrow> (case to_loader_config c of
            None \<Rightarrow> Ok []
          | Some cs \<Rightarrow> map_sum security_error_display id (loader_from_config env registry cs)))"

subsection \<open>The middleware\<close>

record sec_request =
  sq_path :: string
  sq_headers :: headers
  sq_string_ext :: "string option"
  sq_body :: "(string, string) result"

record sec_response =
  sr_status :: nat
  sr_headers :: headers
  sr_body :: "(string, string) result"

definition MAX_SECURITY_BODY_SIZE :: nat where
  "MAX_SECURITY_BODY_SIZE = 10 * 1024 * 1024"

definition build_context :: "sec_request \<Rightarrow> string \<Rightarrow> SecurityContext" where
  "build_context req b =
     (let segment = find (\<lambda>s. s \<noteq> []) (split_on CHR ''/'' (sq_path req));
          provider = (case sq_string_ext req of Some s \<Rightarrow> s | None \<Rightarrow> (case segment of Some s \<Rightarrow> s | None \<Rightarrow> ''unknown''));
          vk = (case sq_string_ext req of Some s \<Rightarrow> s | None \<Rightarrow> ''unknown'')
      in \<lparr>virtual_key_id = vk, sc_provider = provider, request_body = b, workspace_id = None\<rparr>)"

definition collect_limited_body :: "(string, string) result \<Rightarrow> (string, string) result" where
  "collect_limited_body b =
     (case b of Inl e \<Rightarrow> Err (''body collection failed: '' @ e)
      | Inr bytes \<Rightarrow> Ok (if length bytes > MAX_SECURITY_BODY_SIZE then take MAX_SECURITY_BODY_SIZE bytes else bytes))"

definition plain_response :: "nat \<Rightarrow> string \<Rightarrow> sec_response" where
  "plain_response status text = \<lparr>sr_status = status, sr_headers = [], sr_body = Inr text\<rparr>"

definition security_call ::
  "LoadedPlugin list \<Rightarrow> (sec_request \<Rightarrow> ('e, sec_response) result) \<Rightarrow> sec_request \<Rightarrow> ('e, sec_response) result" where
  "security_call loader inner req0 =
     (case collect_limited_body (sq_body req0) of
        Inl e \<Rightarrow> Ok (plain_response 400 (''security request body read failed: '' @ e))
      | Inr bytes \<Rightarrow>
          let req = req0\<lparr>sq_body := Inr bytes\<rparr>
          in case loader_check_request loader (build_context req bytes) of
               Inl e \<Rightarrow> Ok (plain_response 403 (''security check failed: '' @ security_error_display e))
             | Inr _ \<Rightarrow>
                 try_bind (inner req) (\<lambda>res.
                   case collect_limited_body (sr_body res) of
                     Inl e \<Rightarrow> Ok (plain_response 500 (''security response body read failed: '' @ e))
                   | Inr response_bytes \<Rightarrow>
                       (case loader_mask_response loader \<lparr>rd_body = response_bytes, rd_sensitive = False\<rparr> of
                          Inl e \<Rightarrow> Ok (plain_response 500 (''security response masking failed: '' @ security_error_display e))
                        | Inr data \<Rightarrow>
                            Ok (res\<lparr>sr_headers := filter (\<lambda>(k, _). k \<noteq> ''content-length'') (sr_headers res),
                                    sr_body := Inr (rd_body data)\<rparr>))))"

subsection \<open>Lossy decoding is idempotent\<close>

lemma utf8_tail_le: "utf8_tail n ms \<le> length ms"
proof (cases ms)
  case (Cons m ms')
  have "length (takeWhile cont_ok (take j ms')) \<le> length ms'" for j
    by (rule order_trans [OF length_takeWhile_le]) simp
  then show ?thesis using Cons by (simp add: utf8_tail_def)
qed (simp add: utf8_tail_def)

lemma utf8_tail_prefix:
  assumes "utf8_tail n ms + 1 = utf8_width n"
  shows "utf8_tail n (take (utf8_tail n ms) ms @ r) = utf8_tail n ms"
proof (cases "utf8_tail n ms")
  case 0
  with assms have "utf8_width n = 1" by simp
  then show ?thesis using 0 by (simp add: utf8_tail_def split: list.splits)
next
  case (Suc k)
  then obtain m ms' where ms: "ms = m # ms'" "2 \<le> utf8_width n" "second_ok n m"
    "k = length (takeWhile cont_ok (take (utf8_width n - 2) ms'))"
    by (cases ms) (auto simp: utf8_tail_def split: if_splits)
  with assms Suc have k: "utf8_width n - 2 = k" by simp
  have tw: "length (takeWhile cont_ok (take k ms')) = k" using ms(4) k by simp
  then have len: "length (take k ms') = k" using length_takeWhile_le [of cont_ok "take k ms'"] by simp
  have "take (Suc k) ms @ r = m # (take k ms' @ r)" using ms(1) by simp
  moreover have "take k (take k ms' @ r) = take k ms'" using len by simp
  ultimately have "utf8_tail n (take (Suc k) ms @ r) = Suc k" using ms(2,3) k tw len by (simp add: utf8_tail_def)
  then show ?thesis using Suc by simp
qed

lemma lossy_replacement: "from_utf8_lossy (replacement @ r) = replacement @ from_utf8_lossy r"
  by (simp add: replacement_def utf8_tail_def utf8_width_def second_ok_def cont_ok_def Let_def)

lemma lossy_sequence:
  assumes "utf8_tail (of_char b) (map of_char bs) = k" and "k + 1 = utf8_width (of_char b)"
  shows "from_utf8_lossy ((b # take k bs) @ r) = (b # take k bs) @ from_utf8_lossy r"
proof -
  have "k \<le> length bs" using utf8_tail_le [of "of_char b" "map of_char bs"] assms(1) by simp
  then have l: "take k (take k bs @ r) = take k bs" "drop k (take k bs @ r) = r" by simp_all
  have "utf8_tail (of_char b) (map of_char (take k bs @ r)) = k"
    using utf8_tail_prefix [of "of_char b" "map of_char bs" "map of_char r"] assms by (simp add: take_map)
  then show ?thesis using assms(2) l by (simp add: Let_def)
qed

lemma lossy_idem [simp]: "from_utf8_lossy (from_utf8_lossy s) = from_utf8_lossy s"
proof (induction s rule: from_utf8_lossy.induct)
  case (2 b bs)
  let ?n = "of_char b :: nat" and ?k = "utf8_tail (of_char b) (map of_char bs)"
  have ih: "from_utf8_lossy (from_utf8_lossy (drop ?k bs)) = from_utf8_lossy (drop ?k bs)" using 2 by simp
  show ?case
  proof (cases "?k + 1 = utf8_width ?n")
    case True
    then have "from_utf8_lossy (b # bs) = (b # take ?k bs) @ from_utf8_lossy (drop ?k bs)" by (simp add: Let_def)
    with lossy_sequence [OF refl True] ih show ?thesis by metis
  next
    case False
    then have "from_utf8_lossy (b # bs) = replacement @ from_utf8_lossy (drop ?k bs)" by (simp add: Let_def)
    with lossy_replacement ih show ?thesis by metis
  qed
qed simp

subsection \<open>Masking\<close>

text \<open>No member of this name, in any spelling and at any depth, has a value other than the mask.\<close>

fun masked :: "string \<Rightarrow> json \<Rightarrow> bool" where
  "masked field (JObject kvs) \<longleftrightarrow>
     list_all (\<lambda>(k, v). if eq_ignore_ascii_case k field then v = masked_value else masked field v) kvs"
| "masked field (JArray items) \<longleftrightarrow> list_all (masked field) items"
| "masked field v \<longleftrightarrow> True"

lemma masked_mask: "masked field (mask_json_value field v)"
  by (induction field v rule: mask_json_value.induct) (auto simp: list_all_iff)

lemma masked_masked_value [simp]: "masked field masked_value"
  by (simp add: masked_value_def)

lemma mask_masked_value [simp]: "mask_json_value field masked_value = masked_value"
  by (simp add: masked_value_def)

lemma masked_mask_other: "masked field v \<Longrightarrow> masked field (mask_json_value other v)"
proof (induction other v rule: mask_json_value.induct)
  case (1 other kvs)
  have "if eq_ignore_ascii_case k field then (if eq_ignore_ascii_case k other then masked_value else mask_json_value other v) = masked_value
      else masked field (if eq_ignore_ascii_case k other then masked_value else mask_json_value other v)" if "(k, v) \<in> set kvs" for k v
    using 1 that by (fastforce simp: list_all_iff)
  then show ?case by (fastforce simp: list_all_iff)
qed (auto simp: list_all_iff)

text \<open>A text that a reader takes as JSON is masked.\<close>

definition masked_text :: "sec_env \<Rightarrow> string \<Rightarrow> string \<Rightarrow> bool" where
  "masked_text env field b \<longleftrightarrow> (case se_from_str env (from_utf8_lossy b) of None \<Rightarrow> True | Some v \<Rightarrow> masked field v)"

text \<open>
  What is relied on of the JSON library, for the values it holds (\<open>lib\<close>: their members are distinct and in its order, their
  strings UTF-8 and their numbers as it prints them): reading yields such values, they stay such when the value of a
  member becomes a string, they are printed, in UTF-8, and read back. The empty text is not JSON. This is exact but for
  fractional numbers, of which the library, built without exact round trips, may read back another last digit.
\<close>

definition json_codec :: "sec_env \<Rightarrow> (json \<Rightarrow> bool) \<Rightarrow> bool" where
  "json_codec env lib \<longleftrightarrow> se_from_str env [] = None
     \<and> (\<forall>s v. se_from_str env s = Some v \<longrightarrow> lib v)
     \<and> (\<forall>field v. lib v \<longrightarrow> lib (mask_json_value field v))
     \<and> (\<forall>v. lib v \<longrightarrow> (\<exists>s. se_to_string env v = Some s \<and> se_from_str env s = Some v \<and> from_utf8_lossy s = s))"

lemma mask_string_field_text:
  fixes field :: string
  assumes "json_codec env lib" and "from_utf8_lossy b = b"
  defines "r \<equiv> mask_json_string_field env b field"
  shows "from_utf8_lossy r = r" and "masked_text env field r" and "masked_text env other b \<Longrightarrow> masked_text env other r"
proof -
  have *: "from_utf8_lossy r = r \<and> masked_text env field r \<and> (masked_text env other b \<longrightarrow> masked_text env other r)"
  proof (cases "se_from_str env b")
    case (Some v)
    from assms(1) Some obtain s where s: "se_to_string env (mask_json_value field v) = Some s"
      "se_from_str env s = Some (mask_json_value field v)" "from_utf8_lossy s = s"
      unfolding json_codec_def by blast
    with Some show ?thesis
      using assms(2) by (simp add: r_def mask_json_string_field_def masked_text_def masked_mask masked_mask_other)
  qed (use assms(2) in \<open>simp add: r_def mask_json_string_field_def masked_text_def\<close>)
  then show "from_utf8_lossy r = r" "masked_text env field r" "masked_text env other b \<Longrightarrow> masked_text env other r" by blast+
qed

lemma mask_fields_text:
  assumes "json_codec env lib" and "from_utf8_lossy b = b" and "masked_text env field b \<or> field \<in> set fs"
  shows "masked_text env field (foldl (mask_json_string_field env) b fs)"
  using assms(2,3)
proof (induction fs arbitrary: b)
  case (Cons f fs)
  note m = mask_string_field_text [OF assms(1) Cons.prems(1), where field = f]
  have "masked_text env field (mask_json_string_field env b f) \<or> field \<in> set fs"
    using Cons.prems(2) m(2) m(3) [where other = field] by auto
  with Cons.IH [OF m(1)] show ?case by simp
qed simp

lemma masked_text_lossy [simp]: "masked_text env field (from_utf8_lossy b) \<longleftrightarrow> masked_text env field b"
  by (simp add: masked_text_def)

text \<open>
  The contract of a plugin towards the fields that others have masked: it never brings a value back.
\<close>

locale masking_plugin =
  fixes env :: sec_env and field :: string and plugin :: SecurityPlugin
  assumes keeps: "masked_text env field (rd_body d) \<Longrightarrow> plugin_mask_response plugin d = Inr d' \<Longrightarrow> masked_text env field (rd_body d')"

interpretation noop: masking_plugin env field NoOpSecurityPlugin
  by unfold_locales (simp add: NoOpSecurityPlugin_def)

interpretation classifier: masking_plugin env field "DataClassifier env config"
  by unfold_locales (auto simp: DataClassifier_def split: if_splits)

lemma detector_masking_plugin: "json_codec env lib \<Longrightarrow> masking_plugin env field (SensitiveDataDetector env config)"
  by unfold_locales (auto simp: SensitiveDataDetector_def mask_sensitive_json_def intro!: mask_fields_text split: if_splits)

lemma detector_masks:
  assumes "json_codec env lib" and "field \<in> set (dc_fields config)" and "plugin_mask_response (SensitiveDataDetector env config) d = Inr d'"
  shows "masked_text env field (rd_body d')"
  using assms mask_fields_text [of env lib "from_utf8_lossy (rd_body d)" field "dc_fields config"]
  by (auto simp: SensitiveDataDetector_def mask_sensitive_json_def masked_text_def json_codec_def split: if_splits)

lemma loader_keeps_masked:
  assumes "\<forall>l \<in> set ls. masking_plugin env field (lp_plugin l)" and "loader_mask_response ls d = Inr d'" and "masked_text env field (rd_body d)"
  shows "masked_text env field (rd_body d')"
  using assms
proof (induction ls arbitrary: d)
  case (Cons l ls)
  from Cons.prems(2) obtain d1 where d1: "plugin_mask_response (lp_plugin l) d = Inr d1" "loader_mask_response ls d1 = Inr d'"
    by (auto simp: try_bind_def split: sum.splits)
  have "masked_text env field (rd_body d1)" using masking_plugin.keeps [OF _ Cons.prems(3) d1(1)] Cons.prems(1) by simp
  with Cons.IH d1(2) Cons.prems(1) show ?case by simp
qed simp

lemma loader_masks:
  assumes "json_codec env lib" and "\<forall>l \<in> set ls. masking_plugin env field (lp_plugin l)"
    and "l \<in> set ls" and "lp_plugin l = SensitiveDataDetector env config" and "field \<in> set (dc_fields config)"
    and "loader_mask_response ls d = Inr d'"
  shows "masked_text env field (rd_body d')"
  using assms(2,3,6)
proof (induction ls arbitrary: d)
  case (Cons a ls)
  from Cons.prems(3) obtain d1 where d1: "plugin_mask_response (lp_plugin a) d = Inr d1" "loader_mask_response ls d1 = Inr d'"
    by (auto simp: try_bind_def split: sum.splits)
  show ?case
  proof (cases "a = l")
    case True
    with detector_masks [OF assms(1,5)] assms(4) d1(1) have "masked_text env field (rd_body d1)" by simp
    with loader_keeps_masked [OF _ d1(2)] Cons.prems(1) show ?thesis by simp
  qed (use Cons d1 in auto)
qed simp

subsection \<open>Loading\<close>

definition plugin_known :: "plugin_registry \<Rightarrow> string \<Rightarrow> bool" where
  "plugin_known registry name \<longleftrightarrow> name \<in> set [''noop'', ''sensitive_data_detector'', ''data_classifier''] \<or> name \<in> dom registry"

lemma create_plugin_cases:
  "create_plugin env registry name config =
     (if plugin_known registry name then Inr (projr (create_plugin env registry name config))
      else Inl (SecConfigError (''plugin not found: '' @ name)))"
  by (auto simp: create_plugin_def plugin_known_def get_plugin_def ok_or_def try_bind_def detector_config_try_from_def
      classifier_config_try_from_def Let_def split: option.splits)

definition loaded_plugin :: "sec_env \<Rightarrow> plugin_registry \<Rightarrow> PluginConfig \<Rightarrow> LoadedPlugin" where
  "loaded_plugin env registry c =
     (let plugin = projr (create_plugin env registry (pc_name c) (pc_config c))
      in \<lparr>lp_plugin = plugin, lp_priority = (case pc_priority c of Some p \<Rightarrow> p | None \<Rightarrow> plugin_priority plugin)\<rparr>)"

lemma load_plugins_eq:
  "load_plugins env registry cs =
     (case find (\<lambda>c. pc_enabled c \<and> \<not> plugin_known registry (pc_name c)) cs of
        Some c \<Rightarrow> Inl (SecConfigError (''plugin not found: '' @ pc_name c))
      | None \<Rightarrow> Inr (map (loaded_plugin env registry) (filter pc_enabled cs)))"
proof (induction cs)
  case (Cons c cs)
  show ?case
  proof (cases "plugin_known registry (pc_name c)")
    case True
    then obtain pl where "create_plugin env registry (pc_name c) (pc_config c) = Inr pl" using create_plugin_cases by metis
    with True Cons show ?thesis by (simp add: try_bind_def loaded_plugin_def Let_def split: option.splits)
  next
    case False
    then have "create_plugin env registry (pc_name c) (pc_config c) = Inl (SecConfigError (''plugin not found: '' @ pc_name c))"
      using create_plugin_cases by metis
    with False Cons show ?thesis by (simp add: try_bind_def split: option.splits)
  qed
qed simp

text \<open>
  C35. The loader takes the enabled plugins in the order of their priorities. It fails exactly if an enabled name is
  neither built in nor registered, with the first such name. Otherwise it holds every enabled plugin
  once, sorted by priority (that of the configuration, else that of the plugin), and plugins of equal priority in the order
  of the configuration; a request passes exactly if it passes all of them, and otherwise fails with the error of the first.
\<close>

theorem plugin_loader_exact:
  "case loader_from_config env registry cs of
     Inl e \<Rightarrow> (\<exists>c. find (\<lambda>c. pc_enabled c \<and> \<not> plugin_known registry (pc_name c)) cs = Some c
       \<and> e = SecConfigError (''plugin not found: '' @ pc_name c))
   | Inr ls \<Rightarrow> find (\<lambda>c. pc_enabled c \<and> \<not> plugin_known registry (pc_name c)) cs = None
       \<and> mset ls = mset (map (loaded_plugin env registry) (filter pc_enabled cs)) \<and> sorted (map lp_priority ls)
       \<and> (\<forall>k. filter (\<lambda>l. lp_priority l = k) ls =
             filter (\<lambda>l. lp_priority l = k) (map (loaded_plugin env registry) (filter pc_enabled cs)))
       \<and> (\<forall>ctx. loader_check_request ls ctx =
             (case find (\<lambda>l. \<not> is_ok (plugin_check_request (lp_plugin l) ctx)) ls of
                None \<Rightarrow> Ok () | Some l \<Rightarrow> plugin_check_request (lp_plugin l) ctx))"
proof -
  have check: "loader_check_request ls ctx =
      (case find (\<lambda>l. \<not> is_ok (plugin_check_request (lp_plugin l) ctx)) ls of
         None \<Rightarrow> Ok () | Some l \<Rightarrow> plugin_check_request (lp_plugin l) ctx)" for ls ctx
    by (induction ls) (auto simp: try_bind_def is_ok_def split: sum.splits)
  show ?thesis
    unfolding loader_from_config_def load_plugins_eq
    by (auto simp: try_bind_def check sort_key_stable split: option.splits)
qed

subsection \<open>Masked answers\<close>

lemma builtin_masking_plugin:
  assumes "json_codec env lib" and "plugin_known registry name" and "\<forall>p \<in> ran registry. masking_plugin env field p"
  shows "masking_plugin env field (projr (create_plugin env registry name config))"
  using assms noop.masking_plugin_axioms classifier.masking_plugin_axioms detector_masking_plugin [OF assms(1)]
  by (auto simp: create_plugin_def plugin_known_def get_plugin_def ok_or_def try_bind_def detector_config_try_from_def
      classifier_config_try_from_def Let_def ran_def split: option.splits)

text \<open>
  C34. A detector in the configuration masks every answer. Whatever other plugins are loaded, in whatever order, as long as
  they keep what is masked: an answer that leaves the middleware is one of its own error texts, or a text
  in which, if it is JSON at all, no member with a name of the detector's fields, at any depth and in any ASCII case, has
  another value than the mask.
\<close>

theorem masking_complete:
  assumes "json_codec env lib" and "\<forall>p \<in> ran registry. masking_plugin env field p"
    and "loader_from_config env registry cs = Inr loader"
    and "c \<in> set cs" and "pc_enabled c"
    and "create_plugin env registry (pc_name c) (pc_config c) = Inr (SensitiveDataDetector env config)"
    and "field \<in> set (dc_fields config)"
    and "security_call loader inner req = Inr res"
  shows "(\<exists>status text. status \<in> {400, 403, 500} \<and> res = plain_response status (''security '' @ text))
    \<or> (\<exists>b. sr_body res = Inr b \<and> masked_text env field b)"
proof -
  from assms(3) have f: "find (\<lambda>c. pc_enabled c \<and> \<not> plugin_known registry (pc_name c)) cs = None"
    and ls: "set loader = loaded_plugin env registry ` {c \<in> set cs. pc_enabled c}"
    unfolding loader_from_config_def load_plugins_eq by (auto simp: try_bind_def split: option.splits)
  have keep: "\<forall>l \<in> set loader. masking_plugin env field (lp_plugin l)"
    using ls f builtin_masking_plugin [OF assms(1) _ assms(2)]
    by (auto simp: loaded_plugin_def Let_def find_None_iff)
  have l: "loaded_plugin env registry c \<in> set loader" using ls assms(4,5) by auto
  have d: "lp_plugin (loaded_plugin env registry c) = SensitiveDataDetector env config"
    using assms(6) by (simp add: loaded_plugin_def Let_def)
  show ?thesis
    using assms(8) loader_masks [OF assms(1) keep l d assms(7)]
    by (fastforce simp: security_call_def try_bind_def Let_def split: sum.splits)
qed

text \<open>A JSON library of two values: an object with a password, and the same masked.\<close>

definition two_values :: sec_env where
  "two_values = \<lparr>to_lowercase = to_ascii_lowercase,
     se_from_str = (\<lambda>s. if s = ''{pw}'' then Some (JObject [(''Password'', JString ''x'')])
       else if s = ''{}'' then Some (JObject [(''Password'', masked_value)]) else None),
     se_to_string = (\<lambda>v. if v = JObject [(''Password'', masked_value)] then Some ''{}'' else Some ''{pw}'')\<rparr>"

lemma two_values_codec:
  "json_codec two_values (\<lambda>v. v = JObject [(''Password'', JString ''x'')] \<or> v = JObject [(''Password'', masked_value)])"
proof -
  have l: "from_utf8_lossy ''{pw}'' = ''{pw}''" "from_utf8_lossy ''{}'' = ''{}''" by code_simp+
  show ?thesis
    using l unfolding json_codec_def two_values_def by (auto simp: masked_value_def)
qed

definition detector_entry :: PluginConfig where
  "detector_entry = \<lparr>pc_name = ''sensitive_data_detector'', pc_enabled = True, pc_priority = None, pc_config = None\<rparr>"

theorem masking_complete_witness:
  "security_call [\<lparr>lp_plugin = SensitiveDataDetector two_values detector_config_default, lp_priority = 10\<rparr>]
     (\<lambda>_. Inr \<lparr>sr_status = 200, sr_headers = [(''content-length'', ''4'')], sr_body = Inr ''{pw}''\<rparr> :: (unit, sec_response) result)
     \<lparr>sq_path = ''/v1'', sq_headers = [], sq_string_ext = None, sq_body = Inr []\<rparr>
     = Inr \<lparr>sr_status = 200, sr_headers = [], sr_body = Inr ''{}''\<rparr> \<and> masked_text two_values ''password'' ''{}''"
proof -
  let ?l = "[\<lparr>lp_plugin = SensitiveDataDetector two_values detector_config_default, lp_priority = 10\<rparr>]"
  have c: "create_plugin two_values Map.empty (pc_name detector_entry) (pc_config detector_entry)
      = Inr (SensitiveDataDetector two_values detector_config_default)"
    by (simp add: create_plugin_def detector_entry_def try_bind_def)
  have l: "loader_from_config two_values Map.empty [detector_entry] = Inr ?l"
    using c by (simp add: loader_from_config_def try_bind_def) (simp add: detector_entry_def SensitiveDataDetector_def)
  have m: "mask_sensitive_json two_values ''{pw}'' (dc_fields detector_config_default) = ''{}''" by code_simp
  have r: "security_call ?l (\<lambda>_. Inr \<lparr>sr_status = 200, sr_headers = [(''content-length'', ''4'')], sr_body = Inr ''{pw}''\<rparr> :: (unit, sec_response) result)
      \<lparr>sq_path = ''/v1'', sq_headers = [], sq_string_ext = None, sq_body = Inr []\<rparr>
      = Inr \<lparr>sr_status = 200, sr_headers = [], sr_body = Inr ''{}''\<rparr>"
    using m by (simp add: security_call_def collect_limited_body_def MAX_SECURITY_BODY_SIZE_def build_context_def try_bind_def
        SensitiveDataDetector_def Let_def)
  have "''password'' \<in> set (dc_fields detector_config_default)" by (simp add: detector_config_default_def)
  from masking_complete [OF two_values_codec _ l _ _ c this r] r show ?thesis
    by (simp add: detector_entry_def plain_response_def)
qed

text \<open>
  C36. Bodies are cut after ten megabytes, and an answer that is then no JSON is not masked. With any plugins, also
  without any, a request is forwarded without its bytes beyond the limit. Of an answer only the bytes up to the limit leave
  the middleware; if they are not JSON, as in the case of a cut object, the plugins of the gateway return them as they
  came, with the values that the complete answer would not have shown. The cut is taken to fall on the boundary of a character;
  otherwise the broken character is replaced too.
\<close>

theorem oversized_bodies_cut_unmasked:
  assumes "loader_from_config env Map.empty cs = Inr loader"
    and "sq_body req = Inr request"
    and "loader_check_request loader (build_context req (take MAX_SECURITY_BODY_SIZE request)) = Inr ()"
    and "inner (req\<lparr>sq_body := Inr (take MAX_SECURITY_BODY_SIZE request)\<rparr>) = Inr res"
    and "sr_body res = Inr b"
    and "from_utf8_lossy (take MAX_SECURITY_BODY_SIZE b) = take MAX_SECURITY_BODY_SIZE b"
    and "se_from_str env (take MAX_SECURITY_BODY_SIZE b) = None"
  shows "security_call loader inner req = Inr (res\<lparr>sr_headers := filter (\<lambda>(k, _). k \<noteq> ''content-length'') (sr_headers res),
    sr_body := Inr (take MAX_SECURITY_BODY_SIZE b)\<rparr>)"
proof -
  let ?t = "take MAX_SECURITY_BODY_SIZE b"
  have id: "mask_sensitive_json env ?t fs = ?t" for fs
  proof -
    have "foldl (mask_json_string_field env) ?t fs = ?t"
      using assms(7) by (induction fs) (simp_all add: mask_json_string_field_def)
    then show ?thesis using assms(6) by (simp add: mask_sensitive_json_def)
  qed
  have plugin: "\<exists>s'. plugin_mask_response (projr (create_plugin env Map.empty name config)) \<lparr>rd_body = ?t, rd_sensitive = s\<rparr>
      = Inr \<lparr>rd_body = ?t, rd_sensitive = s'\<rparr>" if "plugin_known Map.empty name" for name config s
    using that id by (auto simp: create_plugin_def plugin_known_def try_bind_def NoOpSecurityPlugin_def SensitiveDataDetector_def
        DataClassifier_def detector_config_try_from_def classifier_config_try_from_def Let_def split: option.splits)
  have run: "\<exists>s'. loader_mask_response ls \<lparr>rd_body = ?t, rd_sensitive = s\<rparr> = Inr \<lparr>rd_body = ?t, rd_sensitive = s'\<rparr>"
    if "\<forall>l \<in> set ls. \<exists>name config. plugin_known Map.empty name \<and> lp_plugin l = projr (create_plugin env Map.empty name config)" for ls s
    using that
  proof (induction ls arbitrary: s)
    case (Cons l ls)
    then obtain name config where l: "plugin_known Map.empty name" "lp_plugin l = projr (create_plugin env Map.empty name config)" by auto
    from plugin [OF l(1), of config s] l(2) obtain s1 where
      "plugin_mask_response (lp_plugin l) \<lparr>rd_body = ?t, rd_sensitive = s\<rparr> = Inr \<lparr>rd_body = ?t, rd_sensitive = s1\<rparr>" by auto
    with Cons.IH [of s1] Cons.prems show ?case by (simp add: try_bind_def)
  qed simp
  have "\<forall>l \<in> set loader. \<exists>name config. plugin_known Map.empty name \<and> lp_plugin l = projr (create_plugin env Map.empty name config)"
    using assms(1) unfolding loader_from_config_def load_plugins_eq
    by (auto simp: try_bind_def loaded_plugin_def Let_def find_None_iff split: option.splits) (metis)
  from run [OF this, of False] obtain s where "loader_mask_response loader \<lparr>rd_body = ?t, rd_sensitive = False\<rparr> = Inr \<lparr>rd_body = ?t, rd_sensitive = s\<rparr>" by blast
  moreover have "build_context (req\<lparr>sq_body := Inr x\<rparr>) y = build_context req y" for x y by (simp add: build_context_def)
  moreover have "collect_limited_body (Inr x) = Inr (take MAX_SECURITY_BODY_SIZE x)" for x by (simp add: collect_limited_body_def)
  ultimately show ?thesis using assms(2-5) by (simp add: security_call_def try_bind_def Let_def)
qed

lemma lossy_replicate: "from_utf8_lossy (replicate n CHR ''a'') = replicate n CHR ''a''"
  by (induction n) (simp_all add: utf8_tail_def utf8_width_def Let_def split: list.splits)

theorem oversized_bodies_cut_unmasked_witness:
  "security_call [\<lparr>lp_plugin = SensitiveDataDetector two_values detector_config_default, lp_priority = 10\<rparr>]
     (\<lambda>_. Inr \<lparr>sr_status = 200, sr_headers = [], sr_body = Inr (replicate (10 * 1024 * 1024 + 1) CHR ''a'')\<rparr> :: (unit, sec_response) result)
     \<lparr>sq_path = ''/v1'', sq_headers = [], sq_string_ext = None, sq_body = Inr []\<rparr>
     = Inr \<lparr>sr_status = 200, sr_headers = [], sr_body = Inr (replicate (10 * 1024 * 1024) CHR ''a'')\<rparr>"
proof -
  let ?l = "[\<lparr>lp_plugin = SensitiveDataDetector two_values detector_config_default, lp_priority = 10\<rparr>]"
  have l: "loader_from_config two_values Map.empty [detector_entry] = Inr ?l"
    by (simp add: loader_from_config_def try_bind_def create_plugin_def detector_entry_def SensitiveDataDetector_def)
  have t: "take MAX_SECURITY_BODY_SIZE (replicate (10 * 1024 * 1024 + 1) CHR ''a'') = replicate MAX_SECURITY_BODY_SIZE CHR ''a''"
    by (simp add: MAX_SECURITY_BODY_SIZE_def take_replicate)
  have n: "se_from_str two_values (replicate MAX_SECURITY_BODY_SIZE CHR ''a'') = None"
  proof -
    have "replicate MAX_SECURITY_BODY_SIZE CHR ''a'' \<noteq> s" if "length s < 5" for s
      using that by (auto simp: MAX_SECURITY_BODY_SIZE_def simp del: replicate.simps)
    from this [of "''{pw}''"] this [of "''{}''"] show ?thesis by (simp add: two_values_def)
  qed
  from oversized_bodies_cut_unmasked [OF l, of "\<lparr>sq_path = ''/v1'', sq_headers = [], sq_string_ext = None, sq_body = Inr []\<rparr>" "[]"
      "\<lambda>_. Inr \<lparr>sr_status = 200, sr_headers = [], sr_body = Inr (replicate (10 * 1024 * 1024 + 1) CHR ''a'')\<rparr>"
      "\<lparr>sr_status = 200, sr_headers = [], sr_body = Inr (replicate (10 * 1024 * 1024 + 1) CHR ''a'')\<rparr>"
      "replicate (10 * 1024 * 1024 + 1) CHR ''a''", unfolded t] n lossy_replicate
  show ?thesis by (simp add: try_bind_def SensitiveDataDetector_def build_context_def MAX_SECURITY_BODY_SIZE_def)
qed

end
