(* ===== verification/Prompt_Templates.thy ===== *)
theory Prompt_Templates
  imports Gateway_Errors Large_Context Chat_Normalize
begin

text \<open>
  Prompt templates (\<open>middleware/prompts/templating.rs\<close>, \<open>middleware/prompts/service.rs\<close>): variables \<open>{{name}}\<close> and
  \<open>{{hc:name:type}}\<close> in the messages, the response format and the tools of a chat are replaced by the inputs of the request.

  The two regular expressions are matched by hand on the bytes of the text: their parts are separated by characters that
  the part before them cannot contain, so the longest match of a part is the only one. \<open>Value::to_string\<close> is the argument \<open>render\<close>.
\<close>

subsection \<open>Variables in a text\<close>

text \<open>\<open>\s*\<close>: the white space of Unicode, decoded byte by byte.\<close>

definition lead_width :: "char \<Rightarrow> nat" where
  "lead_width b = (let n = (of_char b :: nat) in if n < 128 then 1 else if n < 224 then 2 else if n < 240 then 3 else 4)"

lemma lead_width_pos [simp]: "0 < lead_width b"
  by (simp add: lead_width_def Let_def)

function drop_ws :: "string \<Rightarrow> string" where
  "drop_ws [] = []"
| "drop_ws (b # bs) =
     (if is_whitespace (hd (str_chars (take (lead_width b) (b # bs)))) then drop_ws (drop (lead_width b) (b # bs)) else b # bs)"
  by pat_completeness auto

termination by (relation "measure length") auto

lemma drop_ws_ascii:
  "(of_char b :: nat) < 128 \<Longrightarrow> drop_ws (b # bs) = (if is_whitespace (of_char b) then drop_ws bs else b # bs)"
  by (simp add: lead_width_def)

declare drop_ws.simps(2) [simp del]

definition ident_start :: "char \<Rightarrow> bool" where
  "ident_start c \<longleftrightarrow> (let n = (of_char c :: nat) in 97 \<le> n \<and> n \<le> 122 \<or> 65 \<le> n \<and> n \<le> 90) \<or> c = CHR ''_'' \<or> c = CHR ''-''"

definition ident_char :: "char \<Rightarrow> bool" where
  "ident_char c \<longleftrightarrow> ident_start c \<or> (let n = (of_char c :: nat) in 48 \<le> n \<and> n \<le> 57)"

definition take_ident :: "string \<Rightarrow> (string \<times> string) option" where
  "take_ident s = (if s \<noteq> [] \<and> ident_start (hd s) then Some (takeWhile ident_char s, dropWhile ident_char s) else None)"

text \<open>A match at the beginning of a text: the captures and what follows it.\<close>

definition match_legacy :: "string \<Rightarrow> (string \<times> string) option" where
  "match_legacy s =
     Option.bind (strip_prefix ''{{'' s) (\<lambda>s1.
     Option.bind (take_ident (drop_ws s1)) (\<lambda>(name, s2).
     map_option (\<lambda>r. (name, r)) (strip_prefix ''}}'' (drop_ws s2))))"

definition match_typed :: "string \<Rightarrow> ((string \<times> string) \<times> string) option" where
  "match_typed s =
     Option.bind (strip_prefix ''{{'' s) (\<lambda>s1.
     Option.bind (strip_prefix ''hc'' (drop_ws s1)) (\<lambda>s2.
     Option.bind (strip_prefix '':'' (drop_ws s2)) (\<lambda>s3.
     Option.bind (take_ident (drop_ws s3)) (\<lambda>(name, s4).
     Option.bind (strip_prefix '':'' (drop_ws s4)) (\<lambda>s5.
     Option.bind (take_ident (drop_ws s5)) (\<lambda>(ty, s6).
     map_option (\<lambda>r. ((name, ty), r)) (strip_prefix ''}}'' (drop_ws s6))))))))"

text \<open>
  The leftmost matches that do not overlap, with the characters between them: what \<open>captures_iter\<close> and \<open>replace_all\<close> visit.
  A match is never empty.
\<close>

datatype 'm token = Lit char | Var string 'm

function tokens :: "(string \<Rightarrow> ('m \<times> string) option) \<Rightarrow> string \<Rightarrow> 'm token list" where
  "tokens matcher [] = []"
| "tokens matcher (c # cs) =
     (case matcher (c # cs) of
        Some (cap, rest) \<Rightarrow>
          if length rest \<le> length cs then Var (take (Suc (length cs) - length rest) (c # cs)) cap # tokens matcher rest
          else Lit c # tokens matcher cs
      | None \<Rightarrow> Lit c # tokens matcher cs)"
  by pat_completeness auto

termination by (relation "measure (\<lambda>(m, s). length s)") auto

definition captures_iter :: "(string \<Rightarrow> ('m \<times> string) option) \<Rightarrow> string \<Rightarrow> 'm list" where
  "captures_iter matcher s = List.map_filter (\<lambda>t. case t of Lit _ \<Rightarrow> None | Var _ cap \<Rightarrow> Some cap) (tokens matcher s)"

definition is_match :: "(string \<Rightarrow> ('m \<times> string) option) \<Rightarrow> string \<Rightarrow> bool" where
  "is_match matcher s \<longleftrightarrow> captures_iter matcher s \<noteq> []"

definition replace_all :: "(string \<Rightarrow> ('m \<times> string) option) \<Rightarrow> (string \<Rightarrow> 'm \<Rightarrow> string) \<Rightarrow> string \<Rightarrow> string" where
  "replace_all matcher f s = concat (map (\<lambda>t. case t of Lit c \<Rightarrow> [c] | Var raw cap \<Rightarrow> f raw cap) (tokens matcher s))"

text \<open>The first match, if it is the whole text.\<close>

definition extract_whole :: "(string \<Rightarrow> ('m \<times> string) option) \<Rightarrow> string \<Rightarrow> 'm option" where
  "extract_whole matcher text = (case matcher text of Some (cap, []) \<Rightarrow> Some cap | _ \<Rightarrow> None)"

definition extract_whole_typed_variable :: "string \<Rightarrow> (string \<times> string) option" where
  "extract_whole_typed_variable text = extract_whole match_typed text"

definition extract_whole_legacy_variable :: "string \<Rightarrow> string option" where
  "extract_whole_legacy_variable text = extract_whole match_legacy text"

text \<open>Matching on given ASCII texts.\<close>

lemmas match_eval = match_typed_def match_legacy_def take_ident_def ident_char_def ident_start_def drop_ws_ascii is_whitespace_def
  strip_prefix_def Let_def

subsection \<open>Values of variables\<close>

definition invalid_prompt_inputs :: "string \<Rightarrow> ApiError" where
  "invalid_prompt_inputs message = InvalidRequest (IrInvalidPromptInputs message)"

text \<open>The texts that \<open>str::parse::<f64>\<close> accepts.\<close>

definition is_digit :: "char \<Rightarrow> bool" where
  "is_digit c \<longleftrightarrow> (let n = (of_char c :: nat) in 48 \<le> n \<and> n \<le> 57)"

definition drop_sign :: "string \<Rightarrow> string" where
  "drop_sign s = (if s \<noteq> [] \<and> hd s \<in> {CHR ''+'', CHR ''-''} then tl s else s)"

definition f64_exponent_text :: "string \<Rightarrow> bool" where
  "f64_exponent_text s \<longleftrightarrow> s = [] \<or> (hd s \<in> {CHR ''e'', CHR ''E''} \<and> drop_sign (tl s) \<noteq> [] \<and> list_all is_digit (drop_sign (tl s)))"

definition parses_f64 :: "string \<Rightarrow> bool" where
  "parses_f64 s =
     (let t = drop_sign s; whole = takeWhile is_digit t; r = dropWhile is_digit t;
          fraction = (if r \<noteq> [] \<and> hd r = CHR ''.'' then takeWhile is_digit (tl r) else []);
          r' = (if r \<noteq> [] \<and> hd r = CHR ''.'' then dropWhile is_digit (tl r) else r)
      in to_ascii_lowercase t \<in> {''inf'', ''infinity'', ''nan''} \<or> (whole \<noteq> [] \<or> fraction \<noteq> []) \<and> f64_exponent_text r')"

definition validate_variable_type :: "(json \<Rightarrow> string) \<Rightarrow> json \<Rightarrow> string \<Rightarrow> (ApiError, string) result" where
  "validate_variable_type render v expected_type =
     (let value_string = render v
      in if expected_type = ''number'' then
           (case v of JNumber _ \<Rightarrow> Ok value_string
            | _ \<Rightarrow> if parses_f64 value_string then Ok value_string
                else Err (invalid_prompt_inputs (''Variable value '' @ [CHR 0x27] @ value_string @ [CHR 0x27] @ '' cannot be converted to number'')))
         else if expected_type = ''boolean'' then
           (case v of JBool _ \<Rightarrow> Ok value_string
            | _ \<Rightarrow> if to_ascii_lowercase value_string \<in> set [''true'', ''false'', ''yes'', ''no''] then Ok value_string
                else Err (invalid_prompt_inputs (''Variable value '' @ [CHR 0x27] @ value_string @ [CHR 0x27]
                  @ '' is not a valid boolean (expected: true, false, yes, no)'')))
         else Ok value_string)"

definition legacy_value_to_string :: "(json \<Rightarrow> string) \<Rightarrow> json \<Rightarrow> string" where
  "legacy_value_to_string render v = (case v of JString text \<Rightarrow> text | _ \<Rightarrow> render v)"

type_synonym inputs = "(string \<times> json) list"

definition missing_input :: "string \<Rightarrow> ApiError" where
  "missing_input name = invalid_prompt_inputs (''Missing prompt input: '' @ name)"

text \<open>The names of the typed variables that are validated are kept in a set.\<close>

fun check_typed_captures ::
  "(json \<Rightarrow> string) \<Rightarrow> inputs \<Rightarrow> (string \<times> string) list \<Rightarrow> string set \<Rightarrow> (ApiError, string set) result" where
  "check_typed_captures render ins [] validated = Ok validated"
| "check_typed_captures render ins ((name, ty) # caps) validated =
     (if name \<in> validated then check_typed_captures render ins caps validated
      else try_bind (ok_or (missing_input name) (obj_get name ins)) (\<lambda>v.
        try_bind (validate_variable_type render v ty) (\<lambda>_. check_typed_captures render ins caps (insert name validated))))"

fun check_legacy_captures :: "inputs \<Rightarrow> string list \<Rightarrow> (ApiError, unit) result" where
  "check_legacy_captures ins [] = Ok ()"
| "check_legacy_captures ins (name # caps) =
     (if name = ''hc'' then check_legacy_captures ins caps
      else if obj_get name ins = None then Err (missing_input name)
      else check_legacy_captures ins caps)"

definition typed_replacement :: "(json \<Rightarrow> string) \<Rightarrow> inputs \<Rightarrow> string \<Rightarrow> string \<times> string \<Rightarrow> string" where
  "typed_replacement render ins raw cap = (case obj_get (fst cap) ins of None \<Rightarrow> raw | Some v \<Rightarrow> render v)"

definition legacy_replacement :: "(json \<Rightarrow> string) \<Rightarrow> inputs \<Rightarrow> string \<Rightarrow> string \<Rightarrow> string" where
  "legacy_replacement render ins raw name =
     (if name = ''hc'' then raw else (case obj_get name ins of None \<Rightarrow> raw | Some v \<Rightarrow> legacy_value_to_string render v))"

definition replace_variables ::
  "(json \<Rightarrow> string) \<Rightarrow> inputs \<Rightarrow> string \<Rightarrow> string set \<Rightarrow> (ApiError, string \<times> string set) result" where
  "replace_variables render ins text validated =
     try_bind (check_typed_captures render ins (captures_iter match_typed text) validated) (\<lambda>validated'.
     try_bind (check_legacy_captures ins (captures_iter match_legacy text)) (\<lambda>_.
       let typed_processed = replace_all match_typed (typed_replacement render ins) text;
           legacy_processed = replace_all match_legacy (legacy_replacement render ins) typed_processed
       in Ok (legacy_processed, validated')))"

subsection \<open>Bodies\<close>

definition text_has_variables :: "string \<Rightarrow> bool" where
  "text_has_variables text \<longleftrightarrow> is_match match_typed text \<or> is_match match_legacy text"

fun contains_prompt_variables :: "json \<Rightarrow> bool" where
  "contains_prompt_variables (JString text) \<longleftrightarrow> text_has_variables text"
| "contains_prompt_variables (JArray vs) \<longleftrightarrow> list_ex contains_prompt_variables vs"
| "contains_prompt_variables (JObject kvs) \<longleftrightarrow> list_ex (\<lambda>(k, v). text_has_variables k \<or> contains_prompt_variables v) kvs"
| "contains_prompt_variables v \<longleftrightarrow> False"

text \<open>A loop that stops at the first error.\<close>

fun try_map :: "('a \<Rightarrow> ('e, 'b) result) \<Rightarrow> 'a list \<Rightarrow> ('e, 'b list) result" where
  "try_map f [] = Ok []"
| "try_map f (x # xs) = try_bind (f x) (\<lambda>y. try_bind (try_map f xs) (\<lambda>ys. Ok (y # ys)))"

lemma try_map_cong [fundef_cong]: "xs = ys \<Longrightarrow> (\<And>x. x \<in> set ys \<Longrightarrow> f x = g x) \<Longrightarrow> try_map f xs = try_map g ys"
  by (induction xs arbitrary: ys) (auto simp: try_bind_def split: sum.splits)

definition schema_key :: "(json \<Rightarrow> string) \<Rightarrow> inputs \<Rightarrow> string \<Rightarrow> (ApiError, string) result" where
  "schema_key render ins key =
     (let as_key = (\<lambda>name v. ok_or (invalid_prompt_inputs (''Variable '' @ [CHR 0x27] @ name @ [CHR 0x27]
            @ '' in object schema key must be a string, got: '' @ render v)) (as_str v))
      in case extract_whole_typed_variable key of
           Some (name, ty) \<Rightarrow>
             try_bind (ok_or (missing_input name) (obj_get name ins)) (\<lambda>v.
             try_bind (validate_variable_type render v ty) (\<lambda>_. as_key name v))
         | None \<Rightarrow>
             (case extract_whole_legacy_variable key of
                Some name \<Rightarrow> try_bind (ok_or (missing_input name) (obj_get name ins)) (as_key name)
              | None \<Rightarrow> map_sum id fst (replace_variables render ins key {})))"

definition schema_text :: "(json \<Rightarrow> string) \<Rightarrow> inputs \<Rightarrow> string \<Rightarrow> (ApiError, json) result" where
  "schema_text render ins text =
     (case extract_whole_typed_variable text of
        Some (name, ty) \<Rightarrow>
          try_bind (ok_or (missing_input name) (obj_get name ins)) (\<lambda>v.
          try_bind (validate_variable_type render v ty) (\<lambda>_. Ok v))
      | None \<Rightarrow>
          (case extract_whole_legacy_variable text of
             Some name \<Rightarrow> ok_or (missing_input name) (obj_get name ins)
           | None \<Rightarrow> map_sum id (JString \<circ> fst) (replace_variables render ins text {})))"

definition collect_object :: "(string \<times> json) list \<Rightarrow> (string \<times> json) list" where
  "collect_object kvs = foldl (\<lambda>m (k, v). obj_insert k v m) [] kvs"

fun process_prompt_schema :: "(json \<Rightarrow> string) \<Rightarrow> inputs \<Rightarrow> json \<Rightarrow> (ApiError, json) result" where
  "process_prompt_schema render ins (JString text) = schema_text render ins text"
| "process_prompt_schema render ins (JArray vs) = map_sum id JArray (try_map (process_prompt_schema render ins) vs)"
| "process_prompt_schema render ins (JObject kvs) =
     map_sum id (JObject \<circ> collect_object)
       (try_map (\<lambda>(k, v). try_bind (schema_key render ins k) (\<lambda>k'.
          try_bind (process_prompt_schema render ins v) (\<lambda>v'. Ok (k', v')))) kvs)"
| "process_prompt_schema render ins v = Ok v"

text \<open>A loop that carries the validated names.\<close>

fun try_scan :: "('a \<Rightarrow> 's \<Rightarrow> ('e, 'a \<times> 's) result) \<Rightarrow> 'a list \<Rightarrow> 's \<Rightarrow> ('e, 'a list \<times> 's) result" where
  "try_scan f [] s = Ok ([], s)"
| "try_scan f (x # xs) s = try_bind (f x s) (\<lambda>(y, s1). try_bind (try_scan f xs s1) (\<lambda>(ys, s2). Ok (y # ys, s2)))"

text \<open>\<open>get_mut\<close> of a member, if there is one.\<close>

definition on_member :: "string \<Rightarrow> (json \<Rightarrow> 's \<Rightarrow> ('e, json \<times> 's) result) \<Rightarrow> json \<Rightarrow> 's \<Rightarrow> ('e, json \<times> 's) result" where
  "on_member k f v s =
     (case v of
        JObject kvs \<Rightarrow>
          (case obj_get k kvs of None \<Rightarrow> Ok (v, s)
           | Some x \<Rightarrow> map_sum id (\<lambda>(y, s'). (JObject (obj_modify k (\<lambda>_. y) kvs), s')) (f x s))
      | _ \<Rightarrow> Ok (v, s))"

definition replace_in_string :: "(json \<Rightarrow> string) \<Rightarrow> inputs \<Rightarrow> json \<Rightarrow> string set \<Rightarrow> (ApiError, json \<times> string set) result" where
  "replace_in_string render ins v validated =
     (case v of JString text \<Rightarrow> map_sum id (map_prod JString id) (replace_variables render ins text validated) | _ \<Rightarrow> Ok (v, validated))"

definition process_content :: "(json \<Rightarrow> string) \<Rightarrow> inputs \<Rightarrow> json \<Rightarrow> string set \<Rightarrow> (ApiError, json \<times> string set) result" where
  "process_content render ins v validated =
     (case v of
        JString _ \<Rightarrow> replace_in_string render ins v validated
      | JArray parts \<Rightarrow> map_sum id (map_prod JArray id) (try_scan (on_member ''text'' (replace_in_string render ins)) parts validated)
      | _ \<Rightarrow> Ok (v, validated))"

definition process_message_variables ::
  "(json \<Rightarrow> string) \<Rightarrow> inputs \<Rightarrow> json \<Rightarrow> string set \<Rightarrow> (ApiError, json \<times> string set) result" where
  "process_message_variables render ins message validated = on_member ''content'' (process_content render ins) message validated"

definition process_messages_value :: "(json \<Rightarrow> string) \<Rightarrow> inputs \<Rightarrow> json \<Rightarrow> (ApiError, json) result" where
  "process_messages_value render ins v =
     (case v of JArray messages \<Rightarrow> map_sum id (JArray \<circ> fst) (try_scan (process_message_variables render ins) messages {}) | _ \<Rightarrow> Ok v)"

definition on_key :: "string \<Rightarrow> (json \<Rightarrow> ('e, json) result) \<Rightarrow> (string \<times> json) list \<Rightarrow> ('e, (string \<times> json) list) result" where
  "on_key k f kvs =
     (case obj_get k kvs of None \<Rightarrow> Ok kvs | Some x \<Rightarrow> map_sum id (\<lambda>y. obj_modify k (\<lambda>_. y) kvs) (f x))"

definition template_keys :: "string list" where
  "template_keys = [''messages'', ''response_format'', ''tools'']"

definition apply_prompt_inputs_to_body :: "(json \<Rightarrow> string) \<Rightarrow> json \<Rightarrow> (ApiError, json) result" where
  "apply_prompt_inputs_to_body render body =
     (case body of
        JObject kvs \<Rightarrow>
          let ins = Option.bind (obj_get ''inputs'' kvs) as_object;
              has_template_variables = list_ex contains_prompt_variables (List.map_filter (\<lambda>k. obj_get k kvs) template_keys)
          in if has_template_variables \<and> ins = None
             then Err (invalid_prompt_inputs ''Prompt inputs are required for template variables'')
             else (case ins of
                None \<Rightarrow> Ok body
              | Some i \<Rightarrow>
                  try_bind (on_key ''messages'' (process_messages_value render i) kvs) (\<lambda>kvs1.
                  try_bind (on_key ''response_format'' (process_prompt_schema render i) kvs1) (\<lambda>kvs2.
                  try_bind (on_key ''tools'' (process_prompt_schema render i) kvs2) (\<lambda>kvs3. Ok (JObject kvs3)))))
      | _ \<Rightarrow> Ok body)"

subsection \<open>Prompts of the platform\<close>

record PromptContext =
  px_prompt_id :: string
  px_prompt_version_id :: "string option"
  px_inputs :: "(string \<times> json) list option"

text \<open>The derived deserialiser of the context: absent or null members are \<open>None\<close>, other members are ignored.\<close>

definition optional_member :: "string \<Rightarrow> (json \<Rightarrow> 'a option) \<Rightarrow> (string \<times> json) list \<Rightarrow> 'a option option" where
  "optional_member k f kvs = (case obj_get k kvs of None \<Rightarrow> Some None | Some JNull \<Rightarrow> Some None | Some v \<Rightarrow> map_option Some (f v))"

definition get_prompt_params :: "json \<Rightarrow> PromptContext option" where
  "get_prompt_params v =
     Option.bind (as_object v) (\<lambda>kvs.
     Option.bind (Option.bind (obj_get ''prompt_id'' kvs) as_str) (\<lambda>pid.
     Option.bind (optional_member ''prompt_version_id'' as_str kvs) (\<lambda>ver.
     map_option (\<lambda>ins. \<lparr>px_prompt_id = pid, px_prompt_version_id = ver, px_inputs = ins\<rparr>) (optional_member ''inputs'' as_object kvs))))"

definition merge_prompt_with_request :: "json \<Rightarrow> json \<Rightarrow> (ApiError, json) result" where
  "merge_prompt_with_request prompt_body request_body =
     (let fail = InternalE IeInternal
      in try_bind (ok_or fail (as_object prompt_body)) (\<lambda>prompt_obj.
         try_bind (ok_or fail (as_object request_body)) (\<lambda>request_obj.
         try_bind (ok_or fail (Option.bind (obj_get ''messages'' prompt_obj) as_array)) (\<lambda>prompt_messages.
         try_bind (ok_or fail (Option.bind (obj_get ''messages'' request_obj) as_array)) (\<lambda>request_messages.
           Ok (JObject (foldl (\<lambda>m (k, v). if k \<noteq> ''messages'' then obj_insert k v m else m)
             (obj_insert ''messages'' (JArray (prompt_messages @ request_messages)) prompt_obj) request_obj)))))))"

text \<open>
  The requests to the platform are arguments: \<open>production_version\<close> for a prompt and \<open>pull_prompt_body\<close> for a version of it, both with
  the context of the caller.
\<close>

record ('auth) prompt_env =
  pe_from_slice :: "string \<Rightarrow> json option"
  pe_to_vec :: "json \<Rightarrow> string option"
  pe_show :: "json \<Rightarrow> string"
  production_version :: "string \<Rightarrow> 'auth \<Rightarrow> (ApiError, string) result"
  pull_prompt_body :: "'auth \<Rightarrow> string \<Rightarrow> string \<Rightarrow> (string, json) result"
  pe_error_text :: string

definition build_prompt_request ::
  "'auth prompt_env \<Rightarrow> 'auth option \<Rightarrow> (string, string) result \<Rightarrow> (ApiError, string \<times> PromptContext option) result" where
  "build_prompt_request env auth collected =
     try_bind (map_sum (InternalE \<circ> IeCollectBodyError) id collected) (\<lambda>body_bytes.
     try_bind (ok_or (InvalidRequest (IrInvalidRequestBody (pe_error_text env))) (pe_from_slice env body_bytes)) (\<lambda>request_json.
       if Option.bind (as_object request_json) (obj_get ''prompt_id'') = None then Ok (body_bytes, None)
       else (case get_prompt_params request_json of
          None \<Rightarrow> Ok (body_bytes, None)
        | Some ctx \<Rightarrow>
            try_bind (ok_or (InternalE (IeExtensionNotFound ''AuthContext'')) auth) (\<lambda>a.
            try_bind (case px_prompt_version_id ctx of Some ver \<Rightarrow> Ok ver | None \<Rightarrow> production_version env (px_prompt_id ctx) a) (\<lambda>ver.
            try_bind (map_sum (InternalE \<circ> IePromptError) id (pull_prompt_body env a (px_prompt_id ctx) ver)) (\<lambda>prompt_json.
            try_bind (merge_prompt_with_request prompt_json request_json) (\<lambda>merged.
            try_bind (apply_prompt_inputs_to_body (pe_show env) merged) (\<lambda>processed.
            try_bind (ok_or (InternalE IeInternal) (pe_to_vec env processed)) (\<lambda>out.
              Ok (out, Some (ctx\<lparr>px_prompt_version_id := Some ver\<rparr>)))))))))))"

subsection \<open>Texts without variables\<close>

lemma captures_iter_simps [simp]:
  "captures_iter matcher [] = []"
  "captures_iter matcher (c # cs) =
     (case matcher (c # cs) of
        Some (cap, rest) \<Rightarrow> if length rest \<le> length cs then cap # captures_iter matcher rest else captures_iter matcher cs
      | None \<Rightarrow> captures_iter matcher cs)"
  by (auto simp: captures_iter_def List.map_filter_def split: option.splits)

lemma captures_none_step:
  assumes "captures_iter matcher (c # cs) = []"
  shows "captures_iter matcher cs = []" and "tokens matcher (c # cs) = Lit c # tokens matcher cs"
  using assms by (auto split: option.splits prod.splits if_splits)

lemma replace_all_none: "captures_iter matcher s = [] \<Longrightarrow> replace_all matcher f s = s"
proof (induction s)
  case (Cons c cs)
  note n = captures_none_step [OF Cons.prems]
  show ?case using Cons.IH [OF n(1)] by (simp add: replace_all_def n(2) del: tokens.simps)
qed (simp add: replace_all_def)

lemma extract_whole_none:
  assumes "captures_iter matcher s = []" and "matcher [] = None"
  shows "extract_whole matcher s = None"
proof (cases s)
  case (Cons c cs)
  have "matcher (c # cs) \<noteq> Some (cap, [])" for cap using assms(1) Cons by auto
  then show ?thesis using Cons by (auto simp: extract_whole_def split: option.splits list.splits)
qed (simp add: extract_whole_def assms(2))

lemma matchers_empty [simp]: "match_typed [] = None" "match_legacy [] = None"
  by (simp_all add: match_typed_def match_legacy_def strip_prefix_def)

lemma replace_variables_none: "\<not> text_has_variables text \<Longrightarrow> replace_variables render ins text validated = Ok (text, validated)"
  by (simp add: replace_variables_def text_has_variables_def is_match_def replace_all_none try_bind_def Let_def)

lemma schema_none:
  assumes "\<not> text_has_variables text"
  shows "schema_text render ins text = Ok (JString text)" and "schema_key render ins text = Ok text"
  using assms replace_variables_none [OF assms, of render ins "{}"]
  by (simp_all add: schema_text_def schema_key_def extract_whole_typed_variable_def extract_whole_legacy_variable_def
      text_has_variables_def is_match_def extract_whole_none)

fun json_distinct :: "json \<Rightarrow> bool" where
  "json_distinct (JObject kvs) \<longleftrightarrow> distinct (map fst kvs) \<and> list_all (\<lambda>(k, v). json_distinct v) kvs"
| "json_distinct (JArray vs) \<longleftrightarrow> list_all json_distinct vs"
| "json_distinct v \<longleftrightarrow> True"

lemma try_map_id: "(\<And>x. x \<in> set xs \<Longrightarrow> f x = Ok x) \<Longrightarrow> try_map f xs = Ok xs"
  by (induction xs) (simp_all add: try_bind_def)

lemma try_scan_id: "(\<And>x s. x \<in> set xs \<Longrightarrow> f x s = Ok (x, s)) \<Longrightarrow> try_scan f xs s = Ok (xs, s)"
  by (induction xs arbitrary: s) (simp_all add: try_bind_def)

lemma obj_insert_fresh: "k \<notin> fst ` set kvs \<Longrightarrow> obj_insert k v kvs = kvs @ [(k, v)]"
  by (induction k v kvs rule: obj_insert.induct) auto

lemma collect_object_distinct: "distinct (map fst kvs) \<Longrightarrow> collect_object kvs = kvs"
proof -
  have "foldl (\<lambda>m (k, v). obj_insert k v m) acc kvs = acc @ kvs" if "distinct (map fst (acc @ kvs))" for acc
    using that by (induction kvs arbitrary: acc) (auto simp: obj_insert_fresh)
  from this [of "[]"] show "distinct (map fst kvs) \<Longrightarrow> collect_object kvs = kvs" by (simp add: collect_object_def)
qed

lemma process_schema_none:
  "json_distinct v \<Longrightarrow> \<not> contains_prompt_variables v \<Longrightarrow> process_prompt_schema render ins v = Ok v"
proof (induction render ins v rule: process_prompt_schema.induct)
  case (2 render ins vs)
  then have "try_map (process_prompt_schema render ins) vs = Ok vs" by (intro try_map_id) (auto simp: list_all_iff list_ex_iff)
  then show ?case by simp
next
  case (3 render ins kvs)
  have "try_map (\<lambda>(k, v). try_bind (schema_key render ins k) (\<lambda>k'. try_bind (process_prompt_schema render ins v) (\<lambda>v'. Ok (k', v')))) kvs = Ok kvs"
  proof (rule try_map_id)
    fix kv assume kv: "kv \<in> set kvs"
    obtain k v where [simp]: "kv = (k, v)" by (cases kv)
    have "json_distinct v" "\<not> contains_prompt_variables v" "\<not> text_has_variables k"
      using 3(2,3) kv by (auto simp: list_all_iff list_ex_iff)
    then show "(case kv of (k, v) \<Rightarrow> try_bind (schema_key render ins k) (\<lambda>k'. try_bind (process_prompt_schema render ins v) (\<lambda>v'. Ok (k', v')))) = Ok kv"
      using 3(1) [OF kv, of k v] by (simp add: schema_none try_bind_def)
  qed
  then show ?case using 3(2) by (simp add: collect_object_distinct)
qed (simp_all add: schema_none)

lemma on_member_id:
  assumes "\<And>kvs x s. v = JObject kvs \<Longrightarrow> obj_get k kvs = Some x \<Longrightarrow> f x s = Ok (x, s)"
  shows "on_member k f v s = Ok (v, s)"
proof (cases v)
  case (JObject kvs)
  show ?thesis
  proof (cases "obj_get k kvs")
    case (Some x)
    with assms [OF JObject Some] obj_modify_id [of k kvs "\<lambda>_. x"] JObject show ?thesis by (simp add: on_member_def)
  qed (simp add: on_member_def JObject)
qed (simp_all add: on_member_def)

lemma obj_get_member_variables:
  "obj_get k kvs = Some v \<Longrightarrow> \<not> contains_prompt_variables (JObject kvs) \<Longrightarrow> \<not> contains_prompt_variables v"
  by (auto simp: obj_get_def list_ex_iff dest!: map_of_SomeD)

lemma process_messages_none:
  assumes "\<not> contains_prompt_variables v"
  shows "process_messages_value render ins v = Ok v"
proof -
  have str: "replace_in_string render ins x s = Ok (x, s)" if "\<not> contains_prompt_variables x" for x s
    using that by (auto simp: replace_in_string_def replace_variables_none split: json.splits)
  have part: "on_member ''text'' (replace_in_string render ins) x s = Ok (x, s)" if "\<not> contains_prompt_variables x" for x s
    using that obj_get_member_variables str by (intro on_member_id) blast
  have content: "process_content render ins x s = Ok (x, s)" if "\<not> contains_prompt_variables x" for x s
  proof (cases x)
    case (JArray ps)
    have "try_scan (on_member ''text'' (replace_in_string render ins)) ps s = Ok (ps, s)"
      using that JArray part by (intro try_scan_id) (auto simp: list_ex_iff)
    then show ?thesis using JArray by (simp add: process_content_def)
  qed (use that str [of x] in \<open>auto simp: process_content_def\<close>)
  have message: "process_message_variables render ins x s = Ok (x, s)" if "\<not> contains_prompt_variables x" for x s
    unfolding process_message_variables_def using that obj_get_member_variables content by (intro on_member_id) blast
  show ?thesis
  proof (cases v)
    case (JArray ms)
    have "try_scan (process_message_variables render ins) ms {} = Ok (ms, {})"
      using assms JArray message by (intro try_scan_id) (auto simp: list_ex_iff)
    then show ?thesis using JArray by (simp add: process_messages_value_def)
  qed (simp_all add: process_messages_value_def)
qed

subsection \<open>Errors of templates\<close>

definition prompt_error :: "ApiError \<Rightarrow> bool" where
  "prompt_error e \<longleftrightarrow> (\<exists>message. e = invalid_prompt_inputs message)"

lemma prompt_error_simps [simp]: "prompt_error (invalid_prompt_inputs message)" "prompt_error (missing_input name)"
  by (auto simp: prompt_error_def missing_input_def)

definition fails_as :: "('e \<Rightarrow> bool) \<Rightarrow> ('e, 'a) result \<Rightarrow> bool" where
  "fails_as P r \<longleftrightarrow> (\<forall>e. r = Inl e \<longrightarrow> P e)"

lemma fails_as_intros [intro!]:
  "fails_as P (Inr x)" "P e \<Longrightarrow> fails_as P (Inl e)" "P e \<Longrightarrow> fails_as P (ok_or e o')"
  "fails_as P r \<Longrightarrow> fails_as P (map_sum id f r)"
  "fails_as P r \<Longrightarrow> (\<And>x. fails_as P (g x)) \<Longrightarrow> fails_as P (try_bind r g)"
  by (auto simp: fails_as_def ok_or_def try_bind_def split: option.splits sum.splits; cases r; auto)+

lemma fails_as_try_map: "(\<And>x. x \<in> set xs \<Longrightarrow> fails_as P (f x)) \<Longrightarrow> fails_as P (try_map f xs)"
  by (induction xs) auto

lemma fails_as_try_scan: "(\<And>x s. x \<in> set xs \<Longrightarrow> fails_as P (f x s)) \<Longrightarrow> fails_as P (try_scan f xs s)"
proof (induction xs arbitrary: s)
  case (Cons x xs)
  then have "fails_as P (try_scan f xs w)" for w by simp
  with Cons.prems show ?case by (auto split: prod.splits)
qed auto

lemma validate_fails: "fails_as prompt_error (validate_variable_type render v ty)"
  by (auto simp: validate_variable_type_def Let_def split: json.splits)

lemma replace_fails: "fails_as prompt_error (replace_variables render ins s validated)"
proof -
  have "fails_as prompt_error (check_typed_captures render ins caps w)" for caps w
    by (induction render ins caps w rule: check_typed_captures.induct) (auto intro!: validate_fails)
  moreover have "fails_as prompt_error (check_legacy_captures ins caps)" for caps
    by (induction ins caps rule: check_legacy_captures.induct) auto
  ultimately show ?thesis unfolding replace_variables_def Let_def by auto
qed

lemma schema_fails: "fails_as prompt_error (process_prompt_schema render ins v)"
proof (induction render ins v rule: process_prompt_schema.induct)
  case (1 render ins s)
  show ?case unfolding process_prompt_schema.simps schema_text_def
    by (auto intro!: validate_fails replace_fails split: option.splits)
next
  case (2 render ins vs)
  then show ?case by (auto intro!: fails_as_try_map)
next
  case (3 render ins kvs)
  have "fails_as prompt_error (schema_key render ins k)" for k
    unfolding schema_key_def Let_def by (auto intro!: validate_fails replace_fails split: option.splits)
  with 3 show ?case by (auto intro!: fails_as_try_map)
qed auto

lemma on_member_fails: "(\<And>x s. fails_as P (f x s)) \<Longrightarrow> fails_as P (on_member k f v s)"
  by (auto simp: on_member_def split: json.splits option.splits)

lemma messages_fail: "fails_as prompt_error (process_messages_value render ins v)"
proof -
  have s: "fails_as prompt_error (replace_in_string render ins x w)" for x w
    by (auto simp: replace_in_string_def intro!: replace_fails split: json.splits)
  have "fails_as prompt_error (process_content render ins x w)" for x w
    by (auto simp: process_content_def intro!: s on_member_fails fails_as_try_scan split: json.splits)
  then have "fails_as prompt_error (process_message_variables render ins x w)" for x w
    unfolding process_message_variables_def by (intro on_member_fails)
  then show ?thesis by (auto simp: process_messages_value_def intro!: fails_as_try_scan split: json.splits)
qed

subsection \<open>Applying the inputs\<close>

lemma on_key_fails: "(\<And>x. fails_as P (f x)) \<Longrightarrow> fails_as P (on_key k f kvs)"
  by (auto simp: on_key_def split: option.splits)

lemma on_key_frame:
  assumes "on_key k f kvs = Inr kvs'"
  shows "map fst kvs' = map fst kvs" and "k' \<noteq> k \<Longrightarrow> obj_get k' kvs' = obj_get k' kvs"
proof -
  have "kvs' = kvs \<or> (\<exists>y. kvs' = obj_modify k (\<lambda>_. y) kvs)"
  proof (cases "obj_get k kvs")
    case (Some x)
    with assms show ?thesis by (cases "f x") (auto simp: on_key_def)
  qed (use assms in \<open>simp add: on_key_def\<close>)
  then show "map fst kvs' = map fst kvs" "k' \<noteq> k \<Longrightarrow> obj_get k' kvs' = obj_get k' kvs" by auto
qed

lemma on_key_none: "(\<And>x. obj_get k kvs = Some x \<Longrightarrow> f x = Ok x) \<Longrightarrow> on_key k f kvs = Ok kvs"
  using obj_modify_id [of k kvs] by (auto simp: on_key_def split: option.splits)

definition has_template_variables :: "(string \<times> json) list \<Rightarrow> bool" where
  "has_template_variables kvs \<longleftrightarrow> list_ex contains_prompt_variables (List.map_filter (\<lambda>k. obj_get k kvs) template_keys)"

lemma template_variables_get:
  "\<not> has_template_variables kvs \<Longrightarrow> k \<in> set template_keys \<Longrightarrow> obj_get k kvs = Some v \<Longrightarrow> \<not> contains_prompt_variables v"
  by (auto simp: has_template_variables_def list_ex_iff List.map_filter_def)

text \<open>
  C37. What the inputs of a prompt do to a body. The application fails only if the messages, the response format or the tools
  contain a variable, and only with an error about the inputs. If it succeeds, the body has the same members in the
  same order, all but these three are untouched, a body with variables had an object of inputs, and one without
  variables is returned as it was.
\<close>

theorem prompt_inputs_exact:
  assumes "json_distinct (JObject kvs)"
  shows "case apply_prompt_inputs_to_body render (JObject kvs) of
      Inl e \<Rightarrow> has_template_variables kvs \<and> prompt_error e
    | Inr v \<Rightarrow> \<exists>kvs'. v = JObject kvs' \<and> map fst kvs' = map fst kvs
        \<and> (\<forall>k. k \<notin> set template_keys \<longrightarrow> obj_get k kvs' = obj_get k kvs)
        \<and> (has_template_variables kvs \<longrightarrow> (\<exists>i. obj_get ''inputs'' kvs = Some (JObject i)))
        \<and> (\<not> has_template_variables kvs \<longrightarrow> kvs' = kvs)"
proof (cases "Option.bind (obj_get ''inputs'' kvs) as_object")
  case None
  then show ?thesis
    by (auto simp: apply_prompt_inputs_to_body_def Let_def has_template_variables_def)
next
  case (Some i)
  let ?steps = "try_bind (on_key ''messages'' (process_messages_value render i) kvs) (\<lambda>kvs1.
      try_bind (on_key ''response_format'' (process_prompt_schema render i) kvs1) (\<lambda>kvs2.
      on_key ''tools'' (process_prompt_schema render i) kvs2))"
  have run: "apply_prompt_inputs_to_body render (JObject kvs) = map_sum id JObject ?steps"
    using Some by (simp add: apply_prompt_inputs_to_body_def Let_def try_bind_def split: sum.splits)
  have inputs: "obj_get ''inputs'' kvs = Some (JObject i)" using Some by (auto simp: bind_eq_Some_conv)
  have dist: "json_distinct x" if "obj_get k kvs = Some x" for k x
    using assms that by (auto simp: obj_get_def list_all_iff dest!: map_of_SomeD)
  have same: "?steps = Ok kvs" if "\<not> has_template_variables kvs"
  proof -
    have "on_key ''messages'' (process_messages_value render i) kvs = Ok kvs"
      "on_key ''response_format'' (process_prompt_schema render i) kvs = Ok kvs"
      "on_key ''tools'' (process_prompt_schema render i) kvs = Ok kvs"
      by (intro on_key_none process_messages_none process_schema_none dist template_variables_get [OF that];
          simp add: template_keys_def)+
    then show ?thesis by (simp add: try_bind_def)
  qed
  have fails: "fails_as prompt_error ?steps" by (intro fails_as_intros on_key_fails messages_fail schema_fails)
  have frame: "map fst kvs' = map fst kvs \<and> (\<forall>k. k \<notin> set template_keys \<longrightarrow> obj_get k kvs' = obj_get k kvs)" if "?steps = Inr kvs'" for kvs'
  proof -
    from that obtain k1 k2 where k: "on_key ''messages'' (process_messages_value render i) kvs = Inr k1"
      "on_key ''response_format'' (process_prompt_schema render i) k1 = Inr k2"
      "on_key ''tools'' (process_prompt_schema render i) k2 = Inr kvs'"
      by (auto simp: try_bind_def split: sum.splits)
    show ?thesis using k [THEN on_key_frame(1)] k [THEN on_key_frame(2)] by (simp add: template_keys_def)
  qed
  show ?thesis
  proof (cases ?steps)
    case (Inl e)
    moreover have "has_template_variables kvs" using Inl same by auto
    moreover have "prompt_error e" using fails Inl by (simp add: fails_as_def)
    ultimately show ?thesis unfolding run by simp
  next
    case (Inr kvs')
    then show ?thesis unfolding run using frame [OF Inr] inputs same by auto
  qed
qed

text \<open>A string as JSON prints it, if it has nothing to escape.\<close>

definition quoted :: "string \<Rightarrow> string" where
  "quoted s = [CHR 0x22] @ s @ [CHR 0x22]"

text \<open>A body whose message names a variable.\<close>

definition greeting :: "(string \<times> json) list" where
  "greeting = [(''messages'', JArray [JObject [(''content'', JString ''Hi {{ name }}'')]]), (''inputs'', JObject [(''name'', JString ''Ann'')])]"

theorem prompt_inputs_exact_witness:
  "has_template_variables greeting \<and> apply_prompt_inputs_to_body (\<lambda>_. []) (JObject greeting) =
     Inr (JObject [(''messages'', JArray [JObject [(''content'', JString ''Hi Ann'')]]), (''inputs'', JObject [(''name'', JString ''Ann'')])])"
proof -
  have r: "has_template_variables greeting" "json_distinct (JObject greeting)"
    "apply_prompt_inputs_to_body (\<lambda>_. []) (JObject greeting) =
       Inr (JObject [(''messages'', JArray [JObject [(''content'', JString ''Hi Ann'')]]), (''inputs'', JObject [(''name'', JString ''Ann'')])])"
    by (simp_all add: greeting_def has_template_variables_def template_keys_def List.map_filter_def obj_get_def text_has_variables_def
        is_match_def apply_prompt_inputs_to_body_def on_key_def process_messages_value_def process_message_variables_def on_member_def
        process_content_def replace_in_string_def replace_variables_def replace_all_def legacy_replacement_def
        legacy_value_to_string_def try_bind_def match_eval)
  with prompt_inputs_exact [OF r(2), of "\<lambda>_. []"] show ?thesis by simp
qed

subsection \<open>Values that are templates\<close>

definition is_ident :: "string \<Rightarrow> bool" where
  "is_ident s \<longleftrightarrow> s \<noteq> [] \<and> ident_start (hd s) \<and> list_all ident_char s"

lemma ident_start_ascii:
  assumes "ident_start c"
  shows "(of_char c :: nat) < 128" and "\<not> is_whitespace (of_char c)" and "ident_char c"
  using assms by (auto simp: ident_start_def ident_char_def is_whitespace_def Let_def)

lemma drop_ws_ident: "is_ident s \<Longrightarrow> drop_ws (s @ r) = s @ r"
  using ident_start_ascii by (cases s) (auto simp: is_ident_def drop_ws_ascii)

lemma take_ident_ident:
  assumes "is_ident s" and "\<not> ident_char c"
  shows "take_ident (s @ c # r) = Some (s, c # r)"
proof -
  have "takeWhile ident_char (s @ c # r) = s" "dropWhile ident_char (s @ c # r) = c # r"
    using assms by (simp_all add: is_ident_def takeWhile_append2 dropWhile_append2 list_all_iff)
  with assms(1) show ?thesis by (auto simp: take_ident_def is_ident_def)
qed

lemma not_ident_chars [simp]: "\<not> ident_char (CHR '':'')" "\<not> ident_char (CHR ''}'')" "\<not> ident_char (CHR ''{'')"
  by (simp_all add: ident_char_def ident_start_def)

lemma drop_ws_punct [simp]: "drop_ws (CHR '':'' # r) = CHR '':'' # r" "drop_ws (CHR ''}'' # r) = CHR ''}'' # r"
  by (simp_all add: drop_ws_ascii is_whitespace_def)

lemma drop_ws_hc: "drop_ws (CHR ''h'' # r) = CHR ''h'' # r"
  by (simp add: drop_ws_ascii is_whitespace_def)

lemma strip_prefix_append [simp]: "strip_prefix p (p @ r) = Some r"
  by (simp add: strip_prefix_Some)

lemma match_typed_var:
  assumes "is_ident name" and "is_ident ty"
  shows "match_typed (''{{hc:'' @ name @ '':'' @ ty @ ''}}'' @ r) = Some ((name, ty), r)"
proof -
  have n: "drop_ws (name @ CHR '':'' # ty @ ''}}'' @ r) = name @ CHR '':'' # ty @ ''}}'' @ r"
    "take_ident (name @ CHR '':'' # ty @ ''}}'' @ r) = Some (name, CHR '':'' # ty @ ''}}'' @ r)"
    by (rule drop_ws_ident [OF assms(1)], rule take_ident_ident [OF assms(1)]) simp
  have t: "drop_ws (ty @ ''}}'' @ r) = ty @ ''}}'' @ r" "take_ident (ty @ ''}}'' @ r) = Some (ty, ''}}'' @ r)"
    using drop_ws_ident [OF assms(2)] take_ident_ident [OF assms(2), of "CHR ''}''" "''}'' @ r"] by simp_all
  show ?thesis unfolding match_typed_def using n t by (simp add: drop_ws_hc strip_prefix_def)
qed

lemma match_legacy_var:
  assumes "is_ident y"
  shows "match_legacy (''{{'' @ y @ ''}}'' @ r) = Some (y, r)"
proof -
  have "drop_ws (y @ ''}}'' @ r) = y @ ''}}'' @ r" "take_ident (y @ ''}}'' @ r) = Some (y, ''}}'' @ r)"
    using drop_ws_ident [OF assms] take_ident_ident [OF assms, of "CHR ''}''" "''}'' @ r"] by simp_all
  then show ?thesis unfolding match_legacy_def by (simp add: strip_prefix_def)
qed

text \<open>Matches begin with two braces.\<close>

lemma match_needs_braces:
  assumes "c \<noteq> CHR ''{'' \<or> d \<noteq> CHR ''{''"
  shows "match_typed (c # d # r) = None" "match_legacy (c # d # r) = None"
  using assms by (auto simp: match_typed_def match_legacy_def strip_prefix_def)

lemma match_no_brace:
  assumes "c \<noteq> CHR ''{''"
  shows "match_typed (c # r) = None" "match_legacy (c # r) = None"
  using assms by (auto simp: match_typed_def match_legacy_def strip_prefix_def)

lemma tokens_literal:
  assumes "\<And>c r. c \<noteq> CHR ''{'' \<Longrightarrow> matcher (c # r) = None" and "CHR ''{'' \<notin> set s"
  shows "tokens matcher (s @ r) = map Lit s @ tokens matcher r"
  using assms(2) by (induction s) (auto simp: assms(1))

lemma tokens_var:
  assumes "matcher (x @ r) = Some (cap, r)" and "x \<noteq> []"
  shows "tokens matcher (x @ r) = Var x cap # tokens matcher r"
  using assms by (cases x) auto

lemma tokens_typed_literal: "CHR ''{'' \<notin> set s \<Longrightarrow> tokens match_typed (s @ r) = map Lit s @ tokens match_typed r"
  by (rule tokens_literal) (simp_all add: match_no_brace)

lemma tokens_legacy_literal: "CHR ''{'' \<notin> set s \<Longrightarrow> tokens match_legacy (s @ r) = map Lit s @ tokens match_legacy r"
  by (rule tokens_literal) (simp_all add: match_no_brace)

lemmas tokens_no_brace = tokens_typed_literal [of _ "[]", simplified] tokens_legacy_literal [of _ "[]", simplified]

lemma ident_no_brace: "is_ident s \<Longrightarrow> CHR ''{'' \<notin> set s"
  by (auto simp: is_ident_def list_all_iff)

text \<open>A typed variable is not a plain one: the plain pattern finds nothing in it.\<close>

lemma tokens_legacy_typed:
  assumes "is_ident name" and "is_ident ty" and "CHR ''{'' \<notin> set post"
  shows "tokens match_legacy (''{{hc:'' @ name @ '':'' @ ty @ ''}}'' @ post) =
    map Lit (''{{hc:'' @ name @ '':'' @ ty @ ''}}'' @ post)"
proof -
  let ?r = "''hc:'' @ name @ '':'' @ ty @ ''}}'' @ post"
  have hc: "is_ident ''hc''" by (simp add: is_ident_def ident_char_def ident_start_def)
  have m1: "match_legacy (''{{'' @ ?r) = None"
    using take_ident_ident [OF hc, of "CHR '':''" "name @ '':'' @ ty @ ''}}'' @ post"]
    by (simp add: match_legacy_def strip_prefix_def drop_ws_hc)
  have m2: "match_legacy (''{'' @ ?r) = None" by (simp add: match_needs_braces)
  have "CHR ''{'' \<notin> set ?r" using assms ident_no_brace by auto
  from tokens_no_brace(2) [OF this] m1 m2 show ?thesis by simp
qed

definition token_text :: "(string \<Rightarrow> 'm \<Rightarrow> string) \<Rightarrow> 'm token \<Rightarrow> string" where
  "token_text f t = (case t of Lit c \<Rightarrow> [c] | Var raw cap \<Rightarrow> f raw cap)"

lemma replace_all_tokens: "replace_all matcher f s = concat (map (token_text f) (tokens matcher s))"
  by (simp add: replace_all_def token_text_def [abs_def])

lemma token_text_literals [simp]: "concat (map (token_text f \<circ> Lit) s) = s"
  by (induction s) (simp_all add: token_text_def)

lemma captures_literals [simp]: "List.map_filter (\<lambda>t. case t of Lit _ \<Rightarrow> None | Var _ cap \<Rightarrow> Some cap) (map Lit s) = []"
  by (induction s) (simp_all add: List.map_filter_def)

lemma captures_append:
  "List.map_filter f (xs @ ys) = List.map_filter f xs @ List.map_filter f ys"
  by (simp add: List.map_filter_def)

text \<open>
  C38. A value that replaces a typed variable is itself a template. Take a template with a typed variable of any name and type
  between any texts without an opening brace, and an input of that name whose printed value contains a plain variable \<open>{{y}}\<close>. The
  only variable of the template is the typed one, and yet in the result the \<open>{{y}}\<close> of the value is replaced by the
  input \<open>y\<close>, which the template does not name.
\<close>

theorem typed_value_expands_again:
  fixes pre post a b :: string
  assumes ids: "is_ident name" "is_ident ty" "is_ident y" and "y \<noteq> ''hc''"
    and no: "CHR ''{'' \<notin> set pre" "CHR ''{'' \<notin> set post" "CHR ''{'' \<notin> set a" "CHR ''{'' \<notin> set b"
    and v: "obj_get name ins = Some v" "is_ok (validate_variable_type render v ty)" "render v = a @ ''{{'' @ y @ ''}}'' @ b"
    and w: "obj_get y ins = Some w"
  defines "template \<equiv> pre @ ''{{hc:'' @ name @ '':'' @ ty @ ''}}'' @ post"
  shows "captures_iter match_typed template = [(name, ty)] \<and> captures_iter match_legacy template = []
    \<and> replace_variables render ins template validated =
        Inr (pre @ a @ legacy_value_to_string render w @ b @ post, insert name validated)"
proof -
  let ?var = "''{{hc:'' @ name @ '':'' @ ty @ ''}}''"
  have tt: "tokens match_typed template = map Lit pre @ Var ?var (name, ty) # map Lit post"
    unfolding template_def tokens_typed_literal [OF no(1)]
    using tokens_var [of match_typed ?var post "(name, ty)"] match_typed_var [OF ids(1,2), of post] tokens_no_brace(1) [OF no(2)] by simp
  have tl: "tokens match_legacy template = map Lit template"
    unfolding template_def tokens_legacy_literal [OF no(1)] tokens_legacy_typed [OF ids(1,2) no(2)] by simp
  have caps: "captures_iter match_typed template = [(name, ty)]" "captures_iter match_legacy template = []"
    unfolding captures_iter_def tt tl captures_append by (simp_all add: List.map_filter_def)
  have typed: "replace_all match_typed (typed_replacement render ins) template = pre @ a @ ''{{'' @ y @ ''}}'' @ b @ post"
    unfolding replace_all_tokens tt using v(1,3) by (simp add: token_text_def [of _ "Var _ _"] typed_replacement_def)
  have "CHR ''{'' \<notin> set (b @ post)" using no by simp
  then have "tokens match_legacy (pre @ a @ ''{{'' @ y @ ''}}'' @ b @ post) =
      map Lit (pre @ a) @ Var (''{{'' @ y @ ''}}'') y # map Lit (b @ post)"
    using tokens_legacy_literal [OF no(1)] tokens_legacy_literal [OF no(3)] tokens_no_brace(2) [of "b @ post"]
      tokens_var [of match_legacy "''{{'' @ y @ ''}}''" "b @ post" y] match_legacy_var [OF ids(3), of "b @ post"] by simp
  then have legacy: "replace_all match_legacy (legacy_replacement render ins) (pre @ a @ ''{{'' @ y @ ''}}'' @ b @ post) =
      pre @ a @ legacy_value_to_string render w @ b @ post"
    unfolding replace_all_tokens using w \<open>y \<noteq> ''hc''\<close> by (simp add: token_text_def [of _ "Var _ _"] legacy_replacement_def)
  have "check_typed_captures render ins [(name, ty)] validated = Inr (insert name validated)"
    using v(1,2) by (cases "validate_variable_type render v ty") (auto simp: ok_or_def try_bind_def)
  then have "replace_variables render ins template validated =
      Inr (pre @ a @ legacy_value_to_string render w @ b @ post, insert name validated)"
    unfolding replace_variables_def caps typed Let_def legacy by (simp add: try_bind_def)
  with caps show ?thesis by blast
qed

theorem typed_value_expands_again_witness:
  "replace_variables (\<lambda>v. case v of JString s \<Rightarrow> quoted s | _ \<Rightarrow> []) [(''x'', JString ''see {{y}}''), (''y'', JString ''secret'')]
     ''Hi {{hc:x:string}}!'' {} = Inr (''Hi '' @ quoted ''see secret'' @ ''!'', {''x''})"
proof -
  let ?ins = "[(''x'', JString ''see {{y}}''), (''y'', JString ''secret'')]"
  let ?render = "\<lambda>v. case v of JString s \<Rightarrow> quoted s | _ \<Rightarrow> []"
  have ids: "is_ident ''x''" "is_ident ''string''" "is_ident ''y''" "''y'' \<noteq> ''hc''"
    by (simp_all add: is_ident_def ident_char_def ident_start_def)
  have no: "CHR ''{'' \<notin> set ''Hi ''" "CHR ''{'' \<notin> set ''!''" "CHR ''{'' \<notin> set ([CHR 0x22] @ ''see '')" "CHR ''{'' \<notin> set [CHR 0x22]"
    by simp_all
  have v: "obj_get ''x'' ?ins = Some (JString ''see {{y}}'')" "is_ok (validate_variable_type ?render (JString ''see {{y}}'') ''string'')"
    "?render (JString ''see {{y}}'') = ([CHR 0x22] @ ''see '') @ ''{{'' @ ''y'' @ ''}}'' @ [CHR 0x22]"
    and w: "obj_get ''y'' ?ins = Some (JString ''secret'')"
    by (simp_all add: obj_get_def validate_variable_type_def quoted_def)
  from typed_value_expands_again [OF ids no v w, of "{}"] show ?thesis
    by (simp add: legacy_value_to_string_def quoted_def)
qed

end
