(* ===== verification/Content_Filter.thy ===== *)
theory Content_Filter
  imports Unified_Api Prompt_Templates
begin

text \<open>
  The content filter (\<open>content_filter\<close>): before a request of a virtual key is sent, templates from the prompt cache are merged into its
  body, and a policy service is asked whether it may pass, with a rewritten body and another model as possible answers
  (\<open>content_filter/prompt_cache.rs\<close>, \<open>piicache.rs\<close>, \<open>estimate.rs\<close>, \<open>request.rs\<close>, \<open>evaluate.rs\<close>, and the steps in
  \<open>middleware/mapper/service.rs\<close> and \<open>dispatcher/service.rs\<close>). The prices for the estimate are those of \<open>logger/model_info.rs\<close>.

  Redis, the database and the policy service are functions from what they are asked to what they answer. The counters of the metrics are
  the state.
\<close>

subsection \<open>Prices of models\<close>

record ModelInfo =
  mi_prompt :: f64
  mi_completion :: f64
  mi_input_cache_read :: "f64 option"

definition json_u32 :: "json \<Rightarrow> u32 option" where
  "json_u32 v = Option.bind (as_u64 v) u32_try_from"

definition json_i64 :: "json \<Rightarrow> int option" where
  "json_i64 v =
     (case v of
        JNumber s \<Rightarrow>
          (case strip_prefix ''-'' s of
             Some digits \<Rightarrow> map_option (\<lambda>n. - int n) (parse_uint (2 ^ 63) digits)
           | None \<Rightarrow> map_option int (parse_uint (2 ^ 63 - 1) s))
      | _ \<Rightarrow> None)"

text \<open>The derived deserialiser, of which only the prices are read later.\<close>

definition parse_model_info_value :: "(string \<Rightarrow> f64 option) \<Rightarrow> json \<Rightarrow> ModelInfo option" where
  "parse_model_info_value num v =
     Option.bind (as_object v) (\<lambda>kvs.
     Option.bind (Option.bind (obj_get ''prompt'' kvs) (json_as_f64 num)) (\<lambda>prompt.
     Option.bind (Option.bind (obj_get ''completion'' kvs) (json_as_f64 num)) (\<lambda>completion.
     Option.bind (optional_member ''input_cache_read'' (json_as_f64 num) kvs) (\<lambda>cache_read.
       if (case obj_get ''schema_version'' kvs of None \<Rightarrow> True | Some x \<Rightarrow> json_u32 x \<noteq> None)
          \<and> optional_member ''tag'' as_str kvs \<noteq> None \<and> optional_member ''create_time'' json_i64 kvs \<noteq> None
          \<and> optional_member ''max_context_tokens'' json_u32 kvs \<noteq> None
          \<and> optional_member ''max_completion_tokens'' json_u32 kvs \<noteq> None
          \<and> optional_member ''model_interaction_type'' as_str kvs \<noteq> None
       then Some \<lparr>mi_prompt = prompt, mi_completion = completion, mi_input_cache_read = cache_read\<rparr>
       else None))))"

definition candidate_provider_codes :: "InferenceProvider \<Rightarrow> string list" where
  "candidate_provider_codes p =
     (if eq_ignore_ascii_case (provider_as_ref p) (as_provider_code p) then [provider_as_ref p]
      else [provider_as_ref p, as_provider_code p])"

definition candidate_redis_keys :: "InferenceProvider \<Rightarrow> 'd ModelId \<Rightarrow> string list" where
  "candidate_redis_keys p model = map (\<lambda>code. catalog_redis_key code (as_model_name model)) (candidate_provider_codes p)"

text \<open>
  Redis is asked for one key after the other, and no more after its first error; then the database is asked.
\<close>

type_synonym redis_get = "string \<Rightarrow> (string, string option) result"

fun redis_model_info :: "(string \<Rightarrow> ModelInfo option) \<Rightarrow> redis_get option \<Rightarrow> string list \<Rightarrow> ModelInfo option" where
  "redis_model_info parse redis [] = None"
| "redis_model_info parse redis (k # ks) =
     (case redis of
        None \<Rightarrow> None
      | Some get \<Rightarrow>
          (case get k of
             Inl _ \<Rightarrow> None
           | Inr None \<Rightarrow> redis_model_info parse redis ks
           | Inr (Some raw) \<Rightarrow> (case parse raw of Some info \<Rightarrow> Some info | None \<Rightarrow> redis_model_info parse redis ks)))"

fun db_model_info ::
  "(json \<Rightarrow> ModelInfo option) \<Rightarrow> (string \<Rightarrow> string \<Rightarrow> (string, json option) result) option \<Rightarrow> string \<Rightarrow> string list \<Rightarrow> ModelInfo option" where
  "db_model_info parse store model [] = None"
| "db_model_info parse store model (code # codes) =
     (case Option.bind store (\<lambda>get. case get code model of Inr (Some v) \<Rightarrow> parse v | _ \<Rightarrow> None) of
        Some info \<Rightarrow> Some info | None \<Rightarrow> db_model_info parse store model codes)"

definition policy_estimated_input_micro_usd :: "u32 \<Rightarrow> ModelInfo \<Rightarrow> f64" where
  "policy_estimated_input_micro_usd n info = f64_mul_f64 (f64_mul_f64 (f64_round (of_nat (unat n))) (mi_prompt info)) (f64_round 1000000)"

subsection \<open>The question to the policy service\<close>

record EvaluateRequest =
  er_workspace_id :: string
  er_request_id :: string
  er_model :: string
  er_provider :: string
  er_virtual_key_id :: string
  er_client_ip :: string
  er_department_id :: string
  er_body :: string
  er_estimated_input_tokens :: u32
  er_estimated_input_usd :: f64
  er_headers :: "(string \<times> string) list"

record EvaluateResponse =
  ev_allowed :: bool
  ev_reason :: string
  ev_blocked_by :: string
  ev_reason_message :: string
  ev_out_body :: string
  ev_change_model :: string

datatype grpc_outcome = GrpcAnswer EvaluateResponse | GrpcStatus string | GrpcTimeout

datatype OnUnavailable = UnavailableDeny | UnavailableAllow

text \<open>The extensions of the request that are read: a request context and in it the authentication are both optional.\<close>

record 'u cf_ext =
  cx_context :: "'u AuthContext option option"
  cx_provider :: "InferenceProvider option"
  cx_router_id :: "RouterId option"
  cx_peer_ip :: "string option"

record ('u, 'd) cf_env =
  ce_enabled :: bool
  ce_on_unavailable :: OnUnavailable
  ce_client :: "(EvaluateRequest \<Rightarrow> grpc_outcome) option"
  ce_redis :: "redis_get option"
  ce_store :: "(string \<Rightarrow> string \<Rightarrow> (string, json option) result) option"
  ce_num :: "string \<Rightarrow> f64 option"
  ce_lc :: "'d lc_env"
  ce_show_uuid :: "'u \<Rightarrow> string"
  ce_nil :: 'u

record vk_metrics =
  content_filter_unavailable :: nat
  content_filter_allowed :: nat
  content_filter_denied :: nat
  policy_piicache_request_body :: "string list"
  policy_prompt_cache_messages :: "string list"

definition extract_model_hint :: "(string \<Rightarrow> json option) \<Rightarrow> string \<Rightarrow> string" where
  "extract_model_hint parse b =
     (case Option.bind (Option.bind (Option.bind (parse b) as_object) (obj_get ''model'')) as_str of Some m \<Rightarrow> m | None \<Rightarrow> [])"

definition resolve_client_ip :: "headers \<Rightarrow> string option \<Rightarrow> string" where
  "resolve_client_ip hs peer =
     (let trimmed = (case header_str hs ''x-forwarded-for'' of Some raw \<Rightarrow> str_trim (hd (split_on CHR '','' raw)) | None \<Rightarrow> [])
      in if trimmed \<noteq> [] then trimmed else (case peer of Some ip \<Rightarrow> ip | None \<Rightarrow> []))"

text \<open>Values of one name are joined with commas, those that are no visible ASCII are left out.\<close>

fun append_entry :: "string \<Rightarrow> string \<Rightarrow> (string \<times> string) list \<Rightarrow> (string \<times> string) list" where
  "append_entry k v [] = [(k, v)]"
| "append_entry k v ((k', w) # es) = (if k' = k then (k', w @ '','' @ v) # es else (k', w) # append_entry k v es)"

definition build_policy_headers_map :: "headers \<Rightarrow> (string \<times> string) list" where
  "build_policy_headers_map hs =
     foldl (\<lambda>out (name, v). case header_to_str v of None \<Rightarrow> out | Some s \<Rightarrow> append_entry name s out) [] hs"

definition build_evaluate_request ::
  "('u, 'd) cf_env \<Rightarrow> 'u cf_ext \<Rightarrow> headers \<Rightarrow> 'u AuthContext \<Rightarrow> string \<Rightarrow> EvaluateRequest option" where
  "build_evaluate_request env ext hs auth b =
     (case ac_virtual_key_id auth of
        None \<Rightarrow> None
      | Some vk \<Rightarrow>
          let request_id = (case header_str hs ''x-request-id'' of Some s \<Rightarrow> s | None \<Rightarrow> []);
              request_id = (if request_id = [] then (case cx_router_id ext of Some (NamedRouter r) \<Rightarrow> r | None \<Rightarrow> []) else request_id)
          in Some \<lparr>er_workspace_id = ce_show_uuid env (ac_org_id auth), er_request_id = request_id,
               er_model = extract_model_hint (from_slice (ce_lc env)) b,
               er_provider = (case cx_provider ext of Some p \<Rightarrow> provider_as_ref p | None \<Rightarrow> []),
               er_virtual_key_id = ce_show_uuid env vk, er_client_ip = resolve_client_ip hs (cx_peer_ip ext),
               er_department_id = (if ac_department_id auth = ce_nil env then [] else ce_show_uuid env (ac_department_id auth)),
               er_body = [], er_estimated_input_tokens = 0, er_estimated_input_usd = Fin 0, er_headers = build_policy_headers_map hs\<rparr>)"

definition vk_auth_present :: "'u cf_ext \<Rightarrow> bool" where
  "vk_auth_present ext = (case cx_context ext of Some (Some auth) \<Rightarrow> ac_virtual_key_id auth \<noteq> None | _ \<Rightarrow> False)"

subsubsection \<open>The body for the policy\<close>

definition POLICY_MAX_REQUEST_BODY_BYTES :: nat where
  "POLICY_MAX_REQUEST_BODY_BYTES = 1024 * 1024"

definition piicache_redis_key :: "string \<Rightarrow> string" where
  "piicache_redis_key workspace = ''policy:piicache:'' @ workspace"

definition piicache_redis_value_is_true :: "string \<Rightarrow> bool" where
  "piicache_redis_value_is_true raw \<longleftrightarrow> str_trim raw = ''true''"

definition truncate_request_body_bytes :: "string \<Rightarrow> nat \<Rightarrow> string \<times> bool" where
  "truncate_request_body_bytes b limit = (if length b \<le> limit then (b, False) else (take limit b, True))"

definition count_piicache :: "string \<Rightarrow> vk_metrics \<Rightarrow> vk_metrics" where
  "count_piicache result m = m\<lparr>policy_piicache_request_body := policy_piicache_request_body m @ [result]\<rparr>"

definition attach_request_body_from_piicache_redis ::
  "redis_get option \<Rightarrow> string \<Rightarrow> string \<Rightarrow> EvaluateRequest \<Rightarrow> vk_metrics \<Rightarrow> EvaluateRequest \<times> vk_metrics" where
  "attach_request_body_from_piicache_redis redis workspace b req m =
     (case redis of
        None \<Rightarrow> (req, count_piicache ''no_redis'' m)
      | Some get \<Rightarrow>
          (case get (piicache_redis_key workspace) of
             Inl _ \<Rightarrow> (req, count_piicache ''redis_error'' m)
           | Inr None \<Rightarrow> (req, count_piicache ''skipped_nil'' m)
           | Inr (Some v) \<Rightarrow>
               if piicache_redis_value_is_true v then
                 let (slice, truncated) = truncate_request_body_bytes b POLICY_MAX_REQUEST_BODY_BYTES
                 in (req\<lparr>er_body := slice\<rparr>, count_piicache (if truncated then ''attached_truncated'' else ''attached'') m)
               else if str_trim v = ''false'' then (req, count_piicache ''skipped_false'' m)
               else (req, count_piicache ''skipped_other'' m)))"

subsubsection \<open>The estimate of the input\<close>

definition model_override_from_headers :: "headers \<Rightarrow> string option" where
  "model_override_from_headers hs =
     (case header_str hs ''alephant-model-override'' of None \<Rightarrow> None
      | Some raw \<Rightarrow> let v = str_trim raw in if v = [] then None else Some v)"

definition model_id_for_catalog :: "'d calendar \<Rightarrow> InferenceProvider \<Rightarrow> string \<Rightarrow> 'd ModelId" where
  "model_id_for_catalog cal p model =
     (case (if CHR ''/'' \<in> set model then model_id_from_str cal model else from_str_and_provider cal p model) of
        Inr i \<Rightarrow> i | Inl _ \<Rightarrow> UnknownModel model)"

definition lookup_model_info :: "('u, 'd) cf_env \<Rightarrow> InferenceProvider \<Rightarrow> 'd ModelId \<Rightarrow> ModelInfo option" where
  "lookup_model_info env p model =
     (case redis_model_info (\<lambda>raw. Option.bind (from_slice (ce_lc env) raw) (parse_model_info_value (ce_num env))) (ce_redis env)
             (candidate_redis_keys p model) of
        Some info \<Rightarrow> Some info
      | None \<Rightarrow> db_model_info (parse_model_info_value (ce_num env)) (ce_store env) (as_model_name model) (candidate_provider_codes p))"

definition fill_evaluate_request_estimates ::
  "('u, 'd) cf_env \<Rightarrow> headers \<Rightarrow> 'u cf_ext \<Rightarrow> string \<Rightarrow> EvaluateRequest \<Rightarrow> EvaluateRequest" where
  "fill_evaluate_request_estimates env hs ext b req0 =
     (let req = req0\<lparr>er_estimated_input_tokens := 0, er_estimated_input_usd := Fin 0\<rparr>
      in case cx_provider ext of
           None \<Rightarrow> req
         | Some p \<Rightarrow>
             (case parse_chat_completions_payload (ce_lc env) b of
                Some (Some payload) \<Rightarrow>
                  (case resolve_primary_model (pl_model payload) (model_override_from_headers hs) of
                     None \<Rightarrow> req
                   | Some primary \<Rightarrow>
                       (case estimate_chat_completion_input_tokens (ce_lc env) payload primary (Some p) of
                          None \<Rightarrow> req
                        | Some estimated \<Rightarrow>
                            (case lookup_model_info env p (model_id_for_catalog (lc_calendar (ce_lc env)) p primary) of
                               None \<Rightarrow> req\<lparr>er_estimated_input_tokens := estimated\<rparr>
                             | Some info \<Rightarrow> req\<lparr>er_estimated_input_tokens := estimated,
                                 er_estimated_input_usd := policy_estimated_input_micro_usd estimated info\<rparr>)))
              | _ \<Rightarrow> req))"

subsection \<open>The answer\<close>

datatype ContentFilterForwardBody = UseOriginal | UseReplaced string

record ContentFilterResult =
  forward_body :: ContentFilterForwardBody
  change_model :: "string option"

definition unchanged :: ContentFilterResult where
  "unchanged = \<lparr>forward_body = UseOriginal, change_model = None\<rparr>"

definition first_text :: "string \<Rightarrow> string \<Rightarrow> string \<Rightarrow> string" where
  "first_text reason_message reason fallback =
     (if str_trim reason_message \<noteq> [] then str_trim reason_message else if str_trim reason \<noteq> [] then str_trim reason else fallback)"

definition message_for_piicache_out_body_missing :: "string \<Rightarrow> string \<Rightarrow> string" where
  "message_for_piicache_out_body_missing reason_message reason =
     first_text reason_message reason ''Policy did not return a rewritten request body for PII cache.''"

definition forward_body_for_allowed_evaluate_response ::
  "bool \<Rightarrow> string \<Rightarrow> string \<Rightarrow> string \<Rightarrow> (ApiError, ContentFilterForwardBody) result" where
  "forward_body_for_allowed_evaluate_response active out_body reason_message reason =
     (if \<not> active then Ok UseOriginal
      else if out_body = [] then Err (InvalidRequest (IrPiicacheOutBodyMissing (message_for_piicache_out_body_missing reason_message reason)))
      else Ok (UseReplaced out_body))"

definition build_content_policy_denied_message :: "string \<Rightarrow> string \<Rightarrow> string \<Rightarrow> string" where
  "build_content_policy_denied_message reason_message reason blocked_by =
     first_text reason_message reason ''Content policy denied this request.''
     @ (if blocked_by \<noteq> [] then '' (blocked_by: '' @ blocked_by @ '')'' else [])"

text \<open>The result is \<open>None\<close> where the assignment to a member of the body panics.\<close>

definition apply_model_downgrade ::
  "(string \<Rightarrow> json option) \<Rightarrow> (json \<Rightarrow> string option) \<Rightarrow> string \<Rightarrow> string \<Rightarrow> (string \<times> string option) option" where
  "apply_model_downgrade parse print b new_model =
     (case parse b of
        None \<Rightarrow> Some (b, None)
      | Some v \<Rightarrow>
          let original = Option.bind (Option.bind (as_object v) (obj_get ''model'')) as_str
          in case index_insert ''model'' (JString new_model) v of
               None \<Rightarrow> None
             | Some v' \<Rightarrow> Some (case print v' of Some out \<Rightarrow> (out, original) | None \<Rightarrow> (b, None)))"

definition unavailable_on_failure ::
  "OnUnavailable \<Rightarrow> string \<Rightarrow> vk_metrics \<Rightarrow> (ApiError, ContentFilterResult) result \<times> vk_metrics" where
  "unavailable_on_failure on message m =
     (case on of
        UnavailableAllow \<Rightarrow> (Ok unchanged, m\<lparr>content_filter_unavailable := content_filter_unavailable m + 1\<rparr>)
      | UnavailableDeny \<Rightarrow> (Err (InternalE (IeContentFilterUnavailable message)), m))"

definition handle_answer :: "bool \<Rightarrow> EvaluateResponse \<Rightarrow> vk_metrics \<Rightarrow> (ApiError, ContentFilterResult) result \<times> vk_metrics" where
  "handle_answer active resp m =
     (if ev_allowed resp then
        (case forward_body_for_allowed_evaluate_response active (ev_out_body resp) (ev_reason_message resp) (ev_reason resp) of
           Inl e \<Rightarrow> (Err e, count_piicache ''out_body_missing_400'' m)
         | Inr plan \<Rightarrow>
             let m1 = (case plan of UseOriginal \<Rightarrow> m | UseReplaced _ \<Rightarrow> count_piicache ''forward_replaced_with_out_body'' m);
                 cm = str_trim (ev_change_model resp)
             in (Ok \<lparr>forward_body = plan, change_model = (if cm = [] then None else Some cm)\<rparr>,
                 m1\<lparr>content_filter_allowed := content_filter_allowed m1 + 1\<rparr>))
      else
        (Err (InvalidRequest (IrContentPolicyDenied
            (build_content_policy_denied_message (ev_reason_message resp) (ev_reason resp) (ev_blocked_by resp)))),
         m\<lparr>content_filter_denied := content_filter_denied m + 1\<rparr>))"

text \<open>The question as it is sent, with the body that the workspace wants checked and the estimate.\<close>

definition policy_question ::
  "('u, 'd) cf_env \<Rightarrow> headers \<Rightarrow> 'u cf_ext \<Rightarrow> string \<Rightarrow> EvaluateRequest \<Rightarrow> vk_metrics \<Rightarrow> EvaluateRequest \<times> vk_metrics" where
  "policy_question env hs ext b req m =
     (let (req1, m1) = attach_request_body_from_piicache_redis (ce_redis env) (er_workspace_id req) b req m
      in (fill_evaluate_request_estimates env hs ext b req1, m1))"

definition evaluate_for_vk_request ::
  "('u, 'd) cf_env \<Rightarrow> headers \<Rightarrow> 'u cf_ext \<Rightarrow> string \<Rightarrow> vk_metrics \<Rightarrow> (ApiError, ContentFilterResult) result \<times> vk_metrics" where
  "evaluate_for_vk_request env hs ext b m =
     (if \<not> ce_enabled env \<or> \<not> vk_auth_present ext then (Ok unchanged, m)
      else (case ce_client env of
          None \<Rightarrow> unavailable_on_failure (ce_on_unavailable env) ''content filter client not initialised'' m
        | Some client \<Rightarrow>
            (case cx_context ext of
               None \<Rightarrow> (Ok unchanged, m)
             | Some None \<Rightarrow> (Ok unchanged, m)
             | Some (Some auth) \<Rightarrow>
                 (case build_evaluate_request env ext hs auth b of
                    None \<Rightarrow> (Ok unchanged, m)
                  | Some req0 \<Rightarrow>
                      let (req, m1) = policy_question env hs ext b req0 m;
                          active = (er_body req \<noteq> []);
                          failed = m1\<lparr>content_filter_unavailable := content_filter_unavailable m1 + 1\<rparr>
                      in case client req of
                           GrpcAnswer resp \<Rightarrow> handle_answer active resp m1
                         | GrpcStatus status \<Rightarrow> unavailable_on_failure (ce_on_unavailable env) status failed
                         | GrpcTimeout \<Rightarrow> unavailable_on_failure (ce_on_unavailable env) ''content filter evaluate timed out'' failed))))"

subsection \<open>The prompt cache\<close>

definition prompt_cache_redis_key :: "string \<Rightarrow> string \<Rightarrow> string" where
  "prompt_cache_redis_key workspace prompt_id = ''prompt:cache:'' @ workspace @ '':'' @ prompt_id"

definition json_get_member :: "string \<Rightarrow> json \<Rightarrow> json option" where
  "json_get_member k v = Option.bind (as_object v) (obj_get k)"

definition template_messages_from_prompt_cache_value :: "json \<Rightarrow> (string, json list) result" where
  "template_messages_from_prompt_cache_value rt =
     try_bind (ok_or ''`template` missing in prompt cache'' (json_get_member ''template'' rt)) (\<lambda>template.
     try_bind (ok_or ''`template.messages` missing in prompt cache'' (json_get_member ''messages'' template)) (\<lambda>messages.
       ok_or ''`template.messages` must be a JSON array'' (as_array messages)))"

definition current_version_for_request_log_from_cache_root :: "json \<Rightarrow> string option" where
  "current_version_for_request_log_from_cache_root rt =
     (case Option.bind (json_get_member ''template'' rt) (json_get_member ''current_version'') of
        Some (JString s) \<Rightarrow> let t = str_trim s in if t = [] then None else Some t
      | Some (JNumber n) \<Rightarrow> Some n
      | _ \<Rightarrow> None)"

definition obj_remove :: "string \<Rightarrow> (string \<times> json) list \<Rightarrow> (string \<times> json) list" where
  "obj_remove k kvs = filter (\<lambda>(k', _). k' \<noteq> k) kvs"

definition prepend_messages_array :: "json \<Rightarrow> json list \<Rightarrow> (string, json) result" where
  "prepend_messages_array rt pre =
     (if pre = [] then Ok rt
      else try_bind (ok_or ''Request body must be a JSON object'' (as_object rt)) (\<lambda>kvs.
        case obj_get ''messages'' kvs of
          None \<Rightarrow> Ok (JObject (obj_insert ''messages'' (JArray pre) kvs))
        | Some (JArray existing) \<Rightarrow> Ok (JObject (obj_insert ''messages'' (JArray (pre @ existing)) (obj_remove ''messages'' kvs)))
        | Some _ \<Rightarrow> Err ''`messages` must be a JSON array''))"

definition prompt_id_from_headers :: "headers \<Rightarrow> string option" where
  "prompt_id_from_headers hs =
     (case header_str hs ''alephant-prompt-id'' of None \<Rightarrow> None | Some v \<Rightarrow> let t = str_trim v in if t = [] then None else Some t)"

definition invalid_prompt_cache :: "string \<Rightarrow> ApiError" where
  "invalid_prompt_cache message = InvalidRequest (IrPromptCacheInvalid message)"

definition count_prompt_cache :: "string \<Rightarrow> vk_metrics \<Rightarrow> vk_metrics" where
  "count_prompt_cache result m = m\<lparr>policy_prompt_cache_messages := policy_prompt_cache_messages m @ [result]\<rparr>"

record PromptHeaderForRequestLog =
  ph_prompt_id :: string
  ph_prompt_version :: "string option"

text \<open>The message of a failed serialisation is modelled without the text of the library.\<close>

definition merge_prompt_cache_hit_into_body ::
  "'d lc_env \<Rightarrow> string \<Rightarrow> string \<Rightarrow> string \<Rightarrow> vk_metrics
   \<Rightarrow> (ApiError, string \<times> PromptHeaderForRequestLog option) result \<times> vk_metrics" where
  "merge_prompt_cache_hit_into_body env prompt_id redis_str b m =
     (case from_slice env redis_str of
        None \<Rightarrow> (Ok (b, None), count_prompt_cache ''cache_invalid_skip'' m)
      | Some cache_root \<Rightarrow>
          (case template_messages_from_prompt_cache_value cache_root of
             Inl _ \<Rightarrow> (Ok (b, None), count_prompt_cache ''cache_invalid_skip'' m)
           | Inr template_messages \<Rightarrow>
               let header_log = \<lparr>ph_prompt_id = prompt_id, ph_prompt_version = current_version_for_request_log_from_cache_root cache_root\<rparr>;
                   bad = count_prompt_cache ''parse_or_shape_400'' m
               in if template_messages = [] then (Ok (b, Some header_log), count_prompt_cache ''hit_noop_empty_template'' m)
                  else (case from_slice env b of
                      None \<Rightarrow> (Err (invalid_prompt_cache ''Request body must be valid JSON when using Alephant-Prompt-ID''), bad)
                    | Some body_root \<Rightarrow>
                        (case prepend_messages_array body_root template_messages of
                           Inl msg \<Rightarrow> (Err (invalid_prompt_cache msg), bad)
                         | Inr merged \<Rightarrow>
                             (case apply_prompt_inputs_to_body (json_to_string env) merged of
                                Inl e \<Rightarrow> (Err e, m)
                              | Inr processed \<Rightarrow>
                                  (case to_vec env processed of
                                     None \<Rightarrow> (Err (invalid_prompt_cache ''Failed to serialize request body: ''), bad)
                                   | Some out \<Rightarrow> (Ok (out, Some header_log), count_prompt_cache ''hit_injected'' m)))))))"

definition MAX_PROMPT_ID_BYTES :: nat where
  "MAX_PROMPT_ID_BYTES = 256"

definition merge_prompt_cache_messages_into_body ::
  "'d lc_env \<Rightarrow> redis_get option \<Rightarrow> headers \<Rightarrow> string \<Rightarrow> string \<Rightarrow> vk_metrics
   \<Rightarrow> (ApiError, string \<times> PromptHeaderForRequestLog option) result \<times> vk_metrics" where
  "merge_prompt_cache_messages_into_body env redis hs workspace b m =
     (case prompt_id_from_headers hs of
        None \<Rightarrow> (Ok (b, None), count_prompt_cache ''skipped_no_header'' m)
      | Some prompt_id \<Rightarrow>
          if workspace = [] then (Ok (b, None), count_prompt_cache ''skipped_no_workspace'' m)
          else if length prompt_id > MAX_PROMPT_ID_BYTES
          then (Err (invalid_prompt_cache ''Alephant-Prompt-ID exceeds maximum length (256 bytes)''), count_prompt_cache ''prompt_id_too_long_400'' m)
          else (case redis of
              None \<Rightarrow> (Ok (b, None), count_prompt_cache ''no_redis'' m)
            | Some get \<Rightarrow>
                (case get (prompt_cache_redis_key workspace prompt_id) of
                   Inl _ \<Rightarrow> (Ok (b, None), count_prompt_cache ''redis_error'' m)
                 | Inr None \<Rightarrow> (Ok (b, None), count_prompt_cache ''miss'' m)
                 | Inr (Some s) \<Rightarrow>
                     if s = [] then (Ok (b, None), count_prompt_cache ''miss'' m)
                     else merge_prompt_cache_hit_into_body env prompt_id s b m)))"

subsection \<open>Both on a request\<close>

record PolicyModelOverride =
  original_model :: string
  downgraded_model :: string

record filtered =
  fl_body :: string
  fl_prompt_log :: "PromptHeaderForRequestLog option"
  fl_override :: "PolicyModelOverride option"

text \<open>The steps in \<open>map_request\<close>: the outer \<open>None\<close> is a panic.\<close>

definition filter_request ::
  "('u, 'd) cf_env \<Rightarrow> headers \<Rightarrow> 'u cf_ext \<Rightarrow> string \<Rightarrow> vk_metrics \<Rightarrow> (ApiError, filtered) result option \<times> vk_metrics" where
  "filter_request env hs ext b0 m0 =
     (let workspace = (case cx_context ext of Some (Some auth) \<Rightarrow> ce_show_uuid env (ac_org_id auth) | _ \<Rightarrow> [])
      in case merge_prompt_cache_messages_into_body (ce_lc env) (ce_redis env) hs workspace b0 m0 of
           (Inl e, m1) \<Rightarrow> (Some (Err e), m1)
         | (Inr (b1, header_log), m1) \<Rightarrow>
             (case evaluate_for_vk_request env hs ext b1 m1 of
                (Inl e, m2) \<Rightarrow> (Some (Err e), m2)
              | (Inr r, m2) \<Rightarrow>
                  let b2 = (case forward_body r of UseOriginal \<Rightarrow> b1 | UseReplaced b \<Rightarrow> b)
                  in (case change_model r of
                        None \<Rightarrow> (Some (Ok \<lparr>fl_body = b2, fl_prompt_log = header_log, fl_override = None\<rparr>), m2)
                      | Some new_model \<Rightarrow>
                          (map_option (\<lambda>(b3, original). Ok \<lparr>fl_body = b3, fl_prompt_log = header_log,
                               fl_override = Some \<lparr>original_model = (case original of Some s \<Rightarrow> s | None \<Rightarrow> []), downgraded_model = new_model\<rparr>\<rparr>)
                             (apply_model_downgrade (from_slice (ce_lc env)) (to_vec (ce_lc env)) b2 new_model), m2))))"

text \<open>The dispatcher runs the same steps itself, for requests that come past the mapper.\<close>

definition direct_proxy_filter ::
  "('u, 'd) cf_env \<Rightarrow> RequestKind \<Rightarrow> headers \<Rightarrow> 'u cf_ext \<Rightarrow> string \<Rightarrow> vk_metrics \<Rightarrow> (ApiError, filtered) result option \<times> vk_metrics" where
  "direct_proxy_filter env kind hs ext b m =
     (if kind = RkDirectProxy \<or> kind = RkCustomProvider then filter_request env hs ext b m
      else (Some (Ok \<lparr>fl_body = b, fl_prompt_log = None, fl_override = None\<rparr>), m))"

subsection \<open>The client of the policy service\<close>

definition normalize_grpc_endpoint :: "string \<Rightarrow> string" where
  "normalize_grpc_endpoint endpoint =
     (let ep = str_trim endpoint
      in if ep = [] then []
         else if strip_prefix ''http://'' ep \<noteq> None \<or> strip_prefix ''https://'' ep \<noteq> None then ep
         else ''http://'' @ ep)"

text \<open>One tick of the reconnect task: another task may have filled the slot while this one was connecting (\<open>meanwhile\<close>).\<close>

definition reconnect_tick :: "'c option \<Rightarrow> (string, 'c) result \<Rightarrow> 'c option \<Rightarrow> 'c option" where
  "reconnect_tick slot connect meanwhile =
     (if slot \<noteq> None then slot
      else (case connect of
          Inr client \<Rightarrow> if meanwhile = None then Some client else meanwhile
        | Inl _ \<Rightarrow> meanwhile))"

subsection \<open>What the filter lets pass\<close>

lemma fill_estimates_keeps:
  "er_workspace_id (fill_evaluate_request_estimates env hs ext b req) = er_workspace_id req"
  "er_virtual_key_id (fill_evaluate_request_estimates env hs ext b req) = er_virtual_key_id req"
  "er_model (fill_evaluate_request_estimates env hs ext b req) = er_model req"
  "er_body (fill_evaluate_request_estimates env hs ext b req) = er_body req"
  by (auto simp: fill_evaluate_request_estimates_def Let_def split: option.splits)

lemma attach_cases:
  assumes "attach_request_body_from_piicache_redis redis workspace b req m = (req', m')"
  shows "req' = req \<or> req' = req\<lparr>er_body := take POLICY_MAX_REQUEST_BODY_BYTES b\<rparr>"
  using assms by (auto simp: attach_request_body_from_piicache_redis_def truncate_request_body_bytes_def split: option.splits sum.splits if_splits)

definition policy_asked :: "('u, 'd) cf_env \<Rightarrow> 'u AuthContext \<Rightarrow> 'u \<Rightarrow> string \<Rightarrow> EvaluateRequest \<Rightarrow> bool" where
  "policy_asked env auth vk b req \<longleftrightarrow> er_workspace_id req = ce_show_uuid env (ac_org_id auth) \<and> er_virtual_key_id req = ce_show_uuid env vk
     \<and> er_model req = extract_model_hint (from_slice (ce_lc env)) b
     \<and> (er_body req = [] \<or> er_body req = take POLICY_MAX_REQUEST_BODY_BYTES b)"

lemma question_asked:
  assumes "ac_virtual_key_id auth = Some vk" and "build_evaluate_request env ext hs auth b = Some req0"
    and "policy_question env hs ext b req0 m = (req, m')"
  shows "policy_asked env auth vk b req"
proof -
  obtain req1 m1 where a: "attach_request_body_from_piicache_redis (ce_redis env) (er_workspace_id req0) b req0 m = (req1, m1)"
    by (cases "attach_request_body_from_piicache_redis (ce_redis env) (er_workspace_id req0) b req0 m")
  have r: "req = fill_evaluate_request_estimates env hs ext b req1" using assms(3) a by (simp add: policy_question_def)
  have "er_workspace_id req0 = ce_show_uuid env (ac_org_id auth)" "er_virtual_key_id req0 = ce_show_uuid env vk"
    "er_model req0 = extract_model_hint (from_slice (ce_lc env)) b" "er_body req0 = []"
    using assms(1,2) by (auto simp: build_evaluate_request_def Let_def)
  with attach_cases [OF a] show ?thesis unfolding r policy_asked_def by (auto simp: fill_estimates_keeps)
qed

text \<open>The service was not reached, or did not answer this request.\<close>

definition policy_silent :: "('u, 'd) cf_env \<Rightarrow> 'u AuthContext \<Rightarrow> 'u \<Rightarrow> string \<Rightarrow> bool" where
  "policy_silent env auth vk b \<longleftrightarrow> (case ce_client env of None \<Rightarrow> True
     | Some client \<Rightarrow> \<exists>req. policy_asked env auth vk b req \<and> (client req = GrpcTimeout \<or> (\<exists>status. client req = GrpcStatus status)))"

definition policy_answered :: "('u, 'd) cf_env \<Rightarrow> 'u AuthContext \<Rightarrow> 'u \<Rightarrow> string \<Rightarrow> EvaluateRequest \<Rightarrow> EvaluateResponse \<Rightarrow> bool" where
  "policy_answered env auth vk b req resp \<longleftrightarrow> (\<exists>client. ce_client env = Some client \<and> client req = GrpcAnswer resp) \<and> policy_asked env auth vk b req"

lemma evaluate_permits:
  assumes "ce_enabled env" and "cx_context ext = Some (Some auth)" and "ac_virtual_key_id auth = Some vk"
    and "evaluate_for_vk_request env hs ext b m = (Inr r, m')"
  shows "policy_silent env auth vk b \<and> ce_on_unavailable env = UnavailableAllow \<and> r = unchanged
    \<or> (\<exists>req resp. policy_answered env auth vk b req resp \<and> ev_allowed resp
        \<and> forward_body r = (if er_body req = [] then UseOriginal else UseReplaced (ev_out_body resp))
        \<and> change_model r = (if str_trim (ev_change_model resp) = [] then None else Some (str_trim (ev_change_model resp))))"
proof -
  have p: "vk_auth_present ext" using assms(2,3) by (simp add: vk_auth_present_def)
  obtain req0 where req0: "build_evaluate_request env ext hs auth b = Some req0"
    using assms(3) by (simp add: build_evaluate_request_def Let_def)
  show ?thesis
  proof (cases "ce_client env")
    case None
    then show ?thesis using assms p
      by (auto simp: evaluate_for_vk_request_def unavailable_on_failure_def policy_silent_def split: OnUnavailable.splits)
  next
    case (Some client)
    obtain req m1 where q: "policy_question env hs ext b req0 m = (req, m1)" by (cases "policy_question env hs ext b req0 m")
    note asked = question_asked [OF assms(3) req0 q]
    show ?thesis
    proof (cases "client req")
      case (GrpcAnswer resp)
      then have "handle_answer (er_body req \<noteq> []) resp m1 = (Inr r, m')"
        using assms Some p req0 q by (simp add: evaluate_for_vk_request_def)
      then have "ev_allowed resp \<and> forward_body r = (if er_body req = [] then UseOriginal else UseReplaced (ev_out_body resp))
          \<and> change_model r = (if str_trim (ev_change_model resp) = [] then None else Some (str_trim (ev_change_model resp)))"
        by (auto simp: handle_answer_def forward_body_for_allowed_evaluate_response_def Let_def split: if_splits)
      with GrpcAnswer Some asked show ?thesis unfolding policy_answered_def by blast
    qed (use assms Some p req0 q asked in \<open>auto simp: evaluate_for_vk_request_def unavailable_on_failure_def policy_silent_def Let_def
        split: OnUnavailable.splits\<close>)
  qed
qed

text \<open>What is forwarded after an answer: the body that was returned for the one that was given, with the model that is demanded.\<close>

definition rewritten_by :: "('u, 'd) cf_env \<Rightarrow> string \<Rightarrow> EvaluateRequest \<Rightarrow> EvaluateResponse \<Rightarrow> filtered \<Rightarrow> bool" where
  "rewritten_by env b req resp f \<longleftrightarrow>
     (let b2 = (if er_body req = [] then b else ev_out_body resp); model = str_trim (ev_change_model resp)
      in if model = [] then fl_body f = b2 \<and> fl_override f = None
         else (\<exists>original. apply_model_downgrade (from_slice (ce_lc env)) (to_vec (ce_lc env)) b2 model = Some (fl_body f, original)
           \<and> fl_override f = Some \<lparr>original_model = (case original of Some s \<Rightarrow> s | None \<Rightarrow> []), downgraded_model = model\<rparr>))"

text \<open>
  C39. With the filter enabled, a request of a virtual key passes only if the policy service has allowed it, or if the
  service does not answer and the configuration says so. The service was asked with the workspace, the key and the model of
  the body that the prompt cache has completed. If it was given the body, of which it sees the first megabyte, what is
  forwarded is the body it returned, and otherwise the body as it was, with another model if the service demands one.
\<close>

theorem content_policy_gate:
  assumes "ce_enabled env" and "cx_context ext = Some (Some auth)" and "ac_virtual_key_id auth = Some vk"
    and "fst (filter_request env hs ext b m) = Some (Inr f)"
  shows "\<exists>b1. fst (merge_prompt_cache_messages_into_body (ce_lc env) (ce_redis env) hs (ce_show_uuid env (ac_org_id auth)) b m)
        = Inr (b1, fl_prompt_log f)
    \<and> (policy_silent env auth vk b1 \<and> ce_on_unavailable env = UnavailableAllow \<and> fl_body f = b1 \<and> fl_override f = None
       \<or> (\<exists>req resp. policy_answered env auth vk b1 req resp \<and> ev_allowed resp \<and> rewritten_by env b1 req resp f))"
proof -
  let ?ws = "ce_show_uuid env (ac_org_id auth)"
  obtain r1 m1 where mg: "merge_prompt_cache_messages_into_body (ce_lc env) (ce_redis env) hs ?ws b m = (r1, m1)"
    by (cases "merge_prompt_cache_messages_into_body (ce_lc env) (ce_redis env) hs ?ws b m")
  with assms(2,4) obtain b1 hl where r1: "r1 = Inr (b1, hl)"
    by (auto simp: filter_request_def split: sum.splits)
  obtain r2 m2 where ev: "evaluate_for_vk_request env hs ext b1 m1 = (r2, m2)" by (cases "evaluate_for_vk_request env hs ext b1 m1")
  with assms(2,4) mg r1 obtain r where r2: "r2 = Inr r" by (auto simp: filter_request_def split: sum.splits)
  let ?out = "(let b2 = (case forward_body r of UseOriginal \<Rightarrow> b1 | UseReplaced b' \<Rightarrow> b')
       in case change_model r of None \<Rightarrow> Some (Ok \<lparr>fl_body = b2, fl_prompt_log = hl, fl_override = None\<rparr>)
          | Some n \<Rightarrow> map_option (\<lambda>(b3, original). Ok \<lparr>fl_body = b3, fl_prompt_log = hl,
              fl_override = Some \<lparr>original_model = (case original of Some s \<Rightarrow> s | None \<Rightarrow> []), downgraded_model = n\<rparr>\<rparr>)
              (apply_model_downgrade (from_slice (ce_lc env)) (to_vec (ce_lc env)) b2 n))"
  have "fst (filter_request env hs ext b m) = ?out"
    using assms(2) mg r1 ev r2 by (simp add: filter_request_def Let_def split: option.splits)
  with assms(4) have out: "?out = Some (Inr f :: (ApiError, filtered) result)" by simp
  from evaluate_permits [OF assms(1-3) ev [unfolded r2]] consider
      (silent) "policy_silent env auth vk b1" "ce_on_unavailable env = UnavailableAllow" "r = unchanged"
    | (answer) req resp where "policy_answered env auth vk b1 req resp" "ev_allowed resp"
        "forward_body r = (if er_body req = [] then UseOriginal else UseReplaced (ev_out_body resp))"
        "change_model r = (if str_trim (ev_change_model resp) = [] then None else Some (str_trim (ev_change_model resp)))"
    by blast
  then show ?thesis
  proof cases
    case silent
    then show ?thesis using out mg r1 by (auto simp: unchanged_def)
  next
    case answer
    have "fl_prompt_log f = hl" using out by (auto simp: Let_def split: option.splits)
    moreover have "rewritten_by env b1 req resp f"
      using out answer(3,4) by (auto simp: rewritten_by_def Let_def split: if_splits)
    ultimately show ?thesis using mg r1 answer(1,2) by auto
  qed
qed

text \<open>A policy service that allows one model.\<close>

definition policy_env :: "(nat, string) cf_env" where
  "policy_env = \<lparr>ce_enabled = True, ce_on_unavailable = UnavailableDeny,
     ce_client = Some (\<lambda>req. GrpcAnswer \<lparr>ev_allowed = (er_model req = ''gpt-4o''), ev_reason = [], ev_blocked_by = [], ev_reason_message = [],
       ev_out_body = [], ev_change_model = []\<rparr>),
     ce_redis = None, ce_store = None, ce_num = (\<lambda>_. None), ce_lc = ue_lc chat_env, ce_show_uuid = (\<lambda>_. ''u''), ce_nil = 0\<rparr>"

definition no_metrics :: vk_metrics where
  "no_metrics = \<lparr>content_filter_unavailable = 0, content_filter_allowed = 0, content_filter_denied = 0,
     policy_piicache_request_body = [], policy_prompt_cache_messages = []\<rparr>"

definition vk_ext :: "nat cf_ext" where
  "vk_ext = \<lparr>cx_context = Some (Some chat_auth), cx_provider = None, cx_router_id = None, cx_peer_ip = None\<rparr>"

theorem content_policy_gate_witness:
  "fst (filter_request policy_env [] vk_ext ''{}'' no_metrics) = Some (Inr \<lparr>fl_body = ''{}'', fl_prompt_log = None, fl_override = None\<rparr>)
   \<and> (\<exists>req resp. policy_answered policy_env chat_auth 7 ''{}'' req resp \<and> ev_allowed resp)"
proof -
  have env: "ce_enabled policy_env" "cx_context vk_ext = Some (Some chat_auth)" "ac_virtual_key_id chat_auth = Some 7"
    "ce_on_unavailable policy_env = UnavailableDeny" "ce_redis policy_env = None"
    by (simp_all add: policy_env_def vk_ext_def chat_auth_def)
  have mg: "fst (merge_prompt_cache_messages_into_body lc None [] ws b m) = Inr (b, None)" for lc :: "string lc_env" and ws b m
    by (simp add: merge_prompt_cache_messages_into_body_def prompt_id_from_headers_def header_str_def header_get_def)
  have run: "fst (filter_request policy_env [] vk_ext ''{}'' no_metrics) = Some (Inr \<lparr>fl_body = ''{}'', fl_prompt_log = None, fl_override = None\<rparr>)"
    by code_simp
  from content_policy_gate [OF env(1-3) run] env(4,5) mg run show ?thesis by auto
qed

subsection \<open>What the prompt cache does to a body\<close>

text \<open>Redis has, for this workspace and prompt, the JSON value \<open>rt\<close> with the messages \<open>ts\<close> in its template.\<close>

definition cached_template :: "'d lc_env \<Rightarrow> redis_get option \<Rightarrow> string \<Rightarrow> string \<Rightarrow> json \<Rightarrow> json list \<Rightarrow> bool" where
  "cached_template env redis ws pid rt ts \<longleftrightarrow>
     (\<exists>get s r t. redis = Some get \<and> get (''prompt:cache:'' @ ws @ '':'' @ pid) = Inr (Some s) \<and> s \<noteq> [] \<and> from_slice env s = Some rt
        \<and> rt = JObject r \<and> obj_get ''template'' r = Some (JObject t) \<and> obj_get ''messages'' t = Some (JArray ts))"

text \<open>The messages of a body that is an object, where none are as good as an empty array.\<close>

definition body_messages :: "(string \<times> json) list \<Rightarrow> json list option" where
  "body_messages kvs = (case obj_get ''messages'' kvs of None \<Rightarrow> Some [] | Some v \<Rightarrow> as_array v)"

definition usable_body :: "'d lc_env \<Rightarrow> string \<Rightarrow> (string \<times> json) list \<Rightarrow> json list \<Rightarrow> bool" where
  "usable_body env b kvs ms \<longleftrightarrow> from_slice env b = Some (JObject kvs) \<and> body_messages kvs = Some ms"

text \<open>The other members of the body, and the messages of the template in front of its own.\<close>

definition merged_body :: "json list \<Rightarrow> (string \<times> json) list \<Rightarrow> json list \<Rightarrow> json" where
  "merged_body ts kvs ms = JObject (filter (\<lambda>(k, _). k \<noteq> ''messages'') kvs @ [(''messages'', JArray (ts @ ms))])"

definition template_applied :: "'d lc_env \<Rightarrow> json list \<Rightarrow> string \<Rightarrow> string \<Rightarrow> bool" where
  "template_applied env ts b b' \<longleftrightarrow>
     (if ts = [] then b' = b
      else (\<exists>kvs ms processed. usable_body env b kvs ms
         \<and> apply_prompt_inputs_to_body (json_to_string env) (merged_body ts kvs ms) = Inr processed \<and> to_vec env processed = Some b'))"

text \<open>The error of a body that cannot take the messages of the template: that of the inputs, or one of the prompt cache.\<close>

definition template_refused :: "'d lc_env \<Rightarrow> json list \<Rightarrow> string \<Rightarrow> ApiError \<Rightarrow> bool" where
  "template_refused env ts b e \<longleftrightarrow> ts \<noteq> [] \<and>
     ((\<exists>kvs ms. usable_body env b kvs ms \<and> prompt_error e
         \<and> apply_prompt_inputs_to_body (json_to_string env) (merged_body ts kvs ms) = Inl e)
      \<or> (\<exists>msg. e = invalid_prompt_cache msg)
         \<and> ((\<nexists>kvs ms. usable_body env b kvs ms)
            \<or> (\<exists>kvs ms processed. usable_body env b kvs ms
                 \<and> apply_prompt_inputs_to_body (json_to_string env) (merged_body ts kvs ms) = Inr processed \<and> to_vec env processed = None)))"

lemma inputs_error: "apply_prompt_inputs_to_body r v = Inl e \<Longrightarrow> prompt_error e"
proof (cases v)
  case (JObject kvs)
  have "fails_as prompt_error (apply_prompt_inputs_to_body r v)"
    unfolding JObject apply_prompt_inputs_to_body_def Let_def
    by (auto intro!: on_key_fails messages_fail schema_fails split: option.splits)
  then show "apply_prompt_inputs_to_body r v = Inl e \<Longrightarrow> prompt_error e" by (simp add: fails_as_def)
qed (simp_all add: apply_prompt_inputs_to_body_def)

lemma obj_remove_messages: "obj_insert k v (obj_remove k kvs) = filter (\<lambda>(k', _). k' \<noteq> k) kvs @ [(k, v)]"
proof -
  have "k \<notin> fst ` set (obj_remove k kvs)" by (auto simp: obj_remove_def)
  from obj_insert_fresh [OF this] show ?thesis by (simp add: obj_remove_def)
qed

lemma obj_remove_absent: "obj_get k kvs = None \<Longrightarrow> obj_remove k kvs = kvs"
  by (force simp: obj_get_def obj_remove_def map_of_eq_None_iff filter_id_conv)

lemma prepend_usable:
  assumes "usable_body env b kvs ms" and "ts \<noteq> []"
  shows "prepend_messages_array (JObject kvs) ts = Inr (merged_body ts kvs ms)"
proof (cases "obj_get ''messages'' kvs")
  case None
  with assms show ?thesis
    using obj_remove_messages [of "''messages''" "JArray ts" kvs] obj_remove_absent [OF None]
    by (simp add: prepend_messages_array_def usable_body_def body_messages_def merged_body_def ok_or_def try_bind_def)
next
  case (Some v)
  with assms have "v = JArray ms" by (simp add: usable_body_def body_messages_def)
  with Some assms(2) show ?thesis
    using obj_remove_messages [of "''messages''" "JArray (ts @ ms)" kvs]
    by (simp add: prepend_messages_array_def merged_body_def ok_or_def try_bind_def)
qed

lemma prepend_unusable:
  assumes "from_slice env b = Some v" and "\<nexists>kvs ms. usable_body env b kvs ms" and "ts \<noteq> []"
  shows "\<exists>msg. prepend_messages_array v ts = Inl msg"
  using assms
  by (cases v) (auto simp: prepend_messages_array_def usable_body_def body_messages_def ok_or_def try_bind_def
      split: option.splits json.splits)

lemma template_messages_iff:
  "template_messages_from_prompt_cache_value rt = Inr ts \<longleftrightarrow>
     (\<exists>r t. rt = JObject r \<and> obj_get ''template'' r = Some (JObject t) \<and> obj_get ''messages'' t = Some (JArray ts))"
  unfolding template_messages_from_prompt_cache_value_def json_get_member_def
  by (auto simp: ok_or_def try_bind_def bind_eq_Some_conv split: option.splits)

text \<open>One entry of the cache and one body.\<close>

lemma merge_hit:
  fixes pid :: string
  assumes "from_slice env s = Some rt" and "template_messages_from_prompt_cache_value rt = Inr ts"
  defines "hl \<equiv> \<lparr>ph_prompt_id = pid, ph_prompt_version = current_version_for_request_log_from_cache_root rt\<rparr>"
  shows "(\<exists>b'. fst (merge_prompt_cache_hit_into_body env pid s b m) = Inr (b', Some hl) \<and> template_applied env ts b b')
    \<or> (\<exists>e. fst (merge_prompt_cache_hit_into_body env pid s b m) = Inl e \<and> template_refused env ts b e)"
proof (cases "ts = []")
  case True
  with assms show ?thesis by (simp add: merge_prompt_cache_hit_into_body_def template_applied_def)
next
  case ts: False
  note unf = merge_prompt_cache_hit_into_body_def assms(1,2) Let_def
  show ?thesis
  proof (cases "\<exists>kvs ms. usable_body env b kvs ms")
    case True
    then obtain kvs ms where u: "usable_body env b kvs ms" by blast
    then have b: "from_slice env b = Some (JObject kvs)" by (simp add: usable_body_def)
    note p = prepend_usable [OF u ts]
    show ?thesis
    proof (cases "apply_prompt_inputs_to_body (json_to_string env) (merged_body ts kvs ms)")
      case (Inl e)
      with u ts inputs_error [OF Inl] have "template_refused env ts b e" unfolding template_refused_def by blast
      moreover have "fst (merge_prompt_cache_hit_into_body env pid s b m) = Inl e" using ts by (simp add: unf b p Inl)
      ultimately show ?thesis by blast
    next
      case (Inr processed)
      show ?thesis
      proof (cases "to_vec env processed")
        case None
        with u ts Inr have "template_refused env ts b (invalid_prompt_cache ''Failed to serialize request body: '')"
          unfolding template_refused_def by blast
        with ts None show ?thesis by (simp add: unf b p Inr)
      next
        case (Some b')
        with u ts Inr have "template_applied env ts b b'" unfolding template_applied_def by auto
        with ts Some show ?thesis by (simp add: unf b p Inr hl_def)
      qed
    qed
  next
    case False
    with ts have ref: "template_refused env ts b (invalid_prompt_cache msg)" for msg unfolding template_refused_def by blast
    show ?thesis
    proof (cases "from_slice env b")
      case None
      with ts ref show ?thesis by (simp add: unf)
    next
      case (Some v)
      from prepend_unusable [OF Some False ts] obtain msg where "prepend_messages_array v ts = Inl msg" by blast
      with ts ref Some show ?thesis by (simp add: unf)
    qed
  qed
qed

text \<open>Without a usable entry nothing happens.\<close>

lemma merge_miss:
  assumes "prompt_id_from_headers hs = Some pid" and "ws \<noteq> []" and "length pid \<le> 256"
    and "\<nexists>rt ts. cached_template env redis ws pid rt ts"
  shows "fst (merge_prompt_cache_messages_into_body env redis hs ws b m) = Inr (b, None)"
proof -
  have "template_messages_from_prompt_cache_value rt \<noteq> Inr ts"
    if "redis = Some get" "get (''prompt:cache:'' @ ws @ '':'' @ pid) = Inr (Some s)" "s \<noteq> []" "from_slice env s = Some rt" for get s rt ts
    using assms(4) that unfolding cached_template_def template_messages_iff by blast
  with assms(1-3) show ?thesis
    by (auto simp: merge_prompt_cache_messages_into_body_def MAX_PROMPT_ID_BYTES_def prompt_cache_redis_key_def
        merge_prompt_cache_hit_into_body_def Let_def split: option.splits sum.splits)
qed

lemma applied_functional:
  assumes "template_applied env ts b b1" and "template_applied env ts b b2"
  shows "b1 = b2"
  using assms by (auto simp: template_applied_def usable_body_def split: if_splits)

lemma refused_not_applied: "template_refused env ts b e \<Longrightarrow> \<not> template_applied env ts b b'"
  by (auto simp: template_refused_def template_applied_def usable_body_def)

text \<open>
  C40. What the prompt cache does to a body, exactly. Without an identifier of a prompt or without a workspace the body is left as it
  was, and an identifier of more than 256 bytes is an error of the prompt cache. Otherwise, when Redis is absent, fails or has
  no usable entry, the body is left as it was and nothing is logged. With an entry, the request goes on exactly with the
  body to which the template was applied, and logs the prompt with the version of the entry: the same body if the template has no
  messages, and else the body with the messages of the template before its own, the inputs applied, and printed. When the template
  cannot be applied, because the body is no object, its messages are no array, the inputs do not fit or the
  result cannot be printed, the request fails with the error of the inputs or one of the prompt cache.
\<close>

theorem prompt_cache_exact:
  fixes env :: "'d lc_env" and redis :: "redis_get option" and hs :: headers and ws b :: string and m :: vk_metrics
  defines "result \<equiv> fst (merge_prompt_cache_messages_into_body env redis hs ws b m)"
  shows "case prompt_id_from_headers hs of
      None \<Rightarrow> result = Inr (b, None)
    | Some pid \<Rightarrow>
        if ws = [] then result = Inr (b, None)
        else if length pid > 256
        then result = Inl (invalid_prompt_cache ''Alephant-Prompt-ID exceeds maximum length (256 bytes)'')
        else ((\<nexists>rt ts. cached_template env redis ws pid rt ts) \<longrightarrow> result = Inr (b, None))
          \<and> (\<forall>rt ts. cached_template env redis ws pid rt ts \<longrightarrow>
               (\<forall>b' hl. result = Inr (b', hl) \<longleftrightarrow> template_applied env ts b b'
                  \<and> hl = Some \<lparr>ph_prompt_id = pid, ph_prompt_version = current_version_for_request_log_from_cache_root rt\<rparr>)
               \<and> (\<forall>e. result = Inl e \<longrightarrow> template_refused env ts b e))"
proof (cases "prompt_id_from_headers hs")
  case None
  then show ?thesis by (simp add: result_def merge_prompt_cache_messages_into_body_def)
next
  case (Some pid)
  note unf = result_def merge_prompt_cache_messages_into_body_def Some MAX_PROMPT_ID_BYTES_def prompt_cache_redis_key_def
  show ?thesis
  proof (cases "ws = [] \<or> length pid > 256")
    case True
    then show ?thesis by (auto simp: unf)
  next
    case usable: False
    have miss: "result = Inr (b, None)" if "\<nexists>rt ts. cached_template env redis ws pid rt ts"
      unfolding result_def using merge_miss [OF Some _ _ that] usable by simp
    have hit: "(\<exists>b'. result = Inr (b', Some \<lparr>ph_prompt_id = pid, ph_prompt_version = current_version_for_request_log_from_cache_root rt\<rparr>)
          \<and> template_applied env ts b b')
        \<or> (\<exists>e. result = Inl e \<and> template_refused env ts b e)" if "cached_template env redis ws pid rt ts" for rt ts
    proof -
      from that obtain get s where r: "redis = Some get" "get (''prompt:cache:'' @ ws @ '':'' @ pid) = Inr (Some s)" "s \<noteq> []"
        and rt: "from_slice env s = Some rt" "template_messages_from_prompt_cache_value rt = Inr ts"
        unfolding cached_template_def template_messages_iff by blast
      have "result = fst (merge_prompt_cache_hit_into_body env pid s b m)" using usable r by (simp add: unf)
      with merge_hit [OF rt, of pid b m] show ?thesis by simp
    qed
    have all: "(\<forall>b' hl. result = Inr (b', hl) \<longleftrightarrow> template_applied env ts b b'
          \<and> hl = Some \<lparr>ph_prompt_id = pid, ph_prompt_version = current_version_for_request_log_from_cache_root rt\<rparr>)
        \<and> (\<forall>e. result = Inl e \<longrightarrow> template_refused env ts b e)" if "cached_template env redis ws pid rt ts" for rt ts
    proof (cases result)
      case (Inl e)
      with hit [OF that] have r: "template_refused env ts b e" by auto
      with Inl refused_not_applied [OF r] show ?thesis by simp
    next
      case (Inr r)
      with hit [OF that] obtain b' where b': "template_applied env ts b b'"
        "r = (b', Some \<lparr>ph_prompt_id = pid, ph_prompt_version = current_version_for_request_log_from_cache_root rt\<rparr>)" by auto
      have "template_applied env ts b b2 \<longleftrightarrow> b2 = b'" for b2 using b'(1) applied_functional by blast
      with Inr b'(2) show ?thesis by auto
    qed
    from usable miss all show ?thesis by (simp add: Some)
  qed
qed

text \<open>An entry with one message, and a body without any.\<close>

definition cache_codec_parse :: "string \<Rightarrow> json option" where
  "cache_codec_parse s =
     (if s = ''entry'' then Some (JObject [(''template'', JObject [(''messages'', JArray [JString ''hello'']), (''current_version'', JNumber ''3'')])])
      else if s = ''body'' then Some (JObject [(''model'', JString ''gpt-4o'')]) else None)"

definition cache_env :: "string lc_env" where
  "cache_env = sample_env\<lparr>from_slice := cache_codec_parse,
     to_vec := (\<lambda>v. if v = JObject [(''model'', JString ''gpt-4o''), (''messages'', JArray [JString ''hello''])] then Some ''merged'' else None)\<rparr>"

theorem prompt_cache_exact_witness:
  "fst (merge_prompt_cache_messages_into_body cache_env (Some (\<lambda>k. Inr (if k = ''prompt:cache:w:p'' then Some ''entry'' else None)))
      [(''alephant-prompt-id'', ''p'')] ''w'' ''body'' no_metrics)
   = Inr (''merged'', Some \<lparr>ph_prompt_id = ''p'', ph_prompt_version = Some ''3''\<rparr>)"
proof -
  let ?redis = "Some (\<lambda>k. Inr (if k = ''prompt:cache:w:p'' then Some ''entry'' else None)) :: redis_get option"
  let ?hs = "[(''alephant-prompt-id'', ''p'')] :: headers"
  let ?t = "[(''messages'', JArray [JString ''hello'']), (''current_version'', JNumber ''3'')]"
  have pid: "prompt_id_from_headers ?hs = Some ''p''" by code_simp
  have cached: "cached_template cache_env ?redis ''w'' ''p'' (JObject [(''template'', JObject ?t)]) [JString ''hello'']"
    by (simp add: cached_template_def cache_env_def cache_codec_parse_def obj_get_def)
  have ub: "usable_body cache_env ''body'' [(''model'', JString ''gpt-4o'')] []"
    by (simp add: usable_body_def body_messages_def cache_env_def cache_codec_parse_def obj_get_def)
  have mb: "merged_body [JString ''hello''] [(''model'', JString ''gpt-4o'')] [] =
      JObject [(''model'', JString ''gpt-4o''), (''messages'', JArray [JString ''hello''])]"
    by (simp add: merged_body_def)
  have "\<not> text_has_variables ''hello''" by (simp add: text_has_variables_def is_match_def match_eval)
  then have ap: "apply_prompt_inputs_to_body (json_to_string cache_env) (merged_body [JString ''hello''] [(''model'', JString ''gpt-4o'')] [])
      = Inr (JObject [(''model'', JString ''gpt-4o''), (''messages'', JArray [JString ''hello''])])"
    by (simp add: mb apply_prompt_inputs_to_body_def template_keys_def obj_get_def List.map_filter_def Let_def)
  have tv: "to_vec cache_env (JObject [(''model'', JString ''gpt-4o''), (''messages'', JArray [JString ''hello''])]) = Some ''merged''"
    by (simp add: cache_env_def)
  have applied: "template_applied cache_env [JString ''hello''] ''body'' ''merged''"
    unfolding template_applied_def using ub ap tv by auto
  have ver: "current_version_for_request_log_from_cache_root (JObject [(''template'', JObject ?t)]) = Some ''3''" by code_simp
  note exact = prompt_cache_exact [where hs = ?hs and env = cache_env and redis = ?redis and ws = "''w''" and b = "''body''" and m = no_metrics,
      unfolded pid]
  have "length ''p'' \<le> 256" by simp
  with exact cached have "fst (merge_prompt_cache_messages_into_body cache_env ?redis ?hs ''w'' ''body'' no_metrics) = Inr (''merged'', hl)
      \<longleftrightarrow> template_applied cache_env [JString ''hello''] ''body'' ''merged''
        \<and> hl = Some \<lparr>ph_prompt_id = ''p'', ph_prompt_version = current_version_for_request_log_from_cache_root (JObject [(''template'', JObject ?t)])\<rparr>"
    for hl by simp
  with applied ver show ?thesis by simp
qed

end
