(* ===== verification/Spec2Isabelle.thy ===== *)
theory Spec2Isabelle
  imports Gateway_Prelude In_Flight_Limit Client_Ip_Limit Workspace_Concurrency Providers Model_Id
    Endpoints Float64 Discovery Retry Fallback_Policy Rolling_Counter Health_Monitor Rate_Limit_Monitor Json
    Chat_Normalize Mapper_Profiles Kv_Cache Unicode_Text Float32 Large_Context
    Model_Catalog Default_Model Gateway_Errors Request_Routing
    Key_Cache Authentication Unified_Api Security_Plugins Prompt_Templates Content_Filter
begin

text \<open>
  A verification library for the Alephant AI gateway, a Rust service that accepts OpenAI-style requests,
  chooses an upstream provider for each, adapts the request to it, sends it and repairs the answer. Paths below
  are under \<open>src/ai-gateway/src\<close> unless they begin with \<open>crates\<close>.

  \<^bold>\<open>The parts and how they interact.\<close> A request first passes the admission layers: the cap on requests in flight
  over the whole gateway, the rate limit per client address, the security plugins and the count of requests per workspace.
  Its path is read and checked, its virtual key authenticated against the keys in memory, which a poll of the database keeps up to
  date, and the unified API completes a missing model, enforces the policy of the key and calls the proxy of a provider. The
  routing layer reads the model name and the endpoint of the request and asks a balancer for an upstream service.
  The services of a balancer come from a discovery built from the router's configuration; two background tasks
  change the set while the gateway runs, the health monitor (error ratios over rolling counters) and the rate-limit
  monitor (an event for every 429 the dispatcher sees). Both judge by the fallback policy. Before a request is
  sent, prompts from a cache are merged into it and a policy service may deny or rewrite it. The dispatcher adapts
  the request by the profile of the provider, sends it, retries it, counts its outcome and reports a 429; the answer
  is repaired and may be kept in the response cache.

  \<^bold>\<open>Theories, in the order of their imports.\<close>

  \<^item> \<^bold>\<open>Gateway_Prelude\<close>: machine integers, results, durations, text functions and header maps that the components
    share, with the collections \<open>gw_defs\<close> and \<open>gw_inv\<close>.
  \<^item> \<^bold>\<open>In_Flight_Limit\<close>: \<open>middleware/gateway_in_flight_limit\<close>, \<open>middleware/counted_body.rs\<close>. The layer is the step
    relation \<open>in_flight_step\<close> over a system of concurrent requests. The locale \<open>slot_counter\<close> states what a
    counter promises (below its cap, acquire succeeds exactly if there is room, release gives back); it is
    interpreted on the atomic counter (\<open>mem_slots\<close>) and on the Lua scripts over Redis (\<open>redis_slots\<close>). Shown: the
    counter is exact in every reachable state, admission is decided exactly, a body releases once, a dropped
    handler loses its slot for ever where an answered one does not, and the Redis counter stays within the cap at every
    instant and keeps its account while less than its time to live passes between two scripts.
  \<^item> \<^bold>\<open>Client_Ip_Limit\<close>: \<open>middleware/client_ip_rate_limit\<close>. The locale \<open>window_limiter\<close> proves the bound on
    admissions in any window from the laws of one bucket, and its extension \<open>window_skew\<close> a bound for calls that are
    handled out of the order of their instants; they are interpreted on the Redis script and on the in-process bucket, which
    reads the clock before its lock. Shown besides: whose address counts behind trusted proxies.
  \<^item> \<^bold>\<open>Workspace_Concurrency\<close>: \<open>middleware/workspace_concurrency\<close> and \<open>app_redis.rs\<close>, with the effect of a whole request
    under every combination of Redis failures.
  \<^item> \<^bold>\<open>Providers\<close>, \<^bold>\<open>Model_Id\<close>, \<^bold>\<open>Endpoints\<close>: \<open>types/provider.rs\<close>, \<open>types/model_id.rs\<close>, \<open>endpoints\<close>. Parsers and printers with
    their round trips, the comparison of ids without versions, and the mapping of endpoints between vendors,
    whose conversions may panic and are shown not to.
  \<^item> \<^bold>\<open>Float64\<close>: the arithmetic of \<open>f64\<close> that the balancer and the counters use.
  \<^item> \<^bold>\<open>Discovery\<close>: \<open>config/balance.rs\<close>, \<open>discover/provider\<close>, \<open>discover/model\<close>, \<open>discover/dispatcher\<close> and
    \<open>crates/weighted-balance\<close>. The set of services of the balancer is refined to the last change per key; the locale
    \<open>pool_ledger\<close> is the contract of a task that takes keys out and puts them back.
  \<^item> \<^bold>\<open>Retry\<close>: \<open>utils/retry.rs\<close>, a hand-written future, polled until it completes.
  \<^item> \<^bold>\<open>Fallback_Policy\<close>: \<open>config/fallback_policy.rs\<close>, \<open>config/fallback_bridge.rs\<close>, \<open>fallback\<close>.
  \<^item> \<^bold>\<open>Rolling_Counter\<close>: \<open>metrics/rolling_counter.rs\<close>, one call at a time and as interleaved atomic accesses
    (\<open>incr_step\<close>), with the registry of \<open>discover/monitor/metrics.rs\<close>.
  \<^item> \<^bold>\<open>Health_Monitor\<close>, \<^bold>\<open>Rate_Limit_Monitor\<close>: \<open>discover/monitor/health\<close>, \<open>discover/monitor/rate_limit\<close> and the part of
    \<open>dispatcher/service.rs\<close> that feeds them. Both interpret \<open>pool_ledger\<close>: the marks of a monitor and the changes it
    has sent always agree. The rate-limit task is the step relation \<open>rl_step\<close>; besides the invariant it is shown
    that every key that was taken out can be restored.
  \<^item> \<^bold>\<open>Json\<close>, \<^bold>\<open>Chat_Normalize\<close>: JSON values, and \<open>middleware/mapper/chat_completion_role_normalize.rs\<close>.
  \<^item> \<^bold>\<open>Mapper_Profiles\<close>: the profiles of \<open>config/mapper_profiles.rs\<close> with the embedded catalogue, their resolution and
    their application to a request (\<open>middleware/mapper\<close>).
  \<^item> \<^bold>\<open>Kv_Cache\<close>: \<open>crates/alephant-llm-kv-cache\<close>. The locale \<open>kv_store\<close> is the contract of a store of slots, interpreted
    on the Cloudflare backend.
  \<^item> \<^bold>\<open>Unicode_Text\<close>, \<^bold>\<open>Float32\<close>, \<^bold>\<open>Large_Context\<close>: UTF-8 with its round trip, the arithmetic of \<open>f32\<close>, and
    \<open>middleware/large_context\<close>, which estimates the tokens of a chat and cuts its messages to a budget. Shown: a message that
    was cut is within its share of the budget, and everything else of the body is left as it was.
  \<^item> \<^bold>\<open>Model_Catalog\<close>: \<open>discover/router/provider_db_config.rs\<close>, \<open>discover/router/bare_model_expand_index.rs\<close> and
    \<open>middleware/model_support\<close>. The registry is refined to the rows it is built from, and the check of a request's
    models against it is characterised.
  \<^item> \<^bold>\<open>Default_Model\<close>: \<open>virtual_key\<close> and \<open>default_model\<close>, the access policy of a key and the choice of a model for a
    request that names none.
  \<^item> \<^bold>\<open>Gateway_Errors\<close>, \<^bold>\<open>Request_Routing\<close>: \<open>error\<close> with the status of every error, and \<open>router_details\<close>, \<open>routing_precheck\<close> and
    \<open>router/meta.rs\<close>. The reading of a path is refined to an inductive description of the routes, the outcome of the precheck is
    characterised.
  \<^item> \<^bold>\<open>Key_Cache\<close>, \<^bold>\<open>Authentication\<close>: the virtual and master keys in memory (\<open>app_state.rs\<close>, \<open>store/master_key_cache.rs\<close>), the
    poll of \<open>store/db_listener.rs\<close> and \<open>middleware/auth.rs\<close>. Shown: a poll leaves memory equal to the table it has
    read, a change between its query and its end is lost, and exactly which requests are authorised, with which context.
  \<^item> \<^bold>\<open>Unified_Api\<close>: \<open>router/unified_api.rs\<close> and \<open>router/target_provider_resolve.rs\<close>, a hand-written future over five states. It is
    refined to a sequential reading, \<open>ua_forward\<close>, on which the policy is shown to be enforced.
  \<^item> \<^bold>\<open>Security_Plugins\<close>: \<open>plugin\<close>, \<open>config/security_plugin.rs\<close> and \<open>middleware/security.rs\<close>. A plugin is a record of its methods; the
    locale \<open>masking_plugin\<close> is the contract by which plugins keep what others have masked. It is interpreted on the
    plugins without JSON (\<open>noop\<close>, \<open>classifier\<close>) and holds of the detector under the laws of the JSON library.
  \<^item> \<^bold>\<open>Prompt_Templates\<close>: \<open>middleware/prompts\<close>. The variables of a text are found by hand-written matchers for the two regular
    expressions; shown are when the inputs are applied, with what frame and which errors, and that in any template the plain
    variables inside the value of a typed one are replaced too.
  \<^item> \<^bold>\<open>Content_Filter\<close>: \<open>content_filter\<close>, \<open>logger/model_info.rs\<close> and the steps of the mapper and the dispatcher that run it: the prompt
    cache, the question to the policy service and the body that is forwarded. Shown: what the cache does to a body, with every outcome, and that
    nothing of a virtual key passes an enabled filter without an answer that allows it or a configuration that does.

  This theory has the properties that span components: for the weighted strategy, a 429 followed from the dispatcher through
  the monitor and the discovery to the balancer and back, what happens when both monitors act on one provider, and what the catalogue check does to a
  request that names a fallback model.

  \<^bold>\<open>Conventions.\<close> \<open>Result\<close> is a sum with \<open>Inl\<close> the error; a panic is \<open>None\<close>. A struct is a record, an enum a datatype with
  the constructors of the source, a \<open>u32\<close> or \<open>u64\<close> a word where its wrap-around can be seen. A duration is its
  number of nanoseconds, bounded by \<open>duration_max\<close>. Text is ASCII,
  except for the messages of a chat. Clocks, the reachability of Redis and the scripts of
  futures are inputs. A hash map is an association list with distinct keys in an order that is not specified, or a
  map where only lookups matter. Code outside the repository (Redis, decimals, calendars, hash functions, HTTP
  exchanges, parsers of vendor types) is an argument of the definitions that call it, or follows its documented meaning.

  \<^bold>\<open>Bounds and fuel.\<close> The poll loop of a retrying future (\<open>retry_await\<close>) runs on fuel; \<open>retry_completes\<close> gives the
  fuel that is enough, so that the future is shown to complete. So does that of the unified API (\<open>ua_await\<close>,
  \<open>unified_future_completes\<close>); a single poll of it is a total function, by a rank of its states. All other loops are total functions: the loops over slots
  and attempts of the cache by the slots and attempts that are left, the balancer's drain by the changes in the
  stream, the ticks of a monitor by the list of their environments. The in-flight, counter and rate-limit systems
  are relations over unboundedly many requests, threads and events. Nothing else is bounded.

  \<^bold>\<open>Not modelled.\<close> The SQL, object-store and notification code of \<open>store\<close>, telemetry and the export of logs: effects of
  external services with no logic of the gateway. The converters of \<open>middleware/mapper\<close> between types of vendor libraries,
  and the sending and streaming of requests in \<open>dispatcher\<close>, except for the parts named above. Loading of the configuration
  (derived deserialisers). The semantic cache and the compression of prompts. The routers over the external \<open>tower\<close> ready cache. The cryptography of keys.
\<close>

section \<open>Components together\<close>

text \<open>A key that is marked stays marked, silently, as long as its provider is unhealthy.\<close>

lemma unhealthy_ticks_silent:
  assumes "key \<in> unhealthy_keys m" and "\<forall>env \<in> set envs. check_health (params env) (totals env) p = Inr False"
  shows "\<exists>m'. run_ticks (\<lambda>env. check_provider_key env key p) envs m = (Inr (), m') \<and> sent m' = sent m
    \<and> key \<in> unhealthy_keys m'"
  using assms
proof (induction envs arbitrary: m)
  case (Cons env envs)
  then have "check_provider_key env key p m = (Inr (), record_health p False m)"
    by (simp add: check_provider_key_def)
  with Cons.IH [of "record_health p False m"] Cons.prems show ?case by simp
qed simp

text \<open>
  C11. The rate-limit monitor overrides the health monitor. Both send their changes to the same balancer. When
  the restore of a key is due, the rate-limit monitor inserts it even if the health monitor has marked it;
  and because it is marked, no later tick that finds the provider unhealthy removes it again: the
  unhealthy provider stays in the pool.
\<close>

theorem restore_overrides_health:
  assumes "r_key r \<in> unhealthy_keys m" and "\<forall>env \<in> set envs. check_health (params env) (totals env) p = Inr False"
    and "outcome s = None" and "change_tx_open s" and "pending_restores s = r # rs" and "r_deadline r \<le> clock s"
    and "rl_dispatcher renv (api_endpoint_provider (r_endpoint r)) None = Inr service"
  shows "\<exists>s' m'. rl_step renv s s' \<and> changes s' = changes s @ [Insert (r_key r) service]
    \<and> run_ticks (\<lambda>env. check_provider_key env (r_key r) p) envs m = (Inr (), m')
    \<and> r_key r \<in> unhealthy_keys m'
    \<and> last_change (r_key r) (so_far @ drop (length (changes s)) (changes s') @ drop (length (sent m)) (sent m')) b"
proof -
  from unhealthy_ticks_silent [OF assms(1,2)] obtain m' where
    m': "run_ticks (\<lambda>env. check_provider_key env (r_key r) p) envs m = (Inr (), m')" "sent m' = sent m" "r_key r \<in> unhealthy_keys m'"
    by blast
  let ?s' = "on_restore renv r (s\<lparr>pending_restores := [] @ rs\<rparr>)"
  have st: "rl_step renv s ?s'" using assms by (intro rl_step.restore) simp_all
  have c: "changes ?s' = changes s @ [Insert (r_key r) service]"
    using on_restore_ok [of "s\<lparr>pending_restores := [] @ rs\<rparr>" renv r service] assms(4,7) by (simp add: rl_decide_def)
  have "last_change (r_key r) (so_far @ drop (length (changes s)) (changes ?s') @ drop (length (sent m)) (sent m')) b"
    unfolding c m'(2) using last_change_snoc [of "r_key r" so_far "Insert (r_key r) service" b] by simp
  with st c m' show ?thesis by blast
qed

theorem restore_overrides_health_witness:
  "\<exists>s' m'. rl_step latency_env (ollama_limited\<lparr>clock := 60 * nanos_per_sec\<rparr>) s'
     \<and> run_ticks (\<lambda>env. check_provider_key env ollama_key Ollama) [failing_env]
         ((monitor_new None)\<lparr>unhealthy_keys := {ollama_key}\<rparr>) = (Inr (), m')
     \<and> changes s' = [Remove ollama_key, Insert ollama_key 7]"
proof -
  let ?r = "\<lparr>r_key = ollama_key, r_endpoint = ollama_chat, r_deadline = 60 * nanos_per_sec\<rparr>"
  let ?s = "ollama_limited\<lparr>clock := 60 * nanos_per_sec\<rparr>"
  let ?m = "(monitor_new None)\<lparr>unhealthy_keys := {ollama_key}\<rparr> :: (ProviderEndpointKey, nat) monitor"
  have p: "r_key ?r \<in> unhealthy_keys ?m" "\<forall>env \<in> set [failing_env]. check_health (params env) (totals env) Ollama = Inr False"
    "outcome ?s = None" "change_tx_open ?s" "pending_restores ?s = ?r # []" "r_deadline ?r \<le> clock ?s"
    "rl_dispatcher latency_env (api_endpoint_provider (r_endpoint ?r)) None = Inr 7"
    using failing_env_verdict by (simp_all add: ollama_limited_fields latency_env_def)
  from restore_overrides_health [OF p, of "[]" False]
  show ?thesis by (auto simp: ollama_limited_fields)
qed

text \<open>The pool of the balancer after it has drained a discovery, for any cache that keeps the two laws.\<close>

lemma drained_pool:
  assumes "\<And>k k' s c. mem k (push k' s c) \<longleftrightarrow> k' = k \<or> mem k c"
    and "\<And>k k' c. mem k (evict k' c) \<longleftrightarrow> k' \<noteq> k \<and> mem k c"
  shows "mem k (snd (snd (update_pending_from_discover push evict wt d c))) \<longleftrightarrow>
    last_change k (dd_events d) (k \<in> fst ` set (dd_initial d) \<or> mem k c)"
proof -
  have i: "last_change k (map (\<lambda>(k, s). Insert k s) xs) b \<longleftrightarrow> k \<in> fst ` set xs \<or> b" for xs b
    by (induction xs arbitrary: b) (auto simp: last_change_def)
  have "last_change k (stream_changes d) b \<longleftrightarrow> last_change k (dd_events d) (k \<in> fst ` set (dd_initial d) \<or> b)" for b
    using i [of "dd_initial d" b] by (simp add: stream_changes_def last_change_def)
  then show ?thesis unfolding update_pending_fold by (simp add: fold_last_change [of mem, OF assms])
qed

text \<open>
  The key that the weighted monitor makes of an event is one the discovery of the same configuration has
  inserted, with a dispatcher that can be built again.
\<close>

lemma weighted_key_discovered:
  fixes mk :: "('d, 'e, 'svc) make_dispatcher"
  assumes "discover_weighted_providers D mk cfg [] = Inr services"
    and "map_of cfg (api_endpoint_type e) = Some (ProviderWeighted ps)"
    and "api_endpoint_provider e \<in> wp_provider ` set ps"
  shows "\<exists>key service. weighted_key_for_event D cfg (rate_limit_event_new e r) = (Inr key :: ('e rl_error, _) result)
    \<and> key \<in> fst ` set services
    \<and> pwk_provider key = api_endpoint_provider e \<and> pwk_endpoint_type key = api_endpoint_type e
    \<and> mk (api_endpoint_provider e) None = Inr service"
proof -
  have some: "find (\<lambda>t. wp_provider t = api_endpoint_provider e) ps \<noteq> None"
    using assms(3) by (auto simp: find_None_iff)
  then obtain t where t: "find (\<lambda>t. wp_provider t = api_endpoint_provider e) ps = Some t" by blast
  then have tp: "t \<in> set ps" "wp_provider t = api_endpoint_provider e" by (auto simp: find_Some_iff)
  have "(api_endpoint_type e, t) \<in> set (provider_targets cfg)"
    using map_of_SomeD [OF assms(2)] tp(1) by (force simp: provider_targets_def)
  with insert_all_ok(4) [OF discover_weighted_providers_all [OF assms(1)]] obtain key service
    where "weighted_provider_step D mk (api_endpoint_type e, t) = Inr (key, service)"
    by (auto elim: step_okE)
  then obtain w where w: "dec_to_f64 D (wp_weight t) = Some w" "mk (wp_provider t) None = Inr service"
    and key: "key = \<lparr>pwk_provider = wp_provider t, pwk_endpoint_type = api_endpoint_type e, pwk_weight = weight_from_f64 w\<rparr>"
    by (auto simp: weighted_provider_step_ok)
  have "key \<in> fst ` set services"
    unfolding weighted_provider_discovery(2) [OF assms(1)]
    using key w(1) \<open>(api_endpoint_type e, t) \<in> set (provider_targets cfg)\<close> by blast
  moreover have "weighted_key_for_event D cfg (rate_limit_event_new e r) = (Inr key :: ('e rl_error, _) result)"
    using assms(2) t w(1) key tp(2) by (simp add: weighted_key_for_event_def rate_limit_event_new_def)
  ultimately show ?thesis using key tp(2) w(2) by auto
qed

text \<open>One removal and its restore, for any monitor that finds the key of the event.\<close>

lemma removal_and_restore:
  assumes "is_rate_limit_failover_enabled env" and "create_key env ev = Inr key"
    and "restore_after (rl_policy env) (retry_after_seconds ev) = Some d"
    and "rl_dispatcher env (api_endpoint_provider (ev_api_endpoint ev)) None = Inr service"
  shows "\<exists>s1 s2. rl_step env (rl_task_new t\<lparr>inbox := [ev]\<rparr>) s1 \<and> rl_reach env s1 s2
    \<and> changes s1 = [Remove key] \<and> changes s2 = [Remove key, Insert key service] \<and> clock s2 = t + d"
proof -
  let ?r = "\<lparr>r_key = key, r_endpoint = ev_api_endpoint ev, r_deadline = t + d\<rparr>"
  define s1 where "s1 = on_rate_limit env ev (rl_task_new t)"
  have st1: "rl_step env (rl_task_new t\<lparr>inbox := [ev]\<rparr>) s1"
    using rl_step.recv [of "rl_task_new t\<lparr>inbox := [ev]\<rparr>" ev "[]" env] by (simp add: rl_task_new_def s1_def)
  have s1: "outcome s1 = None" "change_tx_open s1" "changes s1 = [Remove key]" "clock s1 = t" "pending_restores s1 = [?r]"
    using assms(1-3) by (simp_all add: s1_def on_rate_limit_def rl_decide_def Let_def rl_task_new_def)
  define s2 where "s2 = on_restore env ?r (s1\<lparr>clock := t + d, pending_restores := []\<rparr>)"
  have st2: "rl_step env s1 (s1\<lparr>clock := clock s1 + d\<rparr>)" by (rule rl_step.elapse)
  have st3: "rl_step env (s1\<lparr>clock := clock s1 + d\<rparr>) s2"
    using rl_step.restore [of "s1\<lparr>clock := clock s1 + d\<rparr>" "[]" ?r "[]" env] s1 by (simp add: s2_def)
  have s2: "changes s2 = [Remove key, Insert key service]" "clock s2 = t + d"
    using on_restore_ok [of "s1\<lparr>clock := t + d, pending_restores := []\<rparr>" env ?r service] s1 assms(4)
    by (simp_all add: s2_def rl_decide_def)
  have "rl_reach env s1 s2" using st2 st3 by (meson converse_rtranclp_into_rtranclp r_into_rtranclp)
  with st1 s1(3) s2 show ?thesis by blast
qed

text \<open>
  C4. A 429 from end to end, for the weighted provider strategy. The discovery of the configuration has filled
  the weighted balancer. The dispatcher turns the answer into an event; the weighted monitor's next step takes
  out the key of that provider and endpoint type; the balancer, draining its discovery, has every discovered
  service but that one. After the wait that the policy computes, the monitor's restore puts the key back, and the
  balancer has exactly the discovered services again.
\<close>

theorem rate_limit_end_to_end:
  fixes mk :: "('d, 'e, 'svc) make_dispatcher"
  assumes cache: "\<And>k k' s c. mem k (push k' s c) \<longleftrightarrow> k' = k \<or> mem k c"
      "\<And>k k' c. mem k (evict k' c) \<longleftrightarrow> k' \<noteq> k \<and> mem k c" "\<And>k. \<not> mem k empty_cache"
    and "discover_weighted_providers D mk cfg [] = Inr services"
    and "map_of cfg (api_endpoint_type e) = Some (ProviderWeighted ps)"
    and "api_endpoint_provider e \<in> wp_provider ` set ps"
    and "rate_limit_tx x = Some []"
    and "handle_error_and_rate_limiting metrics parse_http_date wall 429 hs (Some e) x = Inr x'"
    and "rate_limit_tx x' = Some q"
    and "should_remove pol RateLimit"
    and "restore_after pol (extract_retry_after parse_http_date wall hs) = Some d"
    and "pool = (\<lambda>s k. mem k (snd (snd (update_pending_from_discover push evict pwk_weight
          \<lparr>dd_initial = services, dd_events = changes s, dd_closed = False\<rparr> empty_cache))))"
  shows "\<exists>key s1 s2. key \<in> fst ` set services
    \<and> pwk_provider key = api_endpoint_provider e \<and> pwk_endpoint_type key = api_endpoint_type e
    \<and> weighted_monitor D cfg pol mk (rl_task_new t\<lparr>inbox := q\<rparr>) s1
    \<and> (weighted_monitor D cfg pol mk)\<^sup>*\<^sup>* s1 s2 \<and> clock s2 = t + d
    \<and> (\<forall>k. pool s1 k \<longleftrightarrow> k \<in> fst ` set services \<and> k \<noteq> key)
    \<and> (\<forall>k. pool s2 k \<longleftrightarrow> k \<in> fst ` set services)"
proof -
  let ?env = "\<lparr>rl_policy = pol, create_key = weighted_key_for_event D cfg, rl_dispatcher = mk\<rparr>"
  let ?ev = "rate_limit_event_new e (extract_retry_after parse_http_date wall hs)"
  have q: "q = [?ev]" using assms(7-9) by (auto simp: handle_error_and_rate_limiting_def is_server_error_def)
  have on: "is_rate_limit_failover_enabled ?env" using assms(10) by (simp add: is_rate_limit_failover_enabled_def)
  obtain key service where key: "weighted_key_for_event D cfg ?ev = (Inr key :: ('e rl_error, _) result)"
    "key \<in> fst ` set services"
    "pwk_provider key = api_endpoint_provider e" "pwk_endpoint_type key = api_endpoint_type e"
    and mk: "mk (api_endpoint_provider e) None = Inr service"
    using weighted_key_discovered [OF assms(4-6)] by blast
  have ra: "restore_after (rl_policy ?env) (retry_after_seconds ?ev) = Some d"
    using assms(11) by (simp add: rate_limit_event_new_def)
  have ck: "create_key ?env ?ev = Inr key" using key(1) by simp
  have dn: "rl_dispatcher ?env (api_endpoint_provider (ev_api_endpoint ?ev)) None = Inr service"
    using mk by (simp add: rate_limit_event_new_def)
  from removal_and_restore [OF on ck ra dn, of t] obtain s1 s2 where
    s: "rl_step ?env (rl_task_new t\<lparr>inbox := q\<rparr>) s1" "rl_reach ?env s1 s2" "clock s2 = t + d"
    and c: "changes s1 = [Remove key]" "changes s2 = [Remove key, Insert key service]" unfolding q by blast
  have p1: "pool s1 k \<longleftrightarrow> k \<in> fst ` set services \<and> k \<noteq> key" for k
    unfolding assms(12) drained_pool [of mem, OF cache(1,2)] using cache(3) by (auto simp: c last_change_def)
  have p2: "pool s2 k \<longleftrightarrow> k \<in> fst ` set services" for k
    unfolding assms(12) drained_pool [of mem, OF cache(1,2)] using cache(3) key(2) by (auto simp: c last_change_def)
  from s p1 p2 key(2-4) show ?thesis unfolding weighted_monitor_def by blast
qed

text \<open>Two weighted providers; the one that answers 429 leaves the balancer.\<close>

definition two_weighted :: "(nat, nat) BalanceConfig" where
  "two_weighted = [(Chat, ProviderWeighted [\<lparr>wp_provider = Ollama, wp_weight = 1\<rparr>, \<lparr>wp_provider = OpenAI, wp_weight = 3\<rparr>])]"

theorem rate_limit_end_to_end_witness:
  "\<exists>s1 :: (ProviderWeightedKey, nat, unit, nat) rl_task.
     weighted_monitor unit_decimal two_weighted default_fallback_policy (\<lambda>_ _. Inr 7)
        (rl_task_new 0\<lparr>inbox := [rate_limit_event_new ollama_chat None]\<rparr>) s1
     \<and> snd (snd (update_pending_from_discover (\<lambda>k _. insert k) (\<lambda>k c. c - {k}) pwk_weight
          \<lparr>dd_initial = [(\<lparr>pwk_provider = OpenAI, pwk_endpoint_type = Chat, pwk_weight = 30000\<rparr>, 7),
             (\<lparr>pwk_provider = Ollama, pwk_endpoint_type = Chat, pwk_weight = 10000\<rparr>, 7)],
           dd_events = changes s1, dd_closed = False\<rparr> {}))
        = {\<lparr>pwk_provider = OpenAI, pwk_endpoint_type = Chat, pwk_weight = 30000\<rparr>}"
proof -
  let ?mk = "(\<lambda>_ _. Inr 7) :: (nat, unit, nat) make_dispatcher"
  let ?x = "\<lparr>metric_increments = [], rate_limit_tx = Some ([] :: nat RateLimitEvent list)\<rparr>"
  let ?q = "[rate_limit_event_new ollama_chat None] :: nat RateLimitEvent list"
  let ?services = "[(\<lparr>pwk_provider = OpenAI, pwk_endpoint_type = Chat, pwk_weight = 30000\<rparr>, 7 :: nat),
     (\<lparr>pwk_provider = Ollama, pwk_endpoint_type = Chat, pwk_weight = 10000\<rparr>, 7)]"
  let ?pool = "\<lambda>(s :: (ProviderWeightedKey, nat, unit, nat) rl_task) k. k \<in> snd (snd (update_pending_from_discover
     (\<lambda>k _. insert k) (\<lambda>k c. c - {k}) pwk_weight
     \<lparr>dd_initial = ?services, dd_events = changes s, dd_closed = False\<rparr> {}))"
  have w: "weight_from_f64 (Fin 1) = 10000" "weight_from_f64 (Fin 3) = 30000"
    using weight_from_f64_nat [of 1] weight_from_f64_nat [of 3] by (simp_all add: weight_UNIT_def)
  have ds: "discover_weighted_providers unit_decimal ?mk two_weighted [] = Inr ?services"
    by (simp add: two_weighted_def unit_decimal_def dispatcher_new_def hm_insert_def w)
  have h: "handle_error_and_rate_limiting (\<lambda>_. Inr ()) (\<lambda>_. None) 0 429 [] (Some ollama_chat) ?x
    = Inr \<lparr>metric_increments = [], rate_limit_tx = Some ?q\<rparr>"
    by (simp add: handle_error_and_rate_limiting_def is_server_error_def extract_retry_after_def header_str_def header_get_def)
  have r: "restore_after default_fallback_policy (extract_retry_after (\<lambda>_. None) 0 []) = Some (60 * nanos_per_sec)"
    by (simp add: extract_retry_after_def header_str_def header_get_def restore_after_def duration_add_def
        default_fallback_policy_def default_rate_limit_policy_def from_secs_def duration_max_def nanos_per_sec_def)
  have p: "should_remove default_fallback_policy RateLimit"
    by (simp add: should_remove_def default_fallback_policy_def default_rate_limit_policy_def)
  have ep: "api_endpoint_type ollama_chat = Chat" "api_endpoint_provider ollama_chat = Ollama"
    by (simp_all add: api_endpoint_provider_def api_endpoint_type_def ollama_endpoint_type_def)
  have m: "map_of two_weighted (api_endpoint_type ollama_chat) =
      Some (ProviderWeighted [\<lparr>wp_provider = Ollama, wp_weight = 1\<rparr>, \<lparr>wp_provider = OpenAI, wp_weight = 3\<rparr>])"
    by (simp add: two_weighted_def ep)
  have "\<exists>key s1 s2. key \<in> fst ` set ?services
    \<and> pwk_provider key = api_endpoint_provider ollama_chat \<and> pwk_endpoint_type key = api_endpoint_type ollama_chat
    \<and> weighted_monitor unit_decimal two_weighted default_fallback_policy ?mk (rl_task_new 0\<lparr>inbox := ?q\<rparr>) s1
    \<and> (weighted_monitor unit_decimal two_weighted default_fallback_policy ?mk)\<^sup>*\<^sup>* s1 s2
    \<and> clock s2 = 0 + 60 * nanos_per_sec
    \<and> (\<forall>k. ?pool s1 k \<longleftrightarrow> k \<in> fst ` set ?services \<and> k \<noteq> key)
    \<and> (\<forall>k. ?pool s2 k \<longleftrightarrow> k \<in> fst ` set ?services)"
    by (rule rate_limit_end_to_end [where mem = "\<lambda>k c. k \<in> c" and empty_cache = "{}", OF _ _ _ ds m _ _ h _ p r refl])
      (auto simp: ep)
  then obtain key s1 where key: "key \<in> fst ` set ?services" "pwk_provider key = Ollama"
    and s1: "weighted_monitor unit_decimal two_weighted default_fallback_policy ?mk (rl_task_new 0\<lparr>inbox := ?q\<rparr>) s1"
    and pool: "\<forall>k. ?pool s1 k \<longleftrightarrow> k \<in> fst ` set ?services \<and> k \<noteq> key" unfolding ep by blast
  from key have "key = \<lparr>pwk_provider = Ollama, pwk_endpoint_type = Chat, pwk_weight = 10000\<rparr>" by auto
  with pool have "{k. ?pool s1 k} = {\<lparr>pwk_provider = OpenAI, pwk_endpoint_type = Chat, pwk_weight = 30000\<rparr>}" by auto
  with s1 show ?thesis by (intro exI [of _ s1]) simp
qed

subsection \<open>Catalogue and large contexts\<close>

text \<open>One text has one candidate.\<close>

lemma single_model_payload:
  assumes "obj_get ''messages'' kvs = Some (JArray arr)" and "str_trim m = m" and "m \<noteq> []"
  shows "\<exists>p. payload_of_json (JObject (obj_insert ''model'' (JString m) kvs)) = Some p \<and> pl_model p = Some m"
  using assms by (simp add: payload_of_json_def trimmed_string_def)

text \<open>
  C24. The catalogue check loses the fallback list of bare names. A request for the fallback handler lists two models by
  their bare names. The check completes each name in turn and writes it into the body, so that the body that goes on
  names the second model only; the fallback handler then finds no second candidate. The request is sent to
  the fallback model whatever its size, and the first model is never used. The law on JSON holds of the library up to the
  last digit of fractional numbers.
\<close>

theorem bare_fallback_list_lost:
  assumes law: "\<And>v b. to_vec env v = Some b \<Longrightarrow> from_slice env b = Some v"
    and hs: "parse_large_context_headers hs = Inr \<lparr>lc_handler = Some Fallback, lc_model_override = mo\<rparr>"
    and body: "from_slice env req = Some (JObject kvs)" "obj_get ''model'' kvs = Some (JString m)"
      "obj_get ''messages'' kvs = Some (JArray arr)"
    and cands: "extract_fallback_model_candidates (str_trim m) = [a, b]" "CHR ''/'' \<notin> set a" "CHR ''/'' \<notin> set b"
    and res: "resolve_bare_model cat a = Inr fa" "resolve_bare_model cat b = Inr fb"
    and sup: "check_supported cat fa = Inr ()" "check_supported cat fb = Inr ()"
    and out: "to_vec env (JObject (obj_insert ''model'' (JString fa) kvs)) = Some out1"
      "to_vec env (JObject (obj_insert ''model'' (JString fb) kvs)) = Some out2"
    and single: "extract_fallback_model_candidates fb = [fb]" "str_trim fb = fb" "fb \<noteq> []"
  shows "model_support_call (from_slice env) (to_vec env) cat True (Some RkUnifiedApi) hs req (Some req) = Inr out2
    \<and> (\<exists>d. maybe_transform_unified_api_chat_request env hs out2 = Some (Inr (out2, Some d))
        \<and> ld_action d = SkippedNoFallbackModel \<and> ld_effective_model d = Some fb)"
proof
  have "extract_fallback_model_candidates [] = []" by code_simp
  then have ne: "str_trim m \<noteq> []" using cands(1) by auto
  have lh: "layer_headers (Some RkUnifiedApi) hs = Inr (Some \<lparr>lc_handler = Some Fallback, lc_model_override = mo\<rparr>)"
    by (simp add: layer_headers_def hs)
  have mc: "model_candidates (from_slice env) (Some \<lparr>lc_handler = Some Fallback, lc_model_override = mo\<rparr>) req = [a, b]"
    using body ne cands(1) by (simp add: model_candidates_def model_field_from_json_body_def trimmed_string_def)
  have r1: "rewrite_model_in_body (from_slice env) (to_vec env) req fa = Some out1"
    using body out(1) by (simp add: rewrite_model_in_body_def)
  have r2: "rewrite_model_in_body (from_slice env) (to_vec env) out1 fb = Some out2"
    using law [OF out(1)] out(2) by (simp add: rewrite_model_in_body_def)
  show "model_support_call (from_slice env) (to_vec env) cat True (Some RkUnifiedApi) hs req (Some req) = Inr out2"
    unfolding model_support_call_eq [OF lh, simplified] mc using cands(2,3) res sup r1 r2 by simp
  obtain p where p: "payload_of_json (JObject (obj_insert ''model'' (JString fb) kvs)) = Some p" "pl_model p = Some fb"
    using single_model_payload [OF body(3) single(2,3)] by blast
  have parse: "parse_chat_completions_payload env out2 = Some (Some p)"
    using law [OF out(2)] p(1) by (simp add: parse_chat_completions_payload_def)
  have prim: "resolve_primary_model (Some fb) mo = Some fb" by (simp add: resolve_primary_model_def single(1))
  have fb: "fallback_arm p (Some fb) e l None = (SkippedNoFallbackModel, None)" for e l
    by (simp add: fallback_arm_def apply_fallback_def single(1))
  have "\<exists>d. transform_payload env Fallback mo p = Some (None, d) \<and> ld_action d = SkippedNoFallbackModel \<and> ld_effective_model d = Some fb"
    by (simp add: transform_payload_def p(2) prim Let_def fb)
  then obtain d where d: "transform_payload env Fallback mo p = Some (None, d)" "ld_action d = SkippedNoFallbackModel"
    "ld_effective_model d = Some fb" by blast
  then have "maybe_transform_unified_api_chat_request env hs out2 = Some (Inr (out2, Some d))"
    by (simp add: maybe_transform_unified_api_chat_request_def hs parse)
  with d show "\<exists>d. maybe_transform_unified_api_chat_request env hs out2 = Some (Inr (out2, Some d))
      \<and> ld_action d = SkippedNoFallbackModel \<and> ld_effective_model d = Some fb" by blast
qed

definition catalog_env :: "string lc_env" where
  "catalog_env = sample_env\<lparr>from_slice := small_parse, to_vec := small_print\<rparr>"

theorem bare_fallback_list_lost_witness:
  "\<exists>d. maybe_transform_unified_api_chat_request catalog_env [(''alephant-token-limit-exception-handler'', ''fallback'')] ''second''
      = Some (Inr (''second'', Some d)) \<and> ld_effective_model d = Some ''openai/gpt-4o-mini''"
proof -
  let ?hs = "[(''alephant-token-limit-exception-handler'', ''fallback'')] :: headers"
  let ?kvs = "[(''model'', JString ''gpt-4o,gpt-4o-mini''), (''messages'', JArray [])]"
  have law: "from_slice catalog_env b = Some v" if "to_vec catalog_env v = Some b" for v b
    using that small_law by (simp add: catalog_env_def)
  have hs: "parse_large_context_headers ?hs = Inr \<lparr>lc_handler = Some Fallback, lc_model_override = None\<rparr>" by code_simp
  have body: "from_slice catalog_env ''bare'' = Some (JObject ?kvs)"
    by (simp add: catalog_env_def small_parse_def model_body_def)
  have get: "obj_get ''model'' ?kvs = Some (JString ''gpt-4o,gpt-4o-mini'')" "obj_get ''messages'' ?kvs = Some (JArray [])"
    by (simp_all add: obj_get_def)
  have cands: "extract_fallback_model_candidates (str_trim ''gpt-4o,gpt-4o-mini'') = [''gpt-4o'', ''gpt-4o-mini'']" by code_simp
  have noslash: "CHR ''/'' \<notin> set ''gpt-4o''" "CHR ''/'' \<notin> set ''gpt-4o-mini''" by simp_all
  have res: "resolve_bare_model small_catalog ''gpt-4o'' = Inr ''openai/gpt-4o''"
    "resolve_bare_model small_catalog ''gpt-4o-mini'' = Inr ''openai/gpt-4o-mini''" by code_simp+
  have sup: "check_supported small_catalog ''openai/gpt-4o'' = Inr ()" "check_supported small_catalog ''openai/gpt-4o-mini'' = Inr ()"
    by code_simp+
  have out: "to_vec catalog_env (JObject (obj_insert ''model'' (JString ''openai/gpt-4o'') ?kvs)) = Some ''first''"
    "to_vec catalog_env (JObject (obj_insert ''model'' (JString ''openai/gpt-4o-mini'') ?kvs)) = Some ''second''"
    by (simp_all add: catalog_env_def small_print_def model_body_def)
  have single: "extract_fallback_model_candidates ''openai/gpt-4o-mini'' = [''openai/gpt-4o-mini'']"
    "str_trim ''openai/gpt-4o-mini'' = ''openai/gpt-4o-mini''" "''openai/gpt-4o-mini'' \<noteq> []" by code_simp+
  from bare_fallback_list_lost [of catalog_env, OF law hs body get cands noslash res sup out single] show ?thesis by blast
qed

end
